(* ===== verification/Prelude.thy ===== *)
theory Prelude
  imports Main "HOL-Library.Word" "HOL-Library.Monad_Syntax"
begin

text \<open>
  Shared vocabulary of the development: the machine word types of the sources, bit fields of
  64-bit values, the list slice a ring buffer stands for, and the interface that every
  drainable buffer of the hypervisor implements.
\<close>

unbundle bit_operations_syntax

section \<open>Machine types\<close>

type_synonym u8 = "8 word"
type_synonym u16 = "16 word"
type_synonym u32 = "32 word"
type_synonym u64 = "64 word"

named_theorems field_simps64 "values of bit fields of 64-bit words, read as natural numbers"
named_theorems ring_simps "facts on the slice of a ring buffer"

section \<open>Bit fields\<close>

text \<open>A C bit field of \<open>n\<close> bits that starts at bit \<open>lo\<close>.\<close>

definition bit_field :: "nat \<Rightarrow> nat \<Rightarrow> u64 \<Rightarrow> u64" where
  "bit_field lo n w = take_bit n (drop_bit lo w)"

lemma unat_bit_field [field_simps64]: "unat (bit_field lo n w) = unat w div 2 ^ lo mod 2 ^ n"
  by (simp only: bit_field_def unsigned_take_bit_eq unat_drop_bit_eq)
    (simp add: take_bit_eq_mod drop_bit_eq_div)

lemma bit_field_less: "unat (bit_field lo n w) < 2 ^ n"
  by (simp add: unat_bit_field)

lemma unat_push_bit [field_simps64]:
  "unat w * 2 ^ n < 2 ^ 64 \<Longrightarrow> unat (push_bit n w) = unat w * 2 ^ n" for w :: u64
  by (simp only: unsigned_push_bit_eq) (simp add: push_bit_eq_mult take_bit_nat_eq_self)

lemma unat_add_no_wrap [field_simps64]:
  "unat a + unat b < 2 ^ 64 \<Longrightarrow> unat (a + b) = unat a + unat b" for a b :: u64
  by (simp add: unat_word_ariths)

lemma unat_sub_no_wrap [field_simps64]: "b \<le> a \<Longrightarrow> unat (a - b) = unat a - unat b" for a b :: u64
  by (rule unat_sub)

lemma unat_less_64 [simp]: "unat (w :: u64) < 18446744073709551616"
  using unsigned_less [of w, where ?'a = nat] by simp

lemma unat_of_nat_64: "n < 2 ^ 64 \<Longrightarrow> unat (of_nat n :: u64) = n"
  by (simp add: unat_of_nat take_bit_nat_eq_self)

lemma unat_plus_one_below [field_simps64]:
  fixes a b :: u64
  assumes "a < b"
  shows "unat (a + 1) = unat a + 1"
proof -
  have "unat a < unat b" and "unat b \<le> 2 ^ 64 - 1"
    using assms unat_less_64 [of b] by (simp_all add: word_less_nat_alt del: unat_less_64)
  then have "unat a + unat (1 :: u64) < 2 ^ 64"
    by simp
  then show ?thesis
    using unat_add_no_wrap [of a 1] by simp
qed

lemma and_not_disjoint: "w AND m = 0 \<Longrightarrow> w AND NOT m = w" for w m :: u64
  by (auto simp: bit_eq_iff bit_simps)

text \<open>The 4 KB page of an address.\<close>

lemma page_mask: "(0xFFF :: u64) = mask 12"
  by (simp add: mask_eq_exp_minus_1)

lemma unat_and_page_mask [field_simps64]: "unat (w AND 0xFFF) = unat w mod 4096" for w :: u64
  by (simp only: page_mask take_bit_eq_mask [symmetric] unsigned_take_bit_eq) (simp add: take_bit_eq_mod)

lemma unat_page_base [field_simps64]: "unat (w AND NOT 0xFFF) = unat w div 4096 * 4096" for w :: u64
proof -
  have "w AND NOT 0xFFF = push_bit 12 (drop_bit 12 w)"
    unfolding page_mask by (rule bit_eqI) (auto simp: bit_simps)
  moreover have "unat (drop_bit 12 w) = unat w div 4096"
    by (simp only: unat_drop_bit_eq) (simp add: drop_bit_eq_div)
  moreover have "unat w div 4096 * 4096 < 2 ^ 64"
    using unat_less_64 [of w] div_times_less_eq_dividend [of "unat w" 4096]
    by (simp del: unat_less_64)
  ultimately show ?thesis
    by (simp only: unat_push_bit [of "drop_bit 12 w" 12]) (simp add: unat_push_bit)
qed

section \<open>Ring slices\<close>

text \<open>
  The \<open>k\<close> entries of a ring of \<open>n\<close> slots that follow slot \<open>start\<close>, oldest first.
\<close>

definition ring_slice :: "nat \<Rightarrow> (nat \<Rightarrow> 'a) \<Rightarrow> nat \<Rightarrow> nat \<Rightarrow> 'a list" where
  "ring_slice n slots start k = map (\<lambda>i. slots ((start + i) mod n)) [0..<k]"

lemma length_ring_slice [simp, ring_simps]: "length (ring_slice n slots start k) = k"
  by (simp add: ring_slice_def)

lemma ring_slice_0 [simp, ring_simps]: "ring_slice n slots start 0 = []"
  by (simp add: ring_slice_def)

lemma ring_slice_Suc:
  "ring_slice n slots start (Suc k) = ring_slice n slots start k @ [slots ((start + k) mod n)]"
  by (simp add: ring_slice_def)

lemma ring_slice_start_mod [ring_simps]:
  "ring_slice n slots (start mod n) k = ring_slice n slots start k"
  by (simp add: ring_slice_def mod_add_left_eq)

lemma ring_slice_Cons:
  "ring_slice n slots start (Suc k) = slots (start mod n) # ring_slice n slots (Suc start) k"
proof -
  have "[0..<Suc k] = 0 # map Suc [0..<k]"
    by (simp only: upt_conv_Cons map_Suc_upt zero_less_Suc)
  then show ?thesis
    by (simp del: upt_Suc add: ring_slice_def comp_def)
qed

lemma drop_ring_slice:
  "j \<le> k \<Longrightarrow> drop j (ring_slice n slots start k) = ring_slice n slots (start + j) (k - j)"
proof (rule nth_equalityI)
  fix i
  assume "j \<le> k" and "i < length (drop j (ring_slice n slots start k))"
  then show "drop j (ring_slice n slots start k) ! i = ring_slice n slots (start + j) (k - j) ! i"
    by (simp del: nth_map_upt add: ring_slice_def less_diff_conv ac_simps)
qed simp

lemma take_ring_slice:
  "j \<le> k \<Longrightarrow> take j (ring_slice n slots start k) = ring_slice n slots start j"
  by (simp add: ring_slice_def take_map)

text \<open>Two positions of a window of at most \<open>n\<close> slots are different slots.\<close>

lemma ring_position_inj:
  assumes "(start + i) mod n = (start + j) mod (n :: nat)" and "i < n" and "j < n"
  shows "i = j"
proof -
  have "int (start + i) mod int n = int (start + j) mod int n"
    using assms(1) by (metis zmod_int)
  then have "int n dvd int i - int j"
    by (simp add: mod_eq_dvd_iff)
  with assms(2,3) show ?thesis
    using zdvd_imp_le [of "int n" "int i - int j"] zdvd_imp_le [of "int n" "int j - int i"]
    by (cases "i = j"; cases "j < i") (auto simp: dvd_diff_commute)
qed

lemma ring_slice_write_outside [ring_simps]:
  assumes "k \<le> i" and "i < n"
  shows "ring_slice n (slots((start + i) mod n := x)) start k = ring_slice n slots start k"
proof -
  have "(start + j) mod n \<noteq> (start + i) mod n" if "j < k" for j
    using ring_position_inj [of start j n i] that assms by auto
  then show ?thesis
    by (simp add: ring_slice_def)
qed

lemma ring_slice_write_next:
  assumes "k < n"
  shows "ring_slice n (slots((start + k) mod n := x)) start (Suc k) = ring_slice n slots start k @ [x]"
  using assms by (simp add: ring_slice_Suc ring_slice_write_outside)

section \<open>Drainable buffers\<close>

text \<open>
  The contract both log buffers of the hypervisor offer to their consumers: the buffer stands
  for a list, oldest entry first, and draining at most \<open>m\<close> entries hands out a prefix and
  leaves the rest.
\<close>

locale drainable =
  fixes contents :: "'q \<Rightarrow> 'a list"
    and drain :: "'q \<Rightarrow> u64 \<Rightarrow> 'a list \<times> 'q"
    and inv :: "'q \<Rightarrow> bool"
  assumes drain_out: "inv q \<Longrightarrow> fst (drain q m) = take (unat m) (contents q)"
    and drain_rest: "inv q \<Longrightarrow> contents (snd (drain q m)) = drop (unat m) (contents q)"
    and drain_inv: "inv q \<Longrightarrow> inv (snd (drain q m))"
begin

lemma drain_partition:
  "inv q \<Longrightarrow> fst (drain q m) @ contents (snd (drain q m)) = contents q"
  by (simp add: drain_out drain_rest)

lemma drain_all:
  assumes "inv q" and "length (contents q) \<le> unat m"
  shows "fst (drain q m) = contents q \<and> contents (snd (drain q m)) = []"
  using assms by (simp add: drain_out drain_rest)

lemma drain_length: "inv q \<Longrightarrow> length (fst (drain q m)) = min (unat m) (length (contents q))"
  by (simp add: drain_out min.commute)

lemma drain_drain:
  assumes "inv q" and "unat m + unat k < 2 ^ 64"
  shows "fst (drain q m) @ fst (drain (snd (drain q m)) k) = fst (drain q (m + k))"
  using assms by (simp add: drain_out drain_rest drain_inv take_add unat_add_no_wrap)

end

end
