(* ===== verification/Trace_Ring.thy ===== *)
theory Trace_Ring
  imports Prelude
begin

text \<open>
  The per-core binary trace ring: the data of \<open>common/trace_log.hpp\<close> and the two operations of
  \<open>revhv-km/trace.h\<close>. The producer is the VM-exit handler of the owning core, the consumer the
  flush hypercall. The ring is first shown to be a bounded queue for whole calls of \<open>emit\<close> and
  \<open>drain\<close>, then for every interleaving of the single stores and loads of one producer and one
  consumer.
\<close>

section \<open>Data of a trace entry\<close>

definition max_data_fields :: nat where
  "max_data_fields = 6"

definition ring_buffer_entry_count :: u64 where
  "ring_buffer_entry_count = 8192"

definition ring_buffer_index_mask :: u64 where
  "ring_buffer_index_mask = ring_buffer_entry_count - 1"

definition max_flush_entries :: u64 where
  "max_flush_entries = 512"

text \<open>
  The enumeration has an 8-bit underlying type and its values are copied from guest memory, so
  a slot can hold a value that is no enumerator.
\<close>

datatype ept_transition_data_field =
    F_none | F_guest_rip | F_guest_rsp | F_guest_rax | F_guest_rbx | F_guest_rcx | F_guest_rdx
  | F_guest_rsi | F_guest_rdi | F_guest_rbp | F_guest_r8 | F_guest_r9 | F_guest_r10 | F_guest_r11
  | F_guest_r12 | F_guest_r13 | F_guest_r14 | F_guest_r15 | F_guest_retaddr | F_other u8

definition field_of_u8 :: "u8 \<Rightarrow> ept_transition_data_field" where
  "field_of_u8 b =
     (if unat b < 19
      then [F_none, F_guest_rip, F_guest_rsp, F_guest_rax, F_guest_rbx, F_guest_rcx, F_guest_rdx,
            F_guest_rsi, F_guest_rdi, F_guest_rbp, F_guest_r8, F_guest_r9, F_guest_r10,
            F_guest_r11, F_guest_r12, F_guest_r13, F_guest_r14, F_guest_r15,
            F_guest_retaddr] ! unat b
      else F_other b)"

record ept_transition_cfg =
  data_map :: "ept_transition_data_field list"

definition default_generic_cfg :: ept_transition_cfg where
  "default_generic_cfg =
     \<lparr>data_map = [F_guest_rip, F_guest_retaddr, F_none, F_none, F_none, F_none]\<rparr>"

definition fmt_ept_target_transition :: u16 where
  "fmt_ept_target_transition = 1"

record entry =
  e_format_id :: u16
  e_core_id :: u16
  e_pad0 :: u32
  e_timestamp :: u64
  e_data :: "u64 list"

record ring_buffer =
  write_head :: u64
  read_tail :: u64
  active :: u64
  entries :: "nat \<Rightarrow> entry"

section \<open>The operations\<close>

text \<open>The value of the time stamp counter read by \<open>emit\<close> is the argument \<open>tsc\<close>.\<close>

definition emit :: "u64 \<Rightarrow> ring_buffer \<Rightarrow> u16 \<Rightarrow> u16 \<Rightarrow> u64 list \<Rightarrow> ring_buffer" where
  "emit tsc buf fmt core ds =
     (if active buf = 0 then buf
      else let head = write_head buf;
               nxt = (head + 1) AND ring_buffer_index_mask
           in if nxt = read_tail buf then buf
              else buf\<lparr>entries := (entries buf)(unat head :=
                            \<lparr>e_format_id = fmt, e_core_id = core, e_pad0 = 0,
                             e_timestamp = tsc, e_data = ds\<rparr>),
                       write_head := nxt\<rparr>)"

function drain_loop ::
  "ring_buffer \<Rightarrow> u64 \<Rightarrow> u64 \<Rightarrow> u64 \<Rightarrow> entry list \<Rightarrow> u64 \<times> u64 \<times> entry list" where
  "drain_loop buf max_entries count tail out =
     (if count < max_entries then
        if tail = write_head buf then (count, tail, out)
        else drain_loop buf max_entries (count + 1) ((tail + 1) AND ring_buffer_index_mask)
               (out @ [entries buf (unat tail)])
      else (count, tail, out))"
  by pat_completeness auto
termination
proof (relation "measure (\<lambda>(buf, max_entries, count, tail, out). unat max_entries - unat count)")
  fix max_entries count :: u64
  assume "count < max_entries"
  then show "((buf, max_entries, count + 1, (tail + 1) AND ring_buffer_index_mask,
                out @ [entries buf (unat tail)]), buf, max_entries, count, tail, out)
              \<in> measure (\<lambda>(buf, max_entries, count, tail, out). unat max_entries - unat count)"
    for buf tail out
    by (simp add: unat_plus_one_below word_less_nat_alt)
qed simp

declare drain_loop.simps [simp del]

definition drain :: "ring_buffer \<Rightarrow> u64 \<Rightarrow> u64 \<times> entry list \<times> ring_buffer" where
  "drain buf max_entries =
     (let (count, tail, out) = drain_loop buf max_entries 0 (read_tail buf) []
      in (count, out, buf\<lparr>read_tail := tail\<rparr>))"

section \<open>Invariant and abstraction\<close>

definition ring_inv :: "ring_buffer \<Rightarrow> bool" where
  "ring_inv buf \<longleftrightarrow> unat (write_head buf) < 8192 \<and> unat (read_tail buf) < 8192"

definition ring_count :: "ring_buffer \<Rightarrow> nat" where
  "ring_count buf = (unat (write_head buf) + 8192 - unat (read_tail buf)) mod 8192"

definition ring_contents :: "ring_buffer \<Rightarrow> entry list" where
  "ring_contents buf = ring_slice 8192 (entries buf) (unat (read_tail buf)) (ring_count buf)"

lemma unat_index_mask: "unat ((i + 1) AND ring_buffer_index_mask) = (unat i + 1) mod 8192"
proof -
  have "(i + 1) AND ring_buffer_index_mask = take_bit 13 (i + 1)"
    by (simp add: ring_buffer_index_mask_def ring_buffer_entry_count_def take_bit_eq_mask mask_eq_exp_minus_1)
  then have "unat ((i + 1) AND ring_buffer_index_mask) = unat (i + 1) mod 8192"
    by (simp only: unsigned_take_bit_eq) (simp add: take_bit_eq_mod)
  also have "\<dots> = (unat i + 1) mod 8192"
    by (simp add: unat_word_ariths mod_mod_cancel)
  finally show ?thesis .
qed

lemma ring_count_less: "ring_count buf < 8192"
  by (simp add: ring_count_def)

lemma ring_head_position:
  assumes "ring_inv buf"
  shows "unat (write_head buf) = (unat (read_tail buf) + ring_count buf) mod 8192"
  using assms by (auto simp: ring_inv_def ring_count_def mod_if split: if_splits)

lemma ring_count_0_iff: "ring_inv buf \<Longrightarrow> ring_count buf = 0 \<longleftrightarrow> write_head buf = read_tail buf"
  by (auto simp: ring_inv_def ring_count_def mod_if word_unat_eq_iff split: if_splits)

lemma ring_full_iff:
  assumes "ring_inv buf"
  shows "(write_head buf + 1) AND ring_buffer_index_mask = read_tail buf \<longleftrightarrow> ring_count buf = 8191"
proof -
  have "(write_head buf + 1) AND ring_buffer_index_mask = read_tail buf \<longleftrightarrow>
        (unat (write_head buf) + 1) mod 8192 = unat (read_tail buf)"
    by (simp only: word_unat_eq_iff unat_index_mask)
  then show ?thesis
    using assms by (auto simp: ring_inv_def ring_count_def mod_if split: if_splits)
qed


section \<open>Whole calls\<close>

lemma ring_inv_init: "ring_inv (buf\<lparr>write_head := 0, read_tail := 0, active := a\<rparr>)"
  by (simp add: ring_inv_def)

lemma ring_contents_init: "ring_contents (buf\<lparr>write_head := 0, read_tail := 0, active := a\<rparr>) = []"
  by (simp add: ring_contents_def ring_count_def)

lemma length_ring_contents: "length (ring_contents buf) = ring_count buf"
  by (simp add: ring_contents_def)

lemma emit_inv: "ring_inv buf \<Longrightarrow> ring_inv (emit tsc buf fmt core ds)"
  using unat_index_mask [of "write_head buf"] by (auto simp: emit_def ring_inv_def Let_def)

text \<open>An inactive ring, and a full one, drop the entry; otherwise it is appended.\<close>

lemma emit_contents_aux:
  assumes "ring_inv buf"
  shows "ring_contents (emit tsc buf fmt core ds) =
     (if active buf = 0 \<or> ring_count buf = 8191 then ring_contents buf
      else ring_contents buf @ [\<lparr>e_format_id = fmt, e_core_id = core, e_pad0 = 0,
                                 e_timestamp = tsc, e_data = ds\<rparr>])"
proof (cases "active buf = 0 \<or> ring_count buf = 8191")
  case True
  with assms show ?thesis
    by (auto simp: emit_def Let_def ring_full_iff)
next
  case False
  let ?e = "\<lparr>e_format_id = fmt, e_core_id = core, e_pad0 = 0, e_timestamp = tsc, e_data = ds\<rparr>"
  let ?b = "emit tsc buf fmt core ds"
  have k: "ring_count buf < 8191"
    using False ring_count_less [of buf] by simp
  have b: "?b = buf\<lparr>entries := (entries buf)(unat (write_head buf) := ?e),
                    write_head := (write_head buf + 1) AND ring_buffer_index_mask\<rparr>"
    using False assms by (auto simp: emit_def Let_def ring_full_iff)
  have cnt: "ring_count ?b = Suc (ring_count buf)"
    using assms k unat_index_mask [of "write_head buf"]
    by (auto simp: b ring_count_def ring_inv_def mod_if split: if_splits)
  show ?thesis
    using False k ring_head_position [OF assms]
    by (simp add: ring_contents_def cnt) (simp add: b ring_slice_write_next)
qed

lemma ring_advance:
  assumes "ring_inv buf" and "read_tail buf \<noteq> write_head buf"
  defines "b \<equiv> buf\<lparr>read_tail := (read_tail buf + 1) AND ring_buffer_index_mask\<rparr>"
  shows "ring_inv b" and "ring_contents buf = entries buf (unat (read_tail buf)) # ring_contents b"
proof -
  have t: "unat (read_tail b) = (unat (read_tail buf) + 1) mod 8192"
    by (simp add: b_def unat_index_mask)
  show "ring_inv b"
    using assms(1) t by (simp add: ring_inv_def b_def)
  have cnt: "ring_count buf = Suc (ring_count b)"
    using assms(1,2) t
    by (auto simp: ring_inv_def ring_count_def b_def mod_if word_unat_eq_iff split: if_splits)
  have "unat (read_tail buf) mod 8192 = unat (read_tail buf)"
    using assms(1) by (simp add: ring_inv_def)
  moreover have "ring_slice 8192 (entries b) (unat (read_tail b)) (ring_count b) =
      ring_slice 8192 (entries b) (Suc (unat (read_tail buf))) (ring_count b)"
    using ring_slice_start_mod [of 8192 _ "Suc (unat (read_tail buf))"] by (simp only: t Suc_eq_plus1)
  ultimately show "ring_contents buf = entries buf (unat (read_tail buf)) # ring_contents b"
    unfolding ring_contents_def cnt ring_slice_Cons by (simp add: b_def)
qed

lemma drain_loop_correct:
  assumes "ring_inv (buf\<lparr>read_tail := tail\<rparr>)" and "count \<le> max_entries"
    and "drain_loop buf max_entries count tail out = (count', tail', out')"
  defines "xs \<equiv> ring_contents (buf\<lparr>read_tail := tail\<rparr>)"
    and "n \<equiv> unat max_entries - unat count"
  shows "ring_inv (buf\<lparr>read_tail := tail'\<rparr>) \<and> out' = out @ take n xs \<and>
         ring_contents (buf\<lparr>read_tail := tail'\<rparr>) = drop n xs \<and>
         unat count' = unat count + min n (length xs)"
  using assms(1-3) unfolding xs_def n_def
proof (induction buf max_entries count tail out rule: drain_loop.induct)
  case (1 buf max_entries count tail out)
  let ?b = "buf\<lparr>read_tail := tail\<rparr>" and ?t = "(tail + 1) AND ring_buffer_index_mask"
  consider (finished) "\<not> count < max_entries" | (empty) "count < max_entries" "tail = write_head buf"
    | (step) "count < max_entries" "tail \<noteq> write_head buf" by blast
  then show ?case
  proof cases
    case finished
    then have "unat max_entries = unat count"
      using "1.prems"(2) by simp
    moreover from "1.prems"(3) finished have "count' = count" "tail' = tail" "out' = out"
      by (simp_all add: drain_loop.simps [of buf max_entries count])
    ultimately show ?thesis
      using "1.prems"(1) by simp
  next
    case empty
    then have "ring_contents ?b = []"
      using "1.prems"(1) ring_count_0_iff [of ?b] by (simp add: ring_contents_def)
    with empty "1.prems" show ?thesis
      by (simp add: drain_loop.simps [of buf max_entries count])
  next
    case step
    have adv: "ring_inv (buf\<lparr>read_tail := ?t\<rparr>)"
      "ring_contents ?b = entries buf (unat tail) # ring_contents (buf\<lparr>read_tail := ?t\<rparr>)"
      using ring_advance [of ?b] "1.prems"(1) step by simp_all
    have c: "unat (count + 1) = unat count + 1" "count + 1 \<le> max_entries"
      using step(1) by (simp_all add: unat_plus_one_below inc_le)
    have n: "unat max_entries - unat count = Suc (unat max_entries - unat (count + 1))"
      using step(1) c(1) by (simp add: word_less_nat_alt)
    from "1.prems"(3) step have "drain_loop buf max_entries (count + 1) ?t
        (out @ [entries buf (unat tail)]) = (count', tail', out')"
      by (simp add: drain_loop.simps [of buf max_entries count])
    from "1.IH" [OF step adv(1) c(2) this] show ?thesis
      unfolding adv(2) n using c(1) by simp
  qed
qed

definition drain_entries :: "ring_buffer \<Rightarrow> u64 \<Rightarrow> entry list \<times> ring_buffer" where
  "drain_entries buf m = (let (count, out, b) = drain buf m in (out, b))"

lemma drain_spec:
  assumes "ring_inv buf" and "drain buf m = (count, out, b)"
  shows "ring_inv b" and "out = take (unat m) (ring_contents buf)"
    and "ring_contents b = drop (unat m) (ring_contents buf)"
    and "unat count = min (unat m) (length (ring_contents buf))"
proof -
  obtain t where l: "drain_loop buf m 0 (read_tail buf) [] = (count, t, out)"
    and b: "b = buf\<lparr>read_tail := t\<rparr>"
    using assms(2) by (auto simp: drain_def split: prod.splits)
  show "ring_inv b" "out = take (unat m) (ring_contents buf)"
    "ring_contents b = drop (unat m) (ring_contents buf)"
    "unat count = min (unat m) (length (ring_contents buf))"
    using drain_loop_correct [OF _ _ l] assms(1) by (simp_all add: b)
qed

interpretation trace_ring: drainable ring_contents drain_entries ring_inv
proof unfold_locales
  fix buf :: ring_buffer and m :: u64
  assume "ring_inv buf"
  moreover obtain c out b where "drain buf m = (c, out, b)"
    by (cases "drain buf m")
  ultimately show "fst (drain_entries buf m) = take (unat m) (ring_contents buf)"
    and "ring_contents (snd (drain_entries buf m)) = drop (unat m) (ring_contents buf)"
    and "ring_inv (snd (drain_entries buf m))"
    using drain_spec [of buf m c out b] by (simp_all add: drain_entries_def)
qed


section \<open>Properties\<close>

definition demo_ring :: ring_buffer where
  "demo_ring = \<lparr>write_head = 8191, read_tail = 8190, active = 1,
     entries = (\<lambda>i. \<lparr>e_format_id = 1, e_core_id = 0, e_pad0 = 0, e_timestamp = of_nat i, e_data = []\<rparr>)\<rparr>"

text \<open>
  C12. \<open>emit\<close> keeps the indices of the ring in range. It leaves the waiting entries alone when
  tracing is off or when 8191 entries are waiting, and otherwise appends exactly one entry,
  carrying the given format, core, time stamp and data, behind them, also across the wrap-around
  of the index.
\<close>

theorem emit_appends:
  assumes "ring_inv buf"
  shows "ring_inv (emit tsc buf fmt core ds) \<and>
     ring_contents (emit tsc buf fmt core ds) =
       (if active buf = 0 \<or> length (ring_contents buf) = 8191 then ring_contents buf
        else ring_contents buf @ [\<lparr>e_format_id = fmt, e_core_id = core, e_pad0 = 0,
                                   e_timestamp = tsc, e_data = ds\<rparr>])"
  using emit_inv [OF assms] emit_contents_aux [OF assms] by (simp add: length_ring_contents)

theorem emit_appends_witness:
  "ring_inv demo_ring \<and>
   ring_contents (emit 7 demo_ring 1 0 [5]) =
     ring_contents demo_ring @ [\<lparr>e_format_id = 1, e_core_id = 0, e_pad0 = 0, e_timestamp = 7, e_data = [5]\<rparr>]"
proof -
  have "ring_inv demo_ring"
    by (simp add: ring_inv_def demo_ring_def)
  moreover have "length (ring_contents demo_ring) = 1" "active demo_ring \<noteq> 0"
    by (simp_all add: length_ring_contents ring_count_def demo_ring_def)
  ultimately show ?thesis
    using emit_appends [of demo_ring 7 1 0 "[5]"] by simp
qed

text \<open>
  C13. \<open>drain\<close> returns the oldest waiting entries, at most as many as asked for, in the order they
  were emitted; its return value is their number; what it did not return stays in the ring; and
  asking for everything empties the ring.
\<close>

theorem drain_returns_oldest:
  assumes "ring_inv buf" and "drain buf m = (count, out, buf')"
  shows "out = take (unat m) (ring_contents buf) \<and> unat count = length out \<and>
         ring_contents buf = out @ ring_contents buf' \<and> ring_inv buf' \<and>
         (length (ring_contents buf) \<le> unat m \<longrightarrow> ring_contents buf' = [])"
  using drain_spec [OF assms] by (simp add: min.commute)

theorem drain_returns_oldest_witness:
  "\<exists>count out buf'. drain demo_ring 5 = (count, out, buf') \<and> unat count = length out \<and>
     ring_contents demo_ring = out @ ring_contents buf'"
proof -
  have i: "ring_inv demo_ring"
    by (simp add: ring_inv_def demo_ring_def)
  obtain count out buf' where d: "drain demo_ring 5 = (count, out, buf')"
    by (rule prod_cases3)
  note h = drain_returns_oldest [OF i d]
  have "unat count = length out"
    by (rule h [THEN conjunct2, THEN conjunct1])
  moreover have "ring_contents demo_ring = out @ ring_contents buf'"
    by (rule h [THEN conjunct2, THEN conjunct2, THEN conjunct1])
  ultimately show ?thesis
    using d by (intro exI conjI)
qed

end
