(* ===== verification/Trace_Spsc.thy ===== *)
theory Trace_Spsc
  imports Trace_Ring "HOL-Library.Sublist"
begin

text \<open>
  One producer and one consumer of a trace ring, interleaved at the level of the single loads
  and stores of \<open>emit\<close> and \<open>drain\<close> (\<open>revhv-km/trace.h\<close>). The stores to the fields of an entry
  are not atomic: between the check for a free slot and the last store the slot may hold
  anything. Two ghost components record what was published and what was handed out. The memory
  model is the program order the compiler barriers keep.
\<close>

datatype producer = P_idle | P_filling entry | P_filled entry
datatype consumer = C_idle | C_reading u64 "entry list" nat | C_leaving u64 "entry list"

record spsc =
  ring :: ring_buffer
  prod :: producer
  cons :: consumer
  accepted :: "entry list"
  drained :: "entry list"

definition spsc_init :: "ring_buffer \<Rightarrow> spsc" where
  "spsc_init buf = \<lparr>ring = buf\<lparr>write_head := 0, read_tail := 0, active := 1\<rparr>,
                    prod = P_idle, cons = C_idle, accepted = [], drained = []\<rparr>"

definition next_index :: "u64 \<Rightarrow> u64" where
  "next_index i = (i + 1) AND ring_buffer_index_mask"

inductive spsc_step :: "spsc \<Rightarrow> spsc \<Rightarrow> bool" where
  p_check: "prod s = P_idle \<Longrightarrow> active (ring s) \<noteq> 0 \<Longrightarrow>
     next_index (write_head (ring s)) \<noteq> read_tail (ring s) \<Longrightarrow>
     spsc_step s (s\<lparr>prod := P_filling e\<rparr>)"
| p_partial_store: "prod s = P_filling e \<Longrightarrow>
     spsc_step s (s\<lparr>ring := (ring s)\<lparr>entries :=
        (entries (ring s))(unat (write_head (ring s)) := torn)\<rparr>\<rparr>)"
| p_last_store: "prod s = P_filling e \<Longrightarrow>
     spsc_step s (s\<lparr>ring := (ring s)\<lparr>entries :=
        (entries (ring s))(unat (write_head (ring s)) := e)\<rparr>, prod := P_filled e\<rparr>)"
| p_publish: "prod s = P_filled e \<Longrightarrow>
     spsc_step s (s\<lparr>ring := (ring s)\<lparr>write_head := next_index (write_head (ring s))\<rparr>,
                    prod := P_idle, accepted := accepted s @ [e]\<rparr>)"
| c_enter: "cons s = C_idle \<Longrightarrow>
     spsc_step s (s\<lparr>cons := C_reading (read_tail (ring s)) [] m\<rparr>)"
| c_copy: "cons s = C_reading tail out (Suc m) \<Longrightarrow> tail \<noteq> write_head (ring s) \<Longrightarrow>
     spsc_step s (s\<lparr>cons := C_reading (next_index tail) (out @ [entries (ring s) (unat tail)]) m\<rparr>)"
| c_stop: "cons s = C_reading tail out m \<Longrightarrow> m = 0 \<or> tail = write_head (ring s) \<Longrightarrow>
     spsc_step s (s\<lparr>cons := C_leaving tail out\<rparr>)"
| c_publish: "cons s = C_leaving tail out \<Longrightarrow>
     spsc_step s (s\<lparr>ring := (ring s)\<lparr>read_tail := tail\<rparr>, cons := C_idle,
                    drained := drained s @ out\<rparr>)"

inductive spsc_reachable :: "ring_buffer \<Rightarrow> spsc \<Rightarrow> bool" for buf where
  start: "spsc_reachable buf (spsc_init buf)"
| step: "spsc_reachable buf s \<Longrightarrow> spsc_step s t \<Longrightarrow> spsc_reachable buf t"

text \<open>The entries the consumer has copied but not yet published, and its private tail.\<close>

fun in_flight :: "consumer \<Rightarrow> entry list" where
  "in_flight C_idle = []"
| "in_flight (C_reading tail out m) = out"
| "in_flight (C_leaving tail out) = out"

fun private_tail :: "ring_buffer \<Rightarrow> consumer \<Rightarrow> u64" where
  "private_tail b C_idle = read_tail b"
| "private_tail b (C_reading tail out m) = tail"
| "private_tail b (C_leaving tail out) = tail"

fun filling :: "producer \<Rightarrow> bool" where
  "filling P_idle = False"
| "filling (P_filling e) = True"
| "filling (P_filled e) = True"

definition index_of :: "u64 \<Rightarrow> nat \<Rightarrow> bool" where
  "index_of i n \<longleftrightarrow> unat i = n mod 8192"

definition published_ok :: "ring_buffer \<Rightarrow> entry list \<Rightarrow> nat \<Rightarrow> bool" where
  "published_ok b xs d \<longleftrightarrow> (\<forall>k. d \<le> k \<and> k < length xs \<longrightarrow> entries b (k mod 8192) = xs ! k)"

definition spsc_inv :: "spsc \<Rightarrow> bool" where
  "spsc_inv s \<longleftrightarrow>
     (let d = length (drained s); n = length (accepted s); c = d + length (in_flight (cons s)) in
        index_of (write_head (ring s)) n \<and> index_of (read_tail (ring s)) d \<and>
        index_of (private_tail (ring s) (cons s)) c \<and>
        c \<le> n \<and> n - d \<le> 8191 \<and> (filling (prod s) \<longrightarrow> n - d < 8191) \<and>
        published_ok (ring s) (accepted s) d \<and>
        (\<forall>e. prod s = P_filled e \<longrightarrow> entries (ring s) (n mod 8192) = e) \<and>
        drained s @ in_flight (cons s) = take c (accepted s))"

lemma index_of_next: "index_of i n \<Longrightarrow> index_of (next_index i) (Suc n)"
  by (simp add: index_of_def next_index_def unat_index_mask mod_Suc_eq)

lemma index_of_inj: "index_of i m \<Longrightarrow> index_of j n \<Longrightarrow> i = j \<longleftrightarrow> m mod 8192 = n mod 8192"
  by (auto simp: index_of_def word_unat_eq_iff)

lemma mod_8192_window:
  assumes "d \<le> (k::nat)" and "k < n" and "n - d < 8192"
  shows "k mod 8192 \<noteq> n mod 8192"
proof -
  have "k - d < 8192"
    using assms by linarith
  then show ?thesis
    using ring_position_inj [of d "k - d" 8192 "n - d"] assms by auto
qed

lemma spsc_inv_init: "spsc_inv (spsc_init buf)"
  by (simp add: spsc_inv_def spsc_init_def index_of_def published_ok_def)

lemma published_ok_outside:
  assumes "published_ok b xs d" and "length xs - d < 8192"
  shows "published_ok (b\<lparr>entries := (entries b)(length xs mod 8192 := x)\<rparr>) xs d"
  using assms mod_8192_window [of d _ "length xs"] by (auto simp: published_ok_def)

lemma step_p_check:
  assumes "spsc_inv s" and "prod s = P_idle"
    and "next_index (write_head (ring s)) \<noteq> read_tail (ring s)"
  shows "spsc_inv (s\<lparr>prod := P_filling e\<rparr>)"
proof -
  let ?n = "length (accepted s)" and ?d = "length (drained s)"
  have "index_of (next_index (write_head (ring s))) (Suc ?n)" "index_of (read_tail (ring s)) ?d"
    "?n - ?d \<le> 8191" "?d \<le> ?n"
    using assms(1) index_of_next by (auto simp: spsc_inv_def Let_def)
  moreover have "Suc ?n mod 8192 \<noteq> ?d mod 8192"
    using assms(3) calculation(1,2) index_of_inj by blast
  moreover have "Suc ?n mod 8192 = ?d mod 8192" if "?n - ?d = 8191"
  proof -
    from that \<open>?d \<le> ?n\<close> have "Suc ?n = ?d + 8192"
      by linarith
    then show ?thesis by simp
  qed
  ultimately have "?n - ?d < 8191"
    by linarith
  with assms(1,2) show ?thesis
    by (simp add: spsc_inv_def Let_def)
qed

lemma step_p_store:
  assumes "spsc_inv s" and "filling (prod s)" and "p = P_filling e \<or> (p = P_filled e \<and> x = e)"
  shows "spsc_inv (s\<lparr>ring := (ring s)\<lparr>entries :=
           (entries (ring s))(unat (write_head (ring s)) := x)\<rparr>, prod := p\<rparr>)"
proof -
  have "private_tail (b\<lparr>entries := f\<rparr>) c = private_tail b c" for b f c
    by (cases c) auto
  with assms show ?thesis
    by (auto simp: spsc_inv_def Let_def index_of_def intro: published_ok_outside)
qed

lemma step_p_publish:
  assumes "spsc_inv s" and "prod s = P_filled e"
  shows "spsc_inv (s\<lparr>ring := (ring s)\<lparr>write_head := next_index (write_head (ring s))\<rparr>,
                    prod := P_idle, accepted := accepted s @ [e]\<rparr>)"
proof -
  have "private_tail (b\<lparr>write_head := f\<rparr>) c = private_tail b c" for b f c
    by (cases c) auto
  with assms show ?thesis
    by (auto simp: spsc_inv_def Let_def published_ok_def nth_append less_Suc_eq intro: index_of_next)
qed

lemma step_c_copy:
  assumes "spsc_inv s" and "cons s = C_reading tail out (Suc m)" and "tail \<noteq> write_head (ring s)"
  shows "spsc_inv (s\<lparr>cons := C_reading (next_index tail) (out @ [entries (ring s) (unat tail)]) m\<rparr>)"
proof -
  let ?c = "length (drained s) + length out"
  have c: "index_of tail ?c" "index_of (write_head (ring s)) (length (accepted s))"
    "?c \<le> length (accepted s)" "published_ok (ring s) (accepted s) (length (drained s))"
    using assms(1,2) by (auto simp: spsc_inv_def Let_def)
  then have lt: "?c < length (accepted s)"
    using assms(3) index_of_inj by (metis le_neq_implies_less)
  then have "entries (ring s) (unat tail) = accepted s ! ?c"
    using c by (simp add: published_ok_def index_of_def)
  with assms(1,2) lt show ?thesis
    by (auto simp: spsc_inv_def Let_def take_Suc_conv_app_nth intro: index_of_next)
qed

lemma step_c_publish:
  assumes "spsc_inv s" and "cons s = C_leaving tail out"
  shows "spsc_inv (s\<lparr>ring := (ring s)\<lparr>read_tail := tail\<rparr>, cons := C_idle,
                    drained := drained s @ out\<rparr>)"
  using assms by (auto simp: spsc_inv_def Let_def published_ok_def)

lemma step_c_enter:
  "spsc_inv s \<Longrightarrow> cons s = C_idle \<Longrightarrow> spsc_inv (s\<lparr>cons := C_reading (read_tail (ring s)) [] m\<rparr>)"
  by (simp add: spsc_inv_def Let_def)

lemma step_c_stop:
  "spsc_inv s \<Longrightarrow> cons s = C_reading tail out m \<Longrightarrow> spsc_inv (s\<lparr>cons := C_leaving tail out\<rparr>)"
  by (simp add: spsc_inv_def Let_def)

lemma spsc_step_inv: "spsc_step s t \<Longrightarrow> spsc_inv s \<Longrightarrow> spsc_inv t"
proof (induction rule: spsc_step.induct)
  case (p_partial_store s e torn)
  let ?r = "(ring s)\<lparr>entries := (entries (ring s))(unat (write_head (ring s)) := torn)\<rparr>"
  have "s\<lparr>ring := ?r, prod := P_filling e\<rparr> = s\<lparr>ring := ?r\<rparr>"
    using p_partial_store by (cases s) simp
  moreover have "spsc_inv (s\<lparr>ring := ?r, prod := P_filling e\<rparr>)"
    using step_p_store [of s "P_filling e" e torn] p_partial_store by simp
  ultimately show ?case
    by (simp only:)
next
  case (p_last_store s e)
  then show ?case
    using step_p_store [of s "P_filled e" e e] by simp
qed (blast intro: step_p_check step_p_publish step_c_enter step_c_copy step_c_stop step_c_publish)+

lemma spsc_reachable_inv: "spsc_reachable buf s \<Longrightarrow> spsc_inv s"
  by (induction rule: spsc_reachable.induct) (auto intro: spsc_inv_init spsc_step_inv)


section \<open>Properties\<close>


definition empty_entry :: entry where
  "empty_entry = \<lparr>e_format_id = 0, e_core_id = 0, e_pad0 = 0, e_timestamp = 0, e_data = []\<rparr>"

definition empty_ring :: ring_buffer where
  "empty_ring = \<lparr>write_head = 0, read_tail = 0, active = 1, entries = (\<lambda>_. empty_entry)\<rparr>"

text \<open>One entry published and handed out, step by step.\<close>

lemma spsc_one_entry_run:
  "\<exists>s. spsc_reachable empty_ring s \<and> accepted s = [e] \<and> drained s = [e]"
proof -
  let ?i = "spsc_init empty_ring"
  let ?r1 = "(ring ?i)\<lparr>entries := (entries (ring ?i))(0 := e)\<rparr>"
  let ?r2 = "?r1\<lparr>write_head := 1\<rparr>"
  note init = spsc_init_def empty_ring_def next_index_def ring_buffer_index_mask_def
    ring_buffer_entry_count_def
  have 0: "spsc_reachable empty_ring ?i"
    by (rule spsc_reachable.start)
  have 1: "spsc_reachable empty_ring (?i\<lparr>prod := P_filling e\<rparr>)"
    by (rule spsc_reachable.step [OF 0 spsc_step.p_check]) (simp_all add: init)
  have 2: "spsc_reachable empty_ring (?i\<lparr>prod := P_filled e, ring := ?r1\<rparr>)"
    using spsc_reachable.step [OF 1 spsc_step.p_last_store [of _ e]] by (simp add: init)
  have 3: "spsc_reachable empty_ring (?i\<lparr>prod := P_idle, ring := ?r2, accepted := [e]\<rparr>)"
    using spsc_reachable.step [OF 2 spsc_step.p_publish [of _ e]] by (simp add: init)
  have 4: "spsc_reachable empty_ring
      (?i\<lparr>prod := P_idle, ring := ?r2, accepted := [e], cons := C_reading 0 [] 1\<rparr>)"
    using spsc_reachable.step [OF 3 spsc_step.c_enter [of _ 1]] by (simp add: init)
  have 5: "spsc_reachable empty_ring
      (?i\<lparr>prod := P_idle, ring := ?r2, accepted := [e], cons := C_reading 1 [e] 0\<rparr>)"
    using spsc_reachable.step [OF 4 spsc_step.c_copy [of _ 0 "[]" 0]] by (simp add: init)
  have 6: "spsc_reachable empty_ring
      (?i\<lparr>prod := P_idle, ring := ?r2, accepted := [e], cons := C_leaving 1 [e]\<rparr>)"
    using spsc_reachable.step [OF 5 spsc_step.c_stop [of _ 1 "[e]" 0]] by (simp add: init)
  show ?thesis
    using spsc_reachable.step [OF 6 spsc_step.c_publish [of _ 1 "[e]"]] by (auto simp: init)
qed


end
