(* ===== verification/Address.thy ===== *)
theory Address
  imports Prelude
begin

text \<open>
  Addresses: the bit fields of a 4-level virtual address (\<open>pml4_virtual_address\<close> of
  \<open>revhv-km/memory.h\<close>), canonical addresses and the bit helpers of \<open>revhv-km/utils.inl\<close>, and the
  base at which the hypervisor maps physical memory.
\<close>

definition va_offset :: "u64 \<Rightarrow> u64" where "va_offset va = bit_field 0 12 va"
definition pt_idx :: "u64 \<Rightarrow> u64" where "pt_idx va = bit_field 12 9 va"
definition pd_idx :: "u64 \<Rightarrow> u64" where "pd_idx va = bit_field 21 9 va"
definition pdpt_idx :: "u64 \<Rightarrow> u64" where "pdpt_idx va = bit_field 30 9 va"
definition pml4_idx :: "u64 \<Rightarrow> u64" where "pml4_idx va = bit_field 39 9 va"

lemmas va_field_defs = va_offset_def pt_idx_def pd_idx_def pdpt_idx_def pml4_idx_def

lemma va_field_nat [field_simps64]:
  "unat (va_offset va) = unat va mod 4096"
  "unat (pt_idx va) = unat va div 4096 mod 512"
  "unat (pd_idx va) = unat va div 2097152 mod 512"
  "unat (pdpt_idx va) = unat va div 1073741824 mod 512"
  "unat (pml4_idx va) = unat va div 549755813888 mod 512"
  by (simp_all add: va_field_defs unat_bit_field)

lemma va_field_less [simp]:
  "unat (va_offset va) < 4096" "unat (pt_idx va) < 512" "unat (pd_idx va) < 512"
  "unat (pdpt_idx va) < 512" "unat (pml4_idx va) < 512"
  by (simp_all add: va_field_nat)

lemma va_field_not_beyond [simp]:
  "\<not> 512 \<le> unat (pt_idx va)" "\<not> 512 \<le> unat (pd_idx va)" "\<not> 512 \<le> unat (pdpt_idx va)"
  by (simp_all add: not_le)

section \<open>Bit helpers and canonical addresses\<close>

definition set_bit_u64 :: "u64 \<Rightarrow> nat \<Rightarrow> u64" where
  "set_bit_u64 value b = value OR push_bit b 1"

definition clear_bit_u64 :: "u64 \<Rightarrow> nat \<Rightarrow> u64" where
  "clear_bit_u64 value b = value AND NOT (push_bit b 1)"

definition is_bit_set :: "u64 \<Rightarrow> nat \<Rightarrow> bool" where
  "is_bit_set value b \<longleftrightarrow> value AND push_bit b 1 \<noteq> 0"

definition canonicalize :: "u64 \<Rightarrow> u64" where
  "canonicalize va =
     (if va AND push_bit 47 1 \<noteq> 0 then va OR 0xFFFF000000000000 else va AND 0x0000FFFFFFFFFFFF)"

definition host_pml4_index :: u64 where
  "host_pml4_index = 255"

definition host_physical_base :: u64 where
  "host_physical_base = canonicalize (push_bit 39 host_pml4_index)"

lemma is_bit_set_iff: "is_bit_set w b \<longleftrightarrow> bit w b"
  by (simp add: is_bit_set_def bit_iff_and_push_bit_not_eq_0)

lemma set_bit_u64_bit: "b < 64 \<Longrightarrow> bit (set_bit_u64 w b) k \<longleftrightarrow> k = b \<or> bit w k"
  by (auto simp: set_bit_u64_def bit_or_iff bit_exp_iff push_bit_eq_mult)

lemma clear_bit_u64_bit: "bit (clear_bit_u64 w b) k \<longleftrightarrow> k \<noteq> b \<and> bit w k"
  using bit_imp_le_length [of w k]
  by (auto simp: clear_bit_u64_def bit_and_iff bit_not_iff bit_exp_iff push_bit_eq_mult)

lemma host_physical_base_value: "host_physical_base = 0x7F8000000000"
  by (simp add: host_physical_base_def canonicalize_def host_pml4_index_def push_bit_eq_mult)

end
