(* ===== verification/Mtrr.thy ===== *)
theory Mtrr
  imports Prelude
begin

text \<open>
  The memory type range registers of \<open>revhv-km/memory.cpp\<close>: reading them, the type of one
  physical address and the type of a range. Memory types and register numbers are those of the
  processor manual. How the 64 bits of a register are cut into fields is fixed by the ia32
  headers, which are not part of the repository; it is the argument \<open>lay\<close> of \<open>read_mtrrs\<close>.
  The walk over a range is a loop on 64-bit addresses that need not end when the range touches
  the top of the address space: its result is an option, \<open>None\<close> standing for no return.
\<close>

section \<open>State\<close>

definition MEMORY_TYPE_UNCACHEABLE :: u8 where "MEMORY_TYPE_UNCACHEABLE = 0"
definition MEMORY_TYPE_WRITE_THROUGH :: u8 where "MEMORY_TYPE_WRITE_THROUGH = 4"
definition MEMORY_TYPE_WRITE_BACK :: u8 where "MEMORY_TYPE_WRITE_BACK = 6"
definition MEMORY_TYPE_INVALID :: u8 where "MEMORY_TYPE_INVALID = 255"

lemmas memory_type_defs = MEMORY_TYPE_UNCACHEABLE_def MEMORY_TYPE_WRITE_THROUGH_def
  MEMORY_TYPE_WRITE_BACK_def MEMORY_TYPE_INVALID_def

record mtrr_variable =
  base_pfn :: u64
  base_type :: u8
  mask_pfn :: u64
  mask_valid :: bool

record mtrr_state =
  mtrr_enable :: bool
  fixed_range_mtrr_enable :: bool
  default_memory_type :: u8
  fixed_supported :: bool
  fixed :: "u8 list"
  variable :: "mtrr_variable list"
  variable_count :: u8

definition zero_variable :: mtrr_variable where
  "zero_variable = \<lparr>base_pfn = 0, base_type = 0, mask_pfn = 0, mask_valid = False\<rparr>"

section \<open>Reading the registers\<close>

record mtrr_layout =
  lay_variable_range_count :: "u64 \<Rightarrow> u8"
  lay_fixed_range_supported :: "u64 \<Rightarrow> bool"
  lay_mtrr_enable :: "u64 \<Rightarrow> bool"
  lay_fixed_enable :: "u64 \<Rightarrow> bool"
  lay_default_type :: "u64 \<Rightarrow> u8"
  lay_physbase_pfn :: "u64 \<Rightarrow> u64"
  lay_physbase_type :: "u64 \<Rightarrow> u8"
  lay_physmask_pfn :: "u64 \<Rightarrow> u64"
  lay_physmask_valid :: "u64 \<Rightarrow> bool"

definition IA32_MTRR_CAPABILITIES :: u32 where "IA32_MTRR_CAPABILITIES = 0xFE"
definition IA32_MTRR_DEF_TYPE :: u32 where "IA32_MTRR_DEF_TYPE = 0x2FF"
definition IA32_MTRR_FIX64K_00000 :: u32 where "IA32_MTRR_FIX64K_00000 = 0x250"
definition fix16k_msrs :: "u32 list" where "fix16k_msrs = [0x258, 0x259]"
definition fix4k_msrs :: "u32 list" where
  "fix4k_msrs = [0x268, 0x269, 0x26A, 0x26B, 0x26C, 0x26D, 0x26E, 0x26F]"
definition IA32_MTRR_PHYSBASE0 :: u32 where "IA32_MTRR_PHYSBASE0 = 0x200"
definition IA32_MTRR_PHYSMASK0 :: u32 where "IA32_MTRR_PHYSMASK0 = 0x201"

text \<open>The eight types packed in one fixed-range register, lowest byte first.\<close>

definition msr_bytes :: "u64 \<Rightarrow> u8 list" where
  "msr_bytes v = map (\<lambda>i. ucast (drop_bit (i * 8) v AND 0xFF)) [0..<8]"

definition read_mtrrs :: "mtrr_layout \<Rightarrow> (u32 \<Rightarrow> u64) \<Rightarrow> mtrr_state" where
  "read_mtrrs lay rdmsr =
     (let cap = rdmsr IA32_MTRR_CAPABILITIES;
          def_type = rdmsr IA32_MTRR_DEF_TYPE;
          cnt = lay_variable_range_count lay cap;
          st = \<lparr>mtrr_enable = lay_mtrr_enable lay def_type,
                fixed_range_mtrr_enable = lay_fixed_enable lay def_type,
                default_memory_type = lay_default_type lay def_type,
                fixed_supported = lay_fixed_range_supported lay cap,
                fixed = replicate 88 0,
                variable = replicate 255 zero_variable,
                variable_count = cnt\<rparr>
      in if \<not> mtrr_enable st then st
         else let st1 = (if fixed_range_mtrr_enable st \<and> fixed_supported st
                         then st\<lparr>fixed := msr_bytes (rdmsr IA32_MTRR_FIX64K_00000)
                                  @ concat (map (\<lambda>m. msr_bytes (rdmsr m)) fix16k_msrs)
                                  @ concat (map (\<lambda>m. msr_bytes (rdmsr m)) fix4k_msrs)\<rparr>
                         else st)
              in st1\<lparr>variable :=
                   map (\<lambda>i. let b = rdmsr (IA32_MTRR_PHYSBASE0 + of_nat i * 2);
                                m = rdmsr (IA32_MTRR_PHYSMASK0 + of_nat i * 2)
                            in \<lparr>base_pfn = lay_physbase_pfn lay b, base_type = lay_physbase_type lay b,
                                mask_pfn = lay_physmask_pfn lay m, mask_valid = lay_physmask_valid lay m\<rparr>)
                       [0..<unat cnt]
                   @ drop (unat cnt) (variable st1)\<rparr>)"

section \<open>Type of one address\<close>

text \<open>The overlap rule, written out twice in the source.\<close>

definition mtrr_combine :: "u8 \<Rightarrow> u8 \<Rightarrow> u8" where
  "mtrr_combine t r =
     (if t = MEMORY_TYPE_UNCACHEABLE \<or> r = MEMORY_TYPE_UNCACHEABLE then MEMORY_TYPE_UNCACHEABLE
      else if t = MEMORY_TYPE_WRITE_THROUGH \<and> r = MEMORY_TYPE_WRITE_BACK
            \<or> t = MEMORY_TYPE_WRITE_BACK \<and> r = MEMORY_TYPE_WRITE_THROUGH
           then MEMORY_TYPE_WRITE_THROUGH
      else MEMORY_TYPE_UNCACHEABLE)"

definition mtrr_matches :: "mtrr_variable \<Rightarrow> u64 \<Rightarrow> bool" where
  "mtrr_matches v pa \<longleftrightarrow>
     mask_valid v \<and>
     (let range_mask = push_bit 12 (mask_pfn v); range_base = push_bit 12 (base_pfn v)
      in pa AND range_mask = range_base AND range_mask)"

fun variable_type :: "mtrr_variable list \<Rightarrow> u64 \<Rightarrow> u8 \<Rightarrow> u8" where
  "variable_type [] pa final_type = final_type"
| "variable_type (v # vs) pa final_type =
     (if \<not> mtrr_matches v pa then variable_type vs pa final_type
      else if final_type = MEMORY_TYPE_INVALID then variable_type vs pa (base_type v)
      else variable_type vs pa (mtrr_combine (base_type v) final_type))"

definition fixed_index :: "u64 \<Rightarrow> nat" where
  "fixed_index pa =
     (if pa < 0x80000 then unat (pa div 0x10000)
      else if pa < 0xC0000 then 8 + unat ((pa - 0x80000) div 0x4000)
      else 24 + unat ((pa - 0xC0000) div 0x1000))"

definition get_mtrr_memory_type_single :: "mtrr_state \<Rightarrow> u64 \<Rightarrow> u8" where
  "get_mtrr_memory_type_single st pa =
     (if \<not> mtrr_enable st then MEMORY_TYPE_UNCACHEABLE
      else if pa < 0x100000 \<and> fixed_supported st \<and> fixed_range_mtrr_enable st
           then fixed st ! fixed_index pa
      else let final_type = variable_type (take (unat (variable_count st)) (variable st)) pa
                              MEMORY_TYPE_INVALID
           in if final_type \<noteq> MEMORY_TYPE_INVALID then final_type else default_memory_type st)"

section \<open>Type of a range\<close>

partial_function (option) mtrr_walk ::
  "mtrr_state \<Rightarrow> u64 \<Rightarrow> u64 \<Rightarrow> u8 \<Rightarrow> bool \<Rightarrow> (u8 \<times> bool) option" where
  "mtrr_walk st addr end_address result_type is_uniform =
     (if addr < end_address then
        let t = get_mtrr_memory_type_single st addr
        in if t = result_type
           then mtrr_walk st (addr + 0x1000) end_address result_type is_uniform
           else mtrr_walk st (addr + 0x1000) end_address (mtrr_combine t result_type) False
      else Some (result_type, is_uniform))"

definition get_mtrr_range_memory_type ::
  "mtrr_state \<Rightarrow> u64 \<Rightarrow> u64 \<Rightarrow> (u8 \<times> bool) option" where
  "get_mtrr_range_memory_type st physical_address sz =
     (let first_type = get_mtrr_memory_type_single st physical_address;
          end_address = physical_address + sz
      in mtrr_walk st ((physical_address AND NOT 0xFFF) + 0x1000) end_address first_type True)"

section \<open>Lemmas\<close>

lemma length_msr_bytes: "length (msr_bytes v) = 8"
  by (simp add: msr_bytes_def)

lemma fixed_index_bound:
  assumes "pa < 0x100000"
  shows "fixed_index pa < 88"
proof -
  have "unat pa < 0x100000"
    using assms by (simp add: word_less_nat_alt)
  then show ?thesis
    by (auto simp: fixed_index_def unat_div word_less_nat_alt unat_sub word_le_nat_alt
        intro: less_mult_imp_div_less)
qed

lemma mtrr_combine_commute: "mtrr_combine a b = mtrr_combine b a"
  by (auto simp: mtrr_combine_def)

lemma mtrr_combine_uc [simp]:
  "mtrr_combine MEMORY_TYPE_UNCACHEABLE r = MEMORY_TYPE_UNCACHEABLE"
  "mtrr_combine t MEMORY_TYPE_UNCACHEABLE = MEMORY_TYPE_UNCACHEABLE"
  by (auto simp: mtrr_combine_def)

text \<open>The walk over the types of the pages, as a fold.\<close>

fun mtrr_merge :: "u8 \<Rightarrow> bool \<Rightarrow> u8 list \<Rightarrow> u8 \<times> bool" where
  "mtrr_merge r u [] = (r, u)"
| "mtrr_merge r u (t # ts) =
     (if t = r then mtrr_merge r u ts else mtrr_merge (mtrr_combine t r) False ts)"

lemma mtrr_merge_not_uniform: "\<not> snd (mtrr_merge r False ts)"
  by (induction ts arbitrary: r) auto

lemma mtrr_merge_uniform: "snd (mtrr_merge r True ts) \<longleftrightarrow> (\<forall>t \<in> set ts. t = r)"
  by (induction ts arbitrary: r) (auto simp: mtrr_merge_not_uniform)

lemma mtrr_merge_same: "\<forall>t \<in> set ts. t = r \<Longrightarrow> mtrr_merge r u ts = (r, u)"
  by (induction ts) auto

lemma mtrr_merge_uc_start:
  "fst (mtrr_merge MEMORY_TYPE_UNCACHEABLE u ts) = MEMORY_TYPE_UNCACHEABLE"
  by (induction ts arbitrary: u) auto

lemma mtrr_merge_uc:
  "MEMORY_TYPE_UNCACHEABLE \<in> set ts \<Longrightarrow> fst (mtrr_merge r u ts) = MEMORY_TYPE_UNCACHEABLE"
  by (induction ts arbitrary: r u) (auto simp: mtrr_merge_uc_start)

definition page_types :: "mtrr_state \<Rightarrow> u64 \<Rightarrow> nat \<Rightarrow> u8 list" where
  "page_types st pa n = map (\<lambda>k. get_mtrr_memory_type_single st (pa + of_nat k * 0x1000)) [0..<n]"

lemma page_types_Suc:
  "page_types st pa (Suc n) =
     get_mtrr_memory_type_single st pa # page_types st (pa + 0x1000) n"
proof -
  have "[0..<Suc n] = 0 # map Suc [0..<n]"
    by (simp only: upt_conv_Cons map_Suc_upt zero_less_Suc)
  then show ?thesis
    by (simp del: upt_Suc add: page_types_def comp_def algebra_simps)
qed

lemma mtrr_walk_pages:
  assumes "unat addr + n * 0x1000 < 2 ^ 64"
  shows "mtrr_walk st addr (addr + of_nat n * 0x1000) r u = Some (mtrr_merge r u (page_types st addr n))"
  using assms
proof (induction n arbitrary: addr r u)
  case 0
  then show ?case
    by (simp add: mtrr_walk.simps page_types_def)
next
  case (Suc n)
  have e: "addr + of_nat (Suc n) * 0x1000 = (addr + 0x1000) + of_nat n * 0x1000"
    by (simp add: algebra_simps)
  have u1: "unat (addr + 0x1000) = unat addr + 0x1000"
    using Suc.prems by (subst unat_add_no_wrap) simp_all
  have "unat (addr + 0x1000 + of_nat n * 0x1000) = unat addr + 0x1000 + n * 0x1000"
  proof -
    have "unat (of_nat n * 0x1000 :: u64) = n * 0x1000"
      using Suc.prems by (simp add: unat_word_ariths unat_of_nat)
    then show ?thesis
      using Suc.prems u1 by (subst unat_add_no_wrap) simp_all
  qed
  then have less: "addr < addr + of_nat (Suc n) * 0x1000"
    by (simp only: e word_less_nat_alt)
  have IH: "mtrr_walk st (addr + 0x1000) (addr + 0x1000 + of_nat n * 0x1000) r u =
      Some (mtrr_merge r u (page_types st (addr + 0x1000) n))" for r u
    using Suc.IH [of "addr + 0x1000"] Suc.prems u1 by simp
  show ?case
    using less by (subst mtrr_walk.simps) (simp only: e IH page_types_Suc mtrr_merge.simps Let_def if_True, simp)
qed

lemma range_type_aligned:
  assumes "pa AND 0xFFF = 0" and "unat pa + Suc n * 0x1000 < 2 ^ 64"
  shows "get_mtrr_range_memory_type st pa (of_nat (Suc n) * 0x1000) =
     Some (mtrr_merge (get_mtrr_memory_type_single st pa) True (page_types st (pa + 0x1000) n))"
proof -
  have "unat (pa + 0x1000) = unat pa + 0x1000"
    using assms(2) by (subst unat_add_no_wrap) simp_all
  then have "mtrr_walk st (pa + 0x1000) (pa + 0x1000 + of_nat n * 0x1000)
      (get_mtrr_memory_type_single st pa) True =
      Some (mtrr_merge (get_mtrr_memory_type_single st pa) True (page_types st (pa + 0x1000) n))"
    using assms(2) by (intro mtrr_walk_pages) simp
  moreover have "pa + of_nat (Suc n) * 0x1000 = pa + 0x1000 + of_nat n * 0x1000"
    by (simp add: algebra_simps)
  ultimately show ?thesis
    by (simp only: get_mtrr_range_memory_type_def Let_def and_not_disjoint [OF assms(1)])
qed


lemma page_type_uniform:
  assumes "pa AND 0xFFF = 0" and "unat pa + 0x1000 < 2 ^ 64"
  shows "get_mtrr_range_memory_type st pa 0x1000 = Some (get_mtrr_memory_type_single st pa, True)"
  using range_type_aligned [OF assms(1), of 0 st] assms(2) by (simp add: page_types_def)

lemma set_page_types:
  "set (page_types st pa n) = (\<lambda>k. get_mtrr_memory_type_single st (pa + of_nat k * 0x1000)) ` {..<n}"
  by (auto simp: page_types_def)

section \<open>Properties\<close>

text \<open>
  C15. For a page-aligned range of whole pages below the top of the address space,
  \<open>get_mtrr_range_memory_type\<close> returns. It reports the range as uniform exactly when all its 4 KB
  pages have the type of the first one, and that type is then its result; a range with an
  uncacheable page is uncacheable.
\<close>

theorem range_type_correct:
  assumes "pa AND 0xFFF = 0" and "0 < n" and "unat pa + n * 0x1000 < 2 ^ 64"
  shows "\<exists>t uniform. get_mtrr_range_memory_type st pa (of_nat n * 0x1000) = Some (t, uniform) \<and>
     (uniform \<longleftrightarrow> (\<forall>k < n. get_mtrr_memory_type_single st (pa + of_nat k * 0x1000)
                          = get_mtrr_memory_type_single st pa)) \<and>
     (uniform \<longrightarrow> t = get_mtrr_memory_type_single st pa) \<and>
     ((\<exists>k < n. get_mtrr_memory_type_single st (pa + of_nat k * 0x1000) = MEMORY_TYPE_UNCACHEABLE)
        \<longrightarrow> t = MEMORY_TYPE_UNCACHEABLE)"
proof -
  obtain m where n: "n = Suc m"
    using assms(2) by (cases n) auto
  let ?ty = "\<lambda>k. get_mtrr_memory_type_single st (pa + of_nat k * 0x1000)"
  let ?ts = "page_types st (pa + 0x1000) m"
  let ?r = "mtrr_merge (?ty 0) True ?ts"
  have all: "?ty 0 # ?ts = map ?ty [0..<n]"
    using page_types_Suc [of st pa m] by (simp add: page_types_def n)
  have "set (?ty 0 # ?ts) = set (map ?ty [0..<n])"
    by (simp only: all)
  then have set_all: "insert (?ty 0) (set ?ts) = ?ty ` {..<n}"
    by (simp only: list.set(2) list.set_map set_upt atLeast0LessThan)
  have ty0: "?ty 0 = get_mtrr_memory_type_single st pa"
    by simp
  have r: "get_mtrr_range_memory_type st pa (of_nat n * 0x1000) = Some (fst ?r, snd ?r)"
    unfolding n using range_type_aligned [OF assms(1), of m st] assms(3) n by simp
  have uni: "snd ?r \<longleftrightarrow> (\<forall>k < n. ?ty k = ?ty 0)"
  proof -
    have "(\<forall>t \<in> set ?ts. t = ?ty 0) \<longleftrightarrow> (\<forall>t \<in> insert (?ty 0) (set ?ts). t = ?ty 0)"
      by blast
    also have "\<dots> \<longleftrightarrow> (\<forall>k < n. ?ty k = ?ty 0)"
      by (simp only: set_all ball_simps lessThan_iff Ball_def imp_conjL simp_thms image_iff) blast
    finally show ?thesis
      by (simp only: mtrr_merge_uniform)
  qed
  have same: "snd ?r \<longrightarrow> fst ?r = ?ty 0"
    unfolding mtrr_merge_uniform by (simp add: mtrr_merge_same)
  have uc: "(\<exists>k < n. ?ty k = MEMORY_TYPE_UNCACHEABLE) \<longrightarrow> fst ?r = MEMORY_TYPE_UNCACHEABLE"
  proof
    assume "\<exists>k < n. ?ty k = MEMORY_TYPE_UNCACHEABLE"
    then have "MEMORY_TYPE_UNCACHEABLE \<in> insert (?ty 0) (set ?ts)"
      unfolding set_all by force
    then show "fst ?r = MEMORY_TYPE_UNCACHEABLE"
      by (auto simp: mtrr_merge_uc_start mtrr_merge_uc)
  qed
  show ?thesis
    by (intro exI conjI, rule r [unfolded ty0], rule uni [unfolded ty0], rule same [unfolded ty0], rule uc [unfolded ty0])
qed

definition flat_state :: "u8 \<Rightarrow> mtrr_state" where
  "flat_state t = \<lparr>mtrr_enable = True, fixed_range_mtrr_enable = False, default_memory_type = t,
     fixed_supported = True, fixed = replicate 88 0, variable = [], variable_count = 0\<rparr>"

theorem range_type_correct_witness:
  "\<exists>t uniform. get_mtrr_range_memory_type (flat_state 6) 0x200000 (of_nat 512 * 0x1000) = Some (t, uniform) \<and>
     (uniform \<longrightarrow> t = get_mtrr_memory_type_single (flat_state 6) 0x200000)"
  using range_type_correct [of "0x200000" 512 "flat_state 6"] by auto

text \<open>
  Every fixed-range lookup stays inside the table of 88 fixed types, and what \<open>read_mtrrs\<close>
  leaves in the state has 88 fixed types and 255 variable pairs, so the variable loop stays in
  its array as well.
\<close>

theorem mtrr_tables_in_range:
  "(pa < 0x100000 \<longrightarrow> fixed_index pa < length (fixed (read_mtrrs lay rdmsr))) \<and>
   length (variable (read_mtrrs lay rdmsr)) = 255 \<and>
   unat (variable_count (read_mtrrs lay rdmsr)) \<le> 255"
proof -
  have cnt: "unat (c :: u8) \<le> 255" for c
    using unsigned_less [of c, where ?'a = nat] by simp
  show ?thesis
    using fixed_index_bound [of pa] cnt
    by (auto simp: read_mtrrs_def Let_def length_msr_bytes fix16k_msrs_def fix4k_msrs_def)
qed

definition demo_layout :: mtrr_layout where
  "demo_layout = \<lparr>lay_variable_range_count = ucast, lay_fixed_range_supported = (\<lambda>v. bit v 8),
     lay_mtrr_enable = (\<lambda>v. bit v 11), lay_fixed_enable = (\<lambda>v. bit v 10),
     lay_default_type = ucast, lay_physbase_pfn = bit_field 12 36, lay_physbase_type = ucast,
     lay_physmask_pfn = bit_field 12 36, lay_physmask_valid = (\<lambda>v. bit v 11)\<rparr>"

theorem mtrr_tables_in_range_witness:
  "(0xFFFFF :: u64) < 0x100000 \<and> fixed_index 0xFFFFF < length (fixed (read_mtrrs demo_layout (\<lambda>_. 0xD06)))"
  using mtrr_tables_in_range [of "0xFFFFF" demo_layout "\<lambda>_. 0xD06"] by simp

text \<open>
  Two enabled variable ranges that cover the same address with the same type, other than
  uncacheable, make it uncacheable in \<open>get_mtrr_memory_type_single\<close>. The processor manual gives
  such an address the common type; the equality test that \<open>get_mtrr_range_memory_type\<close> has is
  missing from the loop over the variable ranges.
\<close>

theorem identical_overlap_is_uncacheable:
  assumes "mtrr_enable st" and "\<not> fixed_range_mtrr_enable st"
    and "take (unat (variable_count st)) (variable st) = [v1, v2]"
    and "mtrr_matches v1 pa" and "mtrr_matches v2 pa"
    and "base_type v1 = base_type v2" and "base_type v1 \<noteq> MEMORY_TYPE_INVALID"
  shows "get_mtrr_memory_type_single st pa = MEMORY_TYPE_UNCACHEABLE"
  using assms by (auto simp: get_mtrr_memory_type_single_def mtrr_combine_def memory_type_defs)

definition wb_range :: mtrr_variable where
  "wb_range = \<lparr>base_pfn = 0x100, base_type = MEMORY_TYPE_WRITE_BACK, mask_pfn = 0xFFFFF00, mask_valid = True\<rparr>"

theorem identical_overlap_is_uncacheable_witness:
  "get_mtrr_memory_type_single ((flat_state 6)\<lparr>variable := [wb_range, wb_range], variable_count := 2\<rparr>) 0x100000
     = MEMORY_TYPE_UNCACHEABLE"
  by (rule identical_overlap_is_uncacheable [of _ wb_range wb_range])
     (simp_all add: flat_state_def wb_range_def mtrr_matches_def memory_type_defs)

end
