(* ===== verification/Ept.thy ===== *)
theory Ept
  imports Address Mtrr
begin

text \<open>
  The extended page tables of \<open>revhv-km/ept.h\<close> and \<open>revhv-km/ept.cpp\<close>: one PML4 entry, 512 PDPT
  entries, 512 times 512 page directory slots that are 2 MB pages or point to a page table split
  off from one, a pool of 256 such page tables, and the EPT hooks.

  The union of a 2 MB entry and a pointer to a page table is a datatype; its tag is the bit
  \<open>large_page\<close> that both views share. The page tables of the pool are found through their
  physical frame number, in the entries of the directory and in the pointers the hooks keep, so
  they live in a memory indexed by frame number: \<open>split_pte[k]\<close> is the frame
  \<open>split_pte_pfns k\<close>, and a pointer to a page table entry is a frame number and an index. The
  frame numbers themselves come from \<open>MmGetPhysicalAddress\<close>, a function of the kernel: they are
  arguments of the initialisation.
\<close>

section \<open>Tables\<close>

definition ept_pd_count :: nat where "ept_pd_count = 512"
definition ept_split_pte_count :: nat where "ept_split_pte_count = 256"
definition ept_max_hook_count :: nat where "ept_max_hook_count = 32"

lemmas ept_counts [simp] = ept_pd_count_def ept_split_pte_count_def ept_max_hook_count_def

text \<open>A 2 MB page directory entry and a page table entry have the same fields.\<close>

record ept_leaf =
  read_access :: bool
  write_access :: bool
  execute_access :: bool
  memory_type :: u8
  ignore_pat :: bool
  accessed :: bool
  dirty :: bool
  user_mode_execute :: bool
  verify_guest_paging :: bool
  paging_write_access :: bool
  supervisor_shadow_stack :: bool
  suppress_ve :: bool
  page_frame_number :: u64

type_synonym ept_pte = ept_leaf
type_synonym ept_pde_2mb = ept_leaf

text \<open>An entry that points to another table.\<close>

record ept_table =
  t_read_access :: bool
  t_write_access :: bool
  t_execute_access :: bool
  t_user_mode_execute :: bool
  t_page_frame_number :: u64

datatype ept_pd_slot = Large ept_pde_2mb | Split ept_table

type_synonym pte_ptr = "u64 \<times> nat"

record ept_hook =
  orig_pfn :: u32
  hook_pfn :: u32
  hk_pte :: "pte_ptr option"

record ept_pages =
  pml4e0 :: ept_table
  pdpte :: "nat \<Rightarrow> ept_table"
  pde :: "nat \<Rightarrow> nat \<Rightarrow> ept_pd_slot"
  pt_frames :: "u64 \<Rightarrow> nat \<Rightarrow> ept_pte"
  split_pte_pfns :: "nat \<Rightarrow> u64"
  split_pte_used :: nat
  hooks :: "ept_hook list"

definition zero_leaf :: ept_leaf where
  "zero_leaf = \<lparr>read_access = False, write_access = False, execute_access = False, memory_type = 0,
     ignore_pat = False, accessed = False, dirty = False, user_mode_execute = False,
     verify_guest_paging = False, paging_write_access = False, supervisor_shadow_stack = False,
     suppress_ve = False, page_frame_number = 0\<rparr>"

definition zero_table :: ept_table where
  "zero_table = \<lparr>t_read_access = False, t_write_access = False, t_execute_access = False,
     t_user_mode_execute = False, t_page_frame_number = 0\<rparr>"

section \<open>Operations\<close>

definition set_perm :: "bool \<Rightarrow> bool \<Rightarrow> bool \<Rightarrow> ept_leaf \<Rightarrow> ept_leaf" where
  "set_perm r w x l = l\<lparr>read_access := r, write_access := w, execute_access := x\<rparr>"

definition set_all_permissions :: "ept_pages \<Rightarrow> bool \<Rightarrow> bool \<Rightarrow> bool \<Rightarrow> ept_pages" where
  "set_all_permissions ep r w x =
     ep\<lparr>pde := (\<lambda>i j. if i < ept_pd_count \<and> j < 512
                     then (case pde ep i j of Large l \<Rightarrow> Large (set_perm r w x l) | Split t \<Rightarrow> Split t)
                     else pde ep i j),
        pt_frames := (\<lambda>p n. if p \<in> set (map (split_pte_pfns ep) [0..<ept_split_pte_count]) \<and> n < 512
                           then set_perm r w x (pt_frames ep p n) else pt_frames ep p n)\<rparr>"

text \<open>The result is the index of the page table taken from the pool, if the split succeeds.\<close>

definition split_pde :: "ept_pages \<Rightarrow> nat \<Rightarrow> nat \<Rightarrow> ept_pages \<times> nat option" where
  "split_pde ep i j =
     (case pde ep i j of
        Split t \<Rightarrow> (ep, None)
      | Large l \<Rightarrow>
          if split_pte_used ep \<ge> ept_split_pte_count then (ep, None)
          else let k = split_pte_used ep; pt_pfn = split_pte_pfns ep k;
                   pt = (\<lambda>n. if n < 512 then
                               zero_leaf\<lparr>read_access := read_access l, write_access := write_access l,
                                 execute_access := execute_access l, memory_type := memory_type l,
                                 ignore_pat := ignore_pat l, accessed := accessed l, dirty := dirty l,
                                 user_mode_execute := user_mode_execute l,
                                 verify_guest_paging := verify_guest_paging l,
                                 paging_write_access := paging_write_access l,
                                 supervisor_shadow_stack := supervisor_shadow_stack l,
                                 suppress_ve := suppress_ve l,
                                 page_frame_number := push_bit 9 (page_frame_number l) + of_nat n\<rparr>
                             else pt_frames ep pt_pfn n)
               in (ep\<lparr>split_pte_used := k + 1,
                      pt_frames := (pt_frames ep)(pt_pfn := pt),
                      pde := (pde ep)(i := (pde ep i)(j :=
                        Split (zero_table\<lparr>t_read_access := True, t_write_access := True,
                          t_execute_access := True, t_user_mode_execute := True,
                          t_page_frame_number := pt_pfn\<rparr>)))\<rparr>, Some k))"

definition set_large_type :: "ept_pages \<Rightarrow> nat \<Rightarrow> nat \<Rightarrow> u8 \<Rightarrow> ept_pages" where
  "set_large_type ep i j ty =
     (case pde ep i j of
        Large l \<Rightarrow> ep\<lparr>pde := (pde ep)(i := (pde ep i)(j := Large (l\<lparr>memory_type := ty\<rparr>)))\<rparr>
      | Split t \<Rightarrow> ep)"

text \<open>
  Memory types of the entries \<open>ns\<close> of page table \<open>k\<close> of the pool. The flag of the result is
  \<open>False\<close> when the function is left early, at a page whose type is not uniform.
\<close>

fun set_pt_types :: "mtrr_state \<Rightarrow> nat \<Rightarrow> nat list \<Rightarrow> ept_pages \<Rightarrow> (bool \<times> ept_pages) option" where
  "set_pt_types st k [] ep = Some (True, ep)"
| "set_pt_types st k (n # ns) ep =
     (let p = split_pte_pfns ep k; l = pt_frames ep p n
      in case get_mtrr_range_memory_type st (push_bit 12 (page_frame_number l)) 0x1000 of
           None \<Rightarrow> None
         | Some (ty, uniform) \<Rightarrow>
             if \<not> uniform then Some (False, ep)
             else set_pt_types st k ns
                    (ep\<lparr>pt_frames := (pt_frames ep)(p := (pt_frames ep p)(n := l\<lparr>memory_type := ty\<rparr>))\<rparr>))"

text \<open>The 2 MB entry the initialisation writes before it knows the memory type.\<close>

definition fresh_large :: "nat \<Rightarrow> nat \<Rightarrow> ept_leaf" where
  "fresh_large i j = zero_leaf\<lparr>read_access := True, write_access := True, execute_access := True,
     page_frame_number := push_bit 9 (of_nat i) + of_nat j\<rparr>"

definition init_pde :: "mtrr_state \<Rightarrow> nat \<Rightarrow> nat \<Rightarrow> ept_pages \<Rightarrow> (bool \<times> ept_pages) option" where
  "init_pde st i j ep0 =
     (let ep = ep0\<lparr>pde := (pde ep0)(i := (pde ep0 i)(j := Large (fresh_large i j)))\<rparr>
      in case get_mtrr_range_memory_type st (push_bit 21 (page_frame_number (fresh_large i j))) 0x200000 of
           None \<Rightarrow> None
         | Some (ty, uniform) \<Rightarrow>
             if uniform then Some (True, set_large_type ep i j ty)
             else (case split_pde ep i j of
                     (ep', None) \<Rightarrow> Some (True, set_large_type ep' i j ty)
                   | (ep', Some k) \<Rightarrow> set_pt_types st k [0..<512] ep'))"

fun init_pdes :: "mtrr_state \<Rightarrow> nat \<Rightarrow> nat list \<Rightarrow> ept_pages \<Rightarrow> (bool \<times> ept_pages) option" where
  "init_pdes st i [] ep = Some (True, ep)"
| "init_pdes st i (j # js) ep =
     (case init_pde st i j ep of
        None \<Rightarrow> None
      | Some (False, ep') \<Rightarrow> Some (False, ep')
      | Some (True, ep') \<Rightarrow> init_pdes st i js ep')"

definition set_pdpte :: "nat \<Rightarrow> u64 \<Rightarrow> ept_pages \<Rightarrow> ept_pages" where
  "set_pdpte i pfn ep =
     ep\<lparr>pdpte := (pdpte ep)(i := (pdpte ep i)\<lparr>t_read_access := True, t_write_access := True,
                                t_execute_access := True, t_page_frame_number := pfn\<rparr>)\<rparr>"

fun init_pdptes :: "mtrr_state \<Rightarrow> (nat \<Rightarrow> u64) \<Rightarrow> nat list \<Rightarrow> ept_pages \<Rightarrow> (bool \<times> ept_pages) option" where
  "init_pdptes st pd_pfn [] ep = Some (True, ep)"
| "init_pdptes st pd_pfn (i # is) ep =
     (case init_pdes st i [0..<512] (set_pdpte i (pd_pfn i) ep) of
        None \<Rightarrow> None
      | Some (False, ep') \<Rightarrow> Some (False, ep')
      | Some (True, ep') \<Rightarrow> init_pdptes st pd_pfn is ep')"

text \<open>
  The frame numbers of the page tables of the pool, of the PDPT and of the page directories.
\<close>

record ept_phys =
  ph_split :: "nat \<Rightarrow> u64"
  ph_pdpt :: u64
  ph_pd :: "nat \<Rightarrow> u64"

definition zeroed_ept :: "ept_phys \<Rightarrow> ept_pages" where
  "zeroed_ept ph = \<lparr>pml4e0 = zero_table, pdpte = (\<lambda>_. zero_table), pde = (\<lambda>_ _. Split zero_table),
     pt_frames = (\<lambda>_ _. zero_leaf), split_pte_pfns = ph_split ph, split_pte_used = 0, hooks = []\<rparr>"

definition initialize_ept :: "ept_phys \<Rightarrow> mtrr_state \<Rightarrow> ept_pages option" where
  "initialize_ept ph st =
     map_option snd
       (init_pdptes st (ph_pd ph) [0..<ept_pd_count]
         ((zeroed_ept ph)\<lparr>pml4e0 := zero_table\<lparr>t_read_access := True, t_write_access := True,
             t_execute_access := True, t_page_frame_number := ph_pdpt ph\<rparr>\<rparr>))"

definition update_pde :: "mtrr_state \<Rightarrow> nat \<Rightarrow> nat \<Rightarrow> ept_pages \<Rightarrow> ept_pages option" where
  "update_pde st i j ep =
     (case pde ep i j of
        Split t \<Rightarrow> Some ep
      | Large l \<Rightarrow>
          (case get_mtrr_range_memory_type st (push_bit 21 (page_frame_number l)) 0x200000 of
             None \<Rightarrow> None
           | Some (ty, uniform) \<Rightarrow>
               if uniform then Some (set_large_type ep i j ty)
               else (case split_pde ep i j of
                       (ep', None) \<Rightarrow> Some (set_large_type ep' i j ty)
                     | (ep', Some k) \<Rightarrow> Some ep')))"

fun update_pdes :: "mtrr_state \<Rightarrow> nat \<Rightarrow> nat list \<Rightarrow> ept_pages \<Rightarrow> ept_pages option" where
  "update_pdes st i [] ep = Some ep"
| "update_pdes st i (j # js) ep = Option.bind (update_pde st i j ep) (update_pdes st i js)"

fun update_split_pts :: "mtrr_state \<Rightarrow> nat list \<Rightarrow> ept_pages \<Rightarrow> (bool \<times> ept_pages) option" where
  "update_split_pts st [] ep = Some (True, ep)"
| "update_split_pts st (k # ks) ep =
     (case set_pt_types st k [0..<512] ep of
        None \<Rightarrow> None
      | Some (False, ep') \<Rightarrow> Some (False, ep')
      | Some (True, ep') \<Rightarrow> update_split_pts st ks ep')"

fun update_pdptes :: "mtrr_state \<Rightarrow> (nat \<Rightarrow> u64) \<Rightarrow> nat list \<Rightarrow> ept_pages \<Rightarrow> (bool \<times> ept_pages) option" where
  "update_pdptes st pd_pfn [] ep = Some (True, ep)"
| "update_pdptes st pd_pfn (i # is) ep =
     Option.bind (update_pdes st i [0..<512] (set_pdpte i (pd_pfn i) ep)) (\<lambda>ep1.
       case update_split_pts st [0..<split_pte_used ep1] ep1 of
         None \<Rightarrow> None
       | Some (False, ep') \<Rightarrow> Some (False, ep')
       | Some (True, ep') \<Rightarrow> update_pdptes st pd_pfn is ep')"

definition update_ept_memory_types :: "ept_phys \<Rightarrow> ept_pages \<Rightarrow> mtrr_state \<Rightarrow> ept_pages option" where
  "update_ept_memory_types ph ep st = map_option snd (update_pdptes st (ph_pd ph) [0..<ept_pd_count] ep)"

definition get_ept_pte :: "ept_pages \<Rightarrow> u64 \<Rightarrow> bool \<Rightarrow> ept_pages \<times> pte_ptr option" where
  "get_ept_pte ep gpa force_split =
     (let i = unat (pdpt_idx gpa); j = unat (pd_idx gpa); n = unat (pt_idx gpa) in
      if pml4_idx gpa \<noteq> 0 then (ep, None)
      else if i \<ge> ept_pd_count then (ep, None)
      else case pde ep i j of
             Split t \<Rightarrow> (ep, Some (t_page_frame_number t, n))
           | Large l \<Rightarrow>
               if \<not> force_split then (ep, None)
               else (case split_pde ep i j of
                       (ep', None) \<Rightarrow> (ep', None)
                     | (ep', Some k) \<Rightarrow>
                         (case pde ep' i j of
                            Split t \<Rightarrow> (ep', Some (t_page_frame_number t, n))
                          | Large l \<Rightarrow> (ep', None))))"

text \<open>A store through a pointer to a page table entry.\<close>

definition upd_pte :: "pte_ptr \<Rightarrow> (ept_pte \<Rightarrow> ept_pte) \<Rightarrow> ept_pages \<Rightarrow> ept_pages" where
  "upd_pte q f ep =
     ep\<lparr>pt_frames := (pt_frames ep)(fst q := (pt_frames ep (fst q))(snd q := f (pt_frames ep (fst q) (snd q))))\<rparr>"

definition add_hook :: "ept_pages \<Rightarrow> u64 \<Rightarrow> u64 \<Rightarrow> ept_pages \<times> bool" where
  "add_hook ep orig hook =
     (if length (hooks ep) \<ge> ept_max_hook_count then (ep, False)
      else case get_ept_pte ep (push_bit 12 orig) True of
             (ep1, None) \<Rightarrow> (ep1, False)
           | (ep1, Some q) \<Rightarrow>
               (upd_pte q (\<lambda>l. l\<lparr>execute_access := False\<rparr>)
                  (ep1\<lparr>hooks := hooks ep1 @ [\<lparr>orig_pfn = ucast orig, hook_pfn = ucast hook, hk_pte = Some q\<rparr>]\<rparr>),
                True))"

text \<open>The result is the index of the hook in the table.\<close>

fun find_hook :: "ept_hook list \<Rightarrow> u64 \<Rightarrow> nat \<Rightarrow> nat option" where
  "find_hook [] pfn i = None"
| "find_hook (h # hs) pfn i = (if ucast (orig_pfn h) = pfn then Some i else find_hook hs pfn (i + 1))"

definition get_hook_by_orig_pfn :: "ept_pages \<Rightarrow> u64 \<Rightarrow> nat option" where
  "get_hook_by_orig_pfn ep pfn = find_hook (hooks ep) pfn 0"

definition deactivate_hook :: "nat \<Rightarrow> ept_pages \<Rightarrow> ept_pages" where
  "deactivate_hook i ep =
     (let h = hooks ep ! i in
      case hk_pte h of
        None \<Rightarrow> ep
      | Some q \<Rightarrow>
          (upd_pte q (\<lambda>l. l\<lparr>read_access := True, write_access := True, execute_access := True,
                            page_frame_number := ucast (orig_pfn h)\<rparr>) ep)
          \<lparr>hooks := (hooks ep)[i := h\<lparr>hk_pte := None\<rparr>]\<rparr>)"

definition deactivate_hooks :: "ept_pages \<Rightarrow> ept_pages" where
  "deactivate_hooks ep = fold deactivate_hook [0..<length (hooks ep)] ep"

definition reactivate_hook :: "nat \<Rightarrow> ept_pages \<Rightarrow> ept_pages" where
  "reactivate_hook i ep =
     (let h = hooks ep ! i in
      case hk_pte h of
        Some q \<Rightarrow> ep
      | None \<Rightarrow>
          (case get_ept_pte ep (push_bit 12 (ucast (orig_pfn h))) False of
             (ep1, None) \<Rightarrow> ep1
           | (ep1, Some q) \<Rightarrow>
               (upd_pte q (\<lambda>l. l\<lparr>page_frame_number := ucast (orig_pfn h), execute_access := False\<rparr>) ep1)
               \<lparr>hooks := (hooks ep1)[i := h\<lparr>hk_pte := Some q\<rparr>]\<rparr>))"

definition reactivate_hooks :: "ept_pages \<Rightarrow> ept_pages" where
  "reactivate_hooks ep = fold reactivate_hook [0..<length (hooks ep)] ep"

text \<open>
  The translation \<open>memory::gva_to_gpa\<close> with the system page tables is the argument \<open>xlate\<close>; 0
  stands for an address that is not mapped. The bounds of the loop are multiples of the page
  size, so that it visits the offsets \<open>0, 0x1000, \<dots>\<close> below the aligned size.
\<close>

fun auto_trace_loop ::
  "(u64 \<Rightarrow> u64) \<Rightarrow> u64 \<Rightarrow> u64 list \<Rightarrow> ept_pages \<Rightarrow> ept_pages \<Rightarrow> bool \<times> ept_pages \<times> ept_pages" where
  "auto_trace_loop xlate va [] nrm tgt = (True, nrm, tgt)"
| "auto_trace_loop xlate va (off # offs) nrm tgt =
     (let gpa = xlate (va + off) in
      if gpa = 0 then auto_trace_loop xlate va offs nrm tgt
      else let (nrm1, qn) = get_ept_pte nrm gpa True; (tgt1, qt) = get_ept_pte tgt gpa True in
           case (qn, qt) of
             (Some q, Some q') \<Rightarrow>
               auto_trace_loop xlate va offs
                 (upd_pte q (\<lambda>l. l\<lparr>execute_access := False\<rparr>) nrm1)
                 (upd_pte q' (\<lambda>l. l\<lparr>execute_access := True\<rparr>) tgt1)
           | _ \<Rightarrow> (False, set_all_permissions nrm1 True True True,
                         set_all_permissions tgt1 True True True))"

definition page_offsets :: "u64 \<Rightarrow> u64 list" where
  "page_offsets aligned_size = map (\<lambda>k. of_nat k * 0x1000) [0..<unat aligned_size div 0x1000]"

definition enable_auto_trace ::
  "(u64 \<Rightarrow> u64) \<Rightarrow> ept_pages \<Rightarrow> ept_pages \<Rightarrow> u64 \<Rightarrow> u64 \<Rightarrow> bool \<times> ept_pages \<times> ept_pages" where
  "enable_auto_trace xlate nrm tgt va sz =
     (let page_aligned_va = va AND NOT 0xFFF;
          page_aligned_end = (va + sz + 0xFFF) AND NOT 0xFFF;
          aligned_size = page_aligned_end - page_aligned_va
      in auto_trace_loop xlate page_aligned_va (page_offsets aligned_size)
           nrm (set_all_permissions tgt True True False))"

definition restore_auto_trace :: "ept_pages \<Rightarrow> ept_pages \<Rightarrow> ept_pages \<times> ept_pages" where
  "restore_auto_trace nrm tgt =
     (set_all_permissions nrm True True True, set_all_permissions tgt True True True)"

end
