(* ===== verification/Ept_Walk.thy ===== *)
theory Ept_Walk
  imports Ept
begin

text \<open>
  What the extended page tables mean: the 4 KB view of every directory slot, the walk of the
  processor, the well-formedness of the tables, and how the basic operations of \<open>Ept\<close> (splitting
  a 2 MB page, looking up a page table entry, storing through a pointer, changing all
  permissions, setting memory types) act on that view.
\<close>

named_theorems ept_view "effect of table operations on the 4 KB view"

section \<open>The 4 KB view and the walk\<close>

definition leaf_at :: "ept_pages \<Rightarrow> nat \<Rightarrow> nat \<Rightarrow> nat \<Rightarrow> ept_leaf" where
  "leaf_at ep i j n =
     (case pde ep i j of
        Split t \<Rightarrow> pt_frames ep (t_page_frame_number t) n
      | Large l \<Rightarrow> l\<lparr>page_frame_number := push_bit 9 (page_frame_number l) + of_nat n\<rparr>)"

definition rwx_table :: "ept_table \<Rightarrow> bool" where
  "rwx_table t \<longleftrightarrow> t_read_access t \<and> t_write_access t \<and> t_execute_access t"

definition rwx_leaf :: "ept_leaf \<Rightarrow> bool" where
  "rwx_leaf l \<longleftrightarrow> read_access l \<and> write_access l \<and> execute_access l"

record ept_access =
  a_read :: bool
  a_write :: bool
  a_execute :: bool
  a_pfn :: u64
  a_type :: u8

text \<open>
  The processor multiplies the permissions of all levels; an entry of an upper level with no
  permission at all is not present.
\<close>

definition ept_walk :: "ept_pages \<Rightarrow> u64 \<Rightarrow> ept_access option" where
  "ept_walk ep gpa =
     (let i = unat (pdpt_idx gpa); j = unat (pd_idx gpa); n = unat (pt_idx gpa);
          tabs = pml4e0 ep # pdpte ep i # (case pde ep i j of Split t \<Rightarrow> [t] | Large l \<Rightarrow> []);
          l = leaf_at ep i j n
      in if pml4_idx gpa \<noteq> 0
            \<or> (\<exists>t \<in> set tabs. \<not> t_read_access t \<and> \<not> t_write_access t \<and> \<not> t_execute_access t)
         then None
         else Some \<lparr>a_read = (list_all t_read_access tabs \<and> read_access l),
                    a_write = (list_all t_write_access tabs \<and> write_access l),
                    a_execute = (list_all t_execute_access tabs \<and> execute_access l),
                    a_pfn = page_frame_number l, a_type = memory_type l\<rparr>)"

section \<open>Well-formed tables\<close>

definition slots :: "(nat \<times> nat) set" where
  "slots = {..<512} \<times> {..<512}"

lemma slots_iff [simp]: "(i, j) \<in> slots \<longleftrightarrow> i < 512 \<and> j < 512"
  by (simp add: slots_def)

definition ept_wf_on :: "(nat \<times> nat) set \<Rightarrow> ept_pages \<Rightarrow> bool" where
  "ept_wf_on S ep \<longleftrightarrow>
     inj_on (split_pte_pfns ep) {..<256} \<and> split_pte_used ep \<le> 256 \<and>
     (\<forall>i j t. (i, j) \<in> S \<and> pde ep i j = Split t \<longrightarrow>
        rwx_table t \<and> t_page_frame_number t \<in> split_pte_pfns ep ` {..<split_pte_used ep}) \<and>
     (\<forall>i j t i' j' t'. (i, j) \<in> S \<and> pde ep i j = Split t \<and> (i', j') \<in> S \<and> pde ep i' j' = Split t' \<and>
        t_page_frame_number t = t_page_frame_number t' \<longrightarrow> i = i' \<and> j = j')"

definition tables_open :: "ept_pages \<Rightarrow> bool" where
  "tables_open ep \<longleftrightarrow> rwx_table (pml4e0 ep) \<and> (\<forall>i < 512. rwx_table (pdpte ep i))"

definition ept_wf :: "ept_pages \<Rightarrow> bool" where
  "ept_wf ep \<longleftrightarrow> ept_wf_on slots ep \<and> tables_open ep"

definition ident_pfn :: "nat \<Rightarrow> nat \<Rightarrow> nat \<Rightarrow> u64" where
  "ident_pfn i j n = of_nat ((i * 512 + j) * 512 + n)"

definition leaves_on :: "(nat \<times> nat) set \<Rightarrow> (nat \<Rightarrow> nat \<Rightarrow> nat \<Rightarrow> ept_leaf \<Rightarrow> bool) \<Rightarrow> ept_pages \<Rightarrow> bool" where
  "leaves_on S P ep \<longleftrightarrow> (\<forall>i j n. (i, j) \<in> S \<and> n < 512 \<longrightarrow> P i j n (leaf_at ep i j n))"

definition same_view_on :: "(nat \<times> nat) set \<Rightarrow> ept_pages \<Rightarrow> ept_pages \<Rightarrow> bool" where
  "same_view_on S ep ep' \<longleftrightarrow> (\<forall>i j n. (i, j) \<in> S \<and> n < 512 \<longrightarrow> leaf_at ep' i j n = leaf_at ep i j n)"

abbreviation same_view :: "ept_pages \<Rightarrow> ept_pages \<Rightarrow> bool" where
  "same_view \<equiv> same_view_on slots"

lemma same_view_refl [simp]: "same_view_on S ep ep"
  by (simp add: same_view_on_def)

lemma same_view_trans: "same_view_on S a b \<Longrightarrow> same_view_on S b c \<Longrightarrow> same_view_on S a c"
  by (simp add: same_view_on_def)

lemma leaves_on_same_view: "same_view_on S ep ep' \<Longrightarrow> leaves_on S P ep' = leaves_on S P ep"
  by (auto simp: leaves_on_def same_view_on_def)

lemma ept_wf_onD:
  assumes "ept_wf_on S ep" and "(i, j) \<in> S" and "pde ep i j = Split t"
  shows "rwx_table t" and "\<exists>k < split_pte_used ep. t_page_frame_number t = split_pte_pfns ep k"
proof -
  have "rwx_table t \<and> t_page_frame_number t \<in> split_pte_pfns ep ` {..<split_pte_used ep}"
    using assms unfolding ept_wf_on_def by blast
  then show "rwx_table t" "\<exists>k < split_pte_used ep. t_page_frame_number t = split_pte_pfns ep k"
    by auto
qed

lemma ept_wf_on_unique:
  "ept_wf_on S ep \<Longrightarrow> (i, j) \<in> S \<Longrightarrow> pde ep i j = Split t \<Longrightarrow> (i', j') \<in> S \<Longrightarrow> pde ep i' j' = Split t' \<Longrightarrow>
   t_page_frame_number t = t_page_frame_number t' \<Longrightarrow> i = i' \<and> j = j'"
  unfolding ept_wf_on_def by blast

lemma ept_wf_onI:
  assumes "inj_on (split_pte_pfns ep) {..<256}" and "split_pte_used ep \<le> 256"
    and "\<And>i j t. (i, j) \<in> S \<Longrightarrow> pde ep i j = Split t \<Longrightarrow> rwx_table t"
    and "\<And>i j t. (i, j) \<in> S \<Longrightarrow> pde ep i j = Split t \<Longrightarrow>
      \<exists>k < split_pte_used ep. t_page_frame_number t = split_pte_pfns ep k"
    and "\<And>i j t i' j' t'. (i, j) \<in> S \<Longrightarrow> pde ep i j = Split t \<Longrightarrow> (i', j') \<in> S \<Longrightarrow> pde ep i' j' = Split t' \<Longrightarrow>
      t_page_frame_number t = t_page_frame_number t' \<Longrightarrow> i = i' \<and> j = j'"
  shows "ept_wf_on S ep"
  unfolding ept_wf_on_def
proof (intro conjI allI impI)
  fix i j t
  assume a: "(i, j) \<in> S \<and> pde ep i j = Split t"
  then show "rwx_table t" using assms(3) by blast
  show "t_page_frame_number t \<in> split_pte_pfns ep ` {..<split_pte_used ep}"
    using assms(4) a by blast
qed (use assms in blast)+

lemma ept_wf_on_subset:
  assumes "ept_wf_on S' ep" and sub: "S \<subseteq> S'"
  shows "ept_wf_on S ep"
proof (rule ept_wf_onI)
  show "inj_on (split_pte_pfns ep) {..<256}" "split_pte_used ep \<le> 256"
    using assms(1) by (simp_all add: ept_wf_on_def)
  show "rwx_table t" "\<exists>k < split_pte_used ep. t_page_frame_number t = split_pte_pfns ep k"
    if "(i, j) \<in> S" "pde ep i j = Split t" for i j t
    using ept_wf_onD [OF assms(1) subsetD [OF sub that(1)] that(2)] by simp_all
  show "i = i' \<and> j = j'" if "(i, j) \<in> S" "pde ep i j = Split t" "(i', j') \<in> S" "pde ep i' j' = Split t'"
    "t_page_frame_number t = t_page_frame_number t'" for i j t i' j' t'
    by (rule ept_wf_on_unique [OF assms(1) subsetD [OF sub that(1)] that(2) subsetD [OF sub that(3)] that(4,5)])
qed

text \<open>In well-formed tables the walk is the 4 KB view.\<close>

lemma ept_walk_wf:
  assumes "ept_wf ep" and "pml4_idx gpa = 0"
  shows "ept_walk ep gpa =
     (let l = leaf_at ep (unat (pdpt_idx gpa)) (unat (pd_idx gpa)) (unat (pt_idx gpa))
      in Some \<lparr>a_read = read_access l, a_write = write_access l, a_execute = execute_access l,
               a_pfn = page_frame_number l, a_type = memory_type l\<rparr>)"
proof -
  let ?i = "unat (pdpt_idx gpa)" and ?j = "unat (pd_idx gpa)"
  have "rwx_table (pml4e0 ep)" "rwx_table (pdpte ep ?i)"
    using assms(1) by (simp_all add: ept_wf_def tables_open_def)
  moreover have "rwx_table t" if "pde ep ?i ?j = Split t" for t
    using assms(1) that ept_wf_onD(1) [of slots ep ?i ?j] by (simp add: ept_wf_def)
  ultimately show ?thesis
    using assms(2) by (auto simp: ept_walk_def rwx_table_def Let_def split: ept_pd_slot.splits)
qed

section \<open>Splitting\<close>

lemma split_pde_fails: "split_pde ep i j = (ep', None) \<Longrightarrow> ep' = ep"
  by (auto simp: split_pde_def Let_def split: ept_pd_slot.splits if_splits)

lemma copy_leaf:
  "zero_leaf\<lparr>read_access := read_access l, write_access := write_access l,
     execute_access := execute_access l, memory_type := memory_type l, ignore_pat := ignore_pat l,
     accessed := accessed l, dirty := dirty l, user_mode_execute := user_mode_execute l,
     verify_guest_paging := verify_guest_paging l, paging_write_access := paging_write_access l,
     supervisor_shadow_stack := supervisor_shadow_stack l, suppress_ve := suppress_ve l,
     page_frame_number := p\<rparr> = l\<lparr>page_frame_number := p\<rparr>"
  by (cases l) (simp add: zero_leaf_def)

lemma split_pde_some:
  assumes "split_pde ep i j = (ep', Some k)"
  obtains l where "pde ep i j = Large l" and "split_pte_used ep < 256" and "k = split_pte_used ep"
    and "split_pte_used ep' = k + 1" and "split_pte_pfns ep' = split_pte_pfns ep"
    and "\<exists>t. pde ep' = (pde ep)(i := (pde ep i)(j := Split t)) \<and> rwx_table t \<and>
             t_page_frame_number t = split_pte_pfns ep k"
    and "\<And>n. n < 512 \<Longrightarrow> pt_frames ep' (split_pte_pfns ep k) n =
             l\<lparr>page_frame_number := push_bit 9 (page_frame_number l) + of_nat n\<rparr>"
    and "\<And>p. p \<noteq> split_pte_pfns ep k \<Longrightarrow> pt_frames ep' p = pt_frames ep p"
    and "hooks ep' = hooks ep" and "pml4e0 ep' = pml4e0 ep" and "pdpte ep' = pdpte ep"
proof -
  obtain l where l: "pde ep i j = Large l" and u: "split_pte_used ep < 256"
    using assms by (auto simp: split_pde_def Let_def split: ept_pd_slot.splits if_splits)
  let ?t = "zero_table\<lparr>t_read_access := True, t_write_access := True, t_execute_access := True,
     t_user_mode_execute := True, t_page_frame_number := split_pte_pfns ep (split_pte_used ep)\<rparr>"
  have ep': "ep' = ep\<lparr>split_pte_used := k + 1,
      pt_frames := (pt_frames ep)(split_pte_pfns ep k := (\<lambda>n. if n < 512
        then l\<lparr>page_frame_number := push_bit 9 (page_frame_number l) + of_nat n\<rparr>
        else pt_frames ep (split_pte_pfns ep k) n)),
      pde := (pde ep)(i := (pde ep i)(j := Split ?t))\<rparr>" and k: "k = split_pte_used ep"
    using assms l u unfolding split_pde_def Let_def copy_leaf by auto
  have "\<exists>t. pde ep' = (pde ep)(i := (pde ep i)(j := Split t)) \<and> rwx_table t \<and>
             t_page_frame_number t = split_pte_pfns ep k"
    by (rule exI [of _ ?t]) (simp add: ep' k rwx_table_def)
  then show ?thesis
    using l u k by (rule_tac that) (simp_all add: ep')
qed

lemma split_pde_pool_left:
  "pde ep i j = Large l \<Longrightarrow> split_pte_used ep < 256 \<Longrightarrow> \<exists>ep' k. split_pde ep i j = (ep', Some k)"
  by (simp add: split_pde_def Let_def)

lemma split_pde_view:
  assumes "ept_wf_on S ep" and "(i, j) \<in> S" and "split_pde ep i j = (ep', Some k)"
  shows "ept_wf_on S ep'" and "same_view_on S ep ep'"
proof -
  from assms(3) obtain l t where s: "pde ep i j = Large l" "split_pte_used ep < 256"
    "k = split_pte_used ep" "split_pte_used ep' = k + 1" "split_pte_pfns ep' = split_pte_pfns ep"
    "pde ep' = (pde ep)(i := (pde ep i)(j := Split t))" "rwx_table t"
    "t_page_frame_number t = split_pte_pfns ep k"
    "\<And>n. n < 512 \<Longrightarrow> pt_frames ep' (split_pte_pfns ep k) n =
         l\<lparr>page_frame_number := push_bit 9 (page_frame_number l) + of_nat n\<rparr>"
    "\<And>p. p \<noteq> split_pte_pfns ep k \<Longrightarrow> pt_frames ep' p = pt_frames ep p"
    by (rule split_pde_some) blast
  have fresh: "t_page_frame_number u \<noteq> split_pte_pfns ep k"
    if h: "(a, b) \<in> S" "pde ep a b = Split u" for a b u
  proof -
    obtain m where "m < k" "t_page_frame_number u = split_pte_pfns ep m"
      using ept_wf_onD(2) [OF assms(1) h] s(3) by blast
    moreover have "inj_on (split_pte_pfns ep) {..<256}"
      using assms(1) by (simp add: ept_wf_on_def)
    ultimately show ?thesis
      using s(2,3) by (auto dest: inj_onD)
  qed
  have old: "pde ep a b = Split u" if "pde ep' a b = Split u" "(a, b) \<noteq> (i, j)" for a b u
    using that s(6) by (auto split: if_splits)
  have new: "u = t" if "pde ep' i j = Split u" for u
    using that s(6) by simp
  have rng: "t_page_frame_number u \<in> split_pte_pfns ep' ` {..<split_pte_used ep'} \<and> rwx_table u"
    if "(a, b) \<in> S" "pde ep' a b = Split u" for a b u
  proof (cases "(a, b) = (i, j)")
    case True
    then show ?thesis
      using new that s by auto
  next
    case False
    then show ?thesis
      using ept_wf_onD [OF assms(1) that(1) old [OF that(2) False]] s(3,4,5) by auto
  qed
  have uniq: "a = c \<and> b = d" if "(a, b) \<in> S" "pde ep' a b = Split u" "(c, d) \<in> S" "pde ep' c d = Split v"
    "t_page_frame_number u = t_page_frame_number v" for a b c d u v
  proof (cases "(a, b) = (i, j)"; cases "(c, d) = (i, j)")
    assume "(a, b) \<noteq> (i, j)" "(c, d) \<noteq> (i, j)"
    then show ?thesis
      using ept_wf_on_unique [OF assms(1)] that old by blast
  next
    assume "(a, b) = (i, j)" "(c, d) \<noteq> (i, j)"
    then show ?thesis
      using fresh [OF that(3) old [OF that(4)]] new that s(8) by auto
  next
    assume "(a, b) \<noteq> (i, j)" "(c, d) = (i, j)"
    then show ?thesis
      using fresh [OF that(1) old [OF that(2)]] new that s(8) by auto
  qed auto
  show "ept_wf_on S ep'"
    using assms(1) rng uniq s(2-5) unfolding ept_wf_on_def by auto
  show "same_view_on S ep ep'"
    unfolding same_view_on_def
  proof (intro allI impI, elim conjE)
    fix a b n
    assume ab: "(a, b) \<in> S" and n: "n < (512::nat)"
    show "leaf_at ep' a b n = leaf_at ep a b n"
    proof (cases "(a, b) = (i, j)")
      case True
      with n s(1,6,8,9) show ?thesis
        by (simp add: leaf_at_def)
    next
      case False
      then have "pde ep' a b = pde ep a b"
        using s(6) by auto
      with s(10) fresh ab show ?thesis
        by (auto simp: leaf_at_def split: ept_pd_slot.splits)
    qed
  qed
qed


section \<open>Pointers to page table entries\<close>

text \<open>The pointer \<open>q\<close> is the address of the page table entry of \<open>gpa\<close>.\<close>

definition ptr_of :: "ept_pages \<Rightarrow> u64 \<Rightarrow> pte_ptr \<Rightarrow> bool" where
  "ptr_of ep gpa q \<longleftrightarrow>
     pml4_idx gpa = 0 \<and>
     (\<exists>t. pde ep (unat (pdpt_idx gpa)) (unat (pd_idx gpa)) = Split t \<and>
          q = (t_page_frame_number t, unat (pt_idx gpa)))"

lemma upd_pte_simps [simp]:
  "pde (upd_pte q f ep) = pde ep" "pml4e0 (upd_pte q f ep) = pml4e0 ep"
  "pdpte (upd_pte q f ep) = pdpte ep" "split_pte_pfns (upd_pte q f ep) = split_pte_pfns ep"
  "split_pte_used (upd_pte q f ep) = split_pte_used ep" "hooks (upd_pte q f ep) = hooks ep"
  by (simp_all add: upd_pte_def)

lemma upd_pte_wf [simp]: "ept_wf_on S (upd_pte q f ep) = ept_wf_on S ep" "ept_wf (upd_pte q f ep) = ept_wf ep"
  by (simp_all add: ept_wf_on_def ept_wf_def tables_open_def)

lemma ptr_of_upd_pte [simp]: "ptr_of (upd_pte q f ep) = ptr_of ep"
  by (simp add: ptr_of_def fun_eq_iff)

lemma leaf_at_hooks [simp]: "leaf_at (ep\<lparr>hooks := hs\<rparr>) = leaf_at ep"
  by (simp add: leaf_at_def fun_eq_iff split: ept_pd_slot.splits)

lemma ept_wf_hooks [simp]: "ept_wf (ep\<lparr>hooks := hs\<rparr>) = ept_wf ep"
  by (simp add: ept_wf_on_def ept_wf_def tables_open_def)

lemma ptr_of_hooks [simp]: "ptr_of (ep\<lparr>hooks := hs\<rparr>) = ptr_of ep"
  by (simp add: ptr_of_def fun_eq_iff)

definition at_gpa :: "u64 \<Rightarrow> nat \<Rightarrow> nat \<Rightarrow> nat \<Rightarrow> bool" where
  "at_gpa gpa i j n \<longleftrightarrow> i = unat (pdpt_idx gpa) \<and> j = unat (pd_idx gpa) \<and> n = unat (pt_idx gpa)"

text \<open>A store through the pointer of an address changes the entry of that address only.\<close>

lemma leaf_at_upd_pte [ept_view]:
  assumes "ept_wf ep" and "ptr_of ep gpa q" and "(i, j) \<in> slots"
  shows "leaf_at (upd_pte q f ep) i j n = (if at_gpa gpa i j n then f (leaf_at ep i j n) else leaf_at ep i j n)"
proof -
  obtain t where t: "pde ep (unat (pdpt_idx gpa)) (unat (pd_idx gpa)) = Split t"
    and q: "q = (t_page_frame_number t, unat (pt_idx gpa))"
    using assms(2) by (auto simp: ptr_of_def)
  show ?thesis
  proof (cases "pde ep i j")
    case (Large l)
    then show ?thesis
      using t by (auto simp: leaf_at_def at_gpa_def)
  next
    case (Split u)
    have "t_page_frame_number u = t_page_frame_number t \<longleftrightarrow>
        i = unat (pdpt_idx gpa) \<and> j = unat (pd_idx gpa)"
    proof
      assume "t_page_frame_number u = t_page_frame_number t"
      with assms(1,3) Split t show "i = unat (pdpt_idx gpa) \<and> j = unat (pd_idx gpa)"
        by (intro ept_wf_on_unique [of slots ep i j u]) (simp_all add: ept_wf_def)
    next
      assume "i = unat (pdpt_idx gpa) \<and> j = unat (pd_idx gpa)"
      with Split t show "t_page_frame_number u = t_page_frame_number t"
        by simp
    qed
    moreover have "leaf_at (upd_pte q f ep) i j n =
        (if t_page_frame_number u = t_page_frame_number t \<and> n = unat (pt_idx gpa)
         then f (leaf_at ep i j n) else leaf_at ep i j n)"
      using Split by (simp add: leaf_at_def q upd_pte_def)
    ultimately show ?thesis
      by (simp only: at_gpa_def conj_assoc)
  qed
qed

lemma get_ept_pte_ptr_of: "ptr_of ep gpa q \<Longrightarrow> get_ept_pte ep gpa b = (ep, Some q)"
  by (auto simp: ptr_of_def get_ept_pte_def Let_def)

lemma get_ept_pte_hooks: "get_ept_pte ep gpa b = (ep', r) \<Longrightarrow> hooks ep' = hooks ep"
  by (auto simp: get_ept_pte_def Let_def split_pde_def split: if_splits ept_pd_slot.splits)

lemma get_ept_pte_noforce: "get_ept_pte ep gpa False = (ep', r) \<Longrightarrow> ep' = ep"
  by (auto simp: get_ept_pte_def Let_def split: if_splits ept_pd_slot.splits)

text \<open>
  Looking up an entry, splitting if need be, keeps the tables well-formed and their view; the
  pointer it returns is the one of the address. It fails only for an address beyond 512 GB or
  when all page tables of the pool are in use.
\<close>

lemma get_ept_pte_view:
  assumes wf: "ept_wf ep" and g: "get_ept_pte ep gpa b = (ep', r)"
  shows "ept_wf ep' \<and> same_view ep ep' \<and> hooks ep' = hooks ep \<and>
     (\<forall>q g. ptr_of ep g q \<longrightarrow> ptr_of ep' g q) \<and>
     (\<forall>q. r = Some q \<longrightarrow> ptr_of ep' gpa q) \<and>
     (r = None \<longrightarrow> ep' = ep \<and> (pml4_idx gpa \<noteq> 0 \<or> \<not> b \<or> split_pte_used ep = 256))"
proof -
  let ?i = "unat (pdpt_idx gpa)" and ?j = "unat (pd_idx gpa)"
  consider (high) "pml4_idx gpa \<noteq> 0" | (split) t where "pml4_idx gpa = 0" "pde ep ?i ?j = Split t"
    | (large) l where "pml4_idx gpa = 0" "pde ep ?i ?j = Large l" by (cases "pde ep ?i ?j") auto
  then show ?thesis
  proof cases
    case high
    with g wf show ?thesis by (auto simp: get_ept_pte_def Let_def)
  next
    case split
    with g wf show ?thesis by (auto simp: get_ept_pte_def Let_def ptr_of_def)
  next
    case large
    show ?thesis
    proof (cases "b \<and> split_pte_used ep < 256")
      case False
      then have "ep' = ep" "r = None" "\<not> b \<or> split_pte_used ep = 256"
        using g large wf by (auto simp: get_ept_pte_def Let_def split_pde_def ept_wf_def ept_wf_on_def split: if_splits)
      with wf show ?thesis by simp
    next
      case True
      then obtain ep1 k where s: "split_pde ep ?i ?j = (ep1, Some k)"
        using split_pde_pool_left large(2) by blast
      have w: "ept_wf_on slots ep1" "same_view ep ep1"
        using split_pde_view [OF _ _ s] wf by (simp_all add: ept_wf_def)
      from s obtain t where t: "pde ep1 = (pde ep)(?i := (pde ep ?i)(?j := Split t))"
        "hooks ep1 = hooks ep" "pml4e0 ep1 = pml4e0 ep" "pdpte ep1 = pdpte ep"
        by (rule split_pde_some) blast
      have "ep' = ep1" "r = Some (t_page_frame_number t, unat (pt_idx gpa))"
        using g large True s t(1) by (auto simp: get_ept_pte_def Let_def)
      moreover have "ptr_of ep1 g q" if "ptr_of ep g q" for g q
        using that large(2) t(1) by (auto simp: ptr_of_def)
      ultimately show ?thesis
        using w t large(1) wf by (auto simp: ept_wf_def tables_open_def ptr_of_def)
    qed
  qed
qed

section \<open>All permissions at once\<close>

lemma set_all_permissions_simps [simp]:
  "hooks (set_all_permissions ep r w x) = hooks ep"
  "split_pte_used (set_all_permissions ep r w x) = split_pte_used ep"
  "split_pte_pfns (set_all_permissions ep r w x) = split_pte_pfns ep"
  "pml4e0 (set_all_permissions ep r w x) = pml4e0 ep"
  "pdpte (set_all_permissions ep r w x) = pdpte ep"
  by (simp_all add: set_all_permissions_def)

lemma set_all_split_iff:
  "pde (set_all_permissions ep r w x) i j = Split t \<longleftrightarrow> pde ep i j = Split t"
  by (auto simp: set_all_permissions_def split: ept_pd_slot.splits)

lemma set_all_permissions_wf:
  assumes "ept_wf ep" shows "ept_wf (set_all_permissions ep r w x)"
  using assms
  unfolding ept_wf_def ept_wf_on_def tables_open_def set_all_split_iff set_all_permissions_simps .

lemma ptr_of_set_all [simp]: "ptr_of (set_all_permissions ep r w x) = ptr_of ep"
  by (simp add: ptr_of_def fun_eq_iff set_all_split_iff)

lemma leaf_at_set_all [ept_view]:
  assumes "ept_wf ep" and "(i, j) \<in> slots" and "n < 512"
  shows "leaf_at (set_all_permissions ep r w x) i j n = set_perm r w x (leaf_at ep i j n)"
proof (cases "pde ep i j")
  case (Large l)
  then show ?thesis
    using assms by (simp add: leaf_at_def set_all_permissions_def set_perm_def)
next
  case (Split t)
  obtain k where "k < split_pte_used ep" "t_page_frame_number t = split_pte_pfns ep k"
    using ept_wf_onD(2) [of slots ep i j t] assms(1,2) Split by (auto simp: ept_wf_def)
  moreover have "split_pte_used ep \<le> 256"
    using assms(1) by (simp add: ept_wf_def ept_wf_on_def)
  ultimately have "t_page_frame_number t \<in> set (map (split_pte_pfns ep) [0..<256])"
    by (auto intro!: imageI)
  with assms Split show ?thesis
    by (simp add: leaf_at_def set_all_permissions_def)
qed

end
