(* ===== verification/Ept_Hooks.thy ===== *)
theory Ept_Hooks
  imports Ept_Walk
begin

text \<open>
  The EPT hooks of \<open>revhv-km/ept.cpp\<close>. The invariant \<open>ept_base\<close> says that every page that no
  active hook covers is mapped to itself with full permissions and that every active hook points
  to the entry of its own page; adding, deactivating and reactivating hooks keep it.
\<close>

section \<open>Frame numbers and addresses\<close>

definition hook_gpa :: "ept_hook \<Rightarrow> u64" where
  "hook_gpa h = push_bit 12 (ucast (orig_pfn h))"

lemma bit_field_push:
  "lo \<ge> 12 \<Longrightarrow> lo + n \<le> 64 \<Longrightarrow> bit (bit_field lo n (push_bit 12 w)) k \<longleftrightarrow> k < n \<and> bit w (lo - 12 + k)"
  by (auto simp: bit_field_def bit_take_bit_iff bit_drop_bit_eq bit_push_bit_iff add.commute)

lemma ucast_32_bit: "bit (ucast (ucast w :: u32) :: u64) k \<longleftrightarrow> k < 32 \<and> bit w k" for w :: u64
  using bit_imp_le_length [of w k] by (auto simp: bit_ucast_iff)

text \<open>
  The hook table keeps 32 bits of a frame number. For a frame below 512 GB these determine the
  entry.
\<close>

lemma truncated_pfn:
  fixes w :: u64
  defines "v \<equiv> ucast (ucast w :: u32) :: u64"
  assumes "pml4_idx (push_bit 12 w) = 0"
  shows "pml4_idx (push_bit 12 v) = 0 \<and> pdpt_idx (push_bit 12 v) = pdpt_idx (push_bit 12 w) \<and>
         pd_idx (push_bit 12 v) = pd_idx (push_bit 12 w) \<and> pt_idx (push_bit 12 v) = pt_idx (push_bit 12 w)"
proof -
  have z: "\<not> (k < 9 \<and> bit w (27 + k))" for k
    using arg_cong [OF assms(2), of "\<lambda>x. bit x k"] by (simp add: pml4_idx_def bit_field_push)
  have "pml4_idx (push_bit 12 v) = 0"
    by (rule bit_eqI) (use z in \<open>auto simp: pml4_idx_def bit_field_push v_def ucast_32_bit\<close>)
  moreover have "pdpt_idx (push_bit 12 v) = pdpt_idx (push_bit 12 w)"
    "pd_idx (push_bit 12 v) = pd_idx (push_bit 12 w)" "pt_idx (push_bit 12 v) = pt_idx (push_bit 12 w)"
    by (rule bit_eqI, auto simp: va_field_defs bit_field_push v_def ucast_32_bit)+
  ultimately show ?thesis by blast
qed

lemma ident_pfn_of_gpa:
  fixes w :: u64
  assumes "unat w < 2 ^ 32" and "pml4_idx (push_bit 12 w) = 0" and "at_gpa (push_bit 12 w) i j n"
  shows "ident_pfn i j n = w"
proof -
  have p: "unat (push_bit 12 w) = unat w * 4096"
    using assms(1) unat_push_bit [of w 12] by simp
  have d: "x * 4096 div 549755813888 = x div 134217728" "x * 4096 div 1073741824 = x div 262144"
    "x * 4096 div 2097152 = x div 512" "x * 4096 div 4096 = x" for x :: nat
    using div_mult_mult2 [of 4096 x 134217728] div_mult_mult2 [of 4096 x 262144]
      div_mult_mult2 [of 4096 x 512] by simp_all
  have "unat w div 134217728 mod 512 = 0"
    using assms(2) va_field_nat(5) [of "push_bit 12 w"] by (simp only: p d) simp
  moreover have "unat w div 134217728 < 512"
    using assms(1) by (simp add: less_mult_imp_div_less)
  ultimately have "unat w < 134217728"
    by (simp add: div_eq_0_iff)
  have idx: "i = unat w div 262144 mod 512" "j = unat w div 512 mod 512" "n = unat w mod 512"
    using assms(3) unfolding at_gpa_def va_field_nat p d by simp_all
  have "(i * 512 + j) * 512 + n = unat w"
  proof -
    have "unat w div 262144 < 512"
      using \<open>unat w < 134217728\<close> by (simp add: less_mult_imp_div_less)
    moreover have "unat w div 262144 = unat w div 512 div 512"
      by (simp add: div_mult2_eq [symmetric])
    ultimately have "i * 512 + j = unat w div 512"
      unfolding idx using div_mult_mod_eq [of "unat w div 512" 512] by simp
    then show ?thesis
      unfolding idx(3) using div_mult_mod_eq [of "unat w" 512] by simp
  qed
  then show ?thesis
    by (simp add: ident_pfn_def)
qed


section \<open>The invariant\<close>

definition hook_covers :: "ept_pages \<Rightarrow> nat \<Rightarrow> nat \<Rightarrow> nat \<Rightarrow> bool" where
  "hook_covers ep i j n \<longleftrightarrow> (\<exists>h \<in> set (hooks ep). hk_pte h \<noteq> None \<and> at_gpa (hook_gpa h) i j n)"

definition hook_ok :: "ept_pages \<Rightarrow> ept_hook \<Rightarrow> bool" where
  "hook_ok ep h \<longleftrightarrow> (\<exists>q. ptr_of ep (hook_gpa h) q \<and> (hk_pte h = None \<or> hk_pte h = Some q))"

definition hooks_wf :: "ept_pages \<Rightarrow> bool" where
  "hooks_wf ep \<longleftrightarrow> length (hooks ep) \<le> 32 \<and> (\<forall>h \<in> set (hooks ep). hook_ok ep h)"

definition plain_leaf :: "nat \<Rightarrow> nat \<Rightarrow> nat \<Rightarrow> ept_leaf \<Rightarrow> bool" where
  "plain_leaf i j n l \<longleftrightarrow> rwx_leaf l \<and> page_frame_number l = ident_pfn i j n"

definition ept_base :: "ept_pages \<Rightarrow> bool" where
  "ept_base ep \<longleftrightarrow> ept_wf ep \<and> hooks_wf ep \<and>
     leaves_on slots (\<lambda>i j n l. hook_covers ep i j n \<or> plain_leaf i j n l) ep"

lemma ptr_of_unique: "ptr_of ep g q \<Longrightarrow> ptr_of ep g q' \<Longrightarrow> q = q'"
  by (auto simp: ptr_of_def)

lemma unat_orig_pfn: "unat (ucast (orig_pfn h) :: u64) < 2 ^ 32"
proof -
  have "unat (orig_pfn h) < 2 ^ 32"
    using unsigned_less [of "orig_pfn h", where ?'a = nat] by simp
  then show ?thesis
    by (simp add: unsigned_ucast_eq take_bit_nat_eq_self)
qed

lemma hook_ident:
  "ptr_of ep (hook_gpa h) q \<Longrightarrow> at_gpa (hook_gpa h) i j n \<Longrightarrow> ident_pfn i j n = ucast (orig_pfn h)"
  unfolding hook_gpa_def by (rule ident_pfn_of_gpa [OF unat_orig_pfn]) (auto simp: ptr_of_def)

lemma ptr_of_new_hook:
  "ptr_of ep (push_bit 12 orig) q \<Longrightarrow> orig_pfn h = ucast orig \<Longrightarrow> ptr_of ep (hook_gpa h) q"
  using truncated_pfn [of orig] by (auto simp: ptr_of_def hook_gpa_def)

lemma at_gpa_new_hook:
  "pml4_idx (push_bit 12 orig) = 0 \<Longrightarrow> orig_pfn h = ucast orig \<Longrightarrow>
   at_gpa (hook_gpa h) i j n = at_gpa (push_bit 12 orig) i j n"
  using truncated_pfn [of orig] by (simp add: at_gpa_def hook_gpa_def)

lemma hook_ok_mono:
  "(\<And>g q. ptr_of ep g q \<Longrightarrow> ptr_of ep' g q) \<Longrightarrow> hook_ok ep h \<Longrightarrow> hook_ok ep' h"
  unfolding hook_ok_def by blast

lemma ept_base_leaf:
  "ept_base ep \<Longrightarrow> (i, j) \<in> slots \<Longrightarrow> n < 512 \<Longrightarrow> \<not> hook_covers ep i j n \<Longrightarrow> plain_leaf i j n (leaf_at ep i j n)"
  by (auto simp: ept_base_def leaves_on_def)

lemma ept_baseI:
  assumes "ept_wf ep" and "hooks_wf ep"
    and "\<And>i j n. (i, j) \<in> slots \<Longrightarrow> n < 512 \<Longrightarrow> \<not> hook_covers ep i j n \<Longrightarrow> plain_leaf i j n (leaf_at ep i j n)"
  shows "ept_base ep"
  using assms by (auto simp: ept_base_def leaves_on_def)

lemma get_ept_pte_base:
  assumes "ept_base ep" and "get_ept_pte ep gpa b = (ep', r)"
  shows "ept_base ep'"
proof -
  note v = get_ept_pte_view [OF _ assms(2)]
  have "ept_wf ep" "hooks_wf ep"
    using assms(1) by (simp_all add: ept_base_def)
  with v show ?thesis
    using assms(1) leaves_on_same_view [of slots ep ep']
    by (auto simp: ept_base_def hooks_wf_def hook_covers_def intro: hook_ok_mono [of ep ep'])
qed

section \<open>Adding a hook\<close>

lemma add_hook_cases:
  assumes "ept_base ep" and "add_hook ep orig hook = (ep', ok)"
  shows "ok \<longrightarrow> (\<exists>ep1 q. get_ept_pte ep (push_bit 12 orig) True = (ep1, Some q) \<and>
      ep' = upd_pte q (\<lambda>l. l\<lparr>execute_access := False\<rparr>)
        (ep1\<lparr>hooks := hooks ep @ [\<lparr>orig_pfn = ucast orig, hook_pfn = ucast hook, hk_pte = Some q\<rparr>]\<rparr>) \<and>
      length (hooks ep) < 32)"
    and "\<not> ok \<longrightarrow> ep' = ep \<and>
      (length (hooks ep) = 32 \<or> pml4_idx (push_bit 12 orig) \<noteq> 0 \<or> split_pte_used ep = 256)"
proof -
  obtain ep1 r where g: "get_ept_pte ep (push_bit 12 orig) True = (ep1, r)"
    by (cases "get_ept_pte ep (push_bit 12 orig) True")
  have v: "hooks ep1 = hooks ep" "r = None \<longrightarrow> ep1 = ep \<and> (pml4_idx (push_bit 12 orig) \<noteq> 0 \<or> split_pte_used ep = 256)"
    using get_ept_pte_view [OF _ g] assms(1) by (auto simp: ept_base_def)
  have len: "length (hooks ep) \<le> 32"
    using assms(1) by (simp add: ept_base_def hooks_wf_def)
  show "ok \<longrightarrow> (\<exists>ep1 q. get_ept_pte ep (push_bit 12 orig) True = (ep1, Some q) \<and>
      ep' = upd_pte q (\<lambda>l. l\<lparr>execute_access := False\<rparr>)
        (ep1\<lparr>hooks := hooks ep @ [\<lparr>orig_pfn = ucast orig, hook_pfn = ucast hook, hk_pte = Some q\<rparr>]\<rparr>) \<and>
      length (hooks ep) < 32)"
    using assms(2) v g by (auto simp: add_hook_def split: if_splits option.splits)
  show "\<not> ok \<longrightarrow> ep' = ep \<and>
      (length (hooks ep) = 32 \<or> pml4_idx (push_bit 12 orig) \<noteq> 0 \<or> split_pte_used ep = 256)"
    using assms(2) v g len by (auto simp: add_hook_def split: if_splits option.splits)
qed

lemma add_hook_effect:
  assumes "ept_base ep" and "add_hook ep orig hook = (ep', True)"
  shows "ept_base ep'" and "pml4_idx (push_bit 12 orig) = 0"
    and "\<And>i j n. (i, j) \<in> slots \<Longrightarrow> n < 512 \<Longrightarrow> leaf_at ep' i j n =
       (if at_gpa (push_bit 12 orig) i j n then (leaf_at ep i j n)\<lparr>execute_access := False\<rparr> else leaf_at ep i j n)"
proof -
  let ?gpa = "push_bit 12 orig"
  obtain ep1 q where g: "get_ept_pte ep ?gpa True = (ep1, Some q)" and len: "length (hooks ep) < 32"
    and ep': "ep' = upd_pte q (\<lambda>l. l\<lparr>execute_access := False\<rparr>)
      (ep1\<lparr>hooks := hooks ep @ [\<lparr>orig_pfn = ucast orig, hook_pfn = ucast hook, hk_pte = Some q\<rparr>]\<rparr>)"
    using add_hook_cases(1) [OF assms] by blast
  have b1: "ept_base ep1"
    by (rule get_ept_pte_base [OF assms(1) g])
  have v: "ept_wf ep1" "same_view ep ep1" "hooks ep1 = hooks ep" "ptr_of ep1 ?gpa q"
    using get_ept_pte_view [OF _ g] assms(1) by (simp_all add: ept_base_def)
  show p: "pml4_idx ?gpa = 0"
    using v(4) by (simp add: ptr_of_def)
  have leaf: "leaf_at ep' i j n =
      (if at_gpa ?gpa i j n then (leaf_at ep1 i j n)\<lparr>execute_access := False\<rparr> else leaf_at ep1 i j n)"
    if "(i, j) \<in> slots" for i j n
    unfolding ep' using leaf_at_upd_pte [of "ep1\<lparr>hooks := _\<rparr>" ?gpa q i j] v that by simp
  then show "leaf_at ep' i j n =
      (if at_gpa ?gpa i j n then (leaf_at ep i j n)\<lparr>execute_access := False\<rparr> else leaf_at ep i j n)"
    if "(i, j) \<in> slots" and "n < 512" for i j n
    using v(2) that by (simp add: same_view_on_def)
  let ?h = "\<lparr>orig_pfn = ucast orig, hook_pfn = ucast hook, hk_pte = Some q\<rparr>"
  have cov: "hook_covers ep' i j n \<longleftrightarrow> hook_covers ep1 i j n \<or> at_gpa ?gpa i j n" for i j n
    using at_gpa_new_hook [OF p, of ?h] v(3) by (auto simp: hook_covers_def ep')
  have "hook_ok ep1 h" if "h \<in> set (hooks ep)" for h
    using b1 that v(3) by (simp add: ept_base_def hooks_wf_def)
  moreover have "hook_ok ep1 ?h"
    using ptr_of_new_hook [OF v(4), of ?h] unfolding hook_ok_def by (intro exI [of _ q]) simp
  ultimately have "hooks_wf ep'"
    using len by (simp add: hooks_wf_def ep' hook_ok_def)
  then show "ept_base ep'"
    using v(1) leaf ept_base_leaf [OF b1] cov by (intro ept_baseI) (auto simp: ep')
qed


section \<open>Deactivating and reactivating hooks\<close>

lemma hook_coversI:
  "h \<in> set (hooks ep) \<Longrightarrow> hk_pte h = Some q \<Longrightarrow> at_gpa (hook_gpa h) i j n \<Longrightarrow> hook_covers ep i j n"
  unfolding hook_covers_def by (rule bexI [of _ h]) simp_all

lemma hooks_update_ok:
  assumes "hooks_wf ep" and "i < length (hooks ep)" and "hook_ok ep h"
    and "\<And>g q. ptr_of ep' g q = ptr_of ep g q" and "hooks ep' = (hooks ep)[i := h]"
  shows "hooks_wf ep'"
proof -
  have "hook_ok ep' = hook_ok ep"
    by (simp add: hook_ok_def assms(4) fun_eq_iff)
  moreover have "hook_ok ep g" if "g \<in> set (hooks ep')" for g
    using that assms set_update_subset_insert [of "hooks ep" i h] by (auto simp: hooks_wf_def)
  ultimately show ?thesis
    using assms(1,5) by (simp add: hooks_wf_def)
qed

lemma hooks_same: "hk_pte (hs ! k) = v \<Longrightarrow> hs[k := (hs ! k)\<lparr>hk_pte := v\<rparr>] = hs"
  by (metis (full_types) list_update_id ept_hook.surjective ept_hook.update_convs(3))

lemma hook_covers_update:
  assumes "hooks ep' = (hooks ep)[k := h]" and "k < length (hooks ep)"
    and "hook_covers ep i j n" and "\<not> at_gpa (hook_gpa (hooks ep ! k)) i j n"
  shows "hook_covers ep' i j n"
proof -
  obtain m where m: "m < length (hooks ep)" "hk_pte (hooks ep ! m) \<noteq> None"
    "at_gpa (hook_gpa (hooks ep ! m)) i j n"
    using assms(3) by (auto simp: hook_covers_def in_set_conv_nth)
  then have "m \<noteq> k" using assms(4) by auto
  with m(1) assms(1) have "hooks ep ! m \<in> set (hooks ep')"
    by (metis length_list_update nth_list_update_neq nth_mem)
  with m show ?thesis by (auto simp: hook_covers_def)
qed

lemma deactivate_hook_base:
  assumes b: "ept_base ep" and k: "k < length (hooks ep)"
  shows "ept_base (deactivate_hook k ep)"
    and "hooks (deactivate_hook k ep) = (hooks ep)[k := (hooks ep ! k)\<lparr>hk_pte := None\<rparr>]"
proof -
  let ?h = "hooks ep ! k" and ?ep = "deactivate_hook k ep"
  have wf: "ept_wf ep" and hwf: "hooks_wf ep" and ok: "hook_ok ep ?h"
    using b k by (auto simp: ept_base_def hooks_wf_def)
  show hk: "hooks ?ep = (hooks ep)[k := ?h\<lparr>hk_pte := None\<rparr>]"
    using k by (simp add: deactivate_hook_def Let_def hooks_same split: option.splits)
  show "ept_base ?ep"
  proof (cases "hk_pte ?h")
    case None
    then show ?thesis using b by (simp add: deactivate_hook_def)
  next
    case (Some q)
    let ?f = "\<lambda>l. l\<lparr>read_access := True, write_access := True, execute_access := True,
                    page_frame_number := ucast (orig_pfn ?h)\<rparr>"
    have e: "?ep = (upd_pte q ?f ep)\<lparr>hooks := (hooks ep)[k := ?h\<lparr>hk_pte := None\<rparr>]\<rparr>"
      using Some by (simp add: deactivate_hook_def Let_def)
    have q: "ptr_of ep (hook_gpa ?h) q"
      using ok Some by (auto simp: hook_ok_def)
    have "hook_ok ep (?h\<lparr>hk_pte := None\<rparr>)"
      using q unfolding hook_ok_def hook_gpa_def by (intro exI [of _ q]) simp
    then have "hooks_wf ?ep"
      using hooks_update_ok [OF hwf k, of "?h\<lparr>hk_pte := None\<rparr>" ?ep] by (simp add: e)
    moreover have "plain_leaf i j n (leaf_at ?ep i j n)"
      if "(i, j) \<in> slots" "n < 512" "\<not> hook_covers ?ep i j n" for i j n
    proof (cases "at_gpa (hook_gpa ?h) i j n")
      case True
      then show ?thesis
        using leaf_at_upd_pte [OF wf q that(1), of ?f n] hook_ident [OF q True]
        by (simp add: e plain_leaf_def rwx_leaf_def)
    next
      case False
      then have "\<not> hook_covers ep i j n"
        using hook_covers_update [OF hk k] that(3) by blast
      then show ?thesis
        using leaf_at_upd_pte [OF wf q that(1), of ?f n] False ept_base_leaf [OF b that(1,2)]
        by (simp add: e)
    qed
    ultimately show ?thesis
      using wf by (intro ept_baseI) (simp_all add: e)
  qed
qed

lemma reactivate_hook_base:
  assumes b: "ept_base ep" and k: "k < length (hooks ep)"
  shows "ept_base (reactivate_hook k ep)"
    and "hooks (reactivate_hook k ep) =
      (hooks ep)[k := (hooks ep ! k)\<lparr>hk_pte := hk_pte (hooks (reactivate_hook k ep) ! k)\<rparr>]"
    and "hk_pte (hooks (reactivate_hook k ep) ! k) \<noteq> None"
proof -
  let ?h = "hooks ep ! k" and ?ep = "reactivate_hook k ep"
  have wf: "ept_wf ep" and hwf: "hooks_wf ep" and ok: "hook_ok ep ?h"
    using b k by (auto simp: ept_base_def hooks_wf_def)
  obtain q where q: "ptr_of ep (hook_gpa ?h) q" and hq: "hk_pte ?h = None \<or> hk_pte ?h = Some q"
    using ok unfolding hook_ok_def by blast
  show "ept_base ?ep" "hk_pte (hooks ?ep ! k) \<noteq> None"
    "hooks ?ep = (hooks ep)[k := ?h\<lparr>hk_pte := hk_pte (hooks ?ep ! k)\<rparr>]"
  proof (atomize (full), cases "hk_pte ?h")
    case (Some q')
    then show "ept_base ?ep \<and> hk_pte (hooks ?ep ! k) \<noteq> None \<and>
        hooks ?ep = (hooks ep)[k := ?h\<lparr>hk_pte := hk_pte (hooks ?ep ! k)\<rparr>]"
      using b by (simp add: reactivate_hook_def hooks_same)
  next
    case None
    let ?f = "\<lambda>l. l\<lparr>page_frame_number := ucast (orig_pfn ?h), execute_access := False\<rparr>"
    let ?h' = "?h\<lparr>hk_pte := Some q\<rparr>"
    have e: "?ep = (upd_pte q ?f ep)\<lparr>hooks := (hooks ep)[k := ?h']\<rparr>"
      using None get_ept_pte_ptr_of [OF q] by (simp add: reactivate_hook_def Let_def hook_gpa_def)
    have hg: "hook_gpa ?h' = hook_gpa ?h"
      by (simp add: hook_gpa_def)
    have "hook_ok ep ?h'"
      using q hg unfolding hook_ok_def by (intro exI [of _ q]) simp
    then have "hooks_wf ?ep"
      using hooks_update_ok [OF hwf k, of ?h' ?ep] by (simp add: e)
    moreover have "plain_leaf i j n (leaf_at ?ep i j n)"
      if "(i, j) \<in> slots" "n < 512" "\<not> hook_covers ?ep i j n" for i j n
    proof -
      have "?h' \<in> set (hooks ?ep)"
        using k by (simp add: e set_update_memI)
      then have na: "\<not> at_gpa (hook_gpa ?h) i j n"
        using that(3) hg hook_coversI [of ?h' ?ep q i j n] by auto
      then have "\<not> hook_covers ep i j n"
        using hook_covers_update [of ?ep ep k ?h' i j n] k that(3) by (auto simp: e)
      then show ?thesis
        using leaf_at_upd_pte [OF wf q that(1), of ?f n] na ept_base_leaf [OF b that(1,2)]
        by (simp add: e)
    qed
    ultimately show "ept_base ?ep \<and> hk_pte (hooks ?ep ! k) \<noteq> None \<and>
        hooks ?ep = (hooks ep)[k := ?h\<lparr>hk_pte := hk_pte (hooks ?ep ! k)\<rparr>]"
      using wf k by (intro conjI ept_baseI) (simp_all add: e)
  qed
qed


lemma deactivate_fold:
  assumes "ept_base ep" and "m \<le> length (hooks ep)"
  defines "ep' \<equiv> fold deactivate_hook [0..<m] ep"
  shows "ept_base ep' \<and> hooks ep' =
     map (\<lambda>h. h\<lparr>hk_pte := None\<rparr>) (take m (hooks ep)) @ drop m (hooks ep)"
  using assms(2) unfolding ep'_def
proof (induction m)
  case 0
  then show ?case using assms(1) by simp
next
  case (Suc m)
  let ?e = "fold deactivate_hook [0..<m] ep"
  have e: "ept_base ?e"
    "hooks ?e = map (\<lambda>h. h\<lparr>hk_pte := None\<rparr>) (take m (hooks ep)) @ drop m (hooks ep)"
    using Suc by simp_all
  have m: "m < length (hooks ?e)" "hooks ?e ! m = hooks ep ! m"
    using Suc.prems e(2) by (simp_all add: nth_append)
  have "hooks (deactivate_hook m ?e) =
      map (\<lambda>h. h\<lparr>hk_pte := None\<rparr>) (take (Suc m) (hooks ep)) @ drop (Suc m) (hooks ep)"
    unfolding deactivate_hook_base(2) [OF e(1) m(1)] m(2) unfolding e(2)
    using Suc.prems by (simp add: list_update_append take_Suc_conv_app_nth Cons_nth_drop_Suc [symmetric] min_def)
  then show ?case
    using deactivate_hook_base(1) [OF e(1) m(1)] by simp
qed

lemma deactivate_hooks_base:
  assumes "ept_base ep"
  shows "ept_base (deactivate_hooks ep)"
    and "hooks (deactivate_hooks ep) = map (\<lambda>h. h\<lparr>hk_pte := None\<rparr>) (hooks ep)"
  using deactivate_fold [OF assms, of "length (hooks ep)"] by (simp_all add: deactivate_hooks_def)

text \<open>With all hooks inactive, every page is mapped to itself with full permissions.\<close>

lemma all_inactive_plain:
  "ept_base ep \<Longrightarrow> \<forall>h \<in> set (hooks ep). hk_pte h = None \<Longrightarrow> (i, j) \<in> slots \<Longrightarrow> n < 512 \<Longrightarrow>
   plain_leaf i j n (leaf_at ep i j n)"
  using ept_base_leaf [of ep i j n] by (auto simp: hook_covers_def)

lemma reactivate_fold:
  assumes "ept_base ep" and "m \<le> length (hooks ep)"
  defines "ep' \<equiv> fold reactivate_hook [0..<m] ep"
  shows "ept_base ep' \<and> map orig_pfn (hooks ep') = map orig_pfn (hooks ep) \<and>
     map hook_pfn (hooks ep') = map hook_pfn (hooks ep) \<and> (\<forall>k < m. hk_pte (hooks ep' ! k) \<noteq> None)"
  using assms(2) unfolding ep'_def
proof (induction m)
  case 0
  then show ?case using assms(1) by simp
next
  case (Suc m)
  let ?e = "fold reactivate_hook [0..<m] ep"
  have e: "ept_base ?e" "map orig_pfn (hooks ?e) = map orig_pfn (hooks ep)"
    "map hook_pfn (hooks ?e) = map hook_pfn (hooks ep)" "\<forall>k < m. hk_pte (hooks ?e ! k) \<noteq> None"
    using Suc by simp_all
  have m: "m < length (hooks ?e)"
    using Suc.prems e(2) by (metis Suc_le_lessD length_map)
  note r = reactivate_hook_base [OF e(1) m]
  have "map f (hooks (reactivate_hook m ?e)) = map f (hooks ?e)"
    if "\<And>h v. f (h\<lparr>hk_pte := v\<rparr>) = f h" for f :: "ept_hook \<Rightarrow> u32"
    by (subst r(2)) (metis list_update_id map_update that)
  then have "map orig_pfn (hooks (reactivate_hook m ?e)) = map orig_pfn (hooks ep)"
    "map hook_pfn (hooks (reactivate_hook m ?e)) = map hook_pfn (hooks ep)"
    using e(2,3) by simp_all
  moreover have "hk_pte (hooks (reactivate_hook m ?e) ! k) \<noteq> None" if "k < Suc m" for k
  proof (cases "k = m")
    case True
    then show ?thesis using r(3) by simp
  next
    case False
    then show ?thesis
      using e(4) that by (subst r(2)) simp
  qed
  ultimately show ?case
    using r(1) by simp
qed

lemma reactivate_hooks_base:
  assumes "ept_base ep"
  shows "ept_base (reactivate_hooks ep)"
    and "map orig_pfn (hooks (reactivate_hooks ep)) = map orig_pfn (hooks ep)"
    and "map hook_pfn (hooks (reactivate_hooks ep)) = map hook_pfn (hooks ep)"
    and "\<forall>h \<in> set (hooks (reactivate_hooks ep)). hk_pte h \<noteq> None"
proof -
  let ?e = "reactivate_hooks ep"
  have f: "ept_base ?e" "map orig_pfn (hooks ?e) = map orig_pfn (hooks ep)"
     "map hook_pfn (hooks ?e) = map hook_pfn (hooks ep)"
     "\<forall>k < length (hooks ep). hk_pte (hooks ?e ! k) \<noteq> None"
    using reactivate_fold [OF assms, of "length (hooks ep)"] by (simp_all add: reactivate_hooks_def)
  have "length (hooks ?e) = length (hooks ep)"
    using f(2) by (metis length_map)
  with f show "ept_base ?e" "map orig_pfn (hooks ?e) = map orig_pfn (hooks ep)"
    "map hook_pfn (hooks ?e) = map hook_pfn (hooks ep)" "\<forall>h \<in> set (hooks ?e). hk_pte h \<noteq> None"
    by (auto simp: in_set_conv_nth)
qed


section \<open>Reactivated pages\<close>

text \<open>A page under an active hook that has not been executed: readable, writable, itself, not executable.\<close>

definition hooked_leaf :: "nat \<Rightarrow> nat \<Rightarrow> nat \<Rightarrow> ept_leaf \<Rightarrow> bool" where
  "hooked_leaf i j n l \<longleftrightarrow> read_access l \<and> write_access l \<and> \<not> execute_access l \<and> page_frame_number l = ident_pfn i j n"

lemma reactivate_hook_leaf:
  assumes b: "ept_base ep" and k: "k < length (hooks ep)" and none: "hk_pte (hooks ep ! k) = None"
    and ij: "(i, j) \<in> slots"
  shows "leaf_at (reactivate_hook k ep) i j n =
     (if at_gpa (hook_gpa (hooks ep ! k)) i j n
      then (leaf_at ep i j n)\<lparr>page_frame_number := ident_pfn i j n, execute_access := False\<rparr>
      else leaf_at ep i j n)"
proof -
  let ?h = "hooks ep ! k"
  have wf: "ept_wf ep" and ok: "hook_ok ep ?h"
    using b k by (auto simp: ept_base_def hooks_wf_def)
  obtain q where q: "ptr_of ep (hook_gpa ?h) q"
    using ok unfolding hook_ok_def by blast
  have "reactivate_hook k ep =
      (upd_pte q (\<lambda>l. l\<lparr>page_frame_number := ucast (orig_pfn ?h), execute_access := False\<rparr>) ep)
      \<lparr>hooks := (hooks ep)[k := ?h\<lparr>hk_pte := Some q\<rparr>]\<rparr>"
    using none get_ept_pte_ptr_of [OF q] by (simp add: reactivate_hook_def Let_def hook_gpa_def)
  then show ?thesis
    using leaf_at_upd_pte [OF wf q ij, of _ n] hook_ident [OF q] by simp
qed

lemma reactivate_fold_leaf:
  assumes b: "ept_base ep" and "m \<le> length (hooks ep)" and none: "\<forall>h \<in> set (hooks ep). hk_pte h = None"
  defines "covered \<equiv> \<lambda>m i j n. \<exists>k < m. at_gpa (hook_gpa (hooks ep ! k)) i j n"
  shows "drop m (hooks (fold reactivate_hook [0..<m] ep)) = drop m (hooks ep) \<and>
     leaves_on slots (\<lambda>i j n l. if covered m i j n then hooked_leaf i j n l else plain_leaf i j n l)
       (fold reactivate_hook [0..<m] ep)"
  using assms(2)
proof (induction m)
  case 0
  then show ?case
    using all_inactive_plain [OF b none] by (simp add: covered_def leaves_on_def)
next
  case (Suc m)
  let ?e = "fold reactivate_hook [0..<m] ep"
  have e: "ept_base ?e" "map orig_pfn (hooks ?e) = map orig_pfn (hooks ep)"
    using reactivate_fold [OF b, of m] Suc.prems by simp_all
  have IH: "drop m (hooks ?e) = drop m (hooks ep)"
    "leaves_on slots (\<lambda>i j n l. if covered m i j n then hooked_leaf i j n l else plain_leaf i j n l) ?e"
    using Suc by simp_all
  have m: "m < length (hooks ?e)"
    using Suc.prems e(2) by (metis Suc_le_lessD length_map)
  have hm: "hooks ?e ! m = hooks ep ! m"
    using IH(1) m Suc.prems by (metis Cons_nth_drop_Suc Suc_le_lessD list.inject)
  have nm: "hk_pte (hooks ?e ! m) = None"
    using none Suc.prems hm by simp
  have "drop (Suc m) (hooks (reactivate_hook m ?e)) = drop (Suc m) (hooks ep)"
    using reactivate_hook_base(2) [OF e(1) m] IH(1) by (metis drop_Suc tl_drop drop_update_cancel lessI)
  moreover have "if covered (Suc m) i j n then hooked_leaf i j n (leaf_at (reactivate_hook m ?e) i j n)
      else plain_leaf i j n (leaf_at (reactivate_hook m ?e) i j n)" if "(i, j) \<in> slots" "n < 512" for i j n
  proof -
    have "covered (Suc m) i j n \<longleftrightarrow> covered m i j n \<or> at_gpa (hook_gpa (hooks ep ! m)) i j n"
      unfolding covered_def using less_Suc_eq by auto
    moreover have "if covered m i j n then hooked_leaf i j n (leaf_at ?e i j n) else plain_leaf i j n (leaf_at ?e i j n)"
      using IH(2) that unfolding leaves_on_def by blast
    ultimately show ?thesis
      unfolding reactivate_hook_leaf [OF e(1) m nm that(1)] hm
      by (auto simp: hooked_leaf_def plain_leaf_def rwx_leaf_def split: if_splits)
  qed
  ultimately show ?case
    by (simp add: leaves_on_def)
qed

lemma hook_covers_nth:
  "(\<exists>h \<in> set hs. at_gpa (hook_gpa h) i j n) \<longleftrightarrow> (\<exists>k < length hs. at_gpa (hook_gpa (hs ! k)) i j n)"
  by (metis in_set_conv_nth)

lemma reactivate_hooks_leaf:
  assumes "ept_base ep" and "\<forall>h \<in> set (hooks ep). hk_pte h = None" and "(i, j) \<in> slots" and "n < 512"
  shows "if \<exists>h \<in> set (hooks ep). at_gpa (hook_gpa h) i j n
     then hooked_leaf i j n (leaf_at (reactivate_hooks ep) i j n)
     else plain_leaf i j n (leaf_at (reactivate_hooks ep) i j n)"
  using reactivate_fold_leaf [OF assms(1) _ assms(2), of "length (hooks ep)"] assms(3,4)
  unfolding reactivate_hooks_def hook_covers_nth leaves_on_def by blast


section \<open>Properties of the walk\<close>

abbreviation idx_gpa :: "(nat \<Rightarrow> nat \<Rightarrow> nat \<Rightarrow> 'a) \<Rightarrow> u64 \<Rightarrow> 'a" where
  "idx_gpa f gpa \<equiv> f (unat (pdpt_idx gpa)) (unat (pd_idx gpa)) (unat (pt_idx gpa))"

text \<open>The addresses the tables map are those below 512 GB.\<close>

lemma mapped_gpa:
  fixes gpa :: u64
  assumes "gpa < 0x8000000000"
  shows "pml4_idx gpa = 0" and "idx_gpa ident_pfn gpa = drop_bit 12 gpa"
    and "unat (drop_bit 12 gpa) < 134217728"
proof -
  have g: "unat gpa < 549755813888"
    using assms by (simp add: word_less_nat_alt)
  have "unat (pml4_idx gpa) = 0"
    using g by (simp add: va_field_nat)
  then show z: "pml4_idx gpa = 0"
    by (simp add: unat_eq_zero)
  have d: "unat (drop_bit 12 gpa) = unat gpa div 4096"
    by (simp only: unat_drop_bit_eq) (simp add: drop_bit_eq_div)
  show "unat (drop_bit 12 gpa) < 134217728"
    using g by (simp add: d less_mult_imp_div_less)
  have "(unat (pdpt_idx gpa) * 512 + unat (pd_idx gpa)) * 512 + unat (pt_idx gpa) = unat gpa div 4096"
  proof -
    have a: "unat gpa div 1073741824 mod 512 = unat gpa div 1073741824"
      using g by (simp add: less_mult_imp_div_less)
    have "unat gpa div 1073741824 = unat gpa div 4096 div 512 div 512"
      "unat gpa div 2097152 = unat gpa div 4096 div 512"
      by (simp_all add: div_mult2_eq [symmetric])
    then show ?thesis
      unfolding va_field_nat a
      using div_mult_mod_eq [of "unat gpa div 4096 div 512" 512] div_mult_mod_eq [of "unat gpa div 4096" 512]
      by simp
  qed
  then show "idx_gpa ident_pfn gpa = drop_bit 12 gpa"
    unfolding ident_pfn_def by (simp only: d [symmetric] of_nat_unat ucast_id)
qed

lemma same_page_iff:
  fixes gpa :: u64
  assumes "gpa < 0x8000000000" and "unat pfn < 2 ^ 32"
  shows "pml4_idx (push_bit 12 pfn) = 0 \<and> idx_gpa (at_gpa (push_bit 12 pfn)) gpa \<longleftrightarrow> drop_bit 12 gpa = pfn"
proof
  assume a: "pml4_idx (push_bit 12 pfn) = 0 \<and> idx_gpa (at_gpa (push_bit 12 pfn)) gpa"
  then show "drop_bit 12 gpa = pfn"
    using ident_pfn_of_gpa [OF assms(2)] mapped_gpa(2) [OF assms(1)] by metis
next
  assume p: "drop_bit 12 gpa = pfn"
  have "bit (push_bit 12 pfn) k = (12 \<le> k \<and> bit gpa k)" for k
    using bit_imp_le_length [of gpa k] by (auto simp: p [symmetric] bit_push_bit_iff bit_drop_bit_eq)
  then have f: "bit_field lo n (push_bit 12 pfn) = bit_field lo n gpa" if "12 \<le> lo" for lo n
    using that by (intro bit_eqI) (auto simp: bit_field_def bit_take_bit_iff bit_drop_bit_eq)
  then show "pml4_idx (push_bit 12 pfn) = 0 \<and> idx_gpa (at_gpa (push_bit 12 pfn)) gpa"
    using mapped_gpa(1) [OF assms(1)] by (simp add: at_gpa_def va_field_defs)
qed


text \<open>A flat map of 2 MB pages without hooks, the instance of the witnesses.\<close>

definition flat_ept :: ept_pages where
  "flat_ept =
     (let t = zero_table\<lparr>t_read_access := True, t_write_access := True, t_execute_access := True\<rparr>
      in (zeroed_ept \<lparr>ph_split = of_nat, ph_pdpt = 0, ph_pd = (\<lambda>_. 0)\<rparr>)
         \<lparr>pml4e0 := t, pdpte := (\<lambda>_. t), pde := (\<lambda>i j. Large (fresh_large i j))\<rparr>)"

lemma fresh_large_pfn:
  "push_bit 9 (page_frame_number (fresh_large i j)) + of_nat n = ident_pfn i j n"
  by (simp add: fresh_large_def ident_pfn_def push_bit_eq_mult algebra_simps)

lemma inj_of_nat_256: "inj_on (of_nat :: nat \<Rightarrow> u64) {..<256}"
  by (rule inj_onI) (simp add: word_of_nat_eq_iff take_bit_nat_eq_self)

lemma flat_ept_base: "ept_base flat_ept"
proof (rule ept_baseI)
  show "ept_wf flat_ept"
    using inj_of_nat_256
    by (simp add: ept_wf_def ept_wf_on_def tables_open_def flat_ept_def zeroed_ept_def rwx_table_def Let_def)
  show "hooks_wf flat_ept"
    by (simp add: hooks_wf_def flat_ept_def zeroed_ept_def Let_def)
  show "plain_leaf i j n (leaf_at flat_ept i j n)" for i j n
    using fresh_large_pfn [of i j n]
    by (simp add: plain_leaf_def rwx_leaf_def leaf_at_def flat_ept_def Let_def) (simp add: fresh_large_def)
qed

text \<open>C8. A hook takes away the right to execute its own page and nothing else.
  When \<open>add_hook\<close> succeeds on tables that satisfy the invariant, every guest physical address
  below 512 GB is translated as before, with the same permissions and memory type, except that
  the addresses of the hooked frame are no longer executable; the invariant holds again, and the
  hook is the last one of the table. A failure changes nothing and happens only when 32 hooks
  exist, the frame is beyond 512 GB, or the pool of page tables is used up.\<close>

theorem add_hook_hides_one_page:
  assumes base: "ept_base ep" and pfn: "unat orig < 2 ^ 32"
  shows "case add_hook ep orig hook of
     (ep', True) \<Rightarrow> ept_base ep' \<and>
        hooks ep' = hooks ep @ [last (hooks ep')] \<and> orig_pfn (last (hooks ep')) = ucast orig \<and>
        hook_pfn (last (hooks ep')) = ucast hook \<and>
        (\<forall>gpa < 0x8000000000. ept_walk ep' gpa =
          (if drop_bit 12 gpa = orig then map_option (a_execute_update (\<lambda>_. False)) (ept_walk ep gpa)
           else ept_walk ep gpa))
   | (ep', False) \<Rightarrow> ep' = ep \<and>
        (length (hooks ep) = 32 \<or> 0x8000000 \<le> unat orig \<or> split_pte_used ep = 256)"
proof -
  obtain ep' ok where r: "add_hook ep orig hook = (ep', ok)"
    by (cases "add_hook ep orig hook")
  note c = add_hook_cases [OF base r]
  have wf: "ept_wf ep" using base by (simp add: ept_base_def)
  have small: "pml4_idx (push_bit 12 orig) = 0" if "unat orig < 0x8000000"
    using that pfn by (intro mapped_gpa(1)) (simp add: word_less_nat_alt unat_push_bit)
  show ?thesis
  proof (cases ok)
    case False
    then show ?thesis
      using c(2) small r by (auto simp: not_less [symmetric])
  next
    case True
    obtain ep1 q where "ep' = upd_pte q (\<lambda>l. l\<lparr>execute_access := False\<rparr>)
        (ep1\<lparr>hooks := hooks ep @ [\<lparr>orig_pfn = ucast orig, hook_pfn = ucast hook, hk_pte = Some q\<rparr>]\<rparr>)"
      using c(1) True by blast
    then have h: "hooks ep' = hooks ep @ [last (hooks ep')]" "orig_pfn (last (hooks ep')) = ucast orig"
      "hook_pfn (last (hooks ep')) = ucast hook" by simp_all
    note e = add_hook_effect [OF base r [unfolded True [THEN eqTrueI]]]
    have wf': "ept_wf ep'" using e(1) by (simp add: ept_base_def)
    have "ept_walk ep' gpa =
        (if drop_bit 12 gpa = orig then map_option (a_execute_update (\<lambda>_. False)) (ept_walk ep gpa)
         else ept_walk ep gpa)" if g: "gpa < 0x8000000000" for gpa
      using same_page_iff [OF g pfn] e(2) mapped_gpa(1) [OF g]
      by (simp add: ept_walk_wf [OF wf'] ept_walk_wf [OF wf] e(3) Let_def)
    then show ?thesis
      using r True e(1) h by simp
  qed
qed

theorem add_hook_hides_one_page_witness:
  "ept_base flat_ept \<and> snd (add_hook flat_ept 5 7) \<and>
   ept_walk (fst (add_hook flat_ept 5 7)) 0x5010 =
     map_option (a_execute_update (\<lambda>_. False)) (ept_walk flat_ept 0x5010)"
proof -
  have s: "snd (add_hook flat_ept 5 7)"
    by (simp add: add_hook_def get_ept_pte_def split_pde_def flat_ept_def zeroed_ept_def Let_def
        va_field_defs bit_field_def push_bit_eq_mult drop_bit_eq_div take_bit_eq_mod)
  have d: "drop_bit 12 (0x5010 :: u64) = 5"
    by (simp add: drop_bit_eq_div)
  show ?thesis
    using add_hook_hides_one_page [OF flat_ept_base, of 5 7] s flat_ept_base d
    by (cases "add_hook flat_ept 5 7") (auto split: bool.splits)
qed


definition identity_access :: "bool \<Rightarrow> u64 \<Rightarrow> ept_access \<Rightarrow> bool" where
  "identity_access x gpa a \<longleftrightarrow> a_read a \<and> a_write a \<and> a_execute a = x \<and> a_pfn a = drop_bit 12 gpa"

lemma walk_identity:
  assumes "ept_wf ep" and "gpa < 0x8000000000"
    and "if x then idx_gpa plain_leaf gpa (idx_gpa (leaf_at ep) gpa) else idx_gpa hooked_leaf gpa (idx_gpa (leaf_at ep) gpa)"
  shows "\<exists>a. ept_walk ep gpa = Some a \<and> identity_access x gpa a"
  using assms(3) mapped_gpa(1,2) [OF assms(2)]
  by (cases x) (simp_all add: ept_walk_wf [OF assms(1)] Let_def identity_access_def plain_leaf_def
      hooked_leaf_def rwx_leaf_def)

lemma hook_page_iff:
  assumes "hook_ok ep h" and "gpa < 0x8000000000"
  shows "idx_gpa (at_gpa (hook_gpa h)) gpa \<longleftrightarrow> drop_bit 12 gpa = ucast (orig_pfn h)"
proof -
  have "pml4_idx (push_bit 12 (ucast (orig_pfn h))) = 0"
    using assms(1) by (auto simp: hook_ok_def ptr_of_def hook_gpa_def)
  then show ?thesis
    using same_page_iff [OF assms(2) unat_orig_pfn, of h] by (simp add: hook_gpa_def)
qed

text \<open>Reactivating the hooks of tables in which all of them are inactive.\<close>

lemma reactivated_walk:
  assumes d: "ept_base ep" and none: "\<forall>h \<in> set (hooks ep). hk_pte h = None" and "gpa < 0x8000000000"
  shows "\<exists>a. ept_walk (reactivate_hooks ep) gpa = Some a \<and>
      identity_access (\<forall>h \<in> set (hooks ep). drop_bit 12 gpa \<noteq> ucast (orig_pfn h)) gpa a"
    and "map (\<lambda>h. (orig_pfn h, hook_pfn h)) (hooks (reactivate_hooks ep)) = map (\<lambda>h. (orig_pfn h, hook_pfn h)) (hooks ep)"
    and "ept_base (reactivate_hooks ep)" and "\<forall>h \<in> set (hooks (reactivate_hooks ep)). hk_pte h \<noteq> None"
proof -
  let ?r = "reactivate_hooks ep"
  note r = reactivate_hooks_base [OF d]
  have idx: "(unat (pdpt_idx gpa), unat (pd_idx gpa)) \<in> slots" "unat (pt_idx gpa) < 512"
    by simp_all
  have "idx_gpa (at_gpa (hook_gpa h)) gpa \<longleftrightarrow> drop_bit 12 gpa = ucast (orig_pfn h)" if "h \<in> set (hooks ep)" for h
    by (rule hook_page_iff [OF _ assms(3), of ep]) (use d that in \<open>simp add: ept_base_def hooks_wf_def\<close>)
  then have cov: "(\<exists>h \<in> set (hooks ep). idx_gpa (at_gpa (hook_gpa h)) gpa) \<longleftrightarrow>
      (\<exists>h \<in> set (hooks ep). drop_bit 12 gpa = ucast (orig_pfn h))"
    by auto
  show "\<exists>a. ept_walk ?r gpa = Some a \<and>
      identity_access (\<forall>h \<in> set (hooks ep). drop_bit 12 gpa \<noteq> ucast (orig_pfn h)) gpa a"
    using walk_identity [of ?r gpa "\<forall>h \<in> set (hooks ep). drop_bit 12 gpa \<noteq> ucast (orig_pfn h)"]
      r(1) assms(3) reactivate_hooks_leaf [OF d none idx, unfolded cov]
    by (auto simp: ept_base_def split: if_splits)
  have "zip (map orig_pfn (hooks ?r)) (map hook_pfn (hooks ?r)) = zip (map orig_pfn (hooks ep)) (map hook_pfn (hooks ep))"
    unfolding r(2,3) ..
  then show "map (\<lambda>h. (orig_pfn h, hook_pfn h)) (hooks ?r) = map (\<lambda>h. (orig_pfn h, hook_pfn h)) (hooks ep)"
    by (simp only: zip_map_map zip_same_conv_map map_map comp_def case_prod_conv split_def fst_conv snd_conv)
  show "ept_base ?r" "\<forall>h \<in> set (hooks ?r). hk_pte h \<noteq> None"
    by (rule r(1), rule r(4))
qed

text \<open>Hooks can be taken off and put back.
  \<open>deactivate_hooks\<close> maps every address below 512 GB to itself with all permissions and keeps the
  table of hooks; \<open>reactivate_hooks\<close> after it makes exactly the pages of the hooks of the table
  non-executable again, with all other permissions and the identity mapping in place, and every
  hook active with its original and its replacement frame.\<close>

theorem hooks_off_and_on:
  assumes "ept_base ep" and "gpa < 0x8000000000"
  shows "(\<exists>a. ept_walk (deactivate_hooks ep) gpa = Some a \<and> identity_access True gpa a) \<and>
    (\<exists>a. ept_walk (reactivate_hooks (deactivate_hooks ep)) gpa = Some a \<and>
       identity_access (\<forall>h \<in> set (hooks ep). drop_bit 12 gpa \<noteq> ucast (orig_pfn h)) gpa a) \<and>
    map (\<lambda>h. (orig_pfn h, hook_pfn h)) (hooks (reactivate_hooks (deactivate_hooks ep))) =
      map (\<lambda>h. (orig_pfn h, hook_pfn h)) (hooks ep) \<and>
    (\<forall>h \<in> set (hooks (reactivate_hooks (deactivate_hooks ep))). hk_pte h \<noteq> None)"
proof -
  let ?d = "deactivate_hooks ep"
  note d = deactivate_hooks_base [OF assms(1)]
  have none: "\<forall>h \<in> set (hooks ?d). hk_pte h = None"
    using d(2) by auto
  have "\<exists>a. ept_walk ?d gpa = Some a \<and> identity_access True gpa a"
    using walk_identity [of ?d gpa True] d(1) assms(2) all_inactive_plain [OF d(1) none]
    by (simp add: ept_base_def)
  moreover have "(\<forall>h \<in> set (hooks ?d). drop_bit 12 gpa \<noteq> ucast (orig_pfn h)) \<longleftrightarrow>
      (\<forall>h \<in> set (hooks ep). drop_bit 12 gpa \<noteq> ucast (orig_pfn h))"
    "map (\<lambda>h. (orig_pfn h, hook_pfn h)) (hooks ?d) = map (\<lambda>h. (orig_pfn h, hook_pfn h)) (hooks ep)"
    using d(2) by simp_all
  ultimately show ?thesis
    using reactivated_walk [OF d(1) none assms(2)] by simp
qed

theorem hooks_off_and_on_witness:
  "let ep = fst (add_hook flat_ept 5 7) in
   ept_base ep \<and> (\<exists>a. ept_walk (deactivate_hooks ep) 0x5010 = Some a \<and> identity_access True 0x5010 a)"
proof -
  have s: "add_hook flat_ept 5 7 = (fst (add_hook flat_ept 5 7), True)"
    by (simp add: add_hook_def get_ept_pte_def split_pde_def flat_ept_def zeroed_ept_def Let_def
        va_field_defs bit_field_def push_bit_eq_mult drop_bit_eq_div take_bit_eq_mod)
  note b = add_hook_effect(1) [OF flat_ept_base s]
  show ?thesis
    using hooks_off_and_on [OF b, of "0x5010"] b by (simp add: Let_def)
qed

end
