(* ===== verification/Ept_Trace.thy ===== *)
theory Ept_Trace
  imports Ept_Hooks
begin

text \<open>
  Auto tracing (\<open>enable_auto_trace\<close> and \<open>restore_auto_trace\<close> of \<open>revhv-km/ept.cpp\<close>): two sets of
  tables that disagree on who may execute. The traced pages are executable under the target
  tables only, all others under the normal tables only, so that every control transfer across
  the border of the target causes an EPT violation.
\<close>

section \<open>The pages of the target range\<close>

definition target_pages :: "u64 \<Rightarrow> u64 \<Rightarrow> u64 set" where
  "target_pages va sz = {p. p AND 0xFFF = 0 \<and> unat va < unat p + 4096 \<and> unat p < unat va + unat sz}"

lemma unat_page_offset:
  fixes a :: u64
  assumes "unat a + k * 4096 < 2 ^ 64"
  shows "unat (a + of_nat k * 0x1000) = unat a + k * 4096"
proof -
  have "unat (of_nat k * (0x1000 :: u64)) = k * 4096"
    using assms by (simp add: unat_word_ariths unat_of_nat mod_mult_left_eq)
  then show ?thesis
    using unat_add_no_wrap [of a "of_nat k * 0x1000"] assms by simp
qed

text \<open>The loop visits exactly the pages that the range \<open>va, \<dots>, va + sz - 1\<close> touches.\<close>

lemma page_offsets_cover:
  assumes no_wrap: "unat va + unat sz + 0xFFF < 2 ^ 64"
  defines "a \<equiv> va AND NOT 0xFFF" and "e \<equiv> (va + sz + 0xFFF) AND NOT 0xFFF"
  shows "(\<lambda>off. a + off) ` set (page_offsets (e - a)) = target_pages va sz"
proof -
  let ?v = "unat va div 4096" and ?w = "(unat va + unat sz + 4095) div 4096"
  have s: "unat (va + sz + 0xFFF) = unat va + unat sz + 4095"
    using no_wrap unat_add_no_wrap [of va sz] unat_add_no_wrap [of "va + sz" "0xFFF"] by simp
  have a: "unat a = ?v * 4096" and e: "unat e = ?w * 4096"
    unfolding a_def e_def unat_page_base s by simp_all
  have le: "?v \<le> ?w" by (rule div_le_mono) simp
  have "?w * 4096 < 2 ^ 64"
    using no_wrap div_times_less_eq_dividend [of "unat va + unat sz + 4095" 4096] by simp
  have "unat (e - a) = (?w - ?v) * 4096"
    using le unat_sub_no_wrap [of a e] by (simp add: word_le_nat_alt a e diff_mult_distrib)
  then have offs: "page_offsets (e - a) = map (\<lambda>k. of_nat k * 0x1000) [0..<?w - ?v]"
    by (simp add: page_offsets_def)
  have u: "unat (a + of_nat k * 0x1000) = (?v + k) * 4096" if "k < ?w - ?v" for k
  proof -
    have "(?v + k) * 4096 < 2 ^ 64"
      using that \<open>?w * 4096 < 2 ^ 64\<close> by simp
    then show ?thesis
      using unat_page_offset [of a k] a by (simp add: algebra_simps)
  qed
  show ?thesis
  proof (intro set_eqI iffI)
    fix p
    assume "p \<in> (\<lambda>off. a + off) ` set (page_offsets (e - a))"
    then obtain k where k: "k < ?w - ?v" "p = a + of_nat k * 0x1000"
      by (auto simp: offs)
    have "unat (p AND 0xFFF) = 0"
      using u [OF k(1)] k(2) by (simp add: unat_and_page_mask)
    moreover have "unat va < (?v + 1) * 4096"
      using dividend_less_div_times [of 4096 "unat va"] by simp
    moreover have "(?v + k) * 4096 < unat va + unat sz"
      using mult_le_mono1 [of "?v + k + 1" ?w 4096] k(1)
        div_times_less_eq_dividend [of "unat va + unat sz + 4095" 4096] by (simp add: algebra_simps)
    ultimately show "p \<in> target_pages va sz"
      using u [OF k(1)] k(2) by (simp add: target_pages_def unat_eq_zero)
  next
    fix p
    assume p: "p \<in> target_pages va sz"
    then have "unat p mod 4096 = 0"
      using unat_and_page_mask [of p] by (simp add: target_pages_def)
    then obtain m where m: "unat p = m * 4096" by auto
    have m': "?v \<le> m" "m < ?w"
      using p m by (auto simp: target_pages_def)
    then have "unat (a + of_nat (m - ?v) * 0x1000) = unat p"
      using u [of "m - ?v"] m by simp
    then have "p = a + of_nat (m - ?v) * 0x1000" by (simp add: word_unat_eq_iff)
    moreover have "of_nat (m - ?v) * 0x1000 \<in> set (page_offsets (e - a))"
      unfolding offs set_map set_upt using m' by (intro imageI) simp
    ultimately show "p \<in> (\<lambda>off. a + off) ` set (page_offsets (e - a))"
      by blast
  qed
qed

lemma length_page_offsets:
  assumes "unat va + unat sz + 0xFFF < 2 ^ 64"
  defines "a \<equiv> va AND NOT 0xFFF" and "e \<equiv> (va + sz + 0xFFF) AND NOT 0xFFF"
  shows "length (page_offsets (e - a)) = (unat va mod 4096 + unat sz + 0xFFF) div 4096"
proof -
  let ?v = "unat va div 4096" and ?w = "(unat va + unat sz + 4095) div 4096"
  have s: "unat (va + sz + 0xFFF) = unat va + unat sz + 4095"
    using assms(1) unat_add_no_wrap [of va sz] unat_add_no_wrap [of "va + sz" "0xFFF"] by simp
  have a: "unat a = ?v * 4096" and e: "unat e = ?w * 4096"
    unfolding a_def e_def unat_page_base s by simp_all
  have le: "?v \<le> ?w" by (rule div_le_mono) simp
  have "unat (e - a) = (?w - ?v) * 4096"
    using le unat_sub_no_wrap [of a e] by (simp add: word_le_nat_alt a e diff_mult_distrib)
  moreover have "unat va + unat sz + 4095 = ?v * 4096 + (unat va mod 4096 + unat sz + 4095)"
    using div_mult_mod_eq [of "unat va" 4096] by linarith
  then have "?w = ?v + (unat va mod 4096 + unat sz + 4095) div 4096"
    by (metis div_mult_self3 zero_neq_numeral)
  ultimately show ?thesis
    by (simp add: page_offsets_def)
qed

section \<open>The loop\<close>

definition visits :: "(u64 \<Rightarrow> u64) \<Rightarrow> u64 \<Rightarrow> u64 list \<Rightarrow> nat \<Rightarrow> nat \<Rightarrow> nat \<Rightarrow> bool" where
  "visits xlate va offs i j n \<longleftrightarrow> (\<exists>off \<in> set offs. xlate (va + off) \<noteq> 0 \<and> at_gpa (xlate (va + off)) i j n)"

lemma visits_simps [simp]:
  "\<not> visits xlate va [] i j n"
  "visits xlate va (off # offs) i j n \<longleftrightarrow>
     xlate (va + off) \<noteq> 0 \<and> at_gpa (xlate (va + off)) i j n \<or> visits xlate va offs i j n"
  by (auto simp: visits_def)

text \<open>A step of the loop: look an entry up and change its permission to execute.\<close>

lemma trace_step:
  fixes x :: bool
  assumes wf: "ept_wf ep" and g: "get_ept_pte ep gpa True = (ep1, Some q)"
  defines "ep' \<equiv> upd_pte q (\<lambda>l. l\<lparr>execute_access := x\<rparr>) ep1"
  shows "ept_wf ep'" and "hooks ep' = hooks ep" and "pml4_idx gpa = 0"
    and "\<And>g q. ptr_of ep g q \<Longrightarrow> ptr_of ep' g q"
    and "\<And>i j n. (i, j) \<in> slots \<Longrightarrow> n < 512 \<Longrightarrow> leaf_at ep' i j n =
       (leaf_at ep i j n)\<lparr>execute_access := (if at_gpa gpa i j n then x else execute_access (leaf_at ep i j n))\<rparr>"
proof -
  note v = get_ept_pte_view [OF wf g, simplified]
  then show "ept_wf ep'" "hooks ep' = hooks ep" "pml4_idx gpa = 0" "\<And>g q. ptr_of ep g q \<Longrightarrow> ptr_of ep' g q"
    by (auto simp: ep'_def ptr_of_def [of _ gpa])
  show "leaf_at ep' i j n =
       (leaf_at ep i j n)\<lparr>execute_access := (if at_gpa gpa i j n then x else execute_access (leaf_at ep i j n))\<rparr>"
    if "(i, j) \<in> slots" "n < 512" for i j n
    unfolding ep'_def using leaf_at_upd_pte [of ep1 gpa q i j _ n] v that by (simp add: same_view_on_def)
qed

lemma get_ept_pte_used:
  "get_ept_pte ep gpa b = (ep', r) \<Longrightarrow> split_pte_used ep' \<le> split_pte_used ep + 1"
  by (auto simp: get_ept_pte_def split_pde_def Let_def split: if_splits ept_pd_slot.splits option.splits)

text \<open>What the loop leaves of an entry, in the normal and in the target tables.\<close>

definition restrict_exec :: "bool \<Rightarrow> ept_leaf \<Rightarrow> ept_leaf" where
  "restrict_exec traced l = l\<lparr>execute_access := (execute_access l \<and> \<not> traced)\<rparr>"

definition grant_exec :: "bool \<Rightarrow> ept_leaf \<Rightarrow> ept_leaf" where
  "grant_exec traced l = l\<lparr>execute_access := (execute_access l \<or> traced)\<rparr>"

definition leaves_from :: "ept_pages \<Rightarrow> ept_pages \<Rightarrow> (nat \<Rightarrow> nat \<Rightarrow> nat \<Rightarrow> ept_leaf \<Rightarrow> ept_leaf) \<Rightarrow> bool" where
  "leaves_from ep ep' f \<longleftrightarrow>
     (\<forall>i j n. (i, j) \<in> slots \<and> n < 512 \<longrightarrow> leaf_at ep' i j n = f i j n (leaf_at ep i j n))"

lemma trace_step_leaves:
  assumes "ept_wf ep" and "get_ept_pte ep gpa True = (ep1, Some q)"
  shows "leaves_from ep (upd_pte q (\<lambda>l. l\<lparr>execute_access := False\<rparr>) ep1) (\<lambda>i j n. restrict_exec (at_gpa gpa i j n))"
    and "leaves_from ep (upd_pte q (\<lambda>l. l\<lparr>execute_access := True\<rparr>) ep1) (\<lambda>i j n. grant_exec (at_gpa gpa i j n))"
  using trace_step(5) [OF assms] by (simp_all add: leaves_from_def restrict_exec_def grant_exec_def)

lemma exec_compose:
  "restrict_exec a (restrict_exec b l) = restrict_exec (b \<or> a) l"
  "grant_exec a (grant_exec b l) = grant_exec (b \<or> a) l"
  "set_perm r w x (restrict_exec a l) = set_perm r w x l"
  "set_perm r w x (grant_exec a l) = set_perm r w x l"
  by (auto simp: restrict_exec_def grant_exec_def set_perm_def)

text \<open>The part of the tables that tracing leaves alone.\<close>

definition kept :: "ept_pages \<Rightarrow> ept_pages \<Rightarrow> bool" where
  "kept ep ep' \<longleftrightarrow> ept_wf ep' \<and> hooks ep' = hooks ep \<and> (\<forall>g q. ptr_of ep g q \<longrightarrow> ptr_of ep' g q)"

lemma kept_trans: "kept a b \<Longrightarrow> kept b c \<Longrightarrow> kept a c"
  by (simp add: kept_def)

lemma kept_step: "ept_wf ep \<Longrightarrow> get_ept_pte ep gpa True = (ep1, Some q) \<Longrightarrow>
    kept ep (upd_pte q (\<lambda>l. l\<lparr>execute_access := x\<rparr>) ep1)"
  unfolding kept_def using trace_step(1,2,4) by blast

lemma reset_after_lookup:
  assumes "ept_wf ep" and "get_ept_pte ep gpa True = (ep1, r)"
  shows "kept ep (set_all_permissions ep1 True True True) \<and>
     leaves_from ep (set_all_permissions ep1 True True True) (\<lambda>i j n. set_perm True True True)"
  using get_ept_pte_view [OF assms] leaf_at_set_all [of ep1]
  by (simp add: kept_def leaves_from_def same_view_on_def set_all_permissions_wf)

definition trace_result ::
  "(u64 \<Rightarrow> u64) \<Rightarrow> u64 \<Rightarrow> u64 list \<Rightarrow> ept_pages \<Rightarrow> ept_pages \<Rightarrow> bool \<Rightarrow> ept_pages \<Rightarrow> ept_pages \<Rightarrow> bool" where
  "trace_result xlate va offs nrm tgt ok nrm' tgt' \<longleftrightarrow>
     kept nrm nrm' \<and> kept tgt tgt' \<and>
     (if ok then leaves_from nrm nrm' (\<lambda>i j n. restrict_exec (visits xlate va offs i j n)) \<and>
                 leaves_from tgt tgt' (\<lambda>i j n. grant_exec (visits xlate va offs i j n)) \<and>
                 (\<forall>off \<in> set offs. xlate (va + off) \<noteq> 0 \<longrightarrow> pml4_idx (xlate (va + off)) = 0)
      else leaves_from nrm nrm' (\<lambda>i j n. set_perm True True True) \<and>
           leaves_from tgt tgt' (\<lambda>i j n. set_perm True True True) \<and>
           ((\<exists>off \<in> set offs. pml4_idx (xlate (va + off)) \<noteq> 0) \<or>
            256 < split_pte_used nrm + length offs \<or> 256 < split_pte_used tgt + length offs))"

lemma trace_result_step:
  assumes n: "kept nrm nrm1" "leaves_from nrm nrm1 (\<lambda>i j n. restrict_exec (at_gpa gpa i j n))"
      "split_pte_used nrm1 \<le> split_pte_used nrm + 1"
    and t: "kept tgt tgt1" "leaves_from tgt tgt1 (\<lambda>i j n. grant_exec (at_gpa gpa i j n))"
      "split_pte_used tgt1 \<le> split_pte_used tgt + 1"
    and g: "gpa = xlate (va + off)" "gpa \<noteq> 0" "pml4_idx gpa = 0"
    and r: "trace_result xlate va offs nrm1 tgt1 ok nrm' tgt'"
  shows "trace_result xlate va (off # offs) nrm tgt ok nrm' tgt'"
proof -
  have k: "kept nrm nrm'" "kept tgt tgt'"
    using n(1) t(1) r by (auto simp: trace_result_def intro: kept_trans)
  show ?thesis
  proof (cases ok)
    case True
    then show ?thesis
      using r k n(2) t(2) g by (simp add: trace_result_def leaves_from_def exec_compose)
  next
    case False
    then show ?thesis
      using r k n(2,3) t(2,3) by (auto simp: trace_result_def leaves_from_def exec_compose)
  qed
qed

lemma auto_trace_loop_result:
  assumes "ept_wf nrm" and "ept_wf tgt" and "auto_trace_loop xlate va offs nrm tgt = (ok, nrm', tgt')"
  shows "trace_result xlate va offs nrm tgt ok nrm' tgt'"
  using assms
proof (induction xlate va offs nrm tgt rule: auto_trace_loop.induct)
  case (1 xlate va nrm tgt)
  then show ?case
    by (auto simp: trace_result_def kept_def leaves_from_def restrict_exec_def grant_exec_def)
next
  case (2 xlate va off offs nrm tgt)
  define gpa where "gpa = xlate (va + off)"
  show ?case
  proof (cases "gpa = 0")
    case True
    then have "trace_result xlate va offs nrm tgt ok nrm' tgt'"
      using 2 by (simp add: gpa_def)
    then show ?thesis
      using True by (auto simp: trace_result_def gpa_def)
  next
    case False
    obtain nrm1 qn where n: "get_ept_pte nrm gpa True = (nrm1, qn)" by (cases "get_ept_pte nrm gpa True")
    obtain tgt1 qt where t: "get_ept_pte tgt gpa True = (tgt1, qt)" by (cases "get_ept_pte tgt gpa True")
    show ?thesis
    proof (cases "qn = None \<or> qt = None")
      case True
      then have r: "ok = False" "nrm' = set_all_permissions nrm1 True True True"
        "tgt' = set_all_permissions tgt1 True True True"
        using "2.prems"(3) False n t by (auto simp: gpa_def Let_def split: option.splits)
      have "pml4_idx gpa \<noteq> 0 \<or> split_pte_used nrm = 256 \<or> split_pte_used tgt = 256"
        using get_ept_pte_view [OF "2.prems"(1) n] get_ept_pte_view [OF "2.prems"(2) t] True by auto
      then show ?thesis
        using reset_after_lookup [OF "2.prems"(1) n] reset_after_lookup [OF "2.prems"(2) t] r
        by (auto simp: trace_result_def gpa_def)
    next
      case no: False
      then obtain q q' where q: "qn = Some q" "qt = Some q'" by auto
      let ?n = "upd_pte q (\<lambda>l. l\<lparr>execute_access := False\<rparr>) nrm1"
      let ?t = "upd_pte q' (\<lambda>l. l\<lparr>execute_access := True\<rparr>) tgt1"
      note n = n [unfolded q] and t = t [unfolded q]
      note sn = trace_step [OF "2.prems"(1) n] and st = trace_step [OF "2.prems"(2) t]
      have "auto_trace_loop xlate va offs ?n ?t = (ok, nrm', tgt')"
        using "2.prems"(3) False n t by (simp add: gpa_def Let_def)
      then have "trace_result xlate va offs ?n ?t ok nrm' tgt'"
        using "2.IH"(2) [OF gpa_def _ n [symmetric] _ t [symmetric]] False sn(1) st(1) by simp
      then show ?thesis
        using get_ept_pte_used [OF n] get_ept_pte_used [OF t] False sn(3)
          kept_step [OF "2.prems"(1) n, of False] kept_step [OF "2.prems"(2) t, of True]
          trace_step_leaves(1) [OF "2.prems"(1) n] trace_step_leaves(2) [OF "2.prems"(2) t]
        by (intro trace_result_step [where gpa = gpa and ?nrm1.0 = ?n and ?tgt1.0 = ?t]) (simp_all add: gpa_def)
    qed
  qed
qed

section \<open>Who may execute\<close>

text \<open>The guest physical page of \<open>gpa\<close> backs a page of the target range.\<close>

definition traced :: "(u64 \<Rightarrow> u64) \<Rightarrow> u64 \<Rightarrow> u64 \<Rightarrow> u64 \<Rightarrow> bool" where
  "traced xlate va sz gpa \<longleftrightarrow>
     (\<exists>p \<in> target_pages va sz. xlate p \<noteq> 0 \<and> bit_field 12 27 (xlate p) = bit_field 12 27 gpa)"

lemma bit_field_27_iff:
  "bit_field 12 27 a = bit_field 12 27 b \<longleftrightarrow> pt_idx a = pt_idx b \<and> pd_idx a = pd_idx b \<and> pdpt_idx a = pdpt_idx b"
proof -
  have split: "(\<forall>k < 27. P (12 + k)) \<longleftrightarrow> (\<forall>k < 9. P (12 + k)) \<and> (\<forall>k < 9. P (21 + k)) \<and> (\<forall>k < 9. P (30 + k))"
    for P :: "nat \<Rightarrow> bool"
  proof (intro iffI conjI allI impI)
    fix k :: nat
    assume a: "(\<forall>k < 9. P (12 + k)) \<and> (\<forall>k < 9. P (21 + k)) \<and> (\<forall>k < 9. P (30 + k))" and "k < 27"
    then consider "k < 9" | "k - 9 < 9" "12 + k = 21 + (k - 9)" | "k - 18 < 9" "12 + k = 30 + (k - 18)"
      by linarith
    then show "P (12 + k)" using a by (metis (full_types))
  next
    fix k :: nat
    assume a: "\<forall>k < 27. P (12 + k)" and k: "k < 9"
    show "P (12 + k)" "P (21 + k)" "P (30 + k)"
      using a [rule_format, of k] a [rule_format, of "9 + k"] a [rule_format, of "18 + k"] k
      by (simp_all add: add.assoc [symmetric])
  qed
  have f: "bit_field lo n a = bit_field lo n b \<longleftrightarrow> (\<forall>k < n. bit a (lo + k) = bit b (lo + k))" if "n \<le> 64" for lo n
    using that by (simp add: bit_field_def bit_eq_iff bit_take_bit_iff bit_drop_bit_eq) (meson order_less_le_trans)
  show ?thesis
    using split [of "\<lambda>k. bit a k = bit b k"] by (simp add: va_field_defs f)
qed

lemma idx_at_gpa_iff: "idx_gpa (at_gpa g) gpa \<longleftrightarrow> bit_field 12 27 g = bit_field 12 27 gpa"
  unfolding bit_field_27_iff at_gpa_def word_unat_eq_iff [of "pt_idx g"] word_unat_eq_iff [of "pd_idx g"]
    word_unat_eq_iff [of "pdpt_idx g"] by auto

lemma walk_from:
  assumes "ept_wf ep" and "ept_wf ep'" and "leaves_from ep ep' f" and "gpa < 0x8000000000"
    and "\<And>l. page_frame_number (idx_gpa f gpa l) = page_frame_number l"
    and "\<And>l. memory_type (idx_gpa f gpa l) = memory_type l"
  shows "ept_walk ep' gpa = map_option (\<lambda>a. let l = idx_gpa f gpa (idx_gpa (leaf_at ep) gpa) in
     a\<lparr>a_read := read_access l, a_write := write_access l, a_execute := execute_access l\<rparr>) (ept_walk ep gpa)"
  using assms(3,5,6)
  by (simp add: ept_walk_wf [OF assms(1) mapped_gpa(1) [OF assms(4)]]
      ept_walk_wf [OF assms(2) mapped_gpa(1) [OF assms(4)]] leaves_from_def Let_def)

lemma walk_execute: "ept_wf ep \<Longrightarrow> gpa < 0x8000000000 \<Longrightarrow> ept_walk ep gpa = Some a \<Longrightarrow>
    read_access (idx_gpa (leaf_at ep) gpa) = a_read a \<and> write_access (idx_gpa (leaf_at ep) gpa) = a_write a \<and>
    execute_access (idx_gpa (leaf_at ep) gpa) = a_execute a"
  by (auto simp: ept_walk_wf mapped_gpa(1) Let_def)

text \<open>C1. Auto tracing divides the right to execute between the two sets of tables.
  Let the range \<open>va, \<dots>, va + sz - 1\<close> not wrap around. If \<open>enable_auto_trace\<close> succeeds, every guest
  physical address below 512 GB keeps its translation and memory type in both tables; it is
  executable under the target tables exactly if it lies in a page that backs the range, and under
  the normal tables exactly if it was executable before and lies in no such page. If it fails, all
  pages are readable, writable and executable in both. It fails only if a page of the range is
  backed beyond 512 GB or a pool of page tables is too small for the pages of the range.\<close>

theorem auto_trace_divides_execution:
  assumes "ept_wf nrm" and "ept_wf tgt" and "unat va + unat sz + 0xFFF < 2 ^ 64" and "gpa < 0x8000000000"
    and "enable_auto_trace xlate nrm tgt va sz = (ok, nrm', tgt')"
    and "ept_walk nrm gpa = Some a" and "ept_walk tgt gpa = Some b"
  shows "if ok
    then ept_walk nrm' gpa = Some (a\<lparr>a_execute := (a_execute a \<and> \<not> traced xlate va sz gpa)\<rparr>) \<and>
         ept_walk tgt' gpa = Some (b\<lparr>a_read := True, a_write := True, a_execute := traced xlate va sz gpa\<rparr>)
    else ept_walk nrm' gpa = Some (a\<lparr>a_read := True, a_write := True, a_execute := True\<rparr>) \<and>
         ept_walk tgt' gpa = Some (b\<lparr>a_read := True, a_write := True, a_execute := True\<rparr>) \<and>
         ((\<exists>p \<in> target_pages va sz. pml4_idx (xlate p) \<noteq> 0) \<or>
          256 < split_pte_used nrm + (unat va mod 4096 + unat sz + 0xFFF) div 4096 \<or>
          256 < split_pte_used tgt + (unat va mod 4096 + unat sz + 0xFFF) div 4096)"
proof -
  let ?t = "set_all_permissions tgt True True False"
  define pa where "pa = va AND NOT 0xFFF"
  define offs where "offs = page_offsets (((va + sz + 0xFFF) AND NOT 0xFFF) - pa)"
  have wf: "ept_wf ?t" and st: "leaves_from tgt ?t (\<lambda>i j n. set_perm True True False)"
    using assms(2) leaf_at_set_all by (simp_all add: set_all_permissions_wf leaves_from_def)
  have r: "trace_result xlate pa offs nrm ?t ok nrm' tgt'"
    using assms(5) by (intro auto_trace_loop_result [OF assms(1) wf]) (simp add: enable_auto_trace_def Let_def pa_def offs_def)
  then have wf': "ept_wf nrm'" "ept_wf tgt'"
    by (simp_all add: trace_result_def kept_def)
  have cover: "(\<exists>off \<in> set offs. P (pa + off)) \<longleftrightarrow> (\<exists>p \<in> target_pages va sz. P p)" for P
    unfolding page_offsets_cover [OF assms(3), symmetric] pa_def offs_def by simp
  have tr: "idx_gpa (visits xlate pa offs) gpa = traced xlate va sz gpa"
    unfolding visits_def traced_def idx_at_gpa_iff
    by (rule cover [of "\<lambda>p. xlate p \<noteq> 0 \<and> bit_field 12 27 (xlate p) = bit_field 12 27 gpa"])
  note acc = walk_execute [OF assms(1,4,6)] walk_execute [OF assms(2,4,7)]
  show ?thesis
  proof (cases ok)
    case True
    let ?f = "\<lambda>i j n. restrict_exec (visits xlate pa offs i j n)"
    let ?g = "\<lambda>i j n l. grant_exec (visits xlate pa offs i j n) (set_perm True True False l)"
    have l: "leaves_from nrm nrm' ?f" "leaves_from tgt tgt' ?g"
      using r st True by (simp_all add: trace_result_def leaves_from_def)
    show ?thesis
      using walk_from [OF assms(1) wf'(1) l(1) assms(4)] walk_from [OF assms(2) wf'(2) l(2) assms(4)] True acc
      by (simp add: assms(6,7) restrict_exec_def grant_exec_def set_perm_def Let_def tr)
  next
    case False
    let ?f = "\<lambda>i j n. set_perm True True True"
    have l: "leaves_from nrm nrm' ?f" "leaves_from tgt tgt' ?f"
      using r st False by (simp_all add: trace_result_def leaves_from_def set_perm_def)
    have "(\<exists>p \<in> target_pages va sz. pml4_idx (xlate p) \<noteq> 0) \<or>
        256 < split_pte_used nrm + length offs \<or> 256 < split_pte_used tgt + length offs"
      using r False cover [of "\<lambda>p. pml4_idx (xlate p) \<noteq> 0"] by (simp add: trace_result_def)
    then show ?thesis
      using walk_from [OF assms(1) wf'(1) l(1) assms(4)] walk_from [OF assms(2) wf'(2) l(2) assms(4)] False acc
      unfolding offs_def pa_def length_page_offsets [OF assms(3)] by (simp add: assms(6,7) set_perm_def Let_def)
  qed
qed

lemma flat_ept_hooks: "hooks flat_ept = []"
  by (simp add: flat_ept_def zeroed_ept_def Let_def)

theorem auto_trace_divides_execution_witness:
  "let r = enable_auto_trace (\<lambda>p. p) flat_ept flat_ept 0x5010 0x10 in
   fst r \<and> traced (\<lambda>p. p) 0x5010 0x10 0x5123 \<and>
   ept_walk (fst (snd r)) 0x5123 = map_option (a_execute_update (\<lambda>_. False)) (ept_walk flat_ept 0x5123) \<and>
   ept_walk (snd (snd r)) 0x5123 = ept_walk flat_ept 0x5123"
proof -
  obtain ok n t where r: "enable_auto_trace (\<lambda>p. p) flat_ept flat_ept 0x5010 0x10 = (ok, n, t)"
    by (cases "enable_auto_trace (\<lambda>p. p) flat_ept flat_ept 0x5010 0x10") auto
  have wf: "ept_wf flat_ept" using flat_ept_base by (simp add: ept_base_def)
  obtain a where a: "ept_walk flat_ept 0x5123 = Some a" "a_read a" "a_write a" "a_execute a"
    using walk_identity [OF wf, of "0x5123" True] all_inactive_plain [OF flat_ept_base] flat_ept_hooks
    by (auto simp: identity_access_def)
  have "pml4_idx p = 0" if "p \<in> target_pages 0x5010 0x10" for p
    using that by (intro mapped_gpa(1)) (simp add: target_pages_def word_less_nat_alt)
  moreover have "0x5000 \<in> target_pages 0x5010 0x10"
    by (simp add: target_pages_def)
  then have "traced (\<lambda>p. p) 0x5010 0x10 0x5123"
    unfolding traced_def by (rule bexI [rotated]) (simp add: bit_field_def drop_bit_eq_div take_bit_eq_mod)
  moreover have "split_pte_used flat_ept = 0"
    by (simp add: flat_ept_def zeroed_ept_def Let_def)
  ultimately show ?thesis
    using auto_trace_divides_execution [OF wf wf _ _ r a(1) a(1)] a by (auto simp: r Let_def split: if_splits)
qed

section \<open>Tracing and hooks\<close>

text \<open>
  Tables all of whose hooks are inactive are again such tables after a change of permissions
  alone that a reset of all permissions follows.
\<close>

lemma reset_inactive_base:
  assumes b: "ept_base ep" and none: "\<forall>h \<in> set (hooks ep). hk_pte h = None" and k: "kept ep ep'"
    and l: "leaves_from ep ep' f" and pfn: "\<And>i j n l. page_frame_number (f i j n l) = page_frame_number l"
  shows "ept_base (set_all_permissions ep' True True True) \<and> hooks (set_all_permissions ep' True True True) = hooks ep"
proof (intro conjI ept_baseI)
  show "ept_wf (set_all_permissions ep' True True True)"
    using k by (simp add: kept_def set_all_permissions_wf)
  have "hook_ok (set_all_permissions ep' True True True) h" if "h \<in> set (hooks ep)" for h
  proof (rule hook_ok_mono)
    show "hook_ok ep h"
      using b that by (simp add: ept_base_def hooks_wf_def)
    show "ptr_of (set_all_permissions ep' True True True) g q" if "ptr_of ep g q" for g q
      using k that unfolding kept_def ptr_of_set_all by blast
  qed
  then show "hooks_wf (set_all_permissions ep' True True True)"
    using k b by (simp add: hooks_wf_def kept_def ept_base_def)
  show "plain_leaf i j n (leaf_at (set_all_permissions ep' True True True) i j n)"
    if "(i, j) \<in> slots" "n < 512" for i j n
    using all_inactive_plain [OF b none that] leaf_at_set_all [of ep' i j n] k l pfn that
    by (simp add: kept_def leaves_from_def plain_leaf_def rwx_leaf_def set_perm_def)
  show "hooks (set_all_permissions ep' True True True) = hooks ep"
    using k by (simp add: kept_def)
qed

text \<open>What the loop leaves of both tables, the target tables without execute permission before it.\<close>

lemma tracing_loop_result:
  assumes "ept_wf nrm" and "ept_wf tgt"
    and "auto_trace_loop xlate pa offs nrm (set_all_permissions tgt True True False) = (ok, nrm', tgt')"
  shows "\<exists>f g. kept nrm nrm' \<and> kept tgt tgt' \<and> leaves_from nrm nrm' f \<and> leaves_from tgt tgt' g \<and>
    (\<forall>i j n l. page_frame_number (f i j n l) = page_frame_number l \<and> page_frame_number (g i j n l) = page_frame_number l) \<and>
    (ok \<longrightarrow> f = (\<lambda>i j n. restrict_exec (visits xlate pa offs i j n)) \<and>
       g = (\<lambda>i j n l. grant_exec (visits xlate pa offs i j n) (set_perm True True False l))) \<and>
    (\<not> ok \<longrightarrow> f = (\<lambda>i j n. set_perm True True True) \<and> g = (\<lambda>i j n. set_perm True True True))"
proof -
  let ?t = "set_all_permissions tgt True True False"
  have t: "ept_wf ?t" "kept tgt ?t" "leaves_from tgt ?t (\<lambda>i j n. set_perm True True False)"
    using assms(2) leaf_at_set_all by (simp_all add: set_all_permissions_wf leaves_from_def kept_def)
  have r: "trace_result xlate pa offs nrm ?t ok nrm' tgt'"
    using auto_trace_loop_result [OF assms(1) t(1) assms(3)] .
  have k: "kept nrm nrm'" "kept tgt tgt'"
    using r t(2) by (auto simp: trace_result_def intro: kept_trans)
  show ?thesis
  proof (cases ok)
    case True
    let ?f = "\<lambda>i j n. restrict_exec (visits xlate pa offs i j n)"
    let ?g = "\<lambda>i j n l. grant_exec (visits xlate pa offs i j n) (set_perm True True False l)"
    have "leaves_from tgt tgt' ?g" "leaves_from nrm nrm' ?f"
      using r t(3) True by (simp_all add: trace_result_def leaves_from_def)
    then show ?thesis
      using k True
      by (intro exI [of _ ?f] exI [of _ ?g]) (simp add: grant_exec_def restrict_exec_def set_perm_def)
  next
    case False
    have "leaves_from tgt tgt' (\<lambda>i j n. set_perm True True True)" "leaves_from nrm nrm' (\<lambda>i j n. set_perm True True True)"
      using r t(3) False by (simp_all add: trace_result_def leaves_from_def set_perm_def)
    then show ?thesis
      using k False by (intro exI [of _ "\<lambda>i j n. set_perm True True True"]) (simp add: set_perm_def)
  qed
qed

text \<open>The entries visited are those of the pages that back the range.\<close>

lemma visits_traced:
  assumes "unat va + unat sz + 0xFFF < 2 ^ 64"
  defines "pa \<equiv> va AND NOT 0xFFF"
  shows "idx_gpa (visits xlate pa (page_offsets (((va + sz + 0xFFF) AND NOT 0xFFF) - pa))) gpa = traced xlate va sz gpa"
proof -
  let ?offs = "page_offsets (((va + sz + 0xFFF) AND NOT 0xFFF) - pa)"
  have "(\<exists>off \<in> set ?offs. P (pa + off)) \<longleftrightarrow> (\<exists>p \<in> target_pages va sz. P p)" for P
    unfolding page_offsets_cover [OF assms(1), symmetric] pa_def by simp
  from this [of "\<lambda>p. xlate p \<noteq> 0 \<and> bit_field 12 27 (xlate p) = bit_field 12 27 gpa"]
  show ?thesis
    unfolding visits_def traced_def idx_at_gpa_iff .
qed

end
