(* ===== verification/Ept_Init.thy ===== *)
theory Ept_Init
  imports Ept_Trace
begin

text \<open>
  Building the extended page tables and following the memory types
  (\<open>initialize_ept\<close> and \<open>update_ept_memory_types\<close> of \<open>revhv-km/ept.cpp\<close>).
\<close>

section \<open>Memory types of pages\<close>

definition page_type :: "mtrr_state \<Rightarrow> u64 \<Rightarrow> u8" where
  "page_type st pfn = get_mtrr_memory_type_single st (push_bit 12 pfn)"

lemma push_12_aligned: "push_bit 12 w AND 0xFFF = 0" for w :: u64
  unfolding page_mask by (rule bit_eqI) (auto simp: bit_simps)

lemma page_range_type:
  assumes "unat pfn < 2 ^ 40"
  shows "get_mtrr_range_memory_type st (push_bit 12 pfn) 0x1000 = Some (page_type st pfn, True)"
  unfolding page_type_def
  using assms by (intro page_type_uniform push_12_aligned) (simp add: unat_push_bit)

text \<open>A 2 MB page: its result is uniform exactly if the 512 pages have one type.\<close>

lemma large_range_type:
  assumes "unat pfn < 2 ^ 31"
  shows "\<exists>t u. get_mtrr_range_memory_type st (push_bit 21 pfn) 0x200000 = Some (t, u) \<and>
     (u \<longrightarrow> (\<forall>n < 512. page_type st (push_bit 9 pfn + of_nat n) = t))"
proof -
  let ?pa = "push_bit 21 pfn"
  have pa: "?pa = push_bit 12 (push_bit 9 pfn)" by simp
  have pages: "?pa + of_nat k * 0x1000 = push_bit 12 (push_bit 9 pfn + of_nat k)" for k
    by (simp add: push_bit_eq_mult algebra_simps)
  let ?r = "mtrr_merge (get_mtrr_memory_type_single st ?pa) True (page_types st (?pa + 0x1000) 511)"
  have "get_mtrr_range_memory_type st ?pa (of_nat (Suc 511) * 0x1000) = Some ?r"
    using assms by (intro range_type_aligned) (simp_all only: pa push_12_aligned, simp add: unat_push_bit)
  moreover have "page_type st (push_bit 9 pfn + of_nat n) = fst ?r" if "snd ?r" "n < 512" for n
  proof -
    have s: "get_mtrr_memory_type_single st ?pa # page_types st (?pa + 0x1000) 511 = page_types st ?pa 512"
      using page_types_Suc [of st ?pa 511] by simp
    have all: "\<forall>t \<in> set (page_types st (?pa + 0x1000) 511). t = get_mtrr_memory_type_single st ?pa"
      using that(1) by (simp only: mtrr_merge_uniform)
    have "get_mtrr_memory_type_single st (?pa + of_nat n * 0x1000) \<in> set (page_types st ?pa 512)"
      using that(2) unfolding set_page_types by blast
    with all have "get_mtrr_memory_type_single st (?pa + of_nat n * 0x1000) = get_mtrr_memory_type_single st ?pa"
      unfolding s [symmetric] by auto
    then show ?thesis
      using mtrr_merge_same [OF all, of True] by (simp only: page_type_def pages [symmetric] fst_conv)
  qed
  ultimately show ?thesis
    by (intro exI [of _ "fst ?r"] exI [of _ "snd ?r"]) simp
qed

section \<open>Types of a page table\<close>

definition retyped :: "mtrr_state \<Rightarrow> ept_leaf \<Rightarrow> ept_leaf" where
  "retyped st l = l\<lparr>memory_type := page_type st (page_frame_number l)\<rparr>"

lemma retyped_idem [simp]: "retyped st (retyped st l) = retyped st l"
  by (simp add: retyped_def)

lemma retyped_pfn [simp]: "page_frame_number (retyped st l) = page_frame_number l"
  by (simp add: retyped_def)

lemma set_pt_types_some:
  assumes "\<forall>n \<in> set ns. unat (page_frame_number (pt_frames ep (split_pte_pfns ep k) n)) < 2 ^ 40"
  shows "set_pt_types st k ns ep = Some (True, ep\<lparr>pt_frames := (pt_frames ep)(split_pte_pfns ep k :=
     (\<lambda>n. if n \<in> set ns then retyped st (pt_frames ep (split_pte_pfns ep k) n)
          else pt_frames ep (split_pte_pfns ep k) n))\<rparr>)"
  using assms
proof (induction ns arbitrary: ep)
  case Nil
  then show ?case by simp
next
  case (Cons m ns)
  let ?p = "split_pte_pfns ep k"
  let ?e = "ep\<lparr>pt_frames := (pt_frames ep)(?p := (pt_frames ep ?p)(m := retyped st (pt_frames ep ?p m)))\<rparr>"
  have "set_pt_types st k (m # ns) ep = set_pt_types st k ns ?e"
    using Cons.prems page_range_type [of "page_frame_number (pt_frames ep ?p m)" st]
    by (simp add: Let_def retyped_def)
  also have "\<dots> = Some (True, ?e\<lparr>pt_frames := (pt_frames ?e)(split_pte_pfns ?e k :=
     (\<lambda>n. if n \<in> set ns then retyped st (pt_frames ?e (split_pte_pfns ?e k) n)
          else pt_frames ?e (split_pte_pfns ?e k) n))\<rparr>)"
    using Cons.prems by (intro Cons.IH) auto
  also have "\<dots> = Some (True, ep\<lparr>pt_frames := (pt_frames ep)(?p :=
     (\<lambda>n. if n \<in> set (m # ns) then retyped st (pt_frames ep ?p n) else pt_frames ep ?p n))\<rparr>)"
    by (auto simp: fun_eq_iff)
  finally show ?case .
qed

lemma leaf_at_retype_frame:
  assumes "n < 512"
  shows "leaf_at (ep\<lparr>pt_frames := (pt_frames ep)(p := (\<lambda>n. if n \<in> set [0..<512]
       then retyped st (pt_frames ep p n) else pt_frames ep p n))\<rparr>) i j n =
     (if \<exists>t. pde ep i j = Split t \<and> t_page_frame_number t = p then retyped st (leaf_at ep i j n) else leaf_at ep i j n)"
  using assms by (auto simp: leaf_at_def split: ept_pd_slot.splits)

lemma ept_wf_on_frames: "ept_wf_on S (ep\<lparr>pt_frames := f\<rparr>) = ept_wf_on S ep"
  by (simp add: ept_wf_on_def)

lemma set_large_type_simps [simp]:
  "pml4e0 (set_large_type ep i j ty) = pml4e0 ep" "pdpte (set_large_type ep i j ty) = pdpte ep"
  "split_pte_pfns (set_large_type ep i j ty) = split_pte_pfns ep"
  "split_pte_used (set_large_type ep i j ty) = split_pte_used ep"
  "hooks (set_large_type ep i j ty) = hooks ep" "pt_frames (set_large_type ep i j ty) = pt_frames ep"
  by (simp_all add: set_large_type_def split: ept_pd_slot.splits)

lemma set_large_split_iff: "pde (set_large_type ep i j ty) a b = Split t \<longleftrightarrow> pde ep a b = Split t"
  by (auto simp: set_large_type_def split: ept_pd_slot.splits)

lemma set_large_type_wf: "ept_wf_on S ep \<Longrightarrow> ept_wf_on S (set_large_type ep i j ty)"
  unfolding ept_wf_on_def set_large_split_iff set_large_type_simps .

lemma leaf_at_set_large:
  "leaf_at (set_large_type ep i j ty) a b n =
     (if (a, b) = (i, j) \<and> (\<exists>l. pde ep i j = Large l) then (leaf_at ep a b n)\<lparr>memory_type := ty\<rparr> else leaf_at ep a b n)"
  by (auto simp: leaf_at_def set_large_type_def split: ept_pd_slot.splits)

section \<open>Initialisation\<close>

text \<open>
  The memory type of a page is the one its range registers give it, except that a 2 MB page that
  should have been split when no page table was left has the common type the registers give for
  all of it.
\<close>

definition type_spec :: "mtrr_state \<Rightarrow> nat \<Rightarrow> u64 \<Rightarrow> u8 \<Rightarrow> bool" where
  "type_spec st used pfn t \<longleftrightarrow>
     t = page_type st pfn \<or>
     used = 256 \<and> get_mtrr_range_memory_type st (push_bit 21 (drop_bit 9 pfn)) 0x200000 = Some (t, False)"

definition built :: "mtrr_state \<Rightarrow> (nat \<times> nat) set \<Rightarrow> ept_pages \<Rightarrow> bool" where
  "built st S ep \<longleftrightarrow> ept_wf_on S ep \<and>
     leaves_on S (\<lambda>i j n l. plain_leaf i j n l \<and> type_spec st (split_pte_used ep) (ident_pfn i j n) (memory_type l)) ep"

lemma unat_ident_pfn:
  "i < 512 \<Longrightarrow> j < 512 \<Longrightarrow> n < 512 \<Longrightarrow> unat (ident_pfn i j n) = (i * 512 + j) * 512 + n"
  unfolding ident_pfn_def by (rule unat_of_nat_64) simp

lemma drop_ident_pfn:
  assumes "i < 512" "j < 512" "n < 512"
  shows "drop_bit 9 (ident_pfn i j n) = push_bit 9 (of_nat i) + of_nat j"
proof -
  have "drop_bit 9 (ident_pfn i j n) = of_nat (drop_bit 9 (unat (ident_pfn i j n)))"
    by (simp only: unat_drop_bit_eq [symmetric] of_nat_unat ucast_id)
  also have "drop_bit 9 (unat (ident_pfn i j n)) = i * 512 + j"
    using assms by (simp add: unat_ident_pfn drop_bit_eq_div)
  finally show ?thesis
    by (simp add: push_bit_eq_mult)
qed

lemma unat_fresh_pfn: "i < 512 \<Longrightarrow> j < 512 \<Longrightarrow> unat (page_frame_number (fresh_large i j)) < 2 ^ 31"
  using unat_of_nat_64 [of "i * 512 + j"]
  by (simp add: fresh_large_def push_bit_eq_mult)

lemma fresh_slot:
  assumes "built st S ep" and "(i, j) \<notin> S"
  defines "ep1 \<equiv> ep\<lparr>pde := (pde ep)(i := (pde ep i)(j := Large (fresh_large i j)))\<rparr>"
  shows "ept_wf_on (insert (i, j) S) ep1" and "built st S ep1"
    and "plain_leaf i j n (leaf_at ep1 i j n)"
proof -
  have old: "pde ep1 a b = Split t \<longleftrightarrow> (a, b) \<noteq> (i, j) \<and> pde ep a b = Split t" for a b t
    by (auto simp: ep1_def)
  have leaf: "leaf_at ep1 a b n = leaf_at ep a b n" if "(a, b) \<noteq> (i, j)" for a b n
    using that by (auto simp: leaf_at_def ep1_def split: ept_pd_slot.splits)
  have same: "split_pte_pfns ep1 = split_pte_pfns ep" "split_pte_used ep1 = split_pte_used ep"
    by (simp_all add: ep1_def)
  show wf: "ept_wf_on (insert (i, j) S) ep1"
    using assms(1) unfolding built_def ept_wf_on_def old same by blast
  have "leaf_at ep1 a b n = leaf_at ep a b n" if "(a, b) \<in> S" for a b n
    using that assms(2) by (intro leaf) auto
  then show "built st S ep1"
    using ept_wf_on_subset [OF wf subset_insertI] assms(1) by (simp add: built_def leaves_on_def same)
  show "plain_leaf i j n (leaf_at ep1 i j n)"
    using fresh_large_pfn [of i j n]
    by (simp add: plain_leaf_def rwx_leaf_def leaf_at_def ep1_def) (simp add: fresh_large_def)
qed

definition same_rest :: "ept_pages \<Rightarrow> ept_pages \<Rightarrow> bool" where
  "same_rest ep ep' \<longleftrightarrow> pml4e0 ep' = pml4e0 ep \<and> pdpte ep' = pdpte ep \<and> hooks ep' = hooks ep \<and>
     split_pte_pfns ep' = split_pte_pfns ep"

lemma same_rest_trans: "same_rest a b \<Longrightarrow> same_rest b c \<Longrightarrow> same_rest a c"
  by (simp add: same_rest_def)

lemma split_pde_rest: "split_pde ep i j = (ep', r) \<Longrightarrow> same_rest ep ep'"
  by (auto simp: split_pde_def Let_def same_rest_def split: ept_pd_slot.splits if_splits)

lemma built_large:
  assumes wf: "ept_wf_on (insert (i, j) S) ep" and b: "built st S ep" and new: "(i, j) \<notin> S"
    and l: "pde ep i j = Large l" and p: "\<And>n. n < 512 \<Longrightarrow> plain_leaf i j n (leaf_at ep i j n)"
    and t: "\<And>n. n < 512 \<Longrightarrow> type_spec st (split_pte_used ep) (ident_pfn i j n) ty"
  shows "built st (insert (i, j) S) (set_large_type ep i j ty)"
  unfolding built_def leaves_on_def
proof (intro conjI allI impI; (elim conjE)?)
  show "ept_wf_on (insert (i, j) S) (set_large_type ep i j ty)"
    by (rule set_large_type_wf [OF wf])
  fix a c n
  assume ac: "(a, c) \<in> insert (i, j) S" and n: "n < (512 :: nat)"
  let ?l = "leaf_at (set_large_type ep i j ty) a c n"
  show "plain_leaf a c n ?l"
    "type_spec st (split_pte_used (set_large_type ep i j ty)) (ident_pfn a c n) (memory_type ?l)"
    using ac n p t l b new
    by (auto simp: leaf_at_set_large built_def leaves_on_def plain_leaf_def rwx_leaf_def)
qed

lemma type_spec_mono: "used \<le> used' \<Longrightarrow> used' \<le> 256 \<Longrightarrow> type_spec st used p t \<Longrightarrow> type_spec st used' p t"
  by (auto simp: type_spec_def)

lemma built_split:
  assumes wf: "ept_wf_on (insert (i, j) S) ep" and b: "built st S ep" and new: "(i, j) \<notin> S"
    and ij: "i < 512" "j < 512"
    and p: "\<And>n. n < 512 \<Longrightarrow> plain_leaf i j n (leaf_at ep i j n)"
    and s: "split_pde ep i j = (ep1, Some k)"
  shows "\<exists>ep'. set_pt_types st k [0..<512] ep1 = Some (True, ep') \<and> built st (insert (i, j) S) ep' \<and> same_rest ep ep'"
proof -
  note v = split_pde_view [OF wf insertI1 s]
  from s obtain l t where l: "split_pte_used ep < 256" "k = split_pte_used ep" "split_pte_used ep1 = k + 1"
    "split_pte_pfns ep1 = split_pte_pfns ep" "pde ep1 = (pde ep)(i := (pde ep i)(j := Split t))"
    "t_page_frame_number t = split_pte_pfns ep k"
    by (rule split_pde_some) blast
  let ?p = "split_pte_pfns ep1 k"
  have leaf: "leaf_at ep1 a c n = leaf_at ep a c n" if "(a, c) \<in> insert (i, j) S" "n < 512" for a c n
    using v(2) that unfolding same_view_on_def by blast
  have fr: "pt_frames ep1 ?p n = leaf_at ep1 i j n" for n
    using l by (simp add: leaf_at_def)
  have "unat (page_frame_number (pt_frames ep1 ?p n)) < 2 ^ 40" if "n < 512" for n
    using p [OF that] leaf [of i j n] that ij unfolding fr by (simp add: plain_leaf_def unat_ident_pfn)
  then have r: "set_pt_types st k [0..<512] ep1 = Some (True, ep1\<lparr>pt_frames := (pt_frames ep1)(?p :=
      (\<lambda>n. if n \<in> set [0..<512] then retyped st (pt_frames ep1 ?p n) else pt_frames ep1 ?p n))\<rparr>)"
    (is "_ = Some (True, ?e)")
    by (intro set_pt_types_some) auto
  have at: "(\<exists>t. pde ep1 a c = Split t \<and> t_page_frame_number t = ?p) \<longleftrightarrow> (a, c) = (i, j)"
    if "(a, c) \<in> insert (i, j) S" for a c
  proof
    assume "(a, c) = (i, j)"
    then show "\<exists>t. pde ep1 a c = Split t \<and> t_page_frame_number t = ?p"
      using l by simp
  next
    assume "\<exists>t. pde ep1 a c = Split t \<and> t_page_frame_number t = ?p"
    then obtain u where u: "pde ep1 a c = Split u" "t_page_frame_number u = ?p" by blast
    have e: "pde ep1 i j = Split t" using l(5) by simp
    have "a = i \<and> c = j"
      by (rule ept_wf_on_unique [OF v(1) that u(1) insertI1 e]) (simp only: u(2) l(4,6))
    then show "(a, c) = (i, j)" by simp
  qed
  have "built st (insert (i, j) S) ?e"
    unfolding built_def leaves_on_def
  proof (intro conjI allI impI; (elim conjE)?)
    show "ept_wf_on (insert (i, j) S) ?e"
      using v(1) by (simp only: ept_wf_on_frames)
    fix a c n
    assume ac: "(a, c) \<in> insert (i, j) S" and n: "n < (512 :: nat)"
    have e: "leaf_at ?e a c n = (if (a, c) = (i, j) then retyped st (leaf_at ep a c n) else leaf_at ep a c n)"
      unfolding leaf_at_retype_frame [OF n] at [OF ac] leaf [OF ac n] ..
    have old: "plain_leaf a c n (leaf_at ep a c n)" "(a, c) \<noteq> (i, j) \<Longrightarrow>
        type_spec st (split_pte_used ep) (ident_pfn a c n) (memory_type (leaf_at ep a c n))"
      using ac n p b by (auto simp: built_def leaves_on_def)
    show "plain_leaf a c n (leaf_at ?e a c n)"
      using old(1) unfolding e by (auto simp: plain_leaf_def rwx_leaf_def retyped_def)
    show "type_spec st (split_pte_used ?e) (ident_pfn a c n) (memory_type (leaf_at ?e a c n))"
    proof (cases "(a, c) = (i, j)")
      case True
      then show ?thesis
        using old(1) unfolding e by (simp add: retyped_def type_spec_def plain_leaf_def)
    next
      case False
      have "split_pte_used ?e = k + 1"
        using l(3) by simp
      then show ?thesis
        using type_spec_mono [OF _ _ old(2) [OF False], of "k + 1"] l(1,2) False unfolding e by auto
    qed
  qed
  moreover have "same_rest ep ?e"
    using split_pde_rest [OF s] by (simp add: same_rest_def)
  ultimately show ?thesis
    using r by blast
qed

lemma init_pde_built:
  assumes b: "built st S ep" and new: "(i, j) \<notin> S" and ij: "i < 512" "j < 512"
  shows "\<exists>ep'. init_pde st i j ep = Some (True, ep') \<and> built st (insert (i, j) S) ep' \<and> same_rest ep ep'"
proof -
  let ?ep = "ep\<lparr>pde := (pde ep)(i := (pde ep i)(j := Large (fresh_large i j)))\<rparr>"
  note f = fresh_slot [OF b new]
  let ?pfn = "page_frame_number (fresh_large i j)"
  have pfn: "?pfn = push_bit 9 (of_nat i) + of_nat j"
    by (simp add: fresh_large_def)
  obtain t u where r: "get_mtrr_range_memory_type st (push_bit 21 ?pfn) 0x200000 = Some (t, u)"
    and uni: "u \<longrightarrow> (\<forall>n < 512. page_type st (push_bit 9 ?pfn + of_nat n) = t)"
    using large_range_type [OF unat_fresh_pfn [OF ij]] by blast
  have rest: "same_rest ep ?ep" "same_rest ep (set_large_type ?ep i j t)"
    by (simp_all add: same_rest_def)
  have large: "pde ?ep i j = Large (fresh_large i j)" by simp
  show ?thesis
  proof (cases u)
    case True
    then have "type_spec st used (ident_pfn i j n) t" if "n < 512" for used n
      using uni that by (simp add: type_spec_def fresh_large_pfn)
    then have "built st (insert (i, j) S) (set_large_type ?ep i j t)"
      by (intro built_large [OF f(1,2) new large f(3)])
    then show ?thesis
      using True r rest by (simp add: init_pde_def Let_def)
  next
    case False
    obtain ep1 k where s: "split_pde ?ep i j = (ep1, k)" by (cases "split_pde ?ep i j")
    show ?thesis
    proof (cases k)
      case None
      then have e: "ep1 = ?ep" using s split_pde_fails by blast
      have "split_pte_used ?ep = 256"
      proof (rule ccontr)
        assume "split_pte_used ?ep \<noteq> 256"
        moreover have "split_pte_used ?ep \<le> 256"
          using f(1) by (simp only: ept_wf_on_def)
        ultimately obtain x y where "split_pde ?ep i j = (x, Some y)"
          using split_pde_pool_left [OF large] by (meson le_neq_implies_less)
        with s None show False by simp
      qed
      then have "type_spec st (split_pte_used ?ep) (ident_pfn i j n) t" if "n < 512" for n
        using r False ij that by (simp add: type_spec_def drop_ident_pfn pfn)
      then have "built st (insert (i, j) S) (set_large_type ?ep i j t)"
        by (intro built_large [OF f(1,2) new large f(3)])
      then show ?thesis
        using False r rest s None e by (simp add: init_pde_def Let_def)
    next
      case (Some m)
      obtain ep' where "set_pt_types st m [0..<512] ep1 = Some (True, ep')"
        "built st (insert (i, j) S) ep'" "same_rest ?ep ep'"
        using built_split [OF f(1,2) new ij f(3) s [unfolded Some]] by blast
      then show ?thesis
        using False r rest(1) s Some by (auto simp: init_pde_def Let_def intro: same_rest_trans)
    qed
  qed
qed

lemma init_pdes_built:
  assumes "built st S ep" and "distinct js" and "\<forall>j \<in> set js. j < 512 \<and> (i, j) \<notin> S" and "i < 512"
  shows "\<exists>ep'. init_pdes st i js ep = Some (True, ep') \<and> built st (S \<union> {i} \<times> set js) ep' \<and> same_rest ep ep'"
  using assms(1-3)
proof (induction js arbitrary: S ep)
  case Nil
  then show ?case by (simp add: same_rest_def)
next
  case (Cons j js)
  obtain ep1 where e: "init_pde st i j ep = Some (True, ep1)" "built st (insert (i, j) S) ep1" "same_rest ep ep1"
    using init_pde_built [OF Cons.prems(1), of i j] Cons.prems(3) assms(4) by auto
  obtain ep' where "init_pdes st i js ep1 = Some (True, ep')" "built st (insert (i, j) S \<union> {i} \<times> set js) ep'"
    "same_rest ep1 ep'"
    using Cons.IH [OF e(2)] Cons.prems(2,3) by auto
  moreover have "insert (i, j) S \<union> {i} \<times> set js = S \<union> {i} \<times> set (j # js)" by auto
  ultimately show ?case
    using e same_rest_trans by auto
qed

lemma built_set_pdpte: "built st S (set_pdpte i p ep) = built st S ep"
  by (simp add: built_def leaves_on_def set_pdpte_def ept_wf_on_def leaf_at_def split: ept_pd_slot.splits)

lemma init_pdptes_built:
  assumes "built st S ep" and "distinct is" and "\<forall>i \<in> set is. i < 512 \<and> S \<inter> {i} \<times> UNIV = {}"
  shows "\<exists>ep'. init_pdptes st pd is ep = Some (True, ep') \<and> built st (S \<union> set is \<times> {..<512}) ep' \<and>
     pml4e0 ep' = pml4e0 ep \<and> hooks ep' = hooks ep \<and>
     (\<forall>i. pdpte ep' i = (if i \<in> set is then pdpte (set_pdpte i (pd i) ep) i else pdpte ep i))"
  using assms
proof (induction "is" arbitrary: S ep)
  case Nil
  then show ?case by simp
next
  case (Cons i "is")
  let ?ep = "set_pdpte i (pd i) ep"
  have "\<forall>j \<in> set [0..<512]. j < 512 \<and> (i, j) \<notin> S" "i < 512"
    using Cons.prems(3) by auto
  then obtain ep1 where e: "init_pdes st i [0..<512] ?ep = Some (True, ep1)"
    "built st (S \<union> {i} \<times> set [0..<512]) ep1" "same_rest ?ep ep1"
    using init_pdes_built [of st S ?ep "[0..<512]" i] Cons.prems(1) by (auto simp: built_set_pdpte)
  let ?S = "S \<union> {i} \<times> set [0..<512]"
  have "\<forall>k \<in> set is. k < 512 \<and> ?S \<inter> {k} \<times> UNIV = {}"
    using Cons.prems(2,3) by auto
  then obtain ep' where r: "init_pdptes st pd is ep1 = Some (True, ep')" "built st (?S \<union> set is \<times> {..<512}) ep'"
    "pml4e0 ep' = pml4e0 ep1" "hooks ep' = hooks ep1"
    "\<forall>i. pdpte ep' i = (if i \<in> set is then pdpte (set_pdpte i (pd i) ep1) i else pdpte ep1 i)"
    using Cons.IH [OF e(2)] Cons.prems(2) by auto
  have S: "?S \<union> set is \<times> {..<512} = S \<union> set (i # is) \<times> {..<512}" by auto
  show ?case
  proof (intro exI [of _ ep'] conjI allI)
    show "init_pdptes st pd (i # is) ep = Some (True, ep')"
      using e(1) r(1) by simp
    show "built st (S \<union> set (i # is) \<times> {..<512}) ep'"
      using r(2) unfolding S .
    show "pml4e0 ep' = pml4e0 ep" "hooks ep' = hooks ep"
      using e(3) r(3,4) by (simp_all add: same_rest_def set_pdpte_def)
    fix k
    show "pdpte ep' k = (if k \<in> set (i # is) then pdpte (set_pdpte k (pd k) ep) k else pdpte ep k)"
      using e(3) r(5) Cons.prems(2) by (auto simp: same_rest_def set_pdpte_def)
  qed
qed

text \<open>C6. The initial extended page tables map every guest physical address below 512 GB to
  itself with all permissions, and its memory type is the one the range registers give to its
  4 KB page. The only exception is a 2 MB page whose types differ when all 256 page tables of
  the pool are in use: it gets the combined type of the whole 2 MB page. The branch that gives up
  on a 4 KB page of mixed type is never taken. The page tables of the pool must be different
  frames.\<close>

theorem initial_ept_is_identity:
  assumes "inj_on (ph_split ph) {..<256}"
  shows "\<exists>ep. initialize_ept ph st = Some ep \<and> ept_base ep \<and> hooks ep = [] \<and>
    (\<forall>gpa < 0x8000000000. \<exists>a. ept_walk ep gpa = Some a \<and> identity_access True gpa a \<and>
       (a_type a = get_mtrr_memory_type_single st (gpa AND NOT 0xFFF) \<or>
        split_pte_used ep = 256 \<and>
        get_mtrr_range_memory_type st (push_bit 21 (drop_bit 21 gpa)) 0x200000 = Some (a_type a, False)))"
proof -
  let ?e = "(zeroed_ept ph)\<lparr>pml4e0 := zero_table\<lparr>t_read_access := True, t_write_access := True,
      t_execute_access := True, t_page_frame_number := ph_pdpt ph\<rparr>\<rparr>"
  have "built st {} ?e"
    using assms by (simp add: built_def ept_wf_on_def leaves_on_def zeroed_ept_def)
  then obtain ep where r: "init_pdptes st (ph_pd ph) [0..<512] ?e = Some (True, ep)"
    "built st ({} \<union> set [0..<512] \<times> {..<512}) ep" "pml4e0 ep = pml4e0 ?e" "hooks ep = hooks ?e"
    "\<forall>i. pdpte ep i = (if i \<in> set [0..<512] then pdpte (set_pdpte i (ph_pd ph i) ?e) i else pdpte ?e i)"
    using init_pdptes_built [of st "{}" ?e "[0..<512]" "ph_pd ph"] by auto
  have S: "{} \<union> set [0..<512] \<times> {..<512} = slots" by (auto simp: slots_def)
  note b = r(2) [unfolded S]
  have wf: "ept_wf ep"
    using b r(3,5) by (simp add: ept_wf_def built_def tables_open_def rwx_table_def set_pdpte_def)
  have hooks: "hooks ep = []"
    using r(4) by (simp add: zeroed_ept_def)
  have leaf: "idx_gpa plain_leaf gpa (idx_gpa (leaf_at ep) gpa)"
    "type_spec st (split_pte_used ep) (idx_gpa ident_pfn gpa) (memory_type (idx_gpa (leaf_at ep) gpa))" for gpa
    using b by (simp_all add: built_def leaves_on_def)
  have base: "ept_base ep"
    using wf hooks b by (intro ept_baseI) (simp_all add: hooks_wf_def built_def leaves_on_def)
  have "\<exists>a. ept_walk ep gpa = Some a \<and> identity_access True gpa a \<and>
       (a_type a = get_mtrr_memory_type_single st (gpa AND NOT 0xFFF) \<or>
        split_pte_used ep = 256 \<and>
        get_mtrr_range_memory_type st (push_bit 21 (drop_bit 21 gpa)) 0x200000 = Some (a_type a, False))"
    if g: "gpa < 0x8000000000" for gpa
  proof -
    obtain a where a: "ept_walk ep gpa = Some a" "identity_access True gpa a"
      using walk_identity [OF wf g, of True] leaf(1) by auto
    then have t: "type_spec st (split_pte_used ep) (drop_bit 12 gpa) (a_type a)"
      using leaf(2) [of gpa] mapped_gpa(1,2) [OF g] by (auto simp: ept_walk_wf [OF wf] Let_def)
    have "push_bit 12 (drop_bit 12 gpa) = gpa AND NOT 0xFFF"
      unfolding page_mask by (rule bit_eqI) (auto simp: bit_simps)
    with t a show ?thesis
      by (simp add: type_spec_def page_type_def)
  qed
  then show ?thesis
    using r(1) base hooks by (simp add: initialize_ept_def)
qed

theorem initial_ept_is_identity_witness:
  "\<exists>ep a. initialize_ept \<lparr>ph_split = of_nat, ph_pdpt = 1, ph_pd = (\<lambda>i. of_nat i + 0x1000)\<rparr> (flat_state 6) = Some ep \<and>
     ept_walk ep 0x12345678 = Some a \<and> a_execute a \<and> a_pfn a = 0x12345"
proof -
  let ?ph = "\<lparr>ph_split = of_nat, ph_pdpt = 1, ph_pd = (\<lambda>i. of_nat i + 0x1000)\<rparr>"
  have inj: "inj_on (ph_split ?ph) {..<256}"
    using inj_of_nat_256 by simp
  obtain ep where e: "initialize_ept ?ph (flat_state 6) = Some ep"
    "\<forall>gpa < 0x8000000000. \<exists>a. ept_walk ep gpa = Some a \<and> identity_access True gpa a"
    using initial_ept_is_identity [OF inj, of "flat_state 6"] by blast
  obtain a where "ept_walk ep 0x12345678 = Some a" "identity_access True 0x12345678 a"
    using e(2) [rule_format, of "0x12345678"] by auto
  with e(1) show ?thesis
    by (auto simp: identity_access_def drop_bit_eq_div)
qed

section \<open>Following a change of the range registers\<close>

text \<open>Frame numbers fit the bit fields that hold them.\<close>

definition pfn_fields :: "ept_pages \<Rightarrow> bool" where
  "pfn_fields ep \<longleftrightarrow> (\<forall>p n. unat (page_frame_number (pt_frames ep p n)) < 2 ^ 40) \<and>
     (\<forall>i j l. pde ep i j = Large l \<longrightarrow> unat (page_frame_number l) < 2 ^ 31)"

text \<open>Nothing but memory types changes.\<close>

definition only_types :: "ept_pages \<Rightarrow> ept_pages \<Rightarrow> bool" where
  "only_types ep ep' \<longleftrightarrow> ept_wf_on slots ep' \<and> pfn_fields ep' \<and> same_rest ep ep' \<and>
     split_pte_used ep \<le> split_pte_used ep' \<and>
     (\<forall>g q. ptr_of ep g q \<longrightarrow> ptr_of ep' g q) \<and>
     (\<forall>i j n. (i, j) \<in> slots \<and> n < 512 \<longrightarrow> (\<exists>t. leaf_at ep' i j n = (leaf_at ep i j n)\<lparr>memory_type := t\<rparr>))"

lemma only_types_trans: "only_types a b \<Longrightarrow> only_types b c \<Longrightarrow> only_types a c"
proof -
  assume ab: "only_types a b" and bc: "only_types b c"
  have "\<exists>t. leaf_at c i j n = (leaf_at a i j n)\<lparr>memory_type := t\<rparr>" if h: "(i, j) \<in> slots" "n < 512" for i j n
  proof -
    obtain t u where "leaf_at b i j n = (leaf_at a i j n)\<lparr>memory_type := t\<rparr>"
      "leaf_at c i j n = (leaf_at b i j n)\<lparr>memory_type := u\<rparr>"
      using ab bc h unfolding only_types_def by blast
    then show ?thesis by (intro exI [of _ u]) simp
  qed
  moreover have "same_rest a c"
    using ab bc same_rest_trans unfolding only_types_def by blast
  moreover have "split_pte_used a \<le> split_pte_used c"
    using ab bc order_trans unfolding only_types_def by blast
  moreover have "\<forall>g q. ptr_of a g q \<longrightarrow> ptr_of c g q"
    using ab bc unfolding only_types_def by blast
  ultimately show ?thesis
    using bc unfolding only_types_def by blast
qed

definition large_typed :: "mtrr_state \<Rightarrow> (nat \<times> nat) set \<Rightarrow> ept_pages \<Rightarrow> bool" where
  "large_typed st S ep \<longleftrightarrow>
     (\<forall>i j l n. (i, j) \<in> S \<and> pde ep i j = Large l \<and> n < 512 \<longrightarrow>
        type_spec st (split_pte_used ep) (push_bit 9 (page_frame_number l) + of_nat n) (memory_type l))"

lemma unat_large_pfn:
  "unat pfn < 2 ^ 31 \<Longrightarrow> n < 512 \<Longrightarrow> unat (push_bit 9 pfn + of_nat n :: u64) = unat pfn * 512 + n"
  by (subst unat_add_no_wrap) (simp_all add: unat_push_bit unat_of_nat_64)

lemma drop_large_pfn:
  fixes pfn :: u64
  assumes "unat pfn < 2 ^ 31" "n < 512"
  shows "drop_bit 9 (push_bit 9 pfn + of_nat n) = pfn"
proof (rule word_unat_eq_iff [THEN iffD2])
  show "unat (drop_bit 9 (push_bit 9 pfn + of_nat n)) = unat pfn"
    unfolding unat_drop_bit_eq unat_large_pfn [OF assms] using assms by (simp add: drop_bit_eq_div)
qed

lemma split_pde_fields:
  assumes "pfn_fields ep" and "split_pde ep i j = (ep', Some k)"
  shows "pfn_fields ep'"
proof -
  have f: "\<And>p n. unat (page_frame_number (pt_frames ep p n)) < 2 ^ 40"
    "\<And>i j l. pde ep i j = Large l \<Longrightarrow> unat (page_frame_number l) < 2 ^ 31"
    using assms(1) by (auto simp: pfn_fields_def)
  obtain l where l: "pde ep i j = Large l"
    using assms(2) by (auto simp: split_pde_def split: ept_pd_slot.splits)
  have "unat (push_bit 9 (page_frame_number l) + of_nat n) < 2 ^ 40" if "n < 512" for n
    using unat_large_pfn [OF f(2) [OF l] that] f(2) [OF l] that by simp
  then show ?thesis
    using assms(2) l f by (auto simp: pfn_fields_def split_pde_def Let_def split: if_splits)
qed

text \<open>One directory slot.\<close>

lemma ptr_of_set_large [simp]: "ptr_of (set_large_type ep i j ty) = ptr_of ep"
  by (simp add: ptr_of_def fun_eq_iff set_large_split_iff)

lemma same_type_ex: "\<exists>t. l = l\<lparr>memory_type := t\<rparr>" for l :: ept_leaf
  by (rule exI [of _ "memory_type l"]) simp

lemma only_types_refl: "ept_wf_on slots ep \<Longrightarrow> pfn_fields ep \<Longrightarrow> only_types ep ep"
  by (simp add: only_types_def same_rest_def same_type_ex)

lemma set_large_only_types:
  assumes "ept_wf_on slots ep" and "pfn_fields ep"
  shows "only_types ep (set_large_type ep i j ty)"
  unfolding only_types_def
proof (intro conjI allI impI)
  show "ept_wf_on slots (set_large_type ep i j ty)"
    by (rule set_large_type_wf [OF assms(1)])
  have "unat (page_frame_number l) < 2 ^ 31" if "pde (set_large_type ep i j ty) a b = Large l" for a b l
  proof -
    have "\<exists>l'. pde ep a b = Large l' \<and> page_frame_number l' = page_frame_number l"
      using that by (auto simp: set_large_type_def split: ept_pd_slot.splits if_splits)
    then show ?thesis using assms(2) by (metis pfn_fields_def)
  qed
  then show "pfn_fields (set_large_type ep i j ty)"
    using assms(2) by (simp add: pfn_fields_def)
  fix a b n
  show "\<exists>t. leaf_at (set_large_type ep i j ty) a b n = (leaf_at ep a b n)\<lparr>memory_type := t\<rparr>"
    unfolding leaf_at_set_large by (cases "leaf_at ep a b n") auto
qed (simp_all add: same_rest_def)

lemma split_only_types:
  assumes wf: "ept_wf_on slots ep" and f: "pfn_fields ep" and s: "split_pde ep i j = (ep', Some k)"
    and ij: "(i, j) \<in> slots"
  shows "only_types ep ep'"
  unfolding only_types_def
proof (intro conjI allI impI)
  note v = split_pde_view [OF wf ij s]
  from s obtain l t where l: "pde ep i j = Large l" "k = split_pte_used ep" "split_pte_used ep' = k + 1"
    "pde ep' = (pde ep)(i := (pde ep i)(j := Split t))"
    by (rule split_pde_some) blast
  show "ept_wf_on slots ep'" by (rule v(1))
  show "pfn_fields ep'" by (rule split_pde_fields [OF f s])
  show "same_rest ep ep'" by (rule split_pde_rest [OF s])
  show "split_pte_used ep \<le> split_pte_used ep'" using l by simp
  show "ptr_of ep' g q" if "ptr_of ep g q" for g q
    using that l by (auto simp: ptr_of_def)
  show "\<exists>t. leaf_at ep' a b n = (leaf_at ep a b n)\<lparr>memory_type := t\<rparr>" if "(a, b) \<in> slots \<and> n < 512" for a b n
    using v(2) that by (intro exI [of _ "memory_type (leaf_at ep a b n)"]) (simp add: same_view_on_def)
qed

lemma update_pde_spec:
  assumes wf: "ept_wf_on slots ep" and f: "pfn_fields ep" and ij: "(i, j) \<in> slots"
    and S: "large_typed st S ep"
  shows "\<exists>ep'. update_pde st i j ep = Some ep' \<and> only_types ep ep' \<and> large_typed st (insert (i, j) S) ep'"
proof (cases "pde ep i j")
  case (Split t)
  then show ?thesis
    using only_types_refl [OF wf f] S by (auto simp: update_pde_def large_typed_def)
next
  case (Large l)
  have pfn: "unat (page_frame_number l) < 2 ^ 31"
    using f Large by (auto simp: pfn_fields_def)
  obtain t u where r: "get_mtrr_range_memory_type st (push_bit 21 (page_frame_number l)) 0x200000 = Some (t, u)"
    and uni: "u \<longrightarrow> (\<forall>n < 512. page_type st (push_bit 9 (page_frame_number l) + of_nat n) = t)"
    using large_range_type [OF pfn] by blast
  have lt: "large_typed st (insert (i, j) S) (set_large_type ep i j t)"
    if "\<And>n. n < 512 \<Longrightarrow> type_spec st (split_pte_used ep) (push_bit 9 (page_frame_number l) + of_nat n) t"
    using S that Large by (auto simp: large_typed_def set_large_type_def)
  show ?thesis
  proof (cases u)
    case True
    then have "large_typed st (insert (i, j) S) (set_large_type ep i j t)"
      using uni by (intro lt) (simp add: type_spec_def)
    then show ?thesis
      using set_large_only_types [OF wf f] r True Large by (simp add: update_pde_def)
  next
    case False
    obtain ep1 k where s: "split_pde ep i j = (ep1, k)" by (cases "split_pde ep i j")
    show ?thesis
    proof (cases k)
      case None
      have e: "ep1 = ep" using s None split_pde_fails by blast
      have "split_pte_used ep = 256"
        using s None Large wf by (auto simp: split_pde_def Let_def ept_wf_on_def split: if_splits)
      then have "large_typed st (insert (i, j) S) (set_large_type ep i j t)"
        using r False drop_large_pfn [OF pfn] by (intro lt) (simp add: type_spec_def)
      then show ?thesis
        using set_large_only_types [OF wf f] r False Large s None e by (simp add: update_pde_def)
    next
      case (Some m)
      note o = split_only_types [OF wf f s [unfolded Some] ij]
      obtain t where t: "pde ep1 = (pde ep)(i := (pde ep i)(j := Split t))"
        using s [unfolded Some] by (rule split_pde_some) blast
      have "split_pte_used ep \<le> split_pte_used ep1" "split_pte_used ep1 \<le> 256"
        using o by (simp_all add: only_types_def ept_wf_on_def)
      then have "large_typed st (insert (i, j) S) ep1"
        using S t type_spec_mono by (auto simp: large_typed_def)
      then show ?thesis
        using o r False Large s Some by (simp add: update_pde_def)
    qed
  qed
qed

lemma only_typesD:
  assumes "only_types ep ep'"
  shows "ept_wf_on slots ep'" and "pfn_fields ep'" and "same_rest ep ep'" and "split_pte_used ep \<le> split_pte_used ep'"
  using assms by (simp_all add: only_types_def)

lemma update_pdes_spec:
  assumes "ept_wf_on slots ep" and "pfn_fields ep" and "\<forall>j \<in> set js. j < 512" and "i < 512" and "large_typed st S ep"
  shows "\<exists>ep'. update_pdes st i js ep = Some ep' \<and> only_types ep ep' \<and> large_typed st (S \<union> {i} \<times> set js) ep'"
  using assms(1-3,5)
proof (induction js arbitrary: S ep)
  case Nil
  then show ?case using only_types_refl by simp
next
  case (Cons j js)
  obtain ep1 where e: "update_pde st i j ep = Some ep1" "only_types ep ep1" "large_typed st (insert (i, j) S) ep1"
    using update_pde_spec [OF Cons.prems(1,2) _ Cons.prems(4), of i j] Cons.prems(3) assms(4) by auto
  obtain ep' where "update_pdes st i js ep1 = Some ep'" "only_types ep1 ep'"
    "large_typed st (insert (i, j) S \<union> {i} \<times> set js) ep'"
    using Cons.IH [OF only_typesD(1,2) [OF e(2)] _ e(3)] Cons.prems(3) by auto
  moreover have "insert (i, j) S \<union> {i} \<times> set js = S \<union> {i} \<times> set (j # js)" by auto
  ultimately show ?case
    using e only_types_trans by auto
qed

definition retype_frames :: "mtrr_state \<Rightarrow> u64 set \<Rightarrow> ept_pages \<Rightarrow> ept_pages" where
  "retype_frames st P ep = ep\<lparr>pt_frames := (\<lambda>p n. if p \<in> P \<and> n < 512 then retyped st (pt_frames ep p n)
     else pt_frames ep p n)\<rparr>"

lemma retype_frames_fields [simp]:
  "pfn_fields (retype_frames st P ep) = pfn_fields ep"
  "split_pte_pfns (retype_frames st P ep) = split_pte_pfns ep"
  by (simp_all add: pfn_fields_def retype_frames_def if_distrib [of page_frame_number] cong: if_cong)

lemma update_split_pts_some:
  assumes "pfn_fields ep"
  shows "update_split_pts st ks ep = Some (True, retype_frames st (split_pte_pfns ep ` set ks) ep)"
  using assms
proof (induction ks arbitrary: ep)
  case Nil
  then show ?case by (simp add: retype_frames_def)
next
  case (Cons k ks)
  have "set_pt_types st k [0..<512] ep = Some (True, retype_frames st {split_pte_pfns ep k} ep)"
    using Cons.prems set_pt_types_some [of "[0..<512]" ep k st]
    by (auto simp: pfn_fields_def retype_frames_def fun_eq_iff intro!: arg_cong [of _ _ "\<lambda>f. ep\<lparr>pt_frames := f\<rparr>"])
  then have "update_split_pts st (k # ks) ep = update_split_pts st ks (retype_frames st {split_pte_pfns ep k} ep)"
    by simp
  also have "\<dots> = Some (True, retype_frames st (split_pte_pfns ep ` set ks) (retype_frames st {split_pte_pfns ep k} ep))"
    using Cons.IH [of "retype_frames st {split_pte_pfns ep k} ep"] Cons.prems by simp
  also have "retype_frames st (split_pte_pfns ep ` set ks) (retype_frames st {split_pte_pfns ep k} ep) =
      retype_frames st (split_pte_pfns ep ` set (k # ks)) ep"
    by (auto simp: retype_frames_def fun_eq_iff intro!: arg_cong [of _ _ "\<lambda>f. ep\<lparr>pt_frames := f\<rparr>"])
  finally show ?case .
qed

lemma retype_all_spec:
  fixes st :: mtrr_state
  assumes wf: "ept_wf_on slots ep" and f: "pfn_fields ep"
  defines "ep' \<equiv> retype_frames st (split_pte_pfns ep ` {0..<split_pte_used ep}) ep"
  shows "only_types ep ep'" and "large_typed st S ep' = large_typed st S ep"
    and "\<And>i j t n. (i, j) \<in> slots \<Longrightarrow> pde ep i j = Split t \<Longrightarrow> n < 512 \<Longrightarrow>
      memory_type (leaf_at ep' i j n) = page_type st (page_frame_number (leaf_at ep' i j n))"
proof -
  have leaf: "leaf_at ep' i j n = (case pde ep i j of Split t \<Rightarrow> retyped st (leaf_at ep i j n) | Large l \<Rightarrow> leaf_at ep i j n)"
    if h: "(i, j) \<in> slots" "n < 512" for i j n
  proof (cases "pde ep i j")
    case (Split t)
    obtain k where "k < split_pte_used ep" "t_page_frame_number t = split_pte_pfns ep k"
      using ept_wf_onD(2) [OF wf h(1) Split] by blast
    then show ?thesis
      using Split h by (simp add: leaf_at_def ep'_def retype_frames_def)
  qed (simp add: leaf_at_def ep'_def retype_frames_def)
  show "only_types ep ep'"
    unfolding only_types_def
  proof (intro conjI allI impI)
    show "ept_wf_on slots ep'" using wf by (simp only: ep'_def retype_frames_def ept_wf_on_frames)
    show "pfn_fields ep'" using f by (simp add: ep'_def)
    show "\<exists>t. leaf_at ep' i j n = (leaf_at ep i j n)\<lparr>memory_type := t\<rparr>" if h: "(i, j) \<in> slots \<and> n < 512" for i j n
    proof (cases "pde ep i j")
      case (Large l)
      then show ?thesis
        using h leaf by (intro exI [of _ "memory_type (leaf_at ep i j n)"]) simp
    next
      case (Split t)
      then show ?thesis
        using h leaf by (intro exI [of _ "page_type st (page_frame_number (leaf_at ep i j n))"]) (simp add: retyped_def)
    qed
  qed (simp_all add: ep'_def retype_frames_def same_rest_def ptr_of_def)
  show "large_typed st S ep' = large_typed st S ep"
    by (simp add: large_typed_def ep'_def retype_frames_def)
  show "memory_type (leaf_at ep' i j n) = page_type st (page_frame_number (leaf_at ep' i j n))"
    if "(i, j) \<in> slots" "pde ep i j = Split t" "n < 512" for i j t n
    using leaf [OF that(1,3)] that(2) by (simp add: retyped_def)
qed

definition split_typed :: "mtrr_state \<Rightarrow> ept_pages \<Rightarrow> bool" where
  "split_typed st ep \<longleftrightarrow> (\<forall>i j t n. (i, j) \<in> slots \<and> pde ep i j = Split t \<and> n < 512 \<longrightarrow>
     memory_type (leaf_at ep i j n) = page_type st (page_frame_number (leaf_at ep i j n)))"

text \<open>The tables below the directory pointer table.\<close>

definition below :: "ept_pages \<Rightarrow> ept_pages" where
  "below ep = ep\<lparr>pdpte := (\<lambda>_. zero_table)\<rparr>"

lemma below_simps [simp]:
  "pde (below ep) = pde ep" "pt_frames (below ep) = pt_frames ep" "split_pte_pfns (below ep) = split_pte_pfns ep"
  "split_pte_used (below ep) = split_pte_used ep" "hooks (below ep) = hooks ep" "pml4e0 (below ep) = pml4e0 ep"
  "leaf_at (below ep) = leaf_at ep" "ptr_of (below ep) = ptr_of ep" "ept_wf_on S (below ep) = ept_wf_on S ep"
  "pfn_fields (below ep) = pfn_fields ep" "below (set_pdpte i p ep) = below ep"
  by (simp_all add: below_def leaf_at_def ptr_of_def fun_eq_iff ept_wf_on_def pfn_fields_def set_pdpte_def
      split: ept_pd_slot.splits)

lemma only_types_below: "only_types ep ep' \<Longrightarrow> only_types (below ep) (below ep')"
  by (simp add: only_types_def same_rest_def) (simp add: below_def)

lemma set_pdpte_simps [simp]:
  "large_typed st S (set_pdpte i p ep) = large_typed st S ep" "pfn_fields (set_pdpte i p ep) = pfn_fields ep"
  "ept_wf_on S (set_pdpte i p ep) = ept_wf_on S ep"
  by (simp_all add: set_pdpte_def large_typed_def pfn_fields_def ept_wf_on_def)

lemma update_pdptes_spec:
  assumes "ept_wf_on slots ep" and "pfn_fields ep" and "\<forall>i \<in> set is. i < 512" and "large_typed st S ep"
  shows "\<exists>ep'. update_pdptes st pd is ep = Some (True, ep') \<and> only_types (below ep) (below ep') \<and>
     large_typed st (S \<union> set is \<times> {..<512}) ep' \<and> (is \<noteq> [] \<longrightarrow> split_typed st ep') \<and>
     (\<forall>i. rwx_table (pdpte ep i) \<longrightarrow> rwx_table (pdpte ep' i))"
  using assms
proof (induction "is" arbitrary: S ep)
  case Nil
  then show ?case using only_types_refl [of "below ep"] by simp
next
  case (Cons i "is")
  let ?ep = "set_pdpte i (pd i) ep"
  obtain ep1 where e1: "update_pdes st i [0..<512] ?ep = Some ep1" "only_types ?ep ep1"
    "large_typed st (S \<union> {i} \<times> set [0..<512]) ep1"
    using update_pdes_spec [of ?ep "[0..<512]" i st S] Cons.prems by auto
  note wf1 = only_typesD(1,2) [OF e1(2)]
  let ?e2 = "retype_frames st (split_pte_pfns ep1 ` {0..<split_pte_used ep1}) ep1"
  have e2: "update_split_pts st [0..<split_pte_used ep1] ep1 = Some (True, ?e2)"
    using update_split_pts_some [OF wf1(2), of st "[0..<split_pte_used ep1]"] by (simp only: set_upt)
  note r = retype_all_spec [OF wf1, where st = st]
  have lt: "large_typed st (S \<union> {i} \<times> {..<512}) ?e2"
    using e1(3) unfolding r(2) by (simp add: atLeast0LessThan)
  have st2: "split_typed st ?e2"
    unfolding split_typed_def
  proof (intro allI impI, elim conjE)
    fix a b t n
    assume "(a, b) \<in> slots" "pde ?e2 a b = Split t" "n < (512 :: nat)"
    then show "memory_type (leaf_at ?e2 a b n) = page_type st (page_frame_number (leaf_at ?e2 a b n))"
      using r(3) by (simp add: retype_frames_def)
  qed
  obtain ep' where e': "update_pdptes st pd is ?e2 = Some (True, ep')" "only_types (below ?e2) (below ep')"
    "large_typed st (S \<union> {i} \<times> {..<512} \<union> set is \<times> {..<512}) ep'" "is \<noteq> [] \<longrightarrow> split_typed st ep'"
    "\<forall>i. rwx_table (pdpte ?e2 i) \<longrightarrow> rwx_table (pdpte ep' i)"
    using Cons.IH [OF only_typesD(1,2) [OF r(1)] _ lt] Cons.prems(3) by auto
  have o: "only_types ?ep ?e2"
    by (rule only_types_trans [OF e1(2) r(1)])
  have S: "S \<union> {i} \<times> {..<512} \<union> set is \<times> {..<512} = S \<union> set (i # is) \<times> {..<512}" by auto
  show ?case
  proof (intro exI [of _ ep'] conjI allI impI)
    show "update_pdptes st pd (i # is) ep = Some (True, ep')"
      using e1(1) e2 e'(1) by simp
    show "only_types (below ep) (below ep')"
      using only_types_trans [OF only_types_below [OF o] e'(2)] by simp
    show "large_typed st (S \<union> set (i # is) \<times> {..<512}) ep'"
      using e'(3) unfolding S .
    show "split_typed st ep'"
      using e'(1,4) st2 by (cases "is") auto
    show "rwx_table (pdpte ep' k)" if "rwx_table (pdpte ep k)" for k
      using e'(5) only_typesD(3) [OF o] that by (auto simp: same_rest_def set_pdpte_def rwx_table_def)
  qed
qed

text \<open>After a change of the range registers \<open>update_ept_memory_types\<close> returns, and changes
  nothing but memory types: every guest physical address below 512 GB has the same frame and
  permissions, the hooks and the pointers to their entries are kept, and the memory type of its
  frame is the new one (with the exception for a used-up pool of page tables as in
  \<open>initial_ept_is_identity\<close>). Frame numbers must fit their bit fields.\<close>

theorem update_follows_mtrrs:
  assumes "ept_wf ep" and "pfn_fields ep"
  shows "\<exists>ep'. update_ept_memory_types ph ep st = Some ep' \<and> ept_wf ep' \<and> hooks ep' = hooks ep \<and>
    (\<forall>g q. ptr_of ep g q \<longrightarrow> ptr_of ep' g q) \<and>
    (\<forall>gpa < 0x8000000000. \<exists>a t. ept_walk ep gpa = Some a \<and> ept_walk ep' gpa = Some (a\<lparr>a_type := t\<rparr>) \<and>
       (t = get_mtrr_memory_type_single st (push_bit 12 (a_pfn a)) \<or>
        split_pte_used ep' = 256 \<and>
        get_mtrr_range_memory_type st (push_bit 21 (drop_bit 9 (a_pfn a))) 0x200000 = Some (t, False)))"
proof -
  have "large_typed st {} ep" by (simp add: large_typed_def)
  then obtain ep' where r: "update_pdptes st (ph_pd ph) [0..<512] ep = Some (True, ep')"
    "only_types (below ep) (below ep')" "large_typed st ({} \<union> set [0..<512] \<times> {..<512}) ep'" "split_typed st ep'"
    "\<forall>i. rwx_table (pdpte ep i) \<longrightarrow> rwx_table (pdpte ep' i)"
    using update_pdptes_spec [of ep "[0..<512]" st "{}" "ph_pd ph"] assms by (auto simp: ept_wf_def)
  have S: "{} \<union> set [0..<512] \<times> {..<512} = slots" by (auto simp: slots_def)
  note lt = r(3) [unfolded S]
  have o: "ept_wf_on slots ep'" "hooks ep' = hooks ep" "pml4e0 ep' = pml4e0 ep" "\<forall>g q. ptr_of ep g q \<longrightarrow> ptr_of ep' g q"
    using r(2) unfolding only_types_def same_rest_def below_simps by blast+
  have wf: "ept_wf ep'"
    using o(1,3) r(5) assms(1) by (simp add: ept_wf_def tables_open_def)
  have "\<exists>a t. ept_walk ep gpa = Some a \<and> ept_walk ep' gpa = Some (a\<lparr>a_type := t\<rparr>) \<and> type_spec st (split_pte_used ep') (a_pfn a) t"
    if g: "gpa < 0x8000000000" for gpa
  proof -
    let ?l = "idx_gpa (leaf_at ep) gpa" and ?l' = "idx_gpa (leaf_at ep') gpa"
    have "(unat (pdpt_idx gpa), unat (pd_idx gpa)) \<in> slots \<and> unat (pt_idx gpa) < 512" by simp
    then obtain t where l: "?l' = ?l\<lparr>memory_type := t\<rparr>"
      using r(2) unfolding only_types_def below_simps by blast
    have "type_spec st (split_pte_used ep') (page_frame_number ?l') (memory_type ?l')"
    proof (cases "pde ep' (unat (pdpt_idx gpa)) (unat (pd_idx gpa))")
      case (Large x)
      then show ?thesis
        using lt [unfolded large_typed_def, rule_format, of "unat (pdpt_idx gpa)" "unat (pd_idx gpa)" x "unat (pt_idx gpa)"] by (simp add: leaf_at_def)
    next
      case (Split x)
      then show ?thesis
        using r(4) by (simp add: split_typed_def type_spec_def)
    qed
    then show ?thesis
      using l by (simp add: ept_walk_wf [OF wf mapped_gpa(1) [OF g]] ept_walk_wf [OF assms(1) mapped_gpa(1) [OF g]] Let_def)
  qed
  then show ?thesis
    using r(1) wf o(2,4) by (simp add: update_ept_memory_types_def type_spec_def page_type_def)
qed


theorem update_follows_mtrrs_witness:
  "ept_wf (flat_ept\<lparr>pde := (\<lambda>_ _. Large zero_leaf)\<rparr>) \<and> pfn_fields (flat_ept\<lparr>pde := (\<lambda>_ _. Large zero_leaf)\<rparr>) \<and>
   (\<exists>ep a t. update_ept_memory_types \<lparr>ph_split = of_nat, ph_pdpt = 1, ph_pd = of_nat\<rparr>
       (flat_ept\<lparr>pde := (\<lambda>_ _. Large zero_leaf)\<rparr>) (flat_state 6) = Some ep \<and>
     ept_walk (flat_ept\<lparr>pde := (\<lambda>_ _. Large zero_leaf)\<rparr>) 0x5000 = Some a \<and> ept_walk ep 0x5000 = Some (a\<lparr>a_type := t\<rparr>))"
proof -
  let ?e = "flat_ept\<lparr>pde := (\<lambda>_ _. Large zero_leaf)\<rparr>"
  have wf: "ept_wf ?e"
    using inj_of_nat_256
    by (simp add: ept_wf_def ept_wf_on_def tables_open_def flat_ept_def zeroed_ept_def rwx_table_def Let_def)
  have f: "pfn_fields ?e"
    by (simp add: pfn_fields_def flat_ept_def zeroed_ept_def Let_def zero_leaf_def)
  have g: "(0x5000 :: u64) < 0x8000000000" by simp
  obtain ep where "update_ept_memory_types \<lparr>ph_split = of_nat, ph_pdpt = 1, ph_pd = of_nat\<rparr> ?e (flat_state 6) = Some ep"
    "\<forall>gpa < 0x8000000000. \<exists>a t. ept_walk ?e gpa = Some a \<and> ept_walk ep gpa = Some (a\<lparr>a_type := t\<rparr>)"
    using update_follows_mtrrs [OF wf f, of "\<lparr>ph_split = of_nat, ph_pdpt = 1, ph_pd = of_nat\<rparr>" "flat_state 6"] by blast
  then show ?thesis
    using wf f g by blast
qed

end
