(* ===== verification/Paging.thy ===== *)
theory Paging
  imports Address
begin

text \<open>
  Guest address translation (\<open>gva_to_gpa\<close> and \<open>gva_to_hva\<close> of \<open>revhv-km/memory.cpp\<close>).

  The hypervisor reads memory through its own address space, a map from host virtual addresses to
  bytes; \<open>None\<close> is an address whose access faults. A fault during the walk itself is not caught
  by an exception wrapper: the result of the walk is then \<open>None\<close>. Otherwise it is the guest
  physical address, 0 for an address that is not mapped, and what the walk stores in
  \<open>offset_to_next_page\<close>. The fields of the paging structures are declared in the ia32 headers,
  which are not part of the repository: they are the argument \<open>lay\<close>.
\<close>

section \<open>Host memory\<close>

type_synonym host_mem = "u64 \<Rightarrow> u8 option"

text \<open>An 8-byte little-endian load.\<close>

fun read_bytes :: "host_mem \<Rightarrow> u64 \<Rightarrow> nat \<Rightarrow> u8 list option" where
  "read_bytes hm a 0 = Some []"
| "read_bytes hm a (Suc n) =
     (case hm a of None \<Rightarrow> None | Some b \<Rightarrow> map_option (\<lambda>bs. b # bs) (read_bytes hm (a + 1) n))"

fun bytes_le :: "u8 list \<Rightarrow> u64" where
  "bytes_le [] = 0"
| "bytes_le (b # bs) = ucast b + push_bit 8 (bytes_le bs)"

definition read_u64 :: "host_mem \<Rightarrow> u64 \<Rightarrow> u64 option" where
  "read_u64 hm a = map_option bytes_le (read_bytes hm a 8)"

section \<open>The walk\<close>

record pt_layout =
  pl_present :: "u64 \<Rightarrow> bool"
  pl_large_page :: "u64 \<Rightarrow> bool"
  pl_pfn :: "u64 \<Rightarrow> u64"
  pl_pfn_1gb :: "u64 \<Rightarrow> u64"
  pl_pfn_2mb :: "u64 \<Rightarrow> u64"
  pl_cr3_pfn :: "u64 \<Rightarrow> u64"

text \<open>Entry \<open>idx\<close> of the table in frame \<open>pfn\<close>.\<close>

definition table_entry :: "host_mem \<Rightarrow> u64 \<Rightarrow> u64 \<Rightarrow> u64 option" where
  "table_entry hm pfn idx = read_u64 hm (host_physical_base + push_bit 12 pfn + idx * 8)"

definition gva_to_gpa :: "pt_layout \<Rightarrow> host_mem \<Rightarrow> u64 \<Rightarrow> u64 \<Rightarrow> (u64 \<times> u64 option) option" where
  "gva_to_gpa lay hm cr3 gva =
     do {
       pml4e \<leftarrow> table_entry hm (pl_cr3_pfn lay cr3) (pml4_idx gva);
       if \<not> pl_present lay pml4e then Some (0, None)
       else do {
         pdpte \<leftarrow> table_entry hm (pl_pfn lay pml4e) (pdpt_idx gva);
         if \<not> pl_present lay pdpte then Some (0, None)
         else if pl_large_page lay pdpte then
           (let off = push_bit 21 (pd_idx gva) + push_bit 12 (pt_idx gva) + va_offset gva
            in Some (push_bit 30 (pl_pfn_1gb lay pdpte) + off, Some (0x40000000 - off)))
         else do {
           pde \<leftarrow> table_entry hm (pl_pfn lay pdpte) (pd_idx gva);
           if \<not> pl_present lay pde then Some (0, None)
           else if pl_large_page lay pde then
             (let off = push_bit 12 (pt_idx gva) + va_offset gva
              in Some (push_bit 21 (pl_pfn_2mb lay pde) + off, Some (0x200000 - off)))
           else do {
             pte \<leftarrow> table_entry hm (pl_pfn lay pde) (pt_idx gva);
             if \<not> pl_present lay pte then Some (0, None)
             else Some (push_bit 12 (pl_pfn lay pte) + va_offset gva, Some (0x1000 - va_offset gva))
           }
         }
       }
     }"

definition gva_to_hva :: "pt_layout \<Rightarrow> host_mem \<Rightarrow> u64 \<Rightarrow> u64 \<Rightarrow> (u64 \<times> u64 option) option" where
  "gva_to_hva lay hm cr3 gva =
     map_option (\<lambda>(gpa, off). (if gpa = 0 then 0 else host_physical_base + gpa, off)) (gva_to_gpa lay hm cr3 gva)"

section \<open>Offsets inside a page\<close>

lemma page_offset_1gb:
  "unat (push_bit 21 (pd_idx gva) + push_bit 12 (pt_idx gva) + va_offset gva) = unat gva mod 2 ^ 30"
proof -
  have m: "x div 2097152 mod 512 * 2097152 + x div 4096 mod 512 * 4096 + x mod 4096 = x mod 1073741824" for x :: nat
    using mod_mult2_eq [of x 4096 "512 * 512"] mod_mult2_eq [of "x div 4096" 512 512]
    by (simp add: div_mult2_eq [symmetric] algebra_simps)
  have b: "x div 2097152 mod 512 * 2097152 + (x div 4096 mod 512 * 4096 + x mod 4096) < 1073741824" for x :: nat
    using m [of x] mod_less_divisor [of 1073741824 x] by linarith
  have p: "unat (push_bit 21 (pd_idx gva)) = unat gva div 2097152 mod 512 * 2097152"
    "unat (push_bit 12 (pt_idx gva)) = unat gva div 4096 mod 512 * 4096"
    by (subst unat_push_bit; simp add: va_field_nat; use mod_less_divisor [of 512] in \<open>simp add: less_imp_le\<close>)+
  show ?thesis
    using b [of "unat gva"] m [of "unat gva"]
    by (subst unat_add_no_wrap; (subst unat_add_no_wrap)?; simp add: p va_field_nat)
qed

lemma page_offset_2mb: "unat (push_bit 12 (pt_idx gva) + va_offset gva) = unat gva mod 2 ^ 21"
proof -
  have m: "x div 4096 mod 512 * 4096 + x mod 4096 = x mod 2097152" for x :: nat
    using mod_mult2_eq [of x 4096 512] by (simp add: algebra_simps)
  have p: "unat (push_bit 12 (pt_idx gva)) = unat gva div 4096 mod 512 * 4096"
    by (subst unat_push_bit; simp add: va_field_nat; use mod_less_divisor [of 512] in \<open>simp add: less_imp_le\<close>)
  show ?thesis
    using m [of "unat gva"] mod_less_divisor [of 2097152 "unat gva"]
    by (subst unat_add_no_wrap; simp add: p va_field_nat)
qed

lemma in_page:
  fixes x k B :: nat
  assumes "k < B - x mod B"
  shows "(x + k) div B = x div B" and "(x + k) mod B = x mod B + k"
proof -
  have "x + k = (x mod B + k) + x div B * B" and "x mod B + k < B"
    using assms by (auto simp: div_mult_mod_eq)
  then show "(x + k) div B = x div B" "(x + k) mod B = x mod B + k"
    by (metis add.commute div_less div_mult_self1 not_less0 add_0, metis mod_less mod_mult_self1)
qed

lemma in_page_above:
  fixes x k B C :: nat
  assumes "k < B - x mod B"
  shows "(x + k) div (B * C) = x div (B * C)"
  using in_page(1) [OF assms] by (simp add: div_mult2_eq)

lemma in_page_no_wrap:
  fixes gva :: u64
  assumes "k < B - unat gva mod B" and "B dvd 2 ^ 64"
  shows "unat (gva + of_nat k) = unat gva + k"
proof -
  obtain C where C: "2 ^ 64 = B * C" using assms(2) by blast
  have "B \<noteq> 0" using assms(1) by (cases B) auto
  have "unat gva div B < C"
    using unat_less_64 [of gva] C by (simp add: less_mult_imp_div_less mult.commute del: unat_less_64)
  then have "(unat gva + k) div B < C"
    using in_page(1) [OF assms(1)] by simp
  then have "unat gva + k < 2 ^ 64"
    unfolding C using \<open>B \<noteq> 0\<close> by (metis bot_nat_0.not_eq_extremum div_less_iff_less_mult mult.commute)
  then show ?thesis
    by (subst unat_add_no_wrap) (simp_all add: unat_of_nat_64)
qed

text \<open>The three page sizes, and the index fields they leave alone.\<close>

lemma idx_in_page:
  fixes gva :: u64
  shows "k < 2 ^ 30 - unat gva mod 2 ^ 30 \<Longrightarrow> pml4_idx (gva + of_nat k) = pml4_idx gva \<and> pdpt_idx (gva + of_nat k) = pdpt_idx gva"
    and "k < 2 ^ 21 - unat gva mod 2 ^ 21 \<Longrightarrow> pml4_idx (gva + of_nat k) = pml4_idx gva \<and>
      pdpt_idx (gva + of_nat k) = pdpt_idx gva \<and> pd_idx (gva + of_nat k) = pd_idx gva"
    and "k < 2 ^ 12 - unat gva mod 2 ^ 12 \<Longrightarrow> pml4_idx (gva + of_nat k) = pml4_idx gva \<and>
      pdpt_idx (gva + of_nat k) = pdpt_idx gva \<and> pd_idx (gva + of_nat k) = pd_idx gva \<and> pt_idx (gva + of_nat k) = pt_idx gva"
proof -
  have u: "unat (gva + of_nat k) = unat gva + k" if "k < 2 ^ b - unat gva mod 2 ^ b" "b \<le> 64" for b
    by (rule in_page_no_wrap [OF that(1) le_imp_power_dvd [OF that(2)]])
  have d: "(unat gva + k) div 2 ^ c = unat gva div 2 ^ c" if "k < 2 ^ b - unat gva mod 2 ^ b" "b \<le> c" for b c
    using in_page_above [OF that(1), of "2 ^ (c - b)"] that(2) by (simp add: power_add [symmetric])
  show "pml4_idx (gva + of_nat k) = pml4_idx gva \<and> pdpt_idx (gva + of_nat k) = pdpt_idx gva"
    if "k < 2 ^ 30 - unat gva mod 2 ^ 30"
    using u [OF that] d [OF that, of 30] d [OF that, of 39] by (simp add: word_unat_eq_iff va_field_nat)
  show "pml4_idx (gva + of_nat k) = pml4_idx gva \<and> pdpt_idx (gva + of_nat k) = pdpt_idx gva \<and> pd_idx (gva + of_nat k) = pd_idx gva"
    if "k < 2 ^ 21 - unat gva mod 2 ^ 21"
    using u [OF that] d [OF that, of 30] d [OF that, of 39] d [OF that, of 21] by (simp add: word_unat_eq_iff va_field_nat)
  show "pml4_idx (gva + of_nat k) = pml4_idx gva \<and>
      pdpt_idx (gva + of_nat k) = pdpt_idx gva \<and> pd_idx (gva + of_nat k) = pd_idx gva \<and> pt_idx (gva + of_nat k) = pt_idx gva"
    if "k < 2 ^ 12 - unat gva mod 2 ^ 12"
    using u [OF that] d [OF that, of 30] d [OF that, of 39] d [OF that, of 21] d [OF that, of 12]
    by (simp add: word_unat_eq_iff va_field_nat)
qed

text \<open>The offset grows by the same amount as the address.\<close>

lemma offset_in_page:
  fixes gva :: u64
  assumes o: "\<And>g. unat (off g) = unat g mod 2 ^ b" and k: "k < 2 ^ b - unat gva mod 2 ^ b" and b: "b \<le> 63"
  shows "off (gva + of_nat k) = off gva + of_nat k"
    and "unat (2 ^ b - off gva :: u64) = 2 ^ b - unat gva mod 2 ^ b"
proof -
  have u: "unat (gva + of_nat k) = unat gva + k"
    using k b by (intro in_page_no_wrap [OF k le_imp_power_dvd]) simp
  have p: "(2 :: nat) ^ b < 2 ^ 64"
    using b by (intro power_strict_increasing) simp_all
  have "unat (off (gva + of_nat k)) = unat gva mod 2 ^ b + k"
    unfolding o u by (rule in_page(2) [OF k])
  moreover have "unat (off gva + of_nat k) = unat gva mod 2 ^ b + k"
    using k p by (subst unat_add_no_wrap) (simp_all add: o unat_of_nat_64)
  ultimately show "off (gva + of_nat k) = off gva + of_nat k"
    by (simp add: word_unat_eq_iff)
  have "unat (2 ^ b :: u64) = 2 ^ b"
    using unat_of_nat_64 [OF p] by simp
  then show "unat (2 ^ b - off gva :: u64) = 2 ^ b - unat gva mod 2 ^ b"
    using o [of gva] by (subst unat_sub) (simp_all add: word_le_nat_alt)
qed

lemma gva_to_gpa_linear:
  assumes t: "gva_to_gpa lay hm cr3 gva = Some (gpa, Some off)" and k: "k < unat off"
  shows "gva_to_gpa lay hm cr3 (gva + of_nat k) = Some (gpa + of_nat k, Some (off - of_nat k))"
proof -
  let ?o1 = "\<lambda>g. push_bit 21 (pd_idx g) + push_bit 12 (pt_idx g) + va_offset g"
  let ?o2 = "\<lambda>g. push_bit 12 (pt_idx g) + va_offset g"
  have c: "(0x40000000 :: u64) = 2 ^ 30" "(0x200000 :: u64) = 2 ^ 21" "(0x1000 :: u64) = 2 ^ 12" by simp_all
  have o1: "unat (?o1 g) = unat g mod 2 ^ 30" and o2: "unat (?o2 g) = unat g mod 2 ^ 21"
    and o3: "unat (va_offset g) = unat g mod 2 ^ 12" for g
    using page_offset_1gb [of g] page_offset_2mb [of g] by (simp_all add: va_field_nat)
  have r: "unat (2 ^ 30 - ?o1 gva :: u64) = 2 ^ 30 - unat gva mod 2 ^ 30"
    "unat (2 ^ 21 - ?o2 gva :: u64) = 2 ^ 21 - unat gva mod 2 ^ 21"
    "unat (2 ^ 12 - va_offset gva :: u64) = 2 ^ 12 - unat gva mod 2 ^ 12"
    using offset_in_page(2) [of ?o1 30 0 gva] offset_in_page(2) [of ?o2 21 0 gva] offset_in_page(2) [of va_offset 12 0 gva]
      o1 o2 o3 by simp_all
  from t obtain e1 e2 where e: "table_entry hm (pl_cr3_pfn lay cr3) (pml4_idx gva) = Some e1" "pl_present lay e1"
    "table_entry hm (pl_pfn lay e1) (pdpt_idx gva) = Some e2" "pl_present lay e2"
    by (auto simp: gva_to_gpa_def bind_eq_Some_conv split: if_splits)
  show ?thesis
  proof (cases "pl_large_page lay e2")
    case True
    then have g: "gpa = push_bit 30 (pl_pfn_1gb lay e2) + ?o1 gva" "off = 2 ^ 30 - ?o1 gva"
      using t e by (simp_all add: gva_to_gpa_def Let_def)
    then have k': "k < 2 ^ 30 - unat gva mod 2 ^ 30" using k r(1) by simp
    show ?thesis
      using idx_in_page(1) [OF k'] offset_in_page(1) [of ?o1 30 k gva, OF o1 k'] e True
      by (simp add: gva_to_gpa_def Let_def g)
  next
    case l2: False
    then obtain e3 where e3: "table_entry hm (pl_pfn lay e2) (pd_idx gva) = Some e3" "pl_present lay e3"
      using t e by (auto simp: gva_to_gpa_def bind_eq_Some_conv split: if_splits)
    show ?thesis
    proof (cases "pl_large_page lay e3")
      case True
      then have g: "gpa = push_bit 21 (pl_pfn_2mb lay e3) + ?o2 gva" "off = 2 ^ 21 - ?o2 gva"
        using t e e3 l2 by (simp_all add: gva_to_gpa_def Let_def)
      then have k': "k < 2 ^ 21 - unat gva mod 2 ^ 21" using k r(2) by simp
      show ?thesis
        using idx_in_page(2) [OF k'] offset_in_page(1) [of ?o2 21 k gva, OF o2 k'] e e3 l2 True
        by (simp add: gva_to_gpa_def Let_def g)
    next
      case l3: False
      then obtain e4 where e4: "table_entry hm (pl_pfn lay e3) (pt_idx gva) = Some e4" "pl_present lay e4"
        and g: "gpa = push_bit 12 (pl_pfn lay e4) + va_offset gva" "off = 2 ^ 12 - va_offset gva"
        using t e e3 l2 by (auto simp: gva_to_gpa_def bind_eq_Some_conv split: if_splits)
      then have k': "k < 2 ^ 12 - unat gva mod 2 ^ 12" using k r(3) by simp
      show ?thesis
        using idx_in_page(3) [OF k'] offset_in_page(1) [of va_offset 12 k gva, OF o3 k'] e e3 e4 l2 l3
        by (simp add: gva_to_gpa_def Let_def g)
    qed
  qed
qed

lemma unat_page_rest:
  "unat (0x40000000 - (push_bit 21 (pd_idx gva) + push_bit 12 (pt_idx gva) + va_offset gva)) = 2 ^ 30 - unat gva mod 2 ^ 30"
  "unat (0x200000 - (push_bit 12 (pt_idx gva) + va_offset gva)) = 2 ^ 21 - unat gva mod 2 ^ 21"
  "unat (0x1000 - va_offset gva) = 2 ^ 12 - unat gva mod 2 ^ 12"
  using offset_in_page(2) [of "\<lambda>g. push_bit 21 (pd_idx g) + push_bit 12 (pt_idx g) + va_offset g" 30 0 gva]
    offset_in_page(2) [of "\<lambda>g. push_bit 12 (pt_idx g) + va_offset g" 21 0 gva]
    offset_in_page(2) [of va_offset 12 0 gva] page_offset_1gb page_offset_2mb va_field_nat(1)
  by simp_all

lemma gva_to_gpa_off:
  assumes "gva_to_gpa lay hm cr3 gva = Some (gpa, off)"
  shows "off = None \<and> gpa = 0 \<or>
    off = Some (0x40000000 - (push_bit 21 (pd_idx gva) + push_bit 12 (pt_idx gva) + va_offset gva)) \<or>
    off = Some (0x200000 - (push_bit 12 (pt_idx gva) + va_offset gva)) \<or> off = Some (0x1000 - va_offset gva)"
  using assms by (auto simp: gva_to_gpa_def bind_eq_Some_conv Let_def split: if_splits)

lemma gva_to_gpa_rest:
  assumes "gva_to_gpa lay hm cr3 gva = Some (gpa, off)"
  shows "case off of None \<Rightarrow> gpa = 0
    | Some r \<Rightarrow> \<exists>b \<in> {12, 21, 30}. unat r = 2 ^ b - unat gva mod 2 ^ b"
  using gva_to_gpa_off [OF assms]
  by (elim disjE; simp only: option.case unat_page_rest; blast)

lemma rest_positive:
  assumes "gva_to_gpa lay hm cr3 gva = Some (gpa, Some r)"
  shows "0 < unat r" and "unat r \<le> 2 ^ 30"
proof -
  obtain b where b: "b \<in> {12, 21, 30}" "unat r = 2 ^ b - unat gva mod 2 ^ b"
    using gva_to_gpa_rest [OF assms] by (simp only: option.case) blast
  then show "0 < unat r" by (auto simp: mod_less_divisor)
  have "(2 :: nat) ^ b \<le> 2 ^ 30" using b(1) by auto
  then show "unat r \<le> 2 ^ 30" using b(2) by linarith
qed

text \<open>C11. A successful translation is good for the whole rest of its page.
  If \<open>gva_to_gpa\<close> finds the page of \<open>gva\<close>, the number of bytes it reports in
  \<open>offset_to_next_page\<close> is what is left of a 4 KB, 2 MB or 1 GB page, so at least one and at most
  1 GB, and for each of these bytes the walk succeeds with the physical address that lies the
  same distance behind. An address that is not mapped gives 0 and leaves the offset untouched.\<close>

theorem translation_is_linear:
  assumes "gva_to_gpa lay hm cr3 gva = Some (gpa, off)"
  shows "case off of None \<Rightarrow> gpa = 0
    | Some r \<Rightarrow> (\<exists>b \<in> {12, 21, 30}. unat r = 2 ^ b - unat gva mod 2 ^ b) \<and>
        (\<forall>k < unat r. gva_to_gpa lay hm cr3 (gva + of_nat k) = Some (gpa + of_nat k, Some (r - of_nat k)))"
  using gva_to_gpa_rest [OF assms] gva_to_gpa_linear [of lay hm cr3 gva gpa] assms
  by (auto split: option.splits)

text \<open>A guest with one table that maps itself, 2 MB of memory and the layout of the processor.\<close>

definition x64_layout :: pt_layout where
  "x64_layout = \<lparr>pl_present = (\<lambda>e. bit e 0), pl_large_page = (\<lambda>e. bit e 7), pl_pfn = bit_field 12 36,
     pl_pfn_1gb = bit_field 30 18, pl_pfn_2mb = bit_field 21 27, pl_cr3_pfn = bit_field 12 36\<rparr>"

definition tiny_mem :: host_mem where
  "tiny_mem a =
     (if a = host_physical_base then Some 0x81
      else if host_physical_base \<le> a \<and> a < host_physical_base + 0x200000 then Some 0 else None)"

theorem translation_is_linear_witness:
  "gva_to_gpa x64_layout tiny_mem 0 0x1234 = Some (0x1234, Some 0x3FFFEDCC) \<and>
   gva_to_gpa x64_layout tiny_mem 0 (0x1234 + of_nat 0x1000) = Some (0x1234 + of_nat 0x1000, Some (0x3FFFEDCC - of_nat 0x1000))"
proof -
  have t: "gva_to_gpa x64_layout tiny_mem 0 0x1234 = Some (0x1234, Some 0x3FFFEDCC)"
    by code_simp
  show ?thesis
    using translation_is_linear [OF t] t by (auto dest: spec [of _ "0x1000"])
qed

end
