(* ===== verification/Introspection.thy ===== *)
theory Introspection
  imports Paging
begin

text \<open>
  Access to guest virtual memory (\<open>revhv-km/introspection.cpp\<close>). Buffers and guest memory are
  addresses of the one host address space, and the guest's paging structures are part of it: a
  write to the guest can change the translation of the bytes that follow, as in the code.
  \<open>memcpy_wrapper\<close> of \<open>exception_wrappers.asm\<close> copies forwards byte by byte and stops at the first
  access that faults; the flag of its result is \<open>exception_info.exception_occurred\<close>, which its
  callers clear. The result of the other functions is \<open>None\<close> when the walk of the page tables
  itself faults, which no wrapper catches.
\<close>

section \<open>Copying\<close>

fun memcpy_wrapper :: "host_mem \<Rightarrow> u64 \<Rightarrow> u64 \<Rightarrow> nat \<Rightarrow> host_mem \<times> bool" where
  "memcpy_wrapper hm dst src 0 = (hm, False)"
| "memcpy_wrapper hm dst src (Suc n) =
     (case (hm src, hm dst) of
        (Some b, Some _) \<Rightarrow> memcpy_wrapper (hm(dst := Some b)) (dst + 1) (src + 1) n
      | _ \<Rightarrow> (hm, True))"

text \<open>The first \<open>n\<close> addresses from \<open>a\<close>.\<close>

definition span :: "u64 \<Rightarrow> nat \<Rightarrow> u64 set" where
  "span a n = (\<lambda>k. a + of_nat k) ` {..<n}"

lemma span_0 [simp]: "span a 0 = {}"
  by (simp add: span_def)

lemma span_Suc: "span a (Suc n) = insert a (span (a + 1) n)"
proof -
  have "{..<Suc n} = insert 0 (Suc ` {..<n})"
    by (rule lessThan_Suc_eq_insert_0)
  then show ?thesis
    by (simp add: span_def image_image add.assoc)
qed

lemma not_in_next_span: "Suc n \<le> 2 ^ 64 \<Longrightarrow> a \<notin> span (a + 1) n"
proof
  assume n: "Suc n \<le> 2 ^ 64" and "a \<in> span (a + 1) n"
  then obtain k where k: "k < n" "a = a + 1 + of_nat k" by (auto simp: span_def)
  then have "of_nat (Suc k) = (0 :: u64)" by (simp add: algebra_simps)
  moreover have "unat (of_nat (Suc k) :: u64) = Suc k"
    using k(1) n by (intro unat_of_nat_64) simp
  ultimately show False by simp
qed

lemma memcpy_outside:
  "a \<notin> span dst n \<Longrightarrow> fst (memcpy_wrapper hm dst src n) a = hm a"
  by (induction n arbitrary: hm dst src)
    (auto simp: span_Suc split: option.splits)

lemma memcpy_mapped:
  "fst (memcpy_wrapper hm dst src n) a = None \<longleftrightarrow> hm a = None"
  by (induction n arbitrary: hm dst src) (auto split: option.splits)

lemma memcpy_copies:
  assumes "memcpy_wrapper hm dst src n = (hm', False)" and "n \<le> 2 ^ 64" and "span src n \<inter> span dst n = {}" and "k < n"
  shows "hm' (dst + of_nat k) = hm (src + of_nat k) \<and> hm (src + of_nat k) \<noteq> None"
  using assms
proof (induction n arbitrary: hm dst src k)
  case 0
  then show ?case by simp
next
  case (Suc n)
  obtain b c where b: "hm src = Some b" "hm dst = Some c"
    using Suc.prems(1) by (auto split: option.splits)
  let ?hm = "hm(dst := Some b)"
  have r: "memcpy_wrapper ?hm (dst + 1) (src + 1) n = (hm', False)"
    using Suc.prems(1) b by simp
  have disj: "span (src + 1) n \<inter> span (dst + 1) n = {}" "dst \<notin> span (src + 1) n"
    using Suc.prems(3) by (auto simp: span_Suc)
  show ?case
  proof (cases k)
    case 0
    have "fst (memcpy_wrapper ?hm (dst + 1) (src + 1) n) dst = ?hm dst"
      using Suc.prems(2) by (intro memcpy_outside not_in_next_span)
    then show ?thesis
      using 0 b r by simp
  next
    case k: (Suc m)
    have "hm' (dst + 1 + of_nat m) = ?hm (src + 1 + of_nat m) \<and> ?hm (src + 1 + of_nat m) \<noteq> None"
      using Suc.IH [OF r] b disj(1) Suc.prems(2,4) k by simp
    moreover have "src + 1 + of_nat m \<in> span (src + 1) n"
      using Suc.prems(4) k unfolding span_def by (intro imageI) simp
    ultimately show ?thesis
      using disj(2) k by (auto simp: add.assoc)
  qed
qed

lemma memcpy_no_fault:
  "\<forall>a \<in> span src n \<union> span dst n. hm a \<noteq> None \<Longrightarrow> \<not> snd (memcpy_wrapper hm dst src n)"
proof (induction n arbitrary: hm dst src)
  case (Suc n)
  then obtain b c where b: "hm src = Some b" "hm dst = Some c" by (auto simp: span_Suc)
  have "\<forall>a \<in> span (src + 1) n \<union> span (dst + 1) n. (hm(dst := Some b)) a \<noteq> None"
    using Suc.prems by (auto simp: span_Suc)
  then have "\<not> snd (memcpy_wrapper (hm(dst := Some b)) (dst + 1) (src + 1) n)"
    by (rule Suc.IH)
  with b show ?case by simp
qed simp

section \<open>Reading and writing\<close>

definition stored_offset :: "u64 option \<Rightarrow> u64" where
  "stored_offset off = (case off of None \<Rightarrow> 0 | Some r \<Rightarrow> r)"

lemma chunk_progress:
  fixes total sz :: u64
  assumes "total < sz" and "gva_to_hva lay hm cr3 va = Some (hva, off)" and "hva \<noteq> 0"
  defines "n \<equiv> min (sz - total) (stored_offset off)"
  shows "0 < unat n" and "unat (total + n) = unat total + unat n" and "unat total + unat n \<le> unat sz"
    and "unat n \<le> unat (stored_offset off)"
    and "\<exists>gpa r. gva_to_gpa lay hm cr3 va = Some (gpa, Some r) \<and> gpa \<noteq> 0 \<and> hva = host_physical_base + gpa \<and> off = Some r"
proof -
  obtain gpa where g: "gva_to_gpa lay hm cr3 va = Some (gpa, off)" "gpa \<noteq> 0" "hva = host_physical_base + gpa"
    using assms(2,3) by (auto simp: gva_to_hva_def split: if_splits)
  then obtain r where r: "off = Some r"
    using gva_to_gpa_rest [OF g(1)] by (auto split: option.splits)
  then show "\<exists>gpa r. gva_to_gpa lay hm cr3 va = Some (gpa, Some r) \<and> gpa \<noteq> 0 \<and> hva = host_physical_base + gpa \<and> off = Some r"
    using g by blast
  have lt: "unat total < unat sz" using assms(1) by (simp add: word_less_nat_alt)
  have "unat (sz - total) = unat sz - unat total"
    using assms(1) by (intro unat_sub_no_wrap) simp
  moreover have u: "unat n = min (unat (sz - total)) (unat r)"
    by (simp add: n_def stored_offset_def r min_def word_le_nat_alt)
  ultimately show "0 < unat n" "unat total + unat n \<le> unat sz" "unat n \<le> unat (stored_offset off)"
    using lt rest_positive(1) [of lay hm cr3 va gpa r] g(1) r by (auto simp: stored_offset_def)
  then show "unat (total + n) = unat total + unat n"
    using unat_less_64 [of sz] by (intro unat_add_no_wrap) (simp del: unat_less_64)
qed

function read_loop ::
  "pt_layout \<Rightarrow> u64 \<Rightarrow> u64 \<Rightarrow> u64 \<Rightarrow> u64 \<Rightarrow> host_mem \<Rightarrow> u64 \<Rightarrow> (host_mem \<times> u64) option" where
  "read_loop lay cr3 gva buffer sz hm total_read =
     (if total_read < sz then
        case gva_to_hva lay hm cr3 (gva + total_read) of
          None \<Rightarrow> None
        | Some (hva, off) \<Rightarrow>
            if hva = 0 then Some (hm, total_read)
            else let to_read = min (sz - total_read) (stored_offset off);
                     (hm', exception_occurred) = memcpy_wrapper hm (buffer + total_read) hva (unat to_read)
                 in if exception_occurred then Some (hm', total_read)
                    else read_loop lay cr3 gva buffer sz hm' (total_read + to_read)
      else Some (hm, total_read))"
  by pat_completeness auto
termination
proof (relation "measure (\<lambda>(lay, cr3, gva, buffer, sz, hm, total). unat sz - unat total)", goal_cases)
  case (2 lay cr3 gva buffer sz hm total p hva off n q hm' exc)
  then show ?case
    using chunk_progress(1,2,3) [of total sz lay hm cr3 "gva + total" hva off] by auto
qed simp

function write_loop ::
  "pt_layout \<Rightarrow> u64 \<Rightarrow> u64 \<Rightarrow> u64 \<Rightarrow> u64 \<Rightarrow> host_mem \<Rightarrow> u64 \<Rightarrow> (host_mem \<times> u64) option" where
  "write_loop lay cr3 gva buffer sz hm total_written =
     (if total_written < sz then
        case gva_to_hva lay hm cr3 (gva + total_written) of
          None \<Rightarrow> None
        | Some (hva, off) \<Rightarrow>
            if hva = 0 then Some (hm, total_written)
            else let to_write = min (sz - total_written) (stored_offset off);
                     (hm', exception_occurred) = memcpy_wrapper hm hva (buffer + total_written) (unat to_write)
                 in if exception_occurred then Some (hm', total_written)
                    else write_loop lay cr3 gva buffer sz hm' (total_written + to_write)
      else Some (hm, total_written))"
  by pat_completeness auto
termination
proof (relation "measure (\<lambda>(lay, cr3, gva, buffer, sz, hm, total). unat sz - unat total)", goal_cases)
  case (2 lay cr3 gva buffer sz hm total p hva off n q hm' exc)
  then show ?case
    using chunk_progress(1,2,3) [of total sz lay hm cr3 "gva + total" hva off] by auto
qed simp

declare read_loop.simps [simp del] write_loop.simps [simp del]

definition read_guest_virtual ::
  "pt_layout \<Rightarrow> host_mem \<Rightarrow> u64 \<Rightarrow> u64 \<Rightarrow> u64 \<Rightarrow> u64 \<Rightarrow> (host_mem \<times> u64) option" where
  "read_guest_virtual lay hm guest_cr3 guest_virtual_address buffer sz =
     (if guest_virtual_address = 0 \<or> buffer = 0 \<or> sz = 0 then Some (hm, 0)
      else read_loop lay guest_cr3 guest_virtual_address buffer sz hm 0)"

definition write_guest_virtual ::
  "pt_layout \<Rightarrow> host_mem \<Rightarrow> u64 \<Rightarrow> u64 \<Rightarrow> u64 \<Rightarrow> u64 \<Rightarrow> (host_mem \<times> u64) option" where
  "write_guest_virtual lay hm guest_cr3 guest_virtual_address buffer sz =
     (if guest_virtual_address = 0 \<or> buffer = 0 \<or> sz = 0 then Some (hm, 0)
      else write_loop lay guest_cr3 guest_virtual_address buffer sz hm 0)"

section \<open>Copies made in chunks\<close>

text \<open>
  Both loops copy the bytes at the addresses \<open>s 0, s 1, \<dots>\<close> to the addresses \<open>d 0, d 1, \<dots>\<close>, in
  chunks on which both sequences are contiguous. \<open>copied\<close> says how far they have come.
\<close>

definition copied :: "host_mem \<Rightarrow> (nat \<Rightarrow> u64) \<Rightarrow> (nat \<Rightarrow> u64) \<Rightarrow> nat \<Rightarrow> nat \<Rightarrow> host_mem \<Rightarrow> bool" where
  "copied hm s d N t hm' \<longleftrightarrow> t \<le> N \<and>
     (\<forall>a. a \<notin> d ` {..<N} \<longrightarrow> hm' a = hm a) \<and> (\<forall>a. hm' a = None \<longleftrightarrow> hm a = None) \<and>
     (\<forall>k < t. hm' (d k) = hm (s k) \<and> hm (s k) \<noteq> None)"

lemma copied_start: "copied hm s d N 0 hm"
  by (simp add: copied_def)

lemma copied_chunk:
  assumes c: "copied hm s d N t hmc" and inj: "inj_on d {..<N}" and disj: "s ` {..<N} \<inter> d ` {..<N} = {}"
    and s: "\<And>j. j < n \<Longrightarrow> s (t + j) = s0 + of_nat j" and d: "\<And>j. j < n \<Longrightarrow> d (t + j) = d0 + of_nat j"
    and n: "t + n \<le> N" "n \<le> 2 ^ 64" and r: "memcpy_wrapper hmc d0 s0 n = (hm', exc)"
  shows "if exc then copied hm s d N t hm' \<and> (\<exists>k < N. hm (s k) = None \<or> hm (d k) = None)
    else copied hm s d N (t + n) hm'"
proof -
  have sp: "span s0 n = (\<lambda>j. s (t + j)) ` {..<n}" "span d0 n = (\<lambda>j. d (t + j)) ` {..<n}"
    using s d by (simp_all add: span_def)
  have sub: "span s0 n \<subseteq> s ` {..<N}" "span d0 n \<subseteq> d ` {..<N}"
    using n(1) unfolding sp by auto
  have out: "hm' a = hmc a" if "a \<notin> span d0 n" for a
    using memcpy_outside [OF that, of hmc s0] r by simp
  have none: "hm' a = None \<longleftrightarrow> hm a = None" for a
    using memcpy_mapped [of hmc d0 s0 n a] r c by (simp add: copied_def)
  have old: "hm' (d k) = hm (s k)" if "k < t" for k
  proof -
    have "d k \<notin> span d0 n"
    proof
      assume "d k \<in> span d0 n"
      then obtain j where "j < n" "d k = d (t + j)" unfolding sp by auto
      then have "k = t + j"
        using inj_onD [OF inj, of k "t + j"] that n(1) by simp
      with that show False by simp
    qed
    with out c that show ?thesis by (simp add: copied_def)
  qed
  have base: "\<forall>a. a \<notin> d ` {..<N} \<longrightarrow> hm' a = hm a"
    using out sub(2) c unfolding copied_def by (metis subsetD)
  show ?thesis
  proof (cases exc)
    case True
    have "\<exists>a \<in> span s0 n \<union> span d0 n. hmc a = None"
      using memcpy_no_fault [of s0 n d0 hmc] r True by (metis snd_conv)
    then have "\<exists>k < N. hm (s k) = None \<or> hm (d k) = None"
      using sub c by (fastforce simp: copied_def)
    then show ?thesis
      using True c old base none by (simp add: copied_def)
  next
    case False
    have "span s0 n \<inter> span d0 n = {}"
      using sub disj by blast
    then have new: "hm' (d (t + j)) = hmc (s (t + j)) \<and> hmc (s (t + j)) \<noteq> None" if "j < n" for j
      using memcpy_copies [of hmc d0 s0 n hm' j] r False n(2) that s [OF that] d [OF that] by simp
    have same: "hmc (s k) = hm (s k)" if "k < N" for k
    proof -
      have "s k \<notin> d ` {..<N}" using disj that by blast
      then show ?thesis using c by (simp add: copied_def)
    qed
    have "hm' (d k) = hm (s k) \<and> hm (s k) \<noteq> None" if "k < t + n" for k
    proof (cases "k < t")
      case True
      then show ?thesis using old c by (simp add: copied_def)
    next
      case k: False
      then show ?thesis
        using new [of "k - t"] same [of k] that n(1) by simp
    qed
    then show ?thesis
      using False base none n(1) by (simp add: copied_def)
  qed
qed

section \<open>What the loops do\<close>

text \<open>The host address of byte \<open>k\<close> of the guest range.\<close>

definition guest_addr :: "pt_layout \<Rightarrow> host_mem \<Rightarrow> u64 \<Rightarrow> u64 \<Rightarrow> nat \<Rightarrow> u64" where
  "guest_addr lay hm cr3 gva k =
     (case gva_to_gpa lay hm cr3 (gva + of_nat k) of None \<Rightarrow> 0 | Some (gpa, _) \<Rightarrow> host_physical_base + gpa)"

definition buffer_addr :: "u64 \<Rightarrow> nat \<Rightarrow> u64" where
  "buffer_addr buf k = buf + of_nat k"

text \<open>The translation of the range does not depend on the addresses \<open>B\<close>, to which the copy writes.\<close>

definition translation_avoids :: "pt_layout \<Rightarrow> host_mem \<Rightarrow> u64 \<Rightarrow> u64 \<Rightarrow> nat \<Rightarrow> u64 set \<Rightarrow> bool" where
  "translation_avoids lay hm cr3 gva N B \<longleftrightarrow>
     (\<forall>hm'. (\<forall>a. a \<notin> B \<longrightarrow> hm' a = hm a) \<longrightarrow>
        (\<forall>k < N. gva_to_gpa lay hm' cr3 (gva + of_nat k) = gva_to_gpa lay hm cr3 (gva + of_nat k)))"

text \<open>The first \<open>t\<close> bytes have been copied, all of them unless a byte is not accessible.\<close>

definition copy_result ::
  "pt_layout \<Rightarrow> host_mem \<Rightarrow> u64 \<Rightarrow> u64 \<Rightarrow> (nat \<Rightarrow> u64) \<Rightarrow> (nat \<Rightarrow> u64) \<Rightarrow> nat \<Rightarrow> (host_mem \<times> u64) option \<Rightarrow> bool" where
  "copy_result lay hm cr3 gva s d N r \<longleftrightarrow>
     (case r of
        None \<Rightarrow> \<exists>k < N. gva_to_gpa lay hm cr3 (gva + of_nat k) = None
      | Some (hm', t) \<Rightarrow> copied hm s d N (unat t) hm' \<and>
          (unat t < N \<longrightarrow> (\<exists>k < N. (\<exists>x. gva_to_hva lay hm cr3 (gva + of_nat k) = Some (0, x)) \<or>
             hm (s k) = None \<or> hm (d k) = None)))"

lemma inj_buffer_addr: "N \<le> 2 ^ 64 \<Longrightarrow> inj_on (buffer_addr buf) {..<N}"
proof (rule inj_onI)
  fix j k
  assume "N \<le> 2 ^ 64" "j \<in> {..<N}" "k \<in> {..<N}" "buffer_addr buf j = buffer_addr buf k"
  then have "(of_nat j :: u64) = of_nat k" and "j < 2 ^ 64" "k < 2 ^ 64"
    by (auto simp: buffer_addr_def)
  then show "j = k"
    by (metis unat_of_nat_64)
qed

text \<open>
  A chunk of the loop: where it starts, how long it is, and that both address sequences are
  contiguous on it.
\<close>

lemma chunk_facts:
  fixes total sz :: u64
  assumes av: "translation_avoids lay hm cr3 gva (unat sz) (d ` {..<unat sz})"
    and c: "copied hm s d (unat sz) (unat total) hmc" and less: "total < sz"
  shows "gva_to_hva lay hmc cr3 (gva + total) = gva_to_hva lay hm cr3 (gva + total)"
    and "gva_to_hva lay hm cr3 (gva + total) = Some (hva, off) \<Longrightarrow> hva \<noteq> 0 \<Longrightarrow> n = min (sz - total) (stored_offset off) \<Longrightarrow>
      0 < unat n \<and> unat total + unat n \<le> unat sz \<and> unat (total + n) = unat total + unat n \<and>
      (\<forall>j < unat n. guest_addr lay hm cr3 gva (unat total + j) = hva + of_nat j \<and>
                    buffer_addr buf (unat total + j) = buf + total + of_nat j)"
proof -
  have lt: "unat total < unat sz" using less by (simp add: word_less_nat_alt)
  have t: "gva + of_nat (unat total) = gva + total" by simp
  have "\<forall>k < unat sz. gva_to_gpa lay hmc cr3 (gva + of_nat k) = gva_to_gpa lay hm cr3 (gva + of_nat k)"
    using av c unfolding translation_avoids_def copied_def by blast
  then have "gva_to_gpa lay hmc cr3 (gva + total) = gva_to_gpa lay hm cr3 (gva + total)"
    using lt t by metis
  then show "gva_to_hva lay hmc cr3 (gva + total) = gva_to_hva lay hm cr3 (gva + total)"
    by (simp add: gva_to_hva_def)
  assume h: "gva_to_hva lay hm cr3 (gva + total) = Some (hva, off)" "hva \<noteq> 0" and n: "n = min (sz - total) (stored_offset off)"
  note p = chunk_progress [OF less h, folded n]
  obtain gpa r where g: "gva_to_gpa lay hm cr3 (gva + total) = Some (gpa, Some r)" "hva = host_physical_base + gpa" "off = Some r"
    using p(5) by blast
  have "guest_addr lay hm cr3 gva (unat total + j) = hva + of_nat j" if "j < unat n" for j
    using gva_to_gpa_linear [OF g(1), of j] that p(4) g(2,3)
    by (simp add: guest_addr_def stored_offset_def add.assoc)
  then show "0 < unat n \<and> unat total + unat n \<le> unat sz \<and> unat (total + n) = unat total + unat n \<and>
      (\<forall>j < unat n. guest_addr lay hm cr3 gva (unat total + j) = hva + of_nat j \<and>
                    buffer_addr buf (unat total + j) = buf + total + of_nat j)"
    using p by (simp add: buffer_addr_def add.assoc)
qed

text \<open>Both loops, by induction along their recursion.\<close>

lemma read_loop_result:
  fixes total sz :: u64
  assumes av: "translation_avoids lay hm cr3 gva (unat sz) (buffer_addr buf ` {..<unat sz})"
    and disj: "guest_addr lay hm cr3 gva ` {..<unat sz} \<inter> buffer_addr buf ` {..<unat sz} = {}"
    and c: "copied hm (guest_addr lay hm cr3 gva) (buffer_addr buf) (unat sz) (unat total) hmc"
  shows "copy_result lay hm cr3 gva (guest_addr lay hm cr3 gva) (buffer_addr buf) (unat sz)
     (read_loop lay cr3 gva buf sz hmc total)"
  using c
proof (induction "unat sz - unat total" arbitrary: total hmc rule: less_induct)
  case less
  let ?s = "guest_addr lay hm cr3 gva" and ?d = "buffer_addr buf" and ?h = "gva_to_hva lay hm cr3 (gva + total)"
  note c = less.prems
  show ?case
  proof (cases "total < sz")
    case False
    then have "unat total = unat sz"
      using c by (simp add: copied_def word_less_nat_alt)
    then show ?thesis
      using False c by (simp add: copy_result_def read_loop.simps)
  next
    case lt: True
    then have t: "unat total < unat sz" "gva + of_nat (unat total) = gva + total"
      by (simp_all add: word_less_nat_alt)
    note f = chunk_facts [OF av c lt]
    consider (fault) "?h = None" | (stop) x where "?h = Some (0, x)" | (go) hva off where "?h = Some (hva, off)" "hva \<noteq> 0"
      by (cases ?h) auto
    then show ?thesis
    proof cases
      case fault
      then have "gva_to_gpa lay hm cr3 (gva + of_nat (unat total)) = None"
        using t by (simp add: gva_to_hva_def)
      then show ?thesis
        using lt fault t(1) by (subst read_loop.simps) (auto simp: f(1) copy_result_def)
    next
      case stop
      then show ?thesis
        using lt c t by (subst read_loop.simps) (auto simp: f(1) copy_result_def intro!: exI [of _ "unat total"])
    next
      case go
      define n where "n = min (sz - total) (stored_offset off)"
      note g = f(2) [OF go n_def, of buf]
      obtain hm' exc where r: "memcpy_wrapper hmc (buf + total) hva (unat n) = (hm', exc)"
        by (cases "memcpy_wrapper hmc (buf + total) hva (unat n)")
      have n64: "unat sz \<le> 2 ^ 64" "unat n \<le> 2 ^ 64"
        using unat_less_64 [of sz] unat_less_64 [of n] by (simp_all del: unat_less_64)
      have ch: "if exc then copied hm ?s ?d (unat sz) (unat total) hm' \<and> (\<exists>k < unat sz. hm (?s k) = None \<or> hm (?d k) = None)
          else copied hm ?s ?d (unat sz) (unat (total + n)) hm'"
        using copied_chunk [OF c inj_buffer_addr [OF n64(1)] disj _ _ _ n64(2) r] g by auto
      have e: "read_loop lay cr3 gva buf sz hmc total =
          (if exc then Some (hm', total) else read_loop lay cr3 gva buf sz hm' (total + n))"
        using lt go r by (subst read_loop.simps) (simp add: f(1) n_def Let_def)
      show ?thesis
      proof (cases exc)
        case True
        then show ?thesis using ch by (auto simp: e copy_result_def)
      next
        case False
        have "copy_result lay hm cr3 gva ?s ?d (unat sz) (read_loop lay cr3 gva buf sz hm' (total + n))"
          using g t(1) ch False by (intro less.hyps) auto
        then show ?thesis using False by (simp add: e)
      qed
    qed
  qed
qed

lemma write_loop_result:
  fixes total sz :: u64
  assumes av: "translation_avoids lay hm cr3 gva (unat sz) (guest_addr lay hm cr3 gva ` {..<unat sz})"
    and disj: "buffer_addr buf ` {..<unat sz} \<inter> guest_addr lay hm cr3 gva ` {..<unat sz} = {}"
    and inj: "inj_on (guest_addr lay hm cr3 gva) {..<unat sz}"
    and c: "copied hm (buffer_addr buf) (guest_addr lay hm cr3 gva) (unat sz) (unat total) hmc"
  shows "copy_result lay hm cr3 gva (buffer_addr buf) (guest_addr lay hm cr3 gva) (unat sz)
     (write_loop lay cr3 gva buf sz hmc total)"
  using c
proof (induction "unat sz - unat total" arbitrary: total hmc rule: less_induct)
  case less
  let ?d = "guest_addr lay hm cr3 gva" and ?s = "buffer_addr buf" and ?h = "gva_to_hva lay hm cr3 (gva + total)"
  note c = less.prems
  show ?case
  proof (cases "total < sz")
    case False
    then have "unat total = unat sz"
      using c by (simp add: copied_def word_less_nat_alt)
    then show ?thesis
      using False c by (simp add: copy_result_def write_loop.simps)
  next
    case lt: True
    then have t: "unat total < unat sz" "gva + of_nat (unat total) = gva + total"
      by (simp_all add: word_less_nat_alt)
    note f = chunk_facts [OF av c lt]
    consider (fault) "?h = None" | (stop) x where "?h = Some (0, x)" | (go) hva off where "?h = Some (hva, off)" "hva \<noteq> 0"
      by (cases ?h) auto
    then show ?thesis
    proof cases
      case fault
      then have "gva_to_gpa lay hm cr3 (gva + of_nat (unat total)) = None"
        using t by (simp add: gva_to_hva_def)
      then show ?thesis
        using lt fault t(1) by (subst write_loop.simps) (auto simp: f(1) copy_result_def)
    next
      case stop
      then show ?thesis
        using lt c t by (subst write_loop.simps) (auto simp: f(1) copy_result_def intro!: exI [of _ "unat total"])
    next
      case go
      define n where "n = min (sz - total) (stored_offset off)"
      note g = f(2) [OF go n_def, of buf]
      obtain hm' exc where r: "memcpy_wrapper hmc hva (buf + total) (unat n) = (hm', exc)"
        by (cases "memcpy_wrapper hmc hva (buf + total) (unat n)")
      have n64: "unat n \<le> 2 ^ 64"
        using unat_less_64 [of n] by (simp del: unat_less_64)
      have ch: "if exc then copied hm ?s ?d (unat sz) (unat total) hm' \<and> (\<exists>k < unat sz. hm (?s k) = None \<or> hm (?d k) = None)
          else copied hm ?s ?d (unat sz) (unat (total + n)) hm'"
        using copied_chunk [OF c inj disj _ _ _ n64 r] g by auto
      have e: "write_loop lay cr3 gva buf sz hmc total =
          (if exc then Some (hm', total) else write_loop lay cr3 gva buf sz hm' (total + n))"
        using lt go r by (subst write_loop.simps) (simp add: f(1) n_def Let_def)
      show ?thesis
      proof (cases exc)
        case True
        then show ?thesis using ch by (auto simp: e copy_result_def)
      next
        case False
        have "copy_result lay hm cr3 gva ?s ?d (unat sz) (write_loop lay cr3 gva buf sz hm' (total + n))"
          using g t(1) ch False by (intro less.hyps) auto
        then show ?thesis using False by (simp add: e)
      qed
    qed
  qed
qed




section \<open>Witnesses\<close>

text \<open>The guest of \<open>tiny_mem\<close> maps its first gigabyte to itself.\<close>

lemma read_bytes_cong:
  "\<forall>j < n. hm (a + of_nat j) = hm' (a + of_nat j) \<Longrightarrow> read_bytes hm a n = read_bytes hm' a n"
proof (induction n arbitrary: a)
  case (Suc n)
  have "hm (a + 1 + of_nat j) = hm' (a + 1 + of_nat j)" if "j < n" for j
    using Suc.prems [rule_format, of "Suc j"] that by (simp add: add.assoc)
  then have "read_bytes hm (a + 1) n = read_bytes hm' (a + 1) n"
    by (intro Suc.IH) simp
  moreover have "hm a = hm' a"
    using Suc.prems [rule_format, of 0] by simp
  ultimately show ?case by (simp split: option.splits)
qed simp

lemma tiny_translation:
  assumes "\<forall>j < 8. hm (host_physical_base + of_nat j) = tiny_mem (host_physical_base + of_nat j)" and "g < 0x40000000"
  shows "gva_to_gpa x64_layout hm 0 g = Some (g, Some (0x40000000 - g))"
proof -
  have r: "read_bytes hm host_physical_base 8 = Some [0x81, 0, 0, 0, 0, 0, 0, 0]"
    using read_bytes_cong [OF assms(1)] by (simp only:) code_simp
  have t: "table_entry hm 0 0 = Some 0x81"
    using r by (simp add: table_entry_def read_u64_def)
  have g: "unat g < 1073741824" using assms(2) by (simp add: word_less_nat_alt)
  have i: "pml4_idx g = 0" "pdpt_idx g = 0"
    using g by (simp_all add: word_unat_eq_iff va_field_nat)
  have o: "push_bit 21 (pd_idx g) + push_bit 12 (pt_idx g) + va_offset g = g"
    using g page_offset_1gb [of g] by (simp add: word_unat_eq_iff)
  show ?thesis
    by (simp add: gva_to_gpa_def x64_layout_def i o t bit_field_def drop_bit_eq_div)
qed

lemma tiny_range:
  assumes "unat g + N \<le> 0x40000000" and "\<And>j. j < 8 \<Longrightarrow> host_physical_base + of_nat j \<notin> B"
  shows "translation_avoids x64_layout tiny_mem 0 g N B"
    and "k < N \<Longrightarrow> guest_addr x64_layout tiny_mem 0 g k = host_physical_base + g + of_nat k"
proof -
  have l: "g + of_nat k < 0x40000000" if "k < N" for k
  proof -
    have "unat (g + of_nat k) = unat g + k"
      using assms(1) that by (subst unat_add_no_wrap) (simp_all add: unat_of_nat_64)
    then show ?thesis using assms(1) that by (simp add: word_less_nat_alt)
  qed
  show "translation_avoids x64_layout tiny_mem 0 g N B"
    unfolding translation_avoids_def
  proof (intro allI impI)
    fix hm' k
    assume "\<forall>a. a \<notin> B \<longrightarrow> hm' a = tiny_mem a" and "k < N"
    then show "gva_to_gpa x64_layout hm' 0 (g + of_nat k) = gva_to_gpa x64_layout tiny_mem 0 (g + of_nat k)"
      using assms(2) l by (simp add: tiny_translation)
  qed
  show "guest_addr x64_layout tiny_mem 0 g k = host_physical_base + g + of_nat k" if "k < N"
    using l [OF that] by (simp add: guest_addr_def tiny_translation add.assoc)
qed

lemma four: "{..<unat (4 :: u64)} = {0, 1, 2, 3}"
  by auto

lemma less_8: "j < 8 \<longleftrightarrow> j \<in> {0, 1, 2, 3, 4, 5, 6, 7 :: nat}"
  by auto

lemma tiny_guest_addr: "k < 4 \<Longrightarrow> guest_addr x64_layout tiny_mem 0 0xFFE k = 0x7F8000000FFE + of_nat k"
  using tiny_range(2) [of "0xFFE" 4 "{}" k] by (simp add: host_physical_base_value)

lemma tiny_sets:
  "guest_addr x64_layout tiny_mem 0 0xFFE ` {..<unat (4 :: u64)} =
     {0x7F8000000FFE, 0x7F8000000FFF, 0x7F8000001000, 0x7F8000001001}"
  "buffer_addr 0x7F8000100000 ` {..<unat (4 :: u64)} = {0x7F8000100000, 0x7F8000100001, 0x7F8000100002, 0x7F8000100003}"
  unfolding four by (simp_all add: tiny_guest_addr buffer_addr_def)

lemma tiny_avoids:
  "translation_avoids x64_layout tiny_mem 0 0xFFE (unat (4 :: u64)) (buffer_addr 0x7F8000100000 ` {..<unat (4 :: u64)})"
  "translation_avoids x64_layout tiny_mem 0 0xFFE (unat (4 :: u64)) (guest_addr x64_layout tiny_mem 0 0xFFE ` {..<unat (4 :: u64)})"
  by (rule tiny_range(1); (unfold tiny_sets less_8)?; auto simp: host_physical_base_value)+

lemma tiny_walks: "k < 4 \<Longrightarrow> gva_to_gpa x64_layout tiny_mem 0 (0xFFE + of_nat k) \<noteq> None"
proof -
  assume "k < 4"
  then have "k = 0 \<or> k = 1 \<or> k = 2 \<or> k = 3" by auto
  then show ?thesis by (subst tiny_translation) auto
qed



end
