(* ===== verification/Transition_Cfg.thy ===== *)
theory Transition_Cfg
  imports Trace_Ring
begin

text \<open>
  The table of exact-address transition configurations: the open-addressing hash table that
  \<open>insert_exact_transition_cfg\<close> (\<open>revhv-km/hypercall.cpp\<close>) fills and \<open>lookup_transition_cfg\<close>
  (\<open>revhv-km/vmexit.cpp\<close>) searches. It implements a finite map; the interface of such a map is
  the locale \<open>config_map\<close>.
\<close>

section \<open>The table\<close>

definition max_exact_transition_cfgs :: nat where
  "max_exact_transition_cfgs = 64"

record ept_transition_exact_entry =
  addr :: u64
  cfg :: ept_transition_cfg

record cfg_table =
  exact_transition_cfgs :: "ept_transition_exact_entry list"
  exact_transition_cfg_count :: u32

definition initial_slot :: "u64 \<Rightarrow> nat" where
  "initial_slot a = unat (drop_bit 3 a AND 63)"

text \<open>The slots visited for an address, in order.\<close>

definition probes :: "u64 \<Rightarrow> nat list" where
  "probes a = map (\<lambda>i. (initial_slot a + i) mod max_exact_transition_cfgs) [0..<max_exact_transition_cfgs]"

fun insert_probe :: "u64 \<Rightarrow> ept_transition_cfg \<Rightarrow> nat list \<Rightarrow> cfg_table \<Rightarrow> cfg_table \<times> bool" where
  "insert_probe a c [] t = (t, False)"
| "insert_probe a c (p # ps) t =
     (let e = exact_transition_cfgs t ! p in
      if addr e = a then
        (t\<lparr>exact_transition_cfgs := (exact_transition_cfgs t)[p := e\<lparr>cfg := c\<rparr>]\<rparr>, True)
      else if addr e = 0 then
        (t\<lparr>exact_transition_cfgs := (exact_transition_cfgs t)[p := \<lparr>addr = a, cfg = c\<rparr>],
           exact_transition_cfg_count := exact_transition_cfg_count t + 1\<rparr>, True)
      else insert_probe a c ps t)"

definition insert_exact_transition_cfg :: "cfg_table \<Rightarrow> u64 \<Rightarrow> ept_transition_cfg \<Rightarrow> cfg_table \<times> bool" where
  "insert_exact_transition_cfg t a c = insert_probe a c (probes a) t"

fun lookup_probe :: "u64 \<Rightarrow> ept_transition_exact_entry list \<Rightarrow> nat list \<Rightarrow> ept_transition_cfg option" where
  "lookup_probe a es [] = None"
| "lookup_probe a es (p # ps) =
     (if addr (es ! p) = 0 then None
      else if addr (es ! p) = a then Some (cfg (es ! p))
      else lookup_probe a es ps)"

definition lookup_exact :: "cfg_table \<Rightarrow> u64 \<Rightarrow> ept_transition_cfg option" where
  "lookup_exact t a =
     (if exact_transition_cfg_count t > 0 then lookup_probe a (exact_transition_cfgs t) (probes a) else None)"

definition lookup_transition_cfg :: "cfg_table \<Rightarrow> ept_transition_cfg \<Rightarrow> u64 \<Rightarrow> ept_transition_cfg" where
  "lookup_transition_cfg t generic guest_rip =
     (case lookup_exact t guest_rip of Some c \<Rightarrow> c | None \<Rightarrow> generic)"

definition empty_cfg_table :: cfg_table where
  "empty_cfg_table = \<lparr>exact_transition_cfgs = replicate max_exact_transition_cfgs \<lparr>addr = 0, cfg = \<lparr>data_map = replicate 6 F_none\<rparr>\<rparr>,
     exact_transition_cfg_count = 0\<rparr>"

section \<open>Invariant\<close>

text \<open>The occupied slots, and the slot of an address.\<close>

definition occupied :: "cfg_table \<Rightarrow> nat set" where
  "occupied t = {p. p < 64 \<and> addr (exact_transition_cfgs t ! p) \<noteq> 0}"

definition table_inv :: "cfg_table \<Rightarrow> bool" where
  "table_inv t \<longleftrightarrow>
     length (exact_transition_cfgs t) = 64 \<and>
     unat (exact_transition_cfg_count t) = card (occupied t) \<and>
     (\<forall>p \<in> occupied t. \<forall>q \<in> occupied t.
        addr (exact_transition_cfgs t ! p) = addr (exact_transition_cfgs t ! q) \<longrightarrow> p = q) \<and>
     (\<forall>p \<in> occupied t. \<exists>ps qs. probes (addr (exact_transition_cfgs t ! p)) = ps @ p # qs \<and> set ps \<subseteq> occupied t)"

text \<open>The map the table stands for. Address 0 marks a free slot and is never found.\<close>

definition table_map :: "cfg_table \<Rightarrow> u64 \<rightharpoonup> ept_transition_cfg" where
  "table_map t a =
     (if a = 0 then None else map_option cfg (List.find (\<lambda>e. addr e = a) (exact_transition_cfgs t)))"

section \<open>Probe sequences\<close>

lemma inj_probe: "inj_on (\<lambda>i. (s + i) mod 64) {0..<64 :: nat}"
proof (rule inj_onI)
  fix x y :: nat
  assume "x \<in> {0..<64}" "y \<in> {0..<64}" "(s + x) mod 64 = (s + y) mod 64"
  then show "x = y"
    by (intro ring_position_inj [of s x 64 y]) simp_all
qed

lemma set_probes: "set (probes a) = {..<64}"
proof -
  have "(\<lambda>i. (s + i) mod 64) ` {0..<64} = {..<64}" for s :: nat
    by (rule card_subset_eq) (auto simp: card_image inj_probe)
  then show ?thesis
    by (simp add: probes_def max_exact_transition_cfgs_def)
qed

lemma distinct_probes: "distinct (probes a)"
  by (simp add: probes_def distinct_map inj_probe max_exact_transition_cfgs_def)

lemma finite_occupied [simp]: "finite (occupied t)"
  by (simp add: occupied_def)

lemma occupied_less: "p \<in> occupied t \<Longrightarrow> p < 64"
  by (simp add: occupied_def)

section \<open>The map of a table\<close>

lemma table_invD:
  assumes "table_inv t"
  shows "length (exact_transition_cfgs t) = 64" and "unat (exact_transition_cfg_count t) = card (occupied t)"
    and "\<And>p q. p \<in> occupied t \<Longrightarrow> q \<in> occupied t \<Longrightarrow>
      addr (exact_transition_cfgs t ! p) = addr (exact_transition_cfgs t ! q) \<Longrightarrow> p = q"
    and "\<And>p. p \<in> occupied t \<Longrightarrow>
      \<exists>ps qs. probes (addr (exact_transition_cfgs t ! p)) = ps @ p # qs \<and> set ps \<subseteq> occupied t"
  using assms unfolding table_inv_def by blast+

lemma table_map_Some:
  assumes "table_inv t" and "p \<in> occupied t" and "addr (exact_transition_cfgs t ! p) = a"
  shows "table_map t a = Some (cfg (exact_transition_cfgs t ! p))"
proof -
  let ?es = "exact_transition_cfgs t"
  have a: "a \<noteq> 0" "p < length ?es"
    using assms(2,3) table_invD(1) [OF assms(1)] by (auto simp: occupied_def)
  then have "List.find (\<lambda>e. addr e = a) ?es \<noteq> None"
    using assms(3) by (auto simp: find_None_iff intro: nth_mem)
  then obtain e where e: "List.find (\<lambda>e. addr e = a) ?es = Some e" by blast
  then obtain q where q: "q < length ?es" "addr (?es ! q) = a" "e = ?es ! q"
    by (auto simp: find_Some_iff)
  then have "q \<in> occupied t"
    using a(1) table_invD(1) [OF assms(1)] by (simp add: occupied_def)
  then have "q = p"
    using table_invD(3) [OF assms(1)] assms(2,3) q(2) by simp
  with a(1) e q(3) show ?thesis by (simp add: table_map_def)
qed

lemma table_map_None:
  assumes "table_inv t"
  shows "table_map t a = None \<longleftrightarrow> (\<forall>p \<in> occupied t. addr (exact_transition_cfgs t ! p) \<noteq> a)"
proof
  assume "table_map t a = None"
  then show "\<forall>p \<in> occupied t. addr (exact_transition_cfgs t ! p) \<noteq> a"
    using table_map_Some [OF assms] by fastforce
next
  assume n: "\<forall>p \<in> occupied t. addr (exact_transition_cfgs t ! p) \<noteq> a"
  have "addr e \<noteq> a" if "a \<noteq> 0" "e \<in> set (exact_transition_cfgs t)" for e
    using n that table_invD(1) [OF assms] by (auto simp: in_set_conv_nth occupied_def)
  then show "table_map t a = None"
    by (auto simp: table_map_def find_None_iff)
qed

text \<open>A search stops at the first free slot or at the slot of the address.\<close>

lemma lookup_probe_skip:
  "\<forall>p \<in> set ps. addr (es ! p) \<noteq> 0 \<and> addr (es ! p) \<noteq> a \<Longrightarrow> lookup_probe a es (ps @ qs) = lookup_probe a es qs"
  by (induction ps) auto

lemma lookup_probe_absent:
  "\<forall>p \<in> set ps. addr (es ! p) = 0 \<or> addr (es ! p) \<noteq> a \<Longrightarrow> lookup_probe a es ps = None"
  by (induction ps) auto

lemma lookup_exact_map:
  assumes "table_inv t"
  shows "lookup_exact t a = table_map t a"
proof (cases "table_map t a")
  case None
  then have "\<forall>p \<in> set (probes a). addr (exact_transition_cfgs t ! p) = 0 \<or> addr (exact_transition_cfgs t ! p) \<noteq> a"
    using table_map_None [OF assms, of a] by (auto simp: set_probes occupied_def)
  then show ?thesis
    using None lookup_probe_absent by (simp add: lookup_exact_def)
next
  case (Some c)
  then obtain p where p: "p \<in> occupied t" "addr (exact_transition_cfgs t ! p) = a"
    using table_map_None [OF assms, of a] by auto
  obtain ps qs where ps: "probes a = ps @ p # qs" "set ps \<subseteq> occupied t"
    using table_invD(4) [OF assms p(1)] p(2) by auto
  have "p \<notin> set ps"
    using distinct_probes [of a] ps(1) by auto
  have "addr (exact_transition_cfgs t ! q) \<noteq> 0 \<and> addr (exact_transition_cfgs t ! q) \<noteq> a" if q: "q \<in> set ps" for q
  proof -
    have o: "q \<in> occupied t" and ne: "q \<noteq> p"
      using ps(2) q \<open>p \<notin> set ps\<close> by auto
    then have "addr (exact_transition_cfgs t ! q) \<noteq> a"
      using table_invD(3) [OF assms o p(1)] p(2) by auto
    with o show ?thesis by (simp add: occupied_def)
  qed
  then have "lookup_probe a (exact_transition_cfgs t) (probes a) = Some (cfg (exact_transition_cfgs t ! p))"
    using p by (subst ps(1), subst lookup_probe_skip) (simp_all add: occupied_def)
  moreover have "0 < card (occupied t)"
    using p(1) by (auto simp: card_gt_0_iff)
  then have "exact_transition_cfg_count t > 0"
    using table_invD(2) [OF assms] by (simp add: word_less_nat_alt)
  ultimately show ?thesis
    using table_map_Some [OF assms p] by (simp add: lookup_exact_def)
qed

lemma table_map_iff:
  assumes "table_inv t"
  shows "table_map t a = Some c \<longleftrightarrow>
     (\<exists>p \<in> occupied t. addr (exact_transition_cfgs t ! p) = a \<and> cfg (exact_transition_cfgs t ! p) = c)"
proof
  assume s: "table_map t a = Some c"
  then obtain p where "p \<in> occupied t" "addr (exact_transition_cfgs t ! p) = a"
    using table_map_None [OF assms, of a] by auto
  with s table_map_Some [OF assms this] show "\<exists>p \<in> occupied t. addr (exact_transition_cfgs t ! p) = a \<and> cfg (exact_transition_cfgs t ! p) = c"
    by auto
qed (use table_map_Some [OF assms] in auto)

section \<open>Inserting\<close>

text \<open>An insertion stops at the slot of the address or at the first free slot.\<close>

lemma insert_probe_cases:
  obtains (full) "\<forall>p \<in> set ps. addr (exact_transition_cfgs t ! p) \<noteq> a \<and> addr (exact_transition_cfgs t ! p) \<noteq> 0"
      "insert_probe a c ps t = (t, False)"
  | (old) xs p ys where "ps = xs @ p # ys"
      "\<forall>q \<in> set xs. addr (exact_transition_cfgs t ! q) \<noteq> 0 \<and> addr (exact_transition_cfgs t ! q) \<noteq> a"
      "addr (exact_transition_cfgs t ! p) = a"
      "insert_probe a c ps t = (t\<lparr>exact_transition_cfgs := (exact_transition_cfgs t)[p := (exact_transition_cfgs t ! p)\<lparr>cfg := c\<rparr>]\<rparr>, True)"
  | (new) xs p ys where "ps = xs @ p # ys"
      "\<forall>q \<in> set xs. addr (exact_transition_cfgs t ! q) \<noteq> 0 \<and> addr (exact_transition_cfgs t ! q) \<noteq> a"
      "addr (exact_transition_cfgs t ! p) = 0" "a \<noteq> 0"
      "insert_probe a c ps t = (t\<lparr>exact_transition_cfgs := (exact_transition_cfgs t)[p := \<lparr>addr = a, cfg = c\<rparr>],
           exact_transition_cfg_count := exact_transition_cfg_count t + 1\<rparr>, True)"
proof (induction ps arbitrary: thesis)
  case Nil
  then show ?case by simp
next
  case (Cons p ps)
  let ?e = "exact_transition_cfgs t ! p"
  consider "addr ?e = a" | "addr ?e \<noteq> a" "addr ?e = 0" | "addr ?e \<noteq> a" "addr ?e \<noteq> 0" by blast
  then show ?case
  proof cases
    case 1
    then show ?thesis by (intro Cons.prems(2) [of "[]" p ps]) simp_all
  next
    case 2
    then show ?thesis by (intro Cons.prems(3) [of "[]" p ps]) (auto simp: Let_def)
  next
    case 3
    then have s: "insert_probe a c (p # ps) t = insert_probe a c ps t" by (simp add: Let_def)
    show ?thesis
    proof (rule Cons.IH)
      assume "\<forall>p \<in> set ps. addr (exact_transition_cfgs t ! p) \<noteq> a \<and> addr (exact_transition_cfgs t ! p) \<noteq> 0"
        and "insert_probe a c ps t = (t, False)"
      then show ?thesis using 3 s by (intro Cons.prems(1)) auto
    next
      fix xs q ys
      assume "ps = xs @ q # ys"
        and "\<forall>q \<in> set xs. addr (exact_transition_cfgs t ! q) \<noteq> 0 \<and> addr (exact_transition_cfgs t ! q) \<noteq> a"
        and "addr (exact_transition_cfgs t ! q) = a"
        and "insert_probe a c ps t = (t\<lparr>exact_transition_cfgs := (exact_transition_cfgs t)[q := (exact_transition_cfgs t ! q)\<lparr>cfg := c\<rparr>]\<rparr>, True)"
      then show ?thesis using 3 s by (intro Cons.prems(2) [of "p # xs" q ys]) auto
    next
      fix xs q ys
      assume "ps = xs @ q # ys"
        and "\<forall>q \<in> set xs. addr (exact_transition_cfgs t ! q) \<noteq> 0 \<and> addr (exact_transition_cfgs t ! q) \<noteq> a"
        and "addr (exact_transition_cfgs t ! q) = 0" and "a \<noteq> 0"
        and "insert_probe a c ps t = (t\<lparr>exact_transition_cfgs := (exact_transition_cfgs t)[q := \<lparr>addr = a, cfg = c\<rparr>],
           exact_transition_cfg_count := exact_transition_cfg_count t + 1\<rparr>, True)"
      then show ?thesis using 3 s by (intro Cons.prems(3) [of "p # xs" q ys]) auto
    qed
  qed
qed

lemma option_eqI: "(\<And>y. a = Some y \<longleftrightarrow> b = Some y) \<Longrightarrow> a = b"
  by (metis not_None_eq)

lemma replace_cfg:
  fixes c :: ept_transition_cfg
  assumes inv: "table_inv t" and p: "p \<in> occupied t"
  defines "t' \<equiv> t\<lparr>exact_transition_cfgs := (exact_transition_cfgs t)[p := (exact_transition_cfgs t ! p)\<lparr>cfg := c\<rparr>]\<rparr>"
  shows "table_inv t'" and "table_map t' = (table_map t)(addr (exact_transition_cfgs t ! p) \<mapsto> c)"
proof -
  have len: "length (exact_transition_cfgs t) = 64" "p < 64"
    using table_invD(1) [OF inv] occupied_less [OF p] by simp_all
  have addr_same: "addr (exact_transition_cfgs t' ! q) = addr (exact_transition_cfgs t ! q)" for q
    using len by (cases "q = p") (simp_all add: t'_def)
  then have occ: "occupied t' = occupied t" by (simp add: occupied_def)
  show inv': "table_inv t'"
    using inv len unfolding table_inv_def occ addr_same by (simp add: t'_def)
  have c: "cfg (exact_transition_cfgs t' ! q) = (if q = p then c else cfg (exact_transition_cfgs t ! q))" for q
    using len by (simp add: t'_def)
  show "table_map t' = (table_map t)(addr (exact_transition_cfgs t ! p) \<mapsto> c)"
  proof (rule ext, rule option_eqI)
    fix x y
    show "table_map t' x = Some y \<longleftrightarrow> ((table_map t)(addr (exact_transition_cfgs t ! p) \<mapsto> c)) x = Some y"
    proof (cases "x = addr (exact_transition_cfgs t ! p)")
      case True
      then have "table_map t' x = Some c"
        using table_map_Some [OF inv', of p x] p by (simp add: occ addr_same c)
      then show ?thesis using True by simp
    next
      case False
      then have "(addr (exact_transition_cfgs t ! q) = x \<and> cfg (exact_transition_cfgs t' ! q) = y) \<longleftrightarrow>
          (addr (exact_transition_cfgs t ! q) = x \<and> cfg (exact_transition_cfgs t ! q) = y)" for q
        by (auto simp: c)
      then show ?thesis
        using False by (simp add: table_map_iff [OF inv'] table_map_iff [OF inv] occ addr_same)
    qed
  qed
qed

lemma new_cfg:
  fixes c :: ept_transition_cfg
  assumes inv: "table_inv t" and a: "a \<noteq> 0" and ps: "probes a = xs @ p # ys"
    and xs: "\<forall>q \<in> set xs. addr (exact_transition_cfgs t ! q) \<noteq> 0 \<and> addr (exact_transition_cfgs t ! q) \<noteq> a"
    and free: "addr (exact_transition_cfgs t ! p) = 0"
  defines "t' \<equiv> t\<lparr>exact_transition_cfgs := (exact_transition_cfgs t)[p := \<lparr>addr = a, cfg = c\<rparr>],
           exact_transition_cfg_count := exact_transition_cfg_count t + 1\<rparr>"
  shows "table_inv t'" and "table_map t' = (table_map t)(a \<mapsto> c)"
proof -
  let ?es = "exact_transition_cfgs t" and ?es' = "exact_transition_cfgs t'"
  have sub: "set xs \<subseteq> {..<64}" "p < 64"
    using set_probes [of a] ps by auto
  have len: "length ?es = 64"
    by (rule table_invD(1) [OF inv])
  have p: "p \<notin> occupied t"
    using free by (simp add: occupied_def)
  have es': "?es' ! q = (if q = p then \<lparr>addr = a, cfg = c\<rparr> else ?es ! q)" for q
    using len sub(2) by (simp add: t'_def)
  have occ: "occupied t' = insert p (occupied t)"
    using a sub(2) by (auto simp: occupied_def es')
  have "lookup_probe a ?es (probes a) = None"
    using xs free by (simp add: ps lookup_probe_skip)
  then have "table_map t a = None"
    by (simp add: lookup_exact_map [OF inv, symmetric] lookup_exact_def)
  then have absent: "addr (?es ! q) \<noteq> a" if "q \<in> occupied t" for q
    using table_map_None [OF inv] that by blast
  have "card (occupied t) < 64"
    using psubset_card_mono [of "{..<64}" "occupied t"] sub(2) p by (auto simp: occupied_def)
  then have "unat (exact_transition_cfg_count t + 1) = card (occupied t) + 1"
    using table_invD(2) [OF inv] by (simp add: unat_word_ariths)
  then have cnt: "unat (exact_transition_cfg_count t') = card (occupied t')"
    unfolding occ using p by (simp add: t'_def)
  show inv': "table_inv t'"
    unfolding table_inv_def
  proof (intro conjI ballI impI)
    show "length ?es' = 64" using len by (simp add: t'_def)
    show "unat (exact_transition_cfg_count t') = card (occupied t')" by (rule cnt)
    fix q r
    assume "q \<in> occupied t'" "r \<in> occupied t'" "addr (?es' ! q) = addr (?es' ! r)"
    then show "q = r"
      using table_invD(3) [OF inv] absent by (auto simp: occ es' split: if_splits)
  next
    fix q
    assume q: "q \<in> occupied t'"
    show "\<exists>zs ws. probes (addr (?es' ! q)) = zs @ q # ws \<and> set zs \<subseteq> occupied t'"
    proof (cases "q = p")
      case True
      have "set xs \<subseteq> occupied t"
        using xs sub(1) by (auto simp: occupied_def)
      then show ?thesis using True ps by (auto simp: es' occ)
    next
      case False
      then have "q \<in> occupied t" using q by (simp add: occ)
      then show ?thesis
        using table_invD(4) [OF inv, of q] False by (auto simp: es' occ)
    qed
  qed
  show "table_map t' = (table_map t)(a \<mapsto> c)"
  proof (rule ext)
    fix x
    show "table_map t' x = ((table_map t)(a \<mapsto> c)) x"
    proof (cases "x = a")
      case True
      then show ?thesis
        using table_map_Some [OF inv', of p x] by (simp add: occ es')
    next
      case False
      have e: "?es' ! q = ?es ! q" if "q \<in> occupied t" for q
        using that p by (auto simp: es')
      show ?thesis
      proof (rule option_eqI)
        fix y
        have "table_map t' x = Some y \<longleftrightarrow> (\<exists>q \<in> occupied t. addr (?es' ! q) = x \<and> cfg (?es' ! q) = y)"
          using False by (simp add: table_map_iff [OF inv'] occ) (simp add: es')
        also have "\<dots> \<longleftrightarrow> table_map t x = Some y"
          unfolding table_map_iff [OF inv] using e by (intro bex_cong) simp_all
        finally show "table_map t' x = Some y \<longleftrightarrow> ((table_map t)(a \<mapsto> c)) x = Some y"
          using False by simp
      qed
    qed
  qed
qed

lemma insert_exact_spec:
  assumes inv: "table_inv t" and a: "a \<noteq> 0" and r: "insert_exact_transition_cfg t a c = (t', ok)"
  shows "table_inv t' \<and> (if ok then table_map t' = (table_map t)(a \<mapsto> c)
    else t' = t \<and> table_map t a = None \<and> exact_transition_cfg_count t = 64)"
proof (cases rule: insert_probe_cases [of "probes a" t a c])
  case full
  then have "occupied t = {..<64}"
    by (auto simp: set_probes occupied_def)
  then have "exact_transition_cfg_count t = 64"
    using table_invD(2) [OF inv] by (simp add: word_unat_eq_iff)
  moreover have "table_map t a = None"
    using full(1) table_map_None [OF inv] by (auto simp: set_probes occupied_def)
  ultimately show ?thesis
    using full(2) r inv by (simp add: insert_exact_transition_cfg_def)
next
  case (old xs p ys)
  then have "p \<in> occupied t"
    using set_probes [of a] a by (auto simp: occupied_def)
  then show ?thesis
    using replace_cfg [OF inv, of p c] old(3,4) r by (simp add: insert_exact_transition_cfg_def)
next
  case (new xs p ys)
  then show ?thesis
    using new_cfg [OF inv a new(1,2,3), of c] r by (simp add: insert_exact_transition_cfg_def)
qed

lemma empty_cfg_table_inv: "table_inv empty_cfg_table" "table_map empty_cfg_table = Map.empty"
proof -
  have "addr (exact_transition_cfgs empty_cfg_table ! p) = 0" if "p < 64" for p
    using that by (simp add: empty_cfg_table_def max_exact_transition_cfgs_def)
  then have o: "occupied empty_cfg_table = {}"
    by (auto simp: occupied_def)
  then show i: "table_inv empty_cfg_table"
    by (simp add: table_inv_def) (simp add: empty_cfg_table_def max_exact_transition_cfgs_def)
  show "table_map empty_cfg_table = Map.empty"
    using table_map_None [OF i] o by auto
qed

section \<open>The interface of a configuration map\<close>

text \<open>
  What the violation handler relies on: an insertion that succeeds changes what is found for its
  key and nothing else, one that fails changes nothing and finds the map full.
\<close>

locale config_map =
  fixes inv :: "'t \<Rightarrow> bool" and lookup :: "'t \<Rightarrow> 'k \<Rightarrow> 'c option"
    and ins :: "'t \<Rightarrow> 'k \<Rightarrow> 'c \<Rightarrow> 't \<times> bool" and key :: "'k \<Rightarrow> bool" and full :: "'t \<Rightarrow> bool"
  assumes ins_inv: "inv t \<Longrightarrow> key k \<Longrightarrow> inv (fst (ins t k c))"
    and ins_ok: "inv t \<Longrightarrow> key k \<Longrightarrow> snd (ins t k c) \<Longrightarrow> lookup (fst (ins t k c)) = (lookup t)(k \<mapsto> c)"
    and ins_full: "inv t \<Longrightarrow> key k \<Longrightarrow> \<not> snd (ins t k c) \<Longrightarrow> fst (ins t k c) = t \<and> full t"
begin

definition apply_all :: "'t \<Rightarrow> ('k \<times> 'c) list \<Rightarrow> 't" where
  "apply_all t kcs = fold (\<lambda>(k, c) t. fst (ins t k c)) kcs t"

text \<open>A key that was never inserted keeps what was found for it.\<close>

lemma apply_all_other:
  "inv t \<Longrightarrow> \<forall>(k, c) \<in> set kcs. key k \<Longrightarrow> k \<notin> fst ` set kcs \<Longrightarrow>
     inv (apply_all t kcs) \<and> lookup (apply_all t kcs) k = lookup t k"
proof (induction kcs arbitrary: t)
  case (Cons x kcs)
  obtain k' c where x: "x = (k', c)" by (cases x)
  have k: "key k'" "k \<noteq> k'" using Cons.prems x by auto
  have "lookup (fst (ins t k' c)) k = lookup t k"
    using ins_ok [OF Cons.prems(1) k(1), of c] ins_full [OF Cons.prems(1) k(1), of c] k(2)
    by (cases "snd (ins t k' c)") auto
  then show ?case
    using Cons.IH [OF ins_inv [OF Cons.prems(1) k(1), of c]] Cons.prems x by (simp add: apply_all_def)
qed (simp add: apply_all_def)

text \<open>The last successful insertion of a key wins.\<close>

lemma last_insert_wins:
  assumes "inv t" and "key k" and "snd (ins t k c)" and "\<forall>(k, c) \<in> set kcs. key k" and "k \<notin> fst ` set kcs"
  shows "lookup (apply_all (fst (ins t k c)) kcs) k = Some c"
  using apply_all_other [OF ins_inv [OF assms(1,2), of c] assms(4,5)] ins_ok [OF assms(1-3)] by simp

end

interpretation exact_cfgs: config_map table_inv lookup_exact insert_exact_transition_cfg "\<lambda>a. a \<noteq> 0"
  "\<lambda>t. exact_transition_cfg_count t = 64"
proof unfold_locales
  fix t :: cfg_table and k :: u64 and c
  assume t: "table_inv t" "k \<noteq> 0"
  obtain t' ok where r: "insert_exact_transition_cfg t k c = (t', ok)" by force
  note s = insert_exact_spec [OF t r]
  show "table_inv (fst (insert_exact_transition_cfg t k c))"
    using s r by simp
  show "lookup_exact (fst (insert_exact_transition_cfg t k c)) = (lookup_exact t)(k \<mapsto> c)"
    if "snd (insert_exact_transition_cfg t k c)"
    using s r that t(1) by (auto simp: fun_eq_iff lookup_exact_map)
  show "fst (insert_exact_transition_cfg t k c) = t \<and> exact_transition_cfg_count t = 64"
    if "\<not> snd (insert_exact_transition_cfg t k c)"
    using s r that by simp
qed

section \<open>Properties\<close>

definition run_inserts :: "cfg_table \<Rightarrow> (u64 \<times> ept_transition_cfg) list \<Rightarrow> cfg_table" where
  "run_inserts t acs = fold (\<lambda>(a, c) t. fst (insert_exact_transition_cfg t a c)) acs t"

text \<open>C16. The configuration table is a finite map.
  From any table that satisfies the invariant (the empty one does), an insertion under an address
  other than 0 keeps the invariant. If it succeeds, every lookup afterwards finds the new
  configuration for that address and what it found before for all others, the generic one where
  nothing is stored; it fails only with 64 other addresses in the table, and then changes
  nothing.\<close>

theorem exact_table_is_a_map:
  assumes "table_inv t" and "a \<noteq> 0"
  shows "case insert_exact_transition_cfg t a c of
      (t', True) \<Rightarrow> table_inv t' \<and> (\<forall>rip. lookup_transition_cfg t' generic rip =
         (if rip = a then c else lookup_transition_cfg t generic rip))
    | (t', False) \<Rightarrow> t' = t \<and> exact_transition_cfg_count t = 64 \<and> lookup_exact t a = None"
  using insert_exact_spec [OF assms, of c] lookup_exact_map [OF assms(1)]
    exact_cfgs.ins_ok [OF assms, of c]
  by (auto simp: lookup_transition_cfg_def split: prod.split bool.split)

text \<open>The configuration inserted last for an address is the one a transition at that address
  uses, whatever is inserted for other addresses afterwards.\<close>

theorem last_config_wins:
  assumes "table_inv t" and "a \<noteq> 0" and "snd (insert_exact_transition_cfg t a c)"
    and "\<forall>(b, d) \<in> set acs. b \<noteq> 0" and "a \<notin> fst ` set acs"
  shows "lookup_transition_cfg (run_inserts (fst (insert_exact_transition_cfg t a c)) acs) generic a = c"
  using exact_cfgs.last_insert_wins [OF assms]
  by (simp add: exact_cfgs.apply_all_def run_inserts_def lookup_transition_cfg_def)

definition demo_cfg :: ept_transition_cfg where
  "demo_cfg = \<lparr>data_map = [F_guest_rcx, F_none, F_none, F_none, F_none, F_none]\<rparr>"

lemma demo_insert: "snd (insert_exact_transition_cfg empty_cfg_table 0x1008 demo_cfg)"
  by code_simp

theorem exact_table_is_a_map_witness:
  "lookup_transition_cfg (fst (insert_exact_transition_cfg empty_cfg_table 0x1008 demo_cfg)) default_generic_cfg 0x1008 = demo_cfg \<and>
   lookup_transition_cfg (fst (insert_exact_transition_cfg empty_cfg_table 0x1008 demo_cfg)) default_generic_cfg 0x1208 =
     lookup_transition_cfg empty_cfg_table default_generic_cfg 0x1208"
  using exact_table_is_a_map [OF empty_cfg_table_inv(1), where a = "0x1008" and c = demo_cfg and generic = default_generic_cfg]
    demo_insert
  by (cases "insert_exact_transition_cfg empty_cfg_table 0x1008 demo_cfg") (auto split: bool.splits)

theorem last_config_wins_witness:
  "lookup_transition_cfg (run_inserts (fst (insert_exact_transition_cfg empty_cfg_table 0x1008 demo_cfg))
     [(0x1208, default_generic_cfg)]) default_generic_cfg 0x1008 = demo_cfg"
  by (rule last_config_wins [OF empty_cfg_table_inv(1) _ demo_insert]) simp_all

text \<open>An insertion under address 0 reports success, yet no lookup ever finds it: 0 marks the
  free slots of the table. The request is lost without an error.\<close>

theorem address_zero_is_lost:
  assumes "table_inv t" and "exact_transition_cfg_count t < 64"
  shows "snd (insert_exact_transition_cfg t 0 c) \<and>
    lookup_transition_cfg (fst (insert_exact_transition_cfg t 0 c)) generic 0 = generic"
proof -
  have "lookup_exact t' 0 = None" for t'
  proof -
    have "lookup_probe 0 es ps = None" for es ps by (induction ps) auto
    then show ?thesis by (simp add: lookup_exact_def)
  qed
  moreover have "snd (insert_exact_transition_cfg t 0 c)"
  proof (cases rule: insert_probe_cases [of "probes 0" t 0 c])
    case full
    then have "occupied t = {..<64}" by (auto simp: set_probes occupied_def)
    then have "unat (exact_transition_cfg_count t) = 64" using table_invD(2) [OF assms(1)] by simp
    then show ?thesis using assms(2) by (simp add: word_less_nat_alt)
  qed (simp_all add: insert_exact_transition_cfg_def)
  ultimately show ?thesis
    by (simp add: lookup_transition_cfg_def)
qed

theorem address_zero_is_lost_witness:
  "snd (insert_exact_transition_cfg empty_cfg_table 0 demo_cfg) \<and>
    lookup_transition_cfg (fst (insert_exact_transition_cfg empty_cfg_table 0 demo_cfg)) default_generic_cfg 0 = default_generic_cfg"
  by (rule address_zero_is_lost [OF empty_cfg_table_inv(1)]) (simp add: empty_cfg_table_def)

end
