(* ===== verification/Format.thy ===== *)
theory Format
  imports Prelude "HOL-Library.Char_ord"
begin

text \<open>
  The formatting routine of the logger (\<open>revhv-km/format.cpp\<close>). A buffer is the list of the
  characters written to it, so that a position is a length; sizes are natural numbers below
  \<open>2 ^ 64\<close> and a subtraction that can wrap is written out. An argument of the variable argument
  list is a 64-bit slot, or a pointer to a string together with that string. The result is
  \<open>None\<close> where the source reads past the end of the format string, takes an argument that was not
  passed, or follows a pointer that is no string.
\<close>

section \<open>Numbers\<close>

definition digit :: "u64 \<Rightarrow> char" where
  "digit d = ''0123456789abcdef'' ! unat d"

text \<open>The digits of a value, least significant first; \<open>room\<close> is the space left in the buffer of 32.\<close>

fun rev_digits :: "nat \<Rightarrow> u64 \<Rightarrow> u64 \<Rightarrow> string" where
  "rev_digits 0 v base = []"
| "rev_digits (Suc room) v base =
     digit (v mod base) # (if v div base > 0 \<and> room > 0 then rev_digits room (v div base) base else [])"

definition int_to_str :: "nat \<Rightarrow> u64 \<Rightarrow> u64 \<Rightarrow> bool \<Rightarrow> string" where
  "int_to_str max_size v base is_negative =
     (if max_size = 0 then []
      else let sign = (if is_negative \<and> base = 10 \<and> v > 0 \<and> 0 < max_size - 1 then ''-'' else [])
           in sign @ take (max_size - 1 - length sign) (rev (rev_digits 32 v base)))"

section \<open>Conversions\<close>

datatype va_slot = Num u64 | Text u64 string

fun slot_word :: "va_slot \<Rightarrow> u64" where
  "slot_word (Num w) = w"
| "slot_word (Text p s) = p"

text \<open>A string argument: a null pointer prints \<open>(null)\<close>.\<close>

fun slot_text :: "va_slot \<Rightarrow> string option" where
  "slot_text (Text p s) = Some s"
| "slot_text (Num w) = (if w = 0 then Some ''(null)'' else None)"

definition size_sub :: "nat \<Rightarrow> nat \<Rightarrow> nat" where
  "size_sub a b = (a + 2 ^ 64 - b) mod 2 ^ 64"

text \<open>The argument read as \<open>int\<close> or \<open>uint32_t\<close> (low half of the slot), or as 64 bits.\<close>

definition signed_arg :: "bool \<Rightarrow> va_slot \<Rightarrow> u64" where
  "signed_arg ll a = (if ll then slot_word a else scast (ucast (slot_word a) :: u32))"

definition unsigned_arg :: "bool \<Rightarrow> va_slot \<Rightarrow> u64" where
  "unsigned_arg ll a = (if ll then slot_word a else ucast (ucast (slot_word a) :: u32))"

definition convert :: "char \<Rightarrow> bool \<Rightarrow> nat \<Rightarrow> nat \<Rightarrow> va_slot list \<Rightarrow> (string \<times> va_slot list) option" where
  "convert d ll max_size pos args =
     (if d = CHR ''s'' then
        (case args of [] \<Rightarrow> None
         | a # as \<Rightarrow> map_option (\<lambda>s. (take (max_size - 1 - pos) s, as)) (slot_text a))
      else if d = CHR ''d'' \<or> d = CHR ''i'' then
        (case args of [] \<Rightarrow> None
         | a # as \<Rightarrow> let val = signed_arg ll a; neg = (sint val < 0);
                         uval = (if neg then - val else val)
                     in Some (int_to_str (max_size - pos) uval 10 neg, as))
      else if d = CHR ''u'' then
        (case args of [] \<Rightarrow> None
         | a # as \<Rightarrow> Some (int_to_str (max_size - pos) (unsigned_arg ll a) 10 False, as))
      else if d = CHR ''x'' then
        (case args of [] \<Rightarrow> None
         | a # as \<Rightarrow> Some (int_to_str (max_size - pos) (unsigned_arg ll a) 16 False, as))
      else if d = CHR ''p'' then
        (case args of [] \<Rightarrow> None
         | a # as \<Rightarrow> let prefix = (if pos < size_sub max_size 3 then ''0x'' else [])
                     in Some (prefix @ int_to_str (max_size - (pos + length prefix)) (slot_word a) 16 False, as))
      else Some ([d], args))"

section \<open>Formatting\<close>

fun length_modifier :: "string \<Rightarrow> bool \<times> string" where
  "length_modifier p =
     (case p of
        c # q \<Rightarrow> if c = CHR ''l''
                 then (case q of c' # r \<Rightarrow> if c' = CHR ''l'' then (True, r) else (False, q) | [] \<Rightarrow> (False, q))
                 else (False, p)
      | [] \<Rightarrow> (False, p))"

declare length_modifier.simps [simp del]

lemma length_modifier_le: "length_modifier p = (ll, q) \<Longrightarrow> length q \<le> length p"
  by (auto simp: length_modifier.simps split: list.splits if_splits)

function format_loop :: "string \<Rightarrow> nat \<Rightarrow> va_slot list \<Rightarrow> string \<Rightarrow> string option" where
  "format_loop p max_size args out =
     (case p of
        [] \<Rightarrow> Some out
      | c # p' \<Rightarrow>
          if length out < max_size - 1 then
            if c \<noteq> CHR ''%'' then format_loop p' max_size args (out @ [c])
            else (case length_modifier p' of (ll, q) \<Rightarrow>
                    case q of
                      [] \<Rightarrow> None
                    | d # r \<Rightarrow>
                        (case convert d ll max_size (length out) args of
                           None \<Rightarrow> None
                         | Some (s, args') \<Rightarrow> format_loop r max_size args' (out @ s)))
          else Some out)"
  by pat_completeness auto
termination
  by (relation "measure (\<lambda>(p, _). length p)") (auto dest!: length_modifier_le [OF sym])

declare format_loop.simps [simp del]

text \<open>The characters left in the buffer; the source returns their number and adds a NUL.\<close>

definition format :: "string \<Rightarrow> nat \<Rightarrow> va_slot list \<Rightarrow> string option" where
  "format fmt max_size args = (if max_size = 0 then Some [] else format_loop fmt max_size args [])"

section \<open>Values of digit strings\<close>

definition digit_val :: "char \<Rightarrow> nat" where
  "digit_val c = length (takeWhile (\<lambda>x. x \<noteq> c) ''0123456789abcdef'')"

fun rev_value :: "nat \<Rightarrow> string \<Rightarrow> nat" where
  "rev_value b [] = 0"
| "rev_value b (c # s) = digit_val c + b * rev_value b s"

definition str_value :: "nat \<Rightarrow> string \<Rightarrow> nat" where
  "str_value b s = rev_value b (rev s)"

text \<open>A decimal number with an optional sign.\<close>

definition int_value :: "string \<Rightarrow> int" where
  "int_value s = (case s of [] \<Rightarrow> 0
     | c # t \<Rightarrow> if c = CHR ''-'' then - int (str_value 10 t) else int (str_value 10 s))"

lemma digit_val_table: "\<forall>n \<in> set [0..<16]. digit_val (''0123456789abcdef'' ! n) = n \<and> ''0123456789abcdef'' ! n \<noteq> CHR ''-''"
  by code_simp

lemma digit_val_digit: "unat d < 16 \<Longrightarrow> digit_val (digit d) = unat d"
  and digit_no_sign: "unat d < 16 \<Longrightarrow> digit d \<noteq> CHR ''-''"
  using digit_val_table by (simp_all add: digit_def)

lemma rev_digits_value:
  assumes "2 \<le> unat base" and "unat base \<le> 16" and "unat v < unat base ^ room"
  shows "rev_value (unat base) (rev_digits room v base) = unat v"
  using assms(3)
proof (induction room arbitrary: v)
  case 0
  then show ?case by simp
next
  case (Suc room)
  have d: "unat (v mod base) < 16"
    using assms(1,2) by (simp add: unat_mod) (use mod_less_divisor [of "unat base" "unat v"] in linarith)
  have q: "unat (v div base) < unat base ^ room"
    using Suc.prems assms(1) by (simp add: unat_div less_mult_imp_div_less mult.commute)
  have z: "v div base > 0 \<and> room > 0 \<longleftrightarrow> unat (v div base) \<noteq> 0"
    using q by (cases room) (auto simp: word_greater_zero_iff unat_eq_zero)
  have s: "unat v mod unat base + unat base * (unat v div unat base) = unat v"
    by simp
  show ?case
  proof (cases "unat (v div base) = 0")
    case True
    then show ?thesis
      using z s by (simp add: digit_val_digit [OF d] unat_mod unat_div)
  next
    case False
    then show ?thesis
      using Suc.IH [OF q] z s by (simp add: digit_val_digit [OF d] unat_mod unat_div)
  qed
qed

lemma rev_digits_length:
  assumes "2 \<le> unat base"
  shows "0 < k \<Longrightarrow> unat v < unat base ^ k \<Longrightarrow> length (rev_digits room v base) \<le> k"
proof (induction room arbitrary: v k)
  case (Suc room)
  show ?case
  proof (cases "v div base > 0")
    case True
    then obtain j where j: "k = Suc j" "0 < j"
      using Suc.prems assms
      by (cases k; cases "k - 1") (auto simp: word_greater_zero_iff unat_eq_zero [symmetric] unat_div)
    then have "unat (v div base) < unat base ^ j"
      using Suc.prems(2) assms by (simp add: unat_div less_mult_imp_div_less mult.commute)
    then show ?thesis
      using Suc.IH [OF j(2)] j(1) by simp
  qed (use Suc.prems in simp)
qed simp

lemma rev_digits_nonempty [simp]: "rev_digits (Suc n) v base \<noteq> []"
  by simp

lemma rev_digits_signless:
  assumes "2 \<le> unat base" and "unat base \<le> 16"
  shows "CHR ''-'' \<notin> set (rev_digits room v base)"
proof (induction room arbitrary: v)
  case (Suc room)
  have "unat (v mod base) < 16"
    using assms by (simp add: unat_mod) (use mod_less_divisor [of "unat base" "unat v"] in linarith)
  then show ?case
    using Suc digit_no_sign by force
qed simp

lemma digits_fit:
  assumes "base = 10 \<or> base = (16 :: u64)"
  shows "length (rev_digits 32 v base) \<le> 20" and "rev_value (unat base) (rev_digits 32 v base) = unat v"
proof -
  have b: "2 \<le> unat base" "unat base \<le> 16" using assms by auto
  have "unat v < unat base ^ 20" "unat v < unat base ^ 32"
    using assms unat_less_64 [of v] by (auto simp del: unat_less_64)
  then show "length (rev_digits 32 v base) \<le> 20" "rev_value (unat base) (rev_digits 32 v base) = unat v"
    using rev_digits_length [OF b(1), of 20] rev_digits_value [OF b] by simp_all
qed

lemma int_to_str_value:
  assumes "base = 10 \<or> base = (16 :: u64)" and "22 \<le> room"
  shows "str_value (unat base) (int_to_str room v base False) = unat v"
proof -
  have "take (room - 1) (rev (rev_digits 32 v base)) = rev (rev_digits 32 v base)"
    using digits_fit(1) [OF assms(1), of v] assms(2) by (intro take_all) (simp del: rev_digits.simps)
  then show ?thesis
    using digits_fit(2) [OF assms(1)] assms(2)
    by (simp add: int_to_str_def str_value_def Let_def del: rev_digits.simps)
qed

lemma int_to_str_signed:
  assumes "22 \<le> room"
  shows "int_value (int_to_str room v 10 neg) = (if neg then - int (unat v) else int (unat v))"
proof -
  let ?ds = "rev (rev_digits 32 v 10)"
  have fit: "take (room - 1 - k) ?ds = ?ds" if "k \<le> 1" for k
    using digits_fit(1) [of 10 v] assms that by (intro take_all) (simp del: rev_digits.simps)
  have val: "rev_value 10 (rev ?ds) = unat v"
    using digits_fit(2) [of 10 v] by (simp del: rev_digits.simps)
  obtain c cs where ds: "?ds = c # cs"
    by (cases ?ds) (simp_all del: rev_digits.simps add: rev_digits.simps(2) [of 31, simplified])
  have "CHR ''-'' \<notin> set ?ds"
    using rev_digits_signless [of 10 32 v] by (simp del: rev_digits.simps)
  then have c: "c \<noteq> CHR ''-''" unfolding ds by auto
  show ?thesis
  proof (cases "neg \<and> v > 0")
    case True
    then show ?thesis
      using fit [of 1] val assms by (simp add: int_to_str_def int_value_def str_value_def Let_def del: rev_digits.simps)
  next
    case False
    then have "int_to_str room v 10 neg = ?ds"
      using fit [of 0] assms by (auto simp: int_to_str_def Let_def simp del: rev_digits.simps)
    moreover have "neg \<Longrightarrow> v = 0" using False by (simp add: word_greater_zero_iff)
    ultimately show ?thesis
      using c ds val by (auto simp: int_value_def str_value_def simp del: rev_digits.simps)
  qed
qed

lemma unat_minus_negative:
  fixes v :: u64
  assumes "sint v < 0"
  shows "int (unat (- v)) = - sint v"
proof -
  have e: "sint v = uint v - 2 ^ 64 * of_bool (bit (uint v) 63)"
    using uint_bounded [of v]
    by (simp add: sint_uint signed_take_bit_eq_take_bit_minus take_bit_int_eq_self)
  then have s: "sint v = uint v - 2 ^ 64"
    using assms by (cases "bit (uint v) 63") auto
  have "v \<noteq> 0" using assms by auto
  then have p: "0 < unat v" by (simp add: unat_gt_0)
  have l: "unat v < 2 ^ 64" by simp
  have "of_nat (2 ^ 64 - unat v) + of_nat (unat v) = (of_nat (2 ^ 64) :: u64)"
    by (simp only: of_nat_add [symmetric] le_add_diff_inverse2 less_imp_le [OF l])
  moreover have "(of_nat (2 ^ 64) :: u64) = 0" by simp
  moreover have "of_nat (unat v) = v" by simp
  ultimately have "of_nat (2 ^ 64 - unat v) + v = 0"
    by (simp only:)
  then have "- v = of_nat (2 ^ 64 - unat v)"
    by (simp only: eq_neg_iff_add_eq_0 [symmetric])
  moreover have "2 ^ 64 - unat v < (2 :: nat) ^ 64"
    using p by (intro diff_less) simp_all
  ultimately have "unat (- v) = 2 ^ 64 - unat v"
    by (simp only: unat_of_nat_64)
  then have "int (unat (- v)) = 2 ^ 64 - int (unat v)"
    using l by (simp only: of_nat_diff less_imp_le) simp
  then show ?thesis using s by simp
qed

lemma sint_nonnegative:
  fixes v :: u64
  assumes "\<not> sint v < 0"
  shows "int (unat v) = sint v"
proof -
  have "sint v = uint v - 2 ^ 64 * of_bool (bit (uint v) 63)"
    using uint_bounded [of v]
    by (simp add: sint_uint signed_take_bit_eq_take_bit_minus take_bit_int_eq_self)
  then show ?thesis
    using assms uint_bounded [of v] by (cases "bit (uint v) 63") auto
qed

lemma sint_scast_32: "sint (scast (w :: u32) :: u64) = sint w"
  using sint_ge [of w] sint_lt [of w] by (simp add: signed_scast_eq signed_take_bit_int_eq_self)

lemma print_signed:
  "22 \<le> room \<Longrightarrow> int_value (int_to_str room (if sint v < 0 then - v else v) 10 (sint v < 0)) = sint v" for v :: u64
  using unat_minus_negative [of v] sint_nonnegative [of v] by (simp add: int_to_str_signed)

section \<open>Correctness\<close>

text \<open>
  C29. A number printed by the formatting routine reads back as the number: \<open>%lld\<close> prints a signed
  decimal of 64 bits, \<open>%d\<close> one of the low 32 bits of its argument, \<open>%llu\<close> and \<open>%llx\<close> unsigned
  decimals and hexadecimals, whatever the value, in a buffer of at least 24 bytes.
\<close>

theorem printed_numbers_read_back:
  assumes "24 \<le> max_size"
  shows "(\<exists>s. format ''%lld'' max_size [Num v] = Some s \<and> int_value s = sint v) \<and>
    (\<exists>s. format ''%d'' max_size [Num v] = Some s \<and> int_value s = sint (ucast v :: u32)) \<and>
    (\<exists>s. format ''%llu'' max_size [Num v] = Some s \<and> str_value 10 s = unat v) \<and>
    (\<exists>s. format ''%llx'' max_size [Num v] = Some s \<and> str_value 16 s = unat v)"
proof -
  let ?n = "scast (ucast v :: u32) :: u64"
  have n: "sint ?n = sint (ucast v :: u32)"
    by (rule sint_scast_32)
  have m: "22 \<le> max_size" using assms by simp
  have "\<exists>s. format ''%lld'' max_size [Num v] = Some s \<and> int_value s = sint v"
    using assms print_signed [OF m, of v]
    by (simp add: format_def format_loop.simps length_modifier.simps convert_def signed_arg_def Let_def)
  moreover have "\<exists>s. format ''%d'' max_size [Num v] = Some s \<and> int_value s = sint (ucast v :: u32)"
    using assms print_signed [OF m, of ?n] n
    by (simp add: format_def format_loop.simps length_modifier.simps convert_def signed_arg_def Let_def)
  moreover have "\<exists>s. format ''%llu'' max_size [Num v] = Some s \<and> str_value 10 s = unat v"
    using assms int_to_str_value [of 10 max_size v]
    by (simp add: format_def format_loop.simps length_modifier.simps convert_def unsigned_arg_def)
  moreover have "\<exists>s. format ''%llx'' max_size [Num v] = Some s \<and> str_value 16 s = unat v"
    using assms int_to_str_value [of 16 max_size v]
    by (simp add: format_def format_loop.simps length_modifier.simps convert_def unsigned_arg_def)
  ultimately show ?thesis by blast
qed

theorem printed_numbers_read_back_witness:
  "\<exists>s. format ''%lld'' 32 [Num (- 42)] = Some s \<and> int_value s = - 42"
  using printed_numbers_read_back [of 32 "- 42"] by simp

section \<open>Bounds\<close>

lemma int_to_str_length: "0 < room \<Longrightarrow> length (int_to_str room v base neg) < room"
  by (auto simp: int_to_str_def Let_def simp del: rev_digits.simps)

lemma int_to_str_fits: "pos < max_size \<Longrightarrow> pos + length (int_to_str (max_size - pos) v base neg) < max_size"
  using int_to_str_length [of "max_size - pos" v base neg] by linarith

lemma convert_fits:
  assumes "convert d ll max_size pos args = Some (s, args')" and "3 \<le> max_size" and "max_size < 2 ^ 64"
    and "pos < max_size - 1"
  shows "pos + length s < max_size"
proof -
  have sub: "size_sub max_size 3 = max_size - 3"
    using assms(2,3) by (simp add: size_sub_def mod_if)
  have p: "pos < max_size" using assms(4) by simp
  note num = int_to_str_fits [OF p]
  have "pos + length ((if pos < max_size - 3 then ''0x'' else []) @
      int_to_str (max_size - (pos + length (if pos < max_size - 3 then ''0x'' else []))) v 16 False) < max_size" for v
    using int_to_str_fits [OF p] int_to_str_fits [of "pos + 2" max_size v 16 False] by auto
  then have ptr: "pos + (length (if pos < max_size - 3 then ''0x'' else []) +
      length (int_to_str (max_size - (pos + length (if pos < max_size - 3 then ''0x'' else []))) v 16 False)) < max_size" for v
    by (simp only: length_append)
  show ?thesis
    using assms(1,4) num ptr
    by (auto simp: convert_def sub Let_def split: if_splits list.splits option.splits)
qed

lemma format_loop_fits:
  assumes "format_loop p max_size args out = Some s" and "length out < max_size" and "3 \<le> max_size" and "max_size < 2 ^ 64"
  shows "length s < max_size"
  using assms
proof (induction p max_size args out rule: format_loop.induct)
  case (1 p max_size args out)
  show ?case
  proof (cases p)
    case Nil
    then show ?thesis
      using "1.prems" by (simp add: format_loop.simps [of "[]"])
  next
    case (Cons c p')
    obtain ll q where m: "length_modifier p' = (ll, q)" by fastforce
    consider "\<not> length out < max_size - 1" | "length out < max_size - 1" "c \<noteq> CHR ''%''"
      | d r t args' where "length out < max_size - 1" "c = CHR ''%''" "q = d # r"
          "convert d ll max_size (length out) args = Some (t, args')"
      | "length out < max_size - 1" "c = CHR ''%''" "q = [] \<or> (\<exists>d r. q = d # r \<and> convert d ll max_size (length out) args = None)"
      by (cases q) fastforce+
    then show ?thesis
    proof cases
      case 1
      then show ?thesis
        using "1.prems"(1,2) Cons by (simp add: format_loop.simps [of "c # p'"])
    next
      case 2
      then have "format_loop p' max_size args (out @ [c]) = Some s"
        using "1.prems"(1,2) Cons by (simp add: format_loop.simps [of "c # p'"])
      then show ?thesis
        using "1.IH"(1) [OF Cons 2] 2(1) "1.prems"(3,4) by simp
    next
      case (3 d r t args')
      then have "format_loop r max_size args' (out @ t) = Some s"
        using "1.prems"(1,2) Cons m by (simp add: format_loop.simps [of "CHR ''%'' # p'"])
      moreover have "length (out @ t) < max_size"
        using convert_fits [OF 3(4) "1.prems"(3,4) 3(1)] by simp
      ultimately show ?thesis
        using "1.IH"(2) [OF Cons 3(1) _ m [symmetric] 3(3) 3(4) refl] 3(2) "1.prems"(3,4) by simp
    next
      case 4
      then show ?thesis
        using "1.prems"(1,2) Cons m by (auto simp: format_loop.simps [of "CHR ''%'' # p'"])
    qed
  qed
qed



end
