(* ===== verification/Logging.thy ===== *)
theory Logging
  imports Format Introspection
begin

text \<open>
  The circular logger (\<open>revhv-km/logging.cpp\<close>, \<open>logging.h\<close>, \<open>common/logging_types.hpp\<close>): building
  the text of a message, storing it in the ring of 512 messages, and flushing the pending
  messages. The ring keeps the newest messages; flushing hands them out oldest first. Serial
  output and the locks around the ring are not part of these functions.
\<close>

section \<open>Data\<close>

definition max_standard_message_length :: nat where "max_standard_message_length = 256"
definition max_standard_message_count :: u64 where "max_standard_message_count = 512"

lemmas log_sizes [simp] = max_standard_message_length_def max_standard_message_count_def

record standard_log_message =
  message_number :: u64
  message_text :: string

record standard_logger =
  messages :: "nat \<Rightarrow> standard_log_message"
  cursor :: u64
  message_count :: u64
  pending_count :: u64

datatype log_level = log_level_verbose | log_level_info | log_level_warning | log_level_error | log_level_other

section \<open>The text of a message\<close>

abbreviation NUL :: char where "NUL \<equiv> CHR 0x00"
abbreviation newline :: char where "newline \<equiv> CHR 0x0A"

fun level_str :: "log_level \<Rightarrow> string" where
  "level_str log_level_verbose = ''VERBOSE''"
| "level_str log_level_info = ''INFO''"
| "level_str log_level_warning = ''WARNING''"
| "level_str log_level_error = ''ERROR''"
| "level_str log_level_other = ''UNKNOWN''"

text \<open>
  The result is the characters in front of the NUL and the size reported to the caller. The outer
  option is the one of \<open>format\<close>; the inner one is the \<open>false\<close> of the source.
\<close>

definition log_fmt :: "nat \<Rightarrow> log_level \<Rightarrow> string \<Rightarrow> va_slot list \<Rightarrow> (string \<times> nat) option option" where
  "log_fmt buffer_size level fmt args =
     (if buffer_size = 0 then Some None
      else do {
        prefix \<leftarrow> format ''[revhv] [%s] '' buffer_size [Text 1 (level_str level)];
        if length prefix = 0 then Some None
        else if length prefix \<ge> buffer_size then Some None
        else do {
          msg \<leftarrow> format fmt (buffer_size - length prefix) args;
          let text = prefix @ takeWhile (\<lambda>c. c \<noteq> NUL) msg;
          Some (Some (if length text + 1 < buffer_size then (text @ [newline], length text + 1)
                      else (text, length text)))
        }
      })"

section \<open>The ring\<close>

definition write_to_standard_log :: "string option \<Rightarrow> nat \<Rightarrow> standard_logger \<Rightarrow> standard_logger" where
  "write_to_standard_log message message_size logger =
     (let cur = cursor logger;
          old = message_text (messages logger (unat cur));
          new = (case message of
                   None \<Rightarrow> old[0 := NUL]
                 | Some m \<Rightarrow>
                     if message_size = 0 then old[0 := NUL]
                     else let copy_size = min message_size (max_standard_message_length - 1)
                          in take copy_size m @ NUL # drop (copy_size + 1) old)
      in logger\<lparr>messages := (messages logger)(unat cur := \<lparr>message_number = message_count logger, message_text = new\<rparr>),
                message_count := message_count logger + 1,
                cursor := (cur + 1) mod max_standard_message_count,
                pending_count := min (pending_count logger + 1) max_standard_message_count\<rparr>)"

text \<open>
  The buffer passed on is the local array of 256 bytes, zero behind the text.
\<close>

definition failed_text :: string where
  "failed_text = ''[revhv] [ERROR] Failed to format log message'' @ [newline]"

definition log_fmt_print :: "log_level \<Rightarrow> string \<Rightarrow> va_slot list \<Rightarrow> standard_logger \<Rightarrow> standard_logger option" where
  "log_fmt_print level fmt args logger =
     map_option (\<lambda>r. case r of
         Some (text, formatted_size) \<Rightarrow>
           write_to_standard_log (Some (text @ replicate (max_standard_message_length - length text) NUL)) formatted_size logger
       | None \<Rightarrow>
           write_to_standard_log (Some (failed_text @ replicate (max_standard_message_length - length failed_text) NUL))
             (length failed_text) logger)
       (log_fmt max_standard_message_length level fmt args)"

text \<open>What a flush of at most \<open>m\<close> messages takes: their number, the first slot, and the lengths of
  the two segments of the ring.\<close>

definition flush_count :: "standard_logger \<Rightarrow> u64 \<Rightarrow> u64" where
  "flush_count logger m = min (pending_count logger) m"

definition flush_start :: "standard_logger \<Rightarrow> u64" where
  "flush_start logger = (cursor logger + max_standard_message_count - pending_count logger) mod max_standard_message_count"

definition first_chunk :: "standard_logger \<Rightarrow> u64 \<Rightarrow> u64" where
  "first_chunk logger m = min (flush_count logger m) (max_standard_message_count - flush_start logger)"

definition second_chunk :: "standard_logger \<Rightarrow> u64 \<Rightarrow> u64" where
  "second_chunk logger m = flush_count logger m - first_chunk logger m"

lemmas flush_defs = flush_count_def flush_start_def first_chunk_def second_chunk_def

text \<open>Flushing to the memory of the caller: the messages copied, in order, and the ring.\<close>

definition flush_standard_logs :: "standard_logger \<Rightarrow> u64 \<Rightarrow> standard_log_message list \<times> standard_logger" where
  "flush_standard_logs logger max_messages =
     (if max_messages = 0 then ([], logger)
      else if flush_count logger max_messages = 0 then ([], logger)
      else (map (\<lambda>i. messages logger (unat (flush_start logger) + i)) [0..<unat (first_chunk logger max_messages)]
              @ (if second_chunk logger max_messages > 0
                 then map (messages logger) [0..<unat (second_chunk logger max_messages)] else []),
            logger\<lparr>pending_count := pending_count logger - flush_count logger max_messages\<rparr>))"

text \<open>
  Flushing to guest memory. The ring lies at the host address \<open>base\<close>, a message has 264 bytes; the
  results of the two writes are ignored.
\<close>

definition sizeof_message :: u64 where "sizeof_message = 264"

definition flush_to_guest ::
  "pt_layout \<Rightarrow> u64 \<Rightarrow> u64 \<Rightarrow> standard_logger \<Rightarrow> host_mem \<Rightarrow> u64 \<Rightarrow> u64 \<Rightarrow> (host_mem \<times> standard_logger \<times> u64) option" where
  "flush_to_guest lay cr3 base logger hm out_messages max_messages =
     (if out_messages = 0 \<or> max_messages = 0 then Some (hm, logger, 0)
      else if flush_count logger max_messages = 0 then Some (hm, logger, 0)
      else do {
        (hm1, _) \<leftarrow> write_guest_virtual lay hm cr3 out_messages (base + flush_start logger * sizeof_message)
                     (first_chunk logger max_messages * sizeof_message);
        hm2 \<leftarrow> (if second_chunk logger max_messages > 0
                then map_option fst (write_guest_virtual lay hm1 cr3
                       (out_messages + first_chunk logger max_messages * sizeof_message) base
                       (second_chunk logger max_messages * sizeof_message))
                else Some hm1);
        Some (hm2, logger\<lparr>pending_count := pending_count logger - flush_count logger max_messages\<rparr>,
              flush_count logger max_messages)
      })"

section \<open>The list of pending messages\<close>

definition logger_inv :: "standard_logger \<Rightarrow> bool" where
  "logger_inv l \<longleftrightarrow> unat (cursor l) < 512 \<and> unat (pending_count l) \<le> 512"

definition pending :: "standard_logger \<Rightarrow> standard_log_message list" where
  "pending l = ring_slice 512 (messages l) (unat (flush_start l)) (unat (pending_count l))"

lemma length_pending [simp]: "length (pending l) = unat (pending_count l)"
  by (simp add: pending_def)

lemma unat_flush_start:
  assumes "logger_inv l"
  shows "unat (flush_start l) = (unat (cursor l) + (512 - unat (pending_count l))) mod 512"
proof -
  have c: "unat (cursor l) < 512" "unat (pending_count l) \<le> 512"
    using assms by (simp_all add: logger_inv_def)
  have "unat (cursor l + 512) = unat (cursor l) + 512"
    using c by (simp add: unat_add_no_wrap)
  moreover have "unat (cursor l + 512 - pending_count l) = unat (cursor l + 512) - unat (pending_count l)"
    using c calculation by (intro unat_sub_no_wrap) (simp add: word_le_nat_alt)
  ultimately show ?thesis
    using c by (simp add: flush_start_def unat_mod)
qed

lemma flush_chunks:
  assumes "logger_inv l"
  shows "unat (flush_count l m) = min (unat (pending_count l)) (unat m)"
    and "unat (first_chunk l m) = min (unat (flush_count l m)) (512 - unat (flush_start l))"
    and "unat (second_chunk l m) = unat (flush_count l m) - unat (first_chunk l m)"
proof -
  show c: "unat (flush_count l m) = min (unat (pending_count l)) (unat m)"
    by (simp add: flush_count_def min_def word_le_nat_alt)
  have "unat (flush_start l) < 512"
    by (simp add: unat_flush_start [OF assms])
  then have "unat (512 - flush_start l) = 512 - unat (flush_start l)"
    by (subst unat_sub_no_wrap) (simp_all add: word_le_nat_alt)
  then show f: "unat (first_chunk l m) = min (unat (flush_count l m)) (512 - unat (flush_start l))"
    by (simp add: first_chunk_def min_def word_le_nat_alt)
  show "unat (second_chunk l m) = unat (flush_count l m) - unat (first_chunk l m)"
    unfolding second_chunk_def
    by (rule unat_sub_no_wrap) (simp add: first_chunk_def min_def word_le_nat_alt)
qed

lemma ring_slice_segments:
  assumes "start < n" and "k \<le> n" and "f = min k (n - start)"
  shows "map (\<lambda>i. slots (start + i)) [0..<f] @ map slots [0..<k - f] = ring_slice n slots start k"
proof (rule nth_equalityI)
  show "length (map (\<lambda>i. slots (start + i)) [0..<f] @ map slots [0..<k - f]) = length (ring_slice n slots start k)"
    using assms(3) by simp
  fix i
  assume "i < length (map (\<lambda>i. slots (start + i)) [0..<f] @ map slots [0..<k - f])"
  then have i: "i < k" using assms(3) by simp
  show "(map (\<lambda>i. slots (start + i)) [0..<f] @ map slots [0..<k - f]) ! i = ring_slice n slots start k ! i"
  proof (cases "i < f")
    case True
    then have "start + i < n" using assms by linarith
    then show ?thesis using True i by (simp add: nth_append ring_slice_def)
  next
    case False
    then have "f = n - start" "start + i \<ge> n" "start + i < 2 * n" using assms i by auto
    then have "(start + i) mod n = i - f" using assms(1) by (auto simp: mod_if)
    then show ?thesis using False i by (simp add: nth_append ring_slice_def)
  qed
qed

lemma flush_out:
  assumes "logger_inv l"
  shows "fst (flush_standard_logs l m) = take (unat m) (pending l)"
proof (cases "m = 0 \<or> flush_count l m = 0")
  case True
  then have "unat m = 0 \<or> pending l = []"
    using flush_chunks(1) [OF assms, of m] by (auto simp: pending_def min_def split: if_splits)
  then show ?thesis
    using True by (auto simp: flush_standard_logs_def)
next
  case False
  let ?k = "unat (flush_count l m)"
  have s: "unat (flush_start l) < 512" by (simp add: unat_flush_start [OF assms])
  have k: "?k \<le> 512" using flush_chunks(1) [OF assms, of m] assms by (auto simp: logger_inv_def)
  have "fst (flush_standard_logs l m) =
      map (\<lambda>i. messages l (unat (flush_start l) + i)) [0..<unat (first_chunk l m)]
        @ map (messages l) [0..<?k - unat (first_chunk l m)]"
    using False flush_chunks(3) [OF assms, of m]
    by (auto simp: flush_standard_logs_def word_greater_zero_iff)
  also have "\<dots> = ring_slice 512 (messages l) (unat (flush_start l)) ?k"
    by (rule ring_slice_segments [OF s k flush_chunks(2) [OF assms]])
  also have "\<dots> = take ?k (pending l)"
    using flush_chunks(1) [OF assms, of m] by (simp add: pending_def take_ring_slice)
  also have "\<dots> = take (unat m) (pending l)"
    using flush_chunks(1) [OF assms, of m] by (simp add: min_def)
  finally show ?thesis .
qed

lemma flush_rest_aux:
  fixes m :: u64
  assumes "logger_inv l"
  defines "l' \<equiv> l\<lparr>pending_count := pending_count l - flush_count l m\<rparr>"
  shows "logger_inv l'" and "pending l' = drop (unat m) (pending l)"
proof -
  let ?k = "unat (flush_count l m)"
  have c: "unat (cursor l) < 512" "unat (pending_count l) \<le> 512"
    using assms(1) by (simp_all add: logger_inv_def)
  have k: "?k = min (unat (pending_count l)) (unat m)" by (rule flush_chunks(1) [OF assms(1)])
  then have p: "unat (pending_count l') = unat (pending_count l) - ?k"
    unfolding l'_def by (simp, subst unat_sub_no_wrap) (simp_all add: word_le_nat_alt)
  then show i: "logger_inv l'"
    using c by (simp add: logger_inv_def l'_def)
  have cur: "cursor l' = cursor l" "messages l' = messages l" by (simp_all add: l'_def)
  have "unat (flush_start l') = (unat (flush_start l) + ?k) mod 512"
    unfolding unat_flush_start [OF i] unat_flush_start [OF assms(1)] cur p
    using k c by (simp add: mod_add_left_eq add.assoc)
  then have "pending l' = ring_slice 512 (messages l) (unat (flush_start l) + ?k) (unat (pending_count l) - ?k)"
    by (simp add: pending_def cur p ring_slice_start_mod)
  also have "\<dots> = drop ?k (pending l)"
    unfolding pending_def using k by (subst drop_ring_slice) simp_all
  also have "\<dots> = drop (unat m) (pending l)"
    using k by (simp add: min_def)
  finally show "pending l' = drop (unat m) (pending l)" .
qed

lemma flush_rest:
  assumes "logger_inv l"
  shows "pending (snd (flush_standard_logs l m)) = drop (unat m) (pending l)"
    and "logger_inv (snd (flush_standard_logs l m))"
proof -
  have "unat m = 0 \<or> pending l = []" if "m = 0 \<or> flush_count l m = 0"
    using that flush_chunks(1) [OF assms, of m] by (auto simp: pending_def min_def split: if_splits)
  then show "pending (snd (flush_standard_logs l m)) = drop (unat m) (pending l)"
    using flush_rest_aux(2) [OF assms, of m] by (auto simp: flush_standard_logs_def)
  show "logger_inv (snd (flush_standard_logs l m))"
    using assms flush_rest_aux(1) [OF assms, of m] by (simp add: flush_standard_logs_def)
qed

interpretation standard_log: drainable pending flush_standard_logs logger_inv
  by unfold_locales (simp_all add: flush_out flush_rest)

section \<open>Writing a message\<close>

text \<open>The characters in front of the first NUL.\<close>

definition c_string :: "string \<Rightarrow> string" where
  "c_string s = takeWhile (\<lambda>c. c \<noteq> NUL) s"

lemma c_string_append_NUL: "NUL \<notin> set s \<Longrightarrow> c_string (s @ NUL # r) = s"
  unfolding c_string_def by (subst takeWhile_append2) auto

definition log_prefix :: "log_level \<Rightarrow> string" where
  "log_prefix level = ''[revhv] ['' @ level_str level @ ''] ''"

lemma level_prefix: "format ''[revhv] [%s] '' 256 [Text 1 (level_str level)] = Some (log_prefix level)"
  by (cases level)
    (simp_all add: log_prefix_def format_def format_loop.simps length_modifier.simps convert_def)

lemma log_prefix_length: "length (log_prefix level) < 24" "NUL \<notin> set (log_prefix level)" "log_prefix level \<noteq> []"
  by (cases level; simp add: log_prefix_def)+

lemma log_fmt_256:
  "log_fmt 256 level fmt args =
     map_option (\<lambda>m. let t = log_prefix level @ takeWhile (\<lambda>c. c \<noteq> NUL) m in
       Some (if length t + 1 < 256 then (t @ [newline], length t + 1) else (t, length t)))
       (format fmt (256 - length (log_prefix level)) args)"
proof -
  have "length (log_prefix level) < 256" using log_prefix_length(1) [of level] by simp
  then show ?thesis
    using log_prefix_length(3) [of level]
    by (cases "format fmt (256 - length (log_prefix level)) args")
      (simp_all add: log_fmt_def level_prefix Let_def)
qed

lemma log_fmt_line:
  assumes "log_fmt 256 level fmt args = Some r"
  shows "\<exists>text. r = Some (log_prefix level @ text, length (log_prefix level @ text)) \<and>
    length (log_prefix level @ text) < 256 \<and> NUL \<notin> set text"
proof -
  let ?p = "log_prefix level"
  have p: "length ?p < 256" using log_prefix_length(1) [of level] by simp
  obtain m where m: "format fmt (256 - length ?p) args = Some m"
    and r: "r = (let t = ?p @ takeWhile (\<lambda>c. c \<noteq> NUL) m in
       Some (if length t + 1 < 256 then (t @ [newline], length t + 1) else (t, length t)))"
    using assms unfolding log_fmt_256 by blast
  have "length m < 256 - length ?p"
    using m log_prefix_length(1) [of level]
      format_loop_fits [of fmt "256 - length ?p" args "[]" m] by (simp add: format_def split: if_splits)
  then have l: "length (?p @ takeWhile (\<lambda>c. c \<noteq> NUL) m) < 256"
    using length_takeWhile_le [of "\<lambda>c. c \<noteq> NUL" m] by (simp add: le_less_trans)
  have n: "NUL \<notin> set (takeWhile (\<lambda>c. c \<noteq> NUL) m)"
    by (auto dest: set_takeWhileD)
  let ?t = "takeWhile (\<lambda>c. c \<noteq> NUL) m"
  show ?thesis
  proof (cases "length (?p @ ?t) + 1 < 256")
    case True
    then show ?thesis using r n by (intro exI [of _ "?t @ [newline]"]) (simp add: Let_def)
  next
    case False
    then show ?thesis using r n l by (intro exI [of _ "?t"]) (simp add: Let_def)
  qed
qed

lemma write_pending:
  fixes rest :: string
  assumes "logger_inv l" and "length text < 256" and "NUL \<notin> set text" and "text \<noteq> []"
  defines "l' \<equiv> write_to_standard_log (Some (text @ rest)) (length text) l"
  shows "logger_inv l'" and "\<exists>m. pending l' = drop (length (pending l) + 1 - 512) (pending l) @ [m] \<and>
    message_number m = message_count l \<and> c_string (message_text m) = text"
proof -
  let ?c = "unat (cursor l)" and ?p = "unat (pending_count l)"
  let ?m = "\<lparr>message_number = message_count l, message_text = text @ NUL # drop (length text + 1) (message_text (messages l ?c))\<rparr>"
  have c: "?c < 512" "?p \<le> 512" using assms(1) by (simp_all add: logger_inv_def)
  have l': "l' = l\<lparr>messages := (messages l)(?c := ?m), message_count := message_count l + 1,
      cursor := (cursor l + 1) mod 512, pending_count := min (pending_count l + 1) 512\<rparr>"
    using assms(2,4) by (simp add: l'_def write_to_standard_log_def Let_def)
  have cur: "unat (cursor l') = (?c + 1) mod 512"
    using c by (simp add: l' unat_mod unat_add_no_wrap)
  have cnt: "unat (pending_count l') = min (?p + 1) 512"
    using c by (simp add: l' min_def word_le_nat_alt unat_add_no_wrap)
  show i: "logger_inv l'"
    by (simp add: logger_inv_def cur cnt)
  let ?s = "unat (flush_start l)"
  have s: "?s = (?c + (512 - ?p)) mod 512" by (rule unat_flush_start [OF assms(1)])
  have s': "unat (flush_start l') = (?c + 1 + (512 - min (?p + 1) 512)) mod 512"
    unfolding unat_flush_start [OF i] cur cnt by (rule mod_add_left_eq)
  have msgs: "messages l' = (messages l)(?c := ?m)" by (simp add: l')
  have new: "pending l' = drop (?p + 1 - 512) (pending l) @ [?m]"
  proof (cases "?p = 512")
    case False
    then have p: "?p < 512" using c by simp
    then have "?c + 1 + (512 - min (?p + 1) 512) = ?c + (512 - ?p)" by simp
    then have "(?c + 1 + (512 - min (?p + 1) 512)) mod 512 = ?s" by (simp only: s)
    then have "pending l' = ring_slice 512 ((messages l)(?c := ?m)) ?s (Suc ?p)"
      using p by (simp add: pending_def s' cnt msgs)
    moreover have "(?s + ?p) mod 512 = ?c"
      using c p unfolding s by (simp add: mod_add_left_eq)
    ultimately have "pending l' = ring_slice 512 ((messages l)((?s + ?p) mod 512 := ?m)) ?s (Suc ?p)"
      by simp
    then show ?thesis
      using p by (simp add: ring_slice_write_next pending_def)
  next
    case True
    then have "?s = ?c" using s c by simp
    moreover have "unat (flush_start l') = (?c + 1) mod 512" using True by (simp add: s')
    ultimately have "pending l' = ring_slice 512 ((messages l)((Suc ?s + 511) mod 512 := ?m)) (Suc ?s) (Suc 511)"
      using True c by (simp add: pending_def cnt msgs ring_slice_start_mod)
    also have "\<dots> = ring_slice 512 (messages l) (Suc ?s) 511 @ [?m]"
      by (rule ring_slice_write_next) simp
    also have "ring_slice 512 (messages l) (Suc ?s) 511 = drop 1 (pending l)"
      using True by (simp add: pending_def drop_ring_slice)
    finally show ?thesis using True by simp
  qed
  show "\<exists>m. pending l' = drop (length (pending l) + 1 - 512) (pending l) @ [m] \<and>
    message_number m = message_count l \<and> c_string (message_text m) = text"
    using new assms(3) by (intro exI [of _ ?m]) (simp add: c_string_append_NUL)
qed

section \<open>Properties\<close>


definition empty_logger :: standard_logger where
  "empty_logger = \<lparr>messages = (\<lambda>_. \<lparr>message_number = 0, message_text = replicate 256 NUL\<rparr>), cursor = 0,
     message_count = 0, pending_count = 0\<rparr>"


end
