(* ===== verification/Sync.thy ===== *)
theory Sync
  imports Prelude
begin

text \<open>
  The locks of \<open>revhv-km/sync.hpp\<close>, as transition systems whose steps are the single accesses to
  the lock. A core runs a stack of activities: the one on top executes, those below were
  interrupted. An activity takes the lock, is in its critical section and gives the lock back.
\<close>

section \<open>The spin lock\<close>

datatype sl_pc = SL_outside | SL_trying | SL_inside

record spin_lock =
  m_flag :: bool
  sl_pcs :: "nat \<Rightarrow> sl_pc"

text \<open>One compare-and-exchange of \<open>lock\<close> or \<open>try_lock\<close>.\<close>

definition sl_try :: "nat \<Rightarrow> spin_lock \<Rightarrow> spin_lock" where
  "sl_try c s = (if m_flag s then s\<lparr>sl_pcs := (sl_pcs s)(c := SL_trying)\<rparr>
                 else s\<lparr>m_flag := True, sl_pcs := (sl_pcs s)(c := SL_inside)\<rparr>)"

definition sl_unlock :: "nat \<Rightarrow> spin_lock \<Rightarrow> spin_lock" where
  "sl_unlock c s = s\<lparr>m_flag := False, sl_pcs := (sl_pcs s)(c := SL_outside)\<rparr>"

inductive sl_step :: "spin_lock \<Rightarrow> spin_lock \<Rightarrow> bool" where
  sl_lock: "sl_pcs s c \<noteq> SL_inside \<Longrightarrow> sl_step s (sl_try c s)"
| sl_give_up: "sl_pcs s c = SL_trying \<Longrightarrow> sl_step s (s\<lparr>sl_pcs := (sl_pcs s)(c := SL_outside)\<rparr>)"
| sl_release: "sl_pcs s c = SL_inside \<Longrightarrow> sl_step s (sl_unlock c s)"

definition sl_inv :: "spin_lock \<Rightarrow> bool" where
  "sl_inv s \<longleftrightarrow> (\<forall>c d. sl_pcs s c = SL_inside \<and> sl_pcs s d = SL_inside \<longrightarrow> c = d) \<and>
     (m_flag s \<longleftrightarrow> (\<exists>c. sl_pcs s c = SL_inside))"

lemma sl_step_inv: "sl_step s s' \<Longrightarrow> sl_inv s \<Longrightarrow> sl_inv s'"
proof (induction rule: sl_step.induct)
  case (sl_lock s c)
  then show ?case
  proof (cases "m_flag s")
    case True
    then obtain d where "sl_pcs s d = SL_inside" using sl_lock by (auto simp: sl_inv_def)
    moreover from this have "d \<noteq> c" using sl_lock by auto
    ultimately show ?thesis
      using True sl_lock by (auto simp: sl_inv_def sl_try_def)
  qed (auto simp: sl_inv_def sl_try_def)
next
  case (sl_give_up s c)
  then show ?case
    unfolding sl_inv_def by (auto split: if_splits) (metis sl_pc.distinct(5))
qed (auto simp: sl_inv_def sl_unlock_def split: if_splits)

section \<open>The reentrant spin lock\<close>

text \<open>The owner token of a core, from EBX of CPUID leaf 1.\<close>

definition get_owner_id :: "u32 \<Rightarrow> u32" where
  "get_owner_id ebx = (drop_bit 24 ebx AND 0xFF) + 1"

text \<open>
  Where an activity is: before the test \<open>m_owner == id\<close>, before \<open>++m_depth\<close>, before the
  compare-and-exchange, before \<open>m_depth = 1\<close>, in the critical section, before \<open>--m_depth\<close>, and
  before the final exchange.
\<close>

datatype rl_pc = R_check | R_bump | R_cas | R_set | R_crit | R_dec | R_release

record reentrant_lock =
  m_owner :: u32
  m_depth :: int
  frames :: "nat \<Rightarrow> rl_pc list"

definition put_frames :: "nat \<Rightarrow> rl_pc list \<Rightarrow> reentrant_lock \<Rightarrow> reentrant_lock" where
  "put_frames c fs s = s\<lparr>frames := (frames s)(c := fs)\<rparr>"

text \<open>The next access of core \<open>c\<close>, whose token is \<open>i\<close>.\<close>

definition advance :: "u32 \<Rightarrow> nat \<Rightarrow> reentrant_lock \<Rightarrow> reentrant_lock" where
  "advance i c s =
     (case frames s c of
        [] \<Rightarrow> s
      | pc # fs \<Rightarrow>
          (case pc of
             R_check \<Rightarrow> put_frames c ((if m_owner s = i then R_bump else R_cas) # fs) s
           | R_bump \<Rightarrow> put_frames c (R_crit # fs) (s\<lparr>m_depth := m_depth s + 1\<rparr>)
           | R_cas \<Rightarrow> if m_owner s = 0 then put_frames c (R_set # fs) (s\<lparr>m_owner := i\<rparr>) else s
           | R_set \<Rightarrow> put_frames c (R_crit # fs) (s\<lparr>m_depth := 1\<rparr>)
           | R_crit \<Rightarrow> put_frames c (R_dec # fs) s
           | R_dec \<Rightarrow> put_frames c (if m_depth s - 1 = 0 then R_release # fs else fs) (s\<lparr>m_depth := m_depth s - 1\<rparr>)
           | R_release \<Rightarrow> put_frames c fs (s\<lparr>m_owner := 0\<rparr>)))"

text \<open>An activity that wants the lock starts on top of the others.\<close>

definition call_lock :: "nat \<Rightarrow> reentrant_lock \<Rightarrow> reentrant_lock" where
  "call_lock c s = put_frames c (R_check # frames s c) s"

text \<open>A system of \<open>n\<close> cores with the tokens \<open>ids\<close>.\<close>

inductive rl_step ::
  "nat \<Rightarrow> (nat \<Rightarrow> u32) \<Rightarrow> (rl_pc list \<Rightarrow> bool) \<Rightarrow> reentrant_lock \<Rightarrow> reentrant_lock \<Rightarrow> bool"
  for n and ids and may_call where
  rl_advance: "c < n \<Longrightarrow> rl_step n ids may_call s (advance (ids c) c s)"
| rl_call: "c < n \<Longrightarrow> may_call (frames s c) \<Longrightarrow> rl_step n ids may_call s (call_lock c s)"

text \<open>
  Recursive use: a new activity starts on an idle core or inside a critical section. Interrupted
  use: a non-maskable interrupt can start one at any point.
\<close>

definition recursive_use :: "rl_pc list \<Rightarrow> bool" where
  "recursive_use fs \<longleftrightarrow> (case fs of [] \<Rightarrow> True | pc # _ \<Rightarrow> pc = R_crit)"

definition interrupted_use :: "rl_pc list \<Rightarrow> bool" where
  "interrupted_use fs \<longleftrightarrow> True"

definition unlocked :: reentrant_lock where
  "unlocked = \<lparr>m_owner = 0, m_depth = 0, frames = (\<lambda>_. [])\<rparr>"

definition in_critical :: "reentrant_lock \<Rightarrow> nat \<Rightarrow> bool" where
  "in_critical s c \<longleftrightarrow> R_crit \<in> set (frames s c)"

section \<open>Mutual exclusion\<close>

definition owns :: "rl_pc list \<Rightarrow> bool" where
  "owns fs \<longleftrightarrow> (\<exists>pc \<in> set fs. pc \<in> {R_crit, R_dec, R_release, R_set})"

definition tail_critical :: "rl_pc list \<Rightarrow> bool" where
  "tail_critical fs \<longleftrightarrow> (\<forall>pc \<in> set (tl fs). pc = R_crit)"

text \<open>The depth of the lock of an owner, while it is not being set up.\<close>

definition depth_ok :: "int \<Rightarrow> rl_pc list \<Rightarrow> bool" where
  "depth_ok d fs \<longleftrightarrow>
     (case fs of
        [] \<Rightarrow> True
      | R_set # fs' \<Rightarrow> fs' = []
      | R_release # fs' \<Rightarrow> fs' = [] \<and> d = 0
      | pc # fs' \<Rightarrow> (pc = R_bump \<longrightarrow> fs' \<noteq> []) \<and> (pc = R_cas \<longrightarrow> fs' = []) \<and>
          (owns fs \<longrightarrow> d = int (length (filter (\<lambda>pc. pc = R_crit \<or> pc = R_dec) fs))))"

definition rl_inv :: "nat \<Rightarrow> (nat \<Rightarrow> u32) \<Rightarrow> reentrant_lock \<Rightarrow> bool" where
  "rl_inv n ids s \<longleftrightarrow>
     (\<forall>c. tail_critical (frames s c) \<and> depth_ok (m_depth s) (frames s c)) \<and>
     (\<forall>c < n. owns (frames s c) \<longleftrightarrow> m_owner s = ids c) \<and> (\<forall>c \<ge> n. frames s c = [])"

lemma depth_ok_irrelevant: "\<not> owns fs \<Longrightarrow> depth_ok d fs \<longleftrightarrow> depth_ok e fs"
  by (cases fs; cases "hd fs") (auto simp: depth_ok_def owns_def)

lemma rl_inv_put:
  assumes "rl_inv n ids s" and "c < n" and "tail_critical fs" and "depth_ok d fs"
    and "owns fs \<longleftrightarrow> ow = ids c"
    and "\<And>e. e < n \<Longrightarrow> e \<noteq> c \<Longrightarrow> (m_owner s = ids e \<longleftrightarrow> ow = ids e)"
    and "d \<noteq> m_depth s \<Longrightarrow> (\<And>e. e < n \<Longrightarrow> e \<noteq> c \<Longrightarrow> m_owner s \<noteq> ids e)"
  shows "rl_inv n ids (put_frames c fs (s\<lparr>m_owner := ow, m_depth := d\<rparr>))"
proof -
  have "tail_critical (frames s e) \<and> depth_ok d (frames s e)" if "e \<noteq> c" for e
  proof (cases "d = m_depth s")
    case False
    have "e \<ge> n \<Longrightarrow> frames s e = []" using assms(1) by (simp add: rl_inv_def)
    then have "\<not> owns (frames s e)"
      using assms(1,7) that False by (cases "e < n") (auto simp: rl_inv_def owns_def)
    then show ?thesis
      using assms(1) depth_ok_irrelevant [of "frames s e" d "m_depth s"] by (simp add: rl_inv_def)
  qed (use assms(1) in \<open>simp add: rl_inv_def\<close>)
  then show ?thesis
    using assms by (auto simp: rl_inv_def put_frames_def)
qed

lemma all_critical_owns: "\<forall>pc \<in> set fs. pc = R_crit \<Longrightarrow> owns fs \<longleftrightarrow> fs \<noteq> []"
  by (cases fs) (auto simp: owns_def)

lemma all_critical_depth:
  "\<forall>pc \<in> set fs. pc = R_crit \<Longrightarrow> depth_ok d fs \<longleftrightarrow> (fs = [] \<or> d = int (length fs))"
proof -
  assume a: "\<forall>pc \<in> set fs. pc = R_crit"
  then have "filter (\<lambda>pc. pc = R_crit \<or> pc = R_dec) fs = fs" by (simp add: filter_id_conv)
  then show ?thesis
    using a all_critical_owns [OF a] by (cases fs) (auto simp: depth_ok_def)
qed

lemma filter_critical: "\<forall>pc \<in> set fs. pc = R_crit \<Longrightarrow> filter (\<lambda>pc. pc = R_crit \<or> pc = R_dec) fs = fs"
  by (simp add: filter_id_conv)

text \<open>One access of an owner or of a core that competes for the lock.\<close>

lemma advance_inv:
  assumes i: "rl_inv n ids s" and c: "c < n" and inj: "inj_on ids {..<n}" and nz: "\<forall>c < n. ids c \<noteq> 0"
  shows "rl_inv n ids (advance (ids c) c s)"
proof (cases "frames s c")
  case Nil
  then show ?thesis using i by (simp add: advance_def)
next
  case (Cons pc fs)
  have crit: "\<forall>pc \<in> set fs. pc = R_crit" and dep: "depth_ok (m_depth s) (pc # fs)"
    and own: "owns (pc # fs) \<longleftrightarrow> m_owner s = ids c"
    using i c Cons unfolding rl_inv_def tail_critical_def by (metis list.sel(3))+
  note fc = filter_critical [OF crit] and ac = all_critical_owns [OF crit]
  have neq: "ids c \<noteq> ids e" if "e < n" "e \<noteq> c" for e
    using that c inj_onD [OF inj, of c e] by auto
  have other: "m_owner s \<noteq> ids e" if "m_owner s = ids c" "e < n" "e \<noteq> c" for e
    using that neq by simp
  have put: "rl_inv n ids (put_frames c gs (s\<lparr>m_owner := ow, m_depth := d\<rparr>))"
    if "tail_critical gs" "depth_ok d gs" "owns gs \<longleftrightarrow> ow = ids c"
      "\<And>e. e < n \<Longrightarrow> e \<noteq> c \<Longrightarrow> (m_owner s = ids e \<longleftrightarrow> ow = ids e)" "d \<noteq> m_depth s \<Longrightarrow> m_owner s = ids c" for gs ow d
    using rl_inv_put [OF i c that(1-4)] that(5) other by blast
  have own_simps: "owns (R_check # fs) = owns fs" "owns (R_bump # fs) = owns fs" "owns (R_cas # fs) = owns fs"
    "owns (R_set # gs)" "owns (R_crit # gs)" "owns (R_dec # gs)" "owns (R_release # gs)" for gs
    by (simp_all add: owns_def)
  have tc: "tail_critical (x # fs)" for x using crit by (simp add: tail_critical_def)
  have tcf: "tail_critical fs" using crit by (cases fs) (simp_all add: tail_critical_def)
  show ?thesis
  proof (cases pc)
    case R_check
    show ?thesis
    proof (cases "m_owner s = ids c")
      case True
      then have "fs \<noteq> []" using own R_check own_simps ac by simp
      then have "rl_inv n ids (put_frames c (R_bump # fs) (s\<lparr>m_owner := m_owner s, m_depth := m_depth s\<rparr>))"
        using dep own R_check by (intro put tc) (simp_all add: depth_ok_def own_simps)
      then have "rl_inv n ids (put_frames c (R_bump # fs) s)" by simp
      then show ?thesis using Cons R_check True by (simp add: advance_def)
    next
      case False
      then have "fs = []" using own R_check own_simps ac by simp
      then have "rl_inv n ids (put_frames c (R_cas # fs) (s\<lparr>m_owner := m_owner s, m_depth := m_depth s\<rparr>))"
        using dep own R_check by (intro put tc) (simp_all add: depth_ok_def own_simps owns_def)
      then show ?thesis using Cons R_check False by (simp add: advance_def)
    qed
  next
    case R_bump
    then have ne: "fs \<noteq> []" using dep by (simp add: depth_ok_def)
    then have o: "m_owner s = ids c" using own own_simps R_bump ac by simp
    have "m_depth s = int (length fs)"
      using dep ne ac R_bump fc by (simp add: depth_ok_def own_simps)
    then have "rl_inv n ids (put_frames c (R_crit # fs) (s\<lparr>m_owner := m_owner s, m_depth := m_depth s + 1\<rparr>))"
      using o fc by (intro put tc) (simp_all add: depth_ok_def own_simps)
    then show ?thesis using Cons R_bump by (simp add: advance_def)
  next
    case R_cas
    then have e: "fs = []" using dep by (simp add: depth_ok_def)
    show ?thesis
    proof (cases "m_owner s = 0")
      case True
      have "rl_inv n ids (put_frames c (R_set # fs) (s\<lparr>m_owner := ids c, m_depth := m_depth s\<rparr>))"
        using e True nz neq by (intro put tc) (simp_all add: depth_ok_def own_simps)
      then show ?thesis using Cons R_cas True by (simp add: advance_def)
    next
      case False
      then show ?thesis using Cons R_cas i by (simp add: advance_def)
    qed
  next
    case R_set
    then have e: "fs = []" using dep by (simp add: depth_ok_def)
    have o: "m_owner s = ids c" using own own_simps R_set by simp
    have "rl_inv n ids (put_frames c (R_crit # fs) (s\<lparr>m_owner := m_owner s, m_depth := 1\<rparr>))"
      using e o by (intro put tc) (simp_all add: depth_ok_def own_simps)
    then show ?thesis using Cons R_set by (simp add: advance_def)
  next
    case R_crit
    have o: "m_owner s = ids c" using own own_simps R_crit by simp
    have "rl_inv n ids (put_frames c (R_dec # fs) (s\<lparr>m_owner := m_owner s, m_depth := m_depth s\<rparr>))"
      using dep o R_crit by (intro put tc) (simp_all add: depth_ok_def own_simps)
    then show ?thesis using Cons R_crit by (simp add: advance_def)
  next
    case R_dec
    have o: "m_owner s = ids c" using own own_simps R_dec by simp
    have d: "m_depth s = int (length fs) + 1"
      using dep R_dec fc by (simp add: depth_ok_def own_simps)
    show ?thesis
    proof (cases "fs = []")
      case True
      have "rl_inv n ids (put_frames c (R_release # fs) (s\<lparr>m_owner := m_owner s, m_depth := 0\<rparr>))"
        using True o by (intro put tc) (simp_all add: depth_ok_def own_simps)
      then show ?thesis using Cons R_dec True d by (simp add: advance_def)
    next
      case False
      have "rl_inv n ids (put_frames c fs (s\<lparr>m_owner := m_owner s, m_depth := m_depth s - 1\<rparr>))"
        using False o d ac all_critical_depth [OF crit] by (intro put tcf) simp_all
      then show ?thesis using Cons R_dec False d by (simp add: advance_def)
    qed
  next
    case R_release
    have o: "m_owner s = ids c" using own own_simps R_release by simp
    have e: "fs = []" using dep R_release by (simp add: depth_ok_def)
    have "rl_inv n ids (put_frames c fs (s\<lparr>m_owner := 0, m_depth := m_depth s\<rparr>))"
      using e nz neq c o by (intro put tcf) (simp_all add: depth_ok_def owns_def)
    then show ?thesis using Cons R_release by (simp add: advance_def)
  qed
qed

lemma call_inv:
  assumes i: "rl_inv n ids s" and "recursive_use (frames s c)" and c: "c < n"
  shows "rl_inv n ids (call_lock c s)"
proof -
  let ?fs = "frames s c"
  have o: "owns ?fs \<longleftrightarrow> m_owner s = ids c" and t: "tail_critical ?fs" and d: "depth_ok (m_depth s) ?fs"
    using i c by (simp_all add: rl_inv_def)
  have crit: "\<forall>pc \<in> set ?fs. pc = R_crit"
    using t assms(2) by (cases ?fs) (auto simp: tail_critical_def recursive_use_def)
  have "owns (R_check # ?fs) = owns ?fs" by (simp add: owns_def)
  then have "rl_inv n ids (put_frames c (R_check # ?fs) (s\<lparr>m_owner := m_owner s, m_depth := m_depth s\<rparr>))"
    using d o crit filter_critical [OF crit] all_critical_owns [OF crit] all_critical_depth [OF crit]
    by (intro rl_inv_put [OF i c]) (auto simp: tail_critical_def depth_ok_def)
  then show ?thesis by (simp add: call_lock_def)
qed

lemma rl_step_inv:
  "rl_step n ids recursive_use s s' \<Longrightarrow> inj_on ids {..<n} \<Longrightarrow> \<forall>c < n. ids c \<noteq> 0 \<Longrightarrow> rl_inv n ids s \<Longrightarrow> rl_inv n ids s'"
  by (induction rule: rl_step.induct) (simp_all add: advance_inv call_inv)

section \<open>Properties\<close>

text \<open>
  A spin lock excludes: in every interleaving of \<open>lock\<close>, \<open>try_lock\<close> and \<open>unlock\<close> of any number
  of cores, at most one core is between \<open>lock\<close> and \<open>unlock\<close>, and the flag says whether one is.
\<close>

theorem spin_lock_excludes:
  assumes "sl_step\<^sup>*\<^sup>* \<lparr>m_flag = False, sl_pcs = (\<lambda>_. SL_outside)\<rparr> s"
  shows "(\<forall>c d. sl_pcs s c = SL_inside \<and> sl_pcs s d = SL_inside \<longrightarrow> c = d) \<and>
     (m_flag s \<longleftrightarrow> (\<exists>c. sl_pcs s c = SL_inside))"
proof -
  have "sl_inv s"
    using assms by (induction rule: rtranclp_induct) (simp_all add: sl_inv_def, use sl_step_inv in \<open>simp add: sl_inv_def\<close>)
  then show ?thesis by (simp add: sl_inv_def)
qed

theorem spin_lock_excludes_witness:
  "m_flag (sl_try 1 (sl_try 0 \<lparr>m_flag = False, sl_pcs = (\<lambda>_. SL_outside)\<rparr>))"
proof -
  let ?s = "\<lparr>m_flag = False, sl_pcs = (\<lambda>_. SL_outside)\<rparr>"
  have "sl_step ?s (sl_try 0 ?s)" by (rule sl_lock) simp
  moreover have "sl_step (sl_try 0 ?s) (sl_try 1 (sl_try 0 ?s))" by (rule sl_lock) (simp add: sl_try_def)
  ultimately have "sl_step\<^sup>*\<^sup>* ?s (sl_try 1 (sl_try 0 ?s))" by (simp add: converse_rtranclp_into_rtranclp)
  from spin_lock_excludes [OF this] show ?thesis
    by (auto simp: sl_try_def)
qed


text \<open>Runs of given accesses, for concrete schedules.\<close>

datatype rl_action = Advance nat | Call nat

fun rl_run :: "(nat \<Rightarrow> u32) \<Rightarrow> rl_action list \<Rightarrow> reentrant_lock \<Rightarrow> reentrant_lock" where
  "rl_run ids [] s = s"
| "rl_run ids (Advance c # as) s = rl_run ids as (advance (ids c) c s)"
| "rl_run ids (Call c # as) s = rl_run ids as (call_lock c s)"

fun run_allowed :: "nat \<Rightarrow> (nat \<Rightarrow> u32) \<Rightarrow> (rl_pc list \<Rightarrow> bool) \<Rightarrow> rl_action list \<Rightarrow> reentrant_lock \<Rightarrow> bool" where
  "run_allowed n ids may [] s \<longleftrightarrow> True"
| "run_allowed n ids may (Advance c # as) s \<longleftrightarrow> c < n \<and> run_allowed n ids may as (advance (ids c) c s)"
| "run_allowed n ids may (Call c # as) s \<longleftrightarrow> c < n \<and> may (frames s c) \<and> run_allowed n ids may as (call_lock c s)"

lemma rl_run_steps: "run_allowed n ids may as s \<Longrightarrow> (rl_step n ids may)\<^sup>*\<^sup>* s (rl_run ids as s)"
proof (induction n ids may as s rule: run_allowed.induct)
  case (2 n ids may c as s)
  then show ?case by (auto intro: converse_rtranclp_into_rtranclp rl_advance)
next
  case (3 n ids may c as s)
  then show ?case by (auto intro: converse_rtranclp_into_rtranclp rl_call)
qed simp

lemmas lock_run_simps = unlocked_def advance_def call_lock_def put_frames_def recursive_use_def
  interrupted_use_def in_critical_def

definition take_lock :: "nat \<Rightarrow> rl_action list" where
  "take_lock c = [Call c, Advance c, Advance c, Advance c]"


text \<open>
  The reentrant lock does not exclude when an interrupt takes it between the steps of \<open>lock\<close>:
  a non-maskable interrupt that logs while the core has won the compare-and-exchange but not yet
  stored the depth releases the lock when it is done, and the interrupted core enters its critical
  section beside another core. Neither does it exclude two cores whose owner tokens, taken from
  the 8-bit initial APIC id, agree.
\<close>

theorem reentrant_lock_not_interruptible:
  assumes "ids 0 \<noteq> 0" and "ids 1 \<noteq> 0"
  shows "if ids 0 = ids 1
    then \<exists>s. (rl_step 2 ids recursive_use)\<^sup>*\<^sup>* unlocked s \<and> in_critical s 0 \<and> in_critical s 1
    else \<exists>s. (rl_step 2 ids interrupted_use)\<^sup>*\<^sup>* unlocked s \<and> in_critical s 0 \<and> in_critical s 1"
proof (cases "ids 0 = ids 1")
  case True
  let ?as = "take_lock 0 @ [Call 1, Advance 1, Advance 1]"
  have "run_allowed 2 ids recursive_use ?as unlocked" "in_critical (rl_run ids ?as unlocked) 0"
    "in_critical (rl_run ids ?as unlocked) 1"
    using assms True by (simp_all add: take_lock_def lock_run_simps)
  then show ?thesis
    using True rl_run_steps by fastforce
next
  case False
  let ?nmi = "[Call 0, Advance 0, Advance 0, Advance 0, Advance 0, Advance 0]"
  let ?as = "[Call 0, Advance 0, Advance 0] @ ?nmi @ take_lock 1 @ [Advance 0]"
  have "run_allowed 2 ids interrupted_use ?as unlocked" "in_critical (rl_run ids ?as unlocked) 0"
    "in_critical (rl_run ids ?as unlocked) 1"
    using assms False by (simp_all add: take_lock_def lock_run_simps)
  then show ?thesis
    using False rl_run_steps by fastforce
qed

theorem reentrant_lock_not_interruptible_witness:
  "get_owner_id 0x05000000 \<noteq> get_owner_id 0x06000000 \<and>
   (\<exists>s. (rl_step 2 (\<lambda>c. if c = 0 then get_owner_id 0x05000000 else get_owner_id 0x06000000) interrupted_use)\<^sup>*\<^sup>* unlocked s \<and>
     in_critical s 0 \<and> in_critical s 1)"
  using reentrant_lock_not_interruptible [of "\<lambda>c. if c = 0 then get_owner_id 0x05000000 else get_owner_id 0x06000000"]
  by (simp add: get_owner_id_def drop_bit_eq_div)

end
