(* ===== verification/Machine.thy ===== *)
theory Machine
  imports Ept Paging
begin

text \<open>
  What the hypervisor sees of the processor. The numbers the processor manual fixes (encodings of
  VMCS fields, MSR numbers, exception vectors, exit reasons) carry the names the sources use. How
  registers and VMCS fields are cut into members is declared in the ia32 headers, a submodule that
  is not part of the repository: the positions of the members are the records of layouts, an
  argument of the whole model. \<open>machine\<close> collects them with the answers of the processor and of
  the kernel, \<open>hw\<close> is the state of one logical processor the sources change.
\<close>

section \<open>Members of registers\<close>

text \<open>A one-bit member is a bit number; a wider one is its lowest bit and its width.\<close>

definition flag :: "nat \<Rightarrow> u64 \<Rightarrow> bool" where
  "flag b w \<longleftrightarrow> bit w b"

definition put_flag :: "nat \<Rightarrow> bool \<Rightarrow> u64 \<Rightarrow> u64" where
  "put_flag b v w = (if v then set_bit_u64 w b else clear_bit_u64 w b)"

definition get_member :: "nat \<times> nat \<Rightarrow> u64 \<Rightarrow> u64" where
  "get_member s w = bit_field (fst s) (snd s) w"

definition put_member :: "nat \<times> nat \<Rightarrow> u64 \<Rightarrow> u64 \<Rightarrow> u64" where
  "put_member s v w = (w AND NOT (push_bit (fst s) (mask (snd s)))) OR push_bit (fst s) (take_bit (snd s) v)"

lemma flag_put_flag [simp]: "b < 64 \<Longrightarrow> flag c (put_flag b v w) \<longleftrightarrow> (if c = b then v else flag c w)"
  by (auto simp: flag_def put_flag_def set_bit_u64_bit clear_bit_u64_bit)

lemma flag_clear_flag [simp]: "flag c (put_flag b False w) \<longleftrightarrow> c \<noteq> b \<and> flag c w"
  by (auto simp: flag_def put_flag_def clear_bit_u64_bit)

lemma flag_0 [simp]: "\<not> flag b 0"
  by (simp add: flag_def)

lemma bit_put_member:
  "bit (put_member s v w) k \<longleftrightarrow>
     k < 64 \<and> (if fst s \<le> k \<and> k < fst s + snd s then bit v (k - fst s) else bit w k)"
  using bit_imp_le_length [of w k] bit_imp_le_length [of v "k - fst s"]
  by (auto simp: put_member_def bit_simps)

lemma get_put_member [simp]:
  assumes "fst s + snd s \<le> 64"
  shows "get_member s (put_member s v w) = take_bit (snd s) v"
proof (rule bit_eqI)
  fix k
  show "bit (get_member s (put_member s v w)) k = bit (take_bit (snd s) v) k"
    using assms
    by (auto simp: get_member_def bit_field_def bit_take_bit_iff bit_drop_bit_eq bit_put_member)
qed

lemma flag_put_member [simp]:
  "b < 64 \<Longrightarrow> b < fst s \<or> fst s + snd s \<le> b \<Longrightarrow> flag b (put_member s v w) = flag b w"
  by (auto simp: flag_def bit_put_member)

lemma get_member_put_flag [simp]:
  assumes "b < fst s \<or> fst s + snd s \<le> b" and "b < 64"
  shows "get_member s (put_flag b v w) = get_member s w"
proof (rule bit_eqI)
  fix k
  show "bit (get_member s (put_flag b v w)) k = bit (get_member s w) k"
    using assms
    by (auto simp: get_member_def bit_field_def bit_take_bit_iff bit_drop_bit_eq put_flag_def
        set_bit_u64_bit clear_bit_u64_bit)
qed

lemma get_member_put_member [simp]:
  assumes "fst s + snd s \<le> fst t \<or> fst t + snd t \<le> fst s"
  shows "get_member s (put_member t v w) = get_member s w"
proof (rule bit_eqI)
  fix k
  show "bit (get_member s (put_member t v w)) k = bit (get_member s w) k"
    using assms bit_imp_le_length [of w "fst s + k"]
    by (auto simp: get_member_def bit_field_def bit_take_bit_iff bit_drop_bit_eq bit_put_member)
qed

section \<open>Layouts\<close>

text \<open>
  Members used to deliver events: access rights of a segment, the interruption information of a
  VM entry, the interruptibility state, RFLAGS and the pending debug exceptions.
\<close>

record event_layout =
  ar_dpl :: "nat \<times> nat"
  ar_long_mode :: nat
  ii_vector :: "nat \<times> nat"
  ii_type :: "nat \<times> nat"
  ii_deliver_error_code :: nat
  ii_valid :: nat
  is_blocking_by_sti :: nat
  is_blocking_by_mov_ss :: nat
  rf_trap_flag :: nat
  pd_bs :: nat

text \<open>CR0 and CR4. Reserved members are given as masks.\<close>

record cr_layout =
  cr0_pe :: nat
  cr0_ts :: nat
  cr0_et :: nat
  cr0_wp :: nat
  cr0_nw :: nat
  cr0_cd :: nat
  cr0_pg :: nat
  cr0_reserved_ignored :: u64
  cr0_reserved_high :: u64
  cr4_pae :: nat
  cr4_la57 :: nat
  cr4_vmxe :: nat
  cr4_smxe :: nat
  cr4_pcide :: nat
  cr4_cet :: nat
  cr4_reserved :: u64

text \<open>The exit reason and the exit qualifications.\<close>

record exit_layout =
  er_basic :: "nat \<times> nat"
  er_vm_entry_failure :: nat
  mc_control_register :: "nat \<times> nat"
  mc_access_type :: "nat \<times> nat"
  mc_gpr :: "nat \<times> nat"
  mc_lmsw_source :: "nat \<times> nat"
  ev_execute :: nat
  ev_caused_by_translation :: nat

text \<open>The VMX capability registers and the control fields they constrain.\<close>

datatype pin_ctl = external_interrupt_exiting | nmi_exiting | virtual_nmi
  | activate_vmx_preemption_timer | process_posted_interrupts

datatype proc_ctl = use_tsc_offsetting | use_msr_bitmaps | activate_secondary_controls | nmi_window_exiting

datatype proc2_ctl = enable_ept | enable_rdtscp | enable_vpid | enable_invpcid | conceal_vmx_from_pt
  | enable_xsaves | enable_user_wait_pause

datatype exit_ctl = save_debug_controls | host_address_space_size | save_ia32_pat | load_ia32_pat
  | save_ia32_efer | load_ia32_efer | save_ia32_perf_global_ctl | load_ia32_perf_global_ctrl
  | exit_conceal_vmx_from_pt

datatype entry_ctl = load_debug_controls | ia32e_mode_guest | entry_load_ia32_efer | entry_load_ia32_pat
  | entry_load_ia32_perf_global_ctrl | entry_conceal_vmx_from_pt

record ctl_layout =
  pin_bit :: "pin_ctl \<Rightarrow> nat"
  proc_bit :: "proc_ctl \<Rightarrow> nat"
  proc2_bit :: "proc2_ctl \<Rightarrow> nat"
  exit_bit :: "exit_ctl \<Rightarrow> nat"
  entry_bit :: "entry_ctl \<Rightarrow> nat"
  basic_revision_id :: "nat \<times> nat"
  basic_vmx_controls :: nat
  misc_tsc_relationship :: "nat \<times> nat"
  ctls_allowed_0 :: "nat \<times> nat"
  ctls_allowed_1 :: "nat \<times> nat"
  eptp_memory_type :: "nat \<times> nat"
  eptp_walk_length :: "nat \<times> nat"
  eptp_pfn :: "nat \<times> nat"

text \<open>Feature bits: CPUID leaf 1 (ECX), \<open>IA32_FEATURE_CONTROL\<close> and \<open>IA32_APIC_BASE\<close>.\<close>

record feature_layout =
  cpuid_vmx :: nat
  cpuid_smx :: nat
  cpuid_x2apic :: nat
  fc_lock :: nat
  fc_vmx_outside_smx :: nat
  apic_x2apic :: nat
  apic_base :: "nat \<times> nat"

section \<open>Numbers of the processor manual\<close>

subsection \<open>Encodings of VMCS fields\<close>

abbreviation (input) VMCS_CTRL_VIRTUAL_PROCESSOR_IDENTIFIER :: nat where "VMCS_CTRL_VIRTUAL_PROCESSOR_IDENTIFIER \<equiv> 0x0000"
abbreviation (input) VMCS_GUEST_ES_SELECTOR :: nat where "VMCS_GUEST_ES_SELECTOR \<equiv> 0x0800"
abbreviation (input) VMCS_GUEST_CS_SELECTOR :: nat where "VMCS_GUEST_CS_SELECTOR \<equiv> 0x0802"
abbreviation (input) VMCS_GUEST_SS_SELECTOR :: nat where "VMCS_GUEST_SS_SELECTOR \<equiv> 0x0804"
abbreviation (input) VMCS_GUEST_DS_SELECTOR :: nat where "VMCS_GUEST_DS_SELECTOR \<equiv> 0x0806"
abbreviation (input) VMCS_GUEST_FS_SELECTOR :: nat where "VMCS_GUEST_FS_SELECTOR \<equiv> 0x0808"
abbreviation (input) VMCS_GUEST_GS_SELECTOR :: nat where "VMCS_GUEST_GS_SELECTOR \<equiv> 0x080A"
abbreviation (input) VMCS_GUEST_LDTR_SELECTOR :: nat where "VMCS_GUEST_LDTR_SELECTOR \<equiv> 0x080C"
abbreviation (input) VMCS_GUEST_TR_SELECTOR :: nat where "VMCS_GUEST_TR_SELECTOR \<equiv> 0x080E"
abbreviation (input) VMCS_HOST_ES_SELECTOR :: nat where "VMCS_HOST_ES_SELECTOR \<equiv> 0x0C00"
abbreviation (input) VMCS_HOST_CS_SELECTOR :: nat where "VMCS_HOST_CS_SELECTOR \<equiv> 0x0C02"
abbreviation (input) VMCS_HOST_SS_SELECTOR :: nat where "VMCS_HOST_SS_SELECTOR \<equiv> 0x0C04"
abbreviation (input) VMCS_HOST_DS_SELECTOR :: nat where "VMCS_HOST_DS_SELECTOR \<equiv> 0x0C06"
abbreviation (input) VMCS_HOST_FS_SELECTOR :: nat where "VMCS_HOST_FS_SELECTOR \<equiv> 0x0C08"
abbreviation (input) VMCS_HOST_GS_SELECTOR :: nat where "VMCS_HOST_GS_SELECTOR \<equiv> 0x0C0A"
abbreviation (input) VMCS_HOST_TR_SELECTOR :: nat where "VMCS_HOST_TR_SELECTOR \<equiv> 0x0C0C"
abbreviation (input) VMCS_CTRL_MSR_BITMAP_ADDRESS :: nat where "VMCS_CTRL_MSR_BITMAP_ADDRESS \<equiv> 0x2004"
abbreviation (input) VMCS_CTRL_VMEXIT_MSR_STORE_ADDRESS :: nat where "VMCS_CTRL_VMEXIT_MSR_STORE_ADDRESS \<equiv> 0x2006"
abbreviation (input) VMCS_CTRL_VMEXIT_MSR_LOAD_ADDRESS :: nat where "VMCS_CTRL_VMEXIT_MSR_LOAD_ADDRESS \<equiv> 0x2008"
abbreviation (input) VMCS_CTRL_VMENTRY_MSR_LOAD_ADDRESS :: nat where "VMCS_CTRL_VMENTRY_MSR_LOAD_ADDRESS \<equiv> 0x200A"
abbreviation (input) VMCS_CTRL_TSC_OFFSET :: nat where "VMCS_CTRL_TSC_OFFSET \<equiv> 0x2010"
abbreviation (input) VMCS_CTRL_EPT_POINTER :: nat where "VMCS_CTRL_EPT_POINTER \<equiv> 0x201A"
abbreviation (input) VMCS_CTRL_XSS_EXITING_BITMAP :: nat where "VMCS_CTRL_XSS_EXITING_BITMAP \<equiv> 0x202C"
abbreviation (input) VMCS_GUEST_PHYSICAL_ADDRESS :: nat where "VMCS_GUEST_PHYSICAL_ADDRESS \<equiv> 0x2400"
abbreviation (input) VMCS_GUEST_VMCS_LINK_POINTER :: nat where "VMCS_GUEST_VMCS_LINK_POINTER \<equiv> 0x2800"
abbreviation (input) VMCS_GUEST_DEBUGCTL :: nat where "VMCS_GUEST_DEBUGCTL \<equiv> 0x2802"
abbreviation (input) VMCS_GUEST_PAT :: nat where "VMCS_GUEST_PAT \<equiv> 0x2804"
abbreviation (input) VMCS_GUEST_EFER :: nat where "VMCS_GUEST_EFER \<equiv> 0x2806"
abbreviation (input) VMCS_GUEST_PERF_GLOBAL_CTRL :: nat where "VMCS_GUEST_PERF_GLOBAL_CTRL \<equiv> 0x2808"
abbreviation (input) VMCS_HOST_PAT :: nat where "VMCS_HOST_PAT \<equiv> 0x2C00"
abbreviation (input) VMCS_HOST_EFER :: nat where "VMCS_HOST_EFER \<equiv> 0x2C02"
abbreviation (input) VMCS_HOST_PERF_GLOBAL_CTRL :: nat where "VMCS_HOST_PERF_GLOBAL_CTRL \<equiv> 0x2C04"
abbreviation (input) VMCS_CTRL_PIN_BASED_VM_EXECUTION_CONTROLS :: nat where "VMCS_CTRL_PIN_BASED_VM_EXECUTION_CONTROLS \<equiv> 0x4000"
abbreviation (input) VMCS_CTRL_PROCESSOR_BASED_VM_EXECUTION_CONTROLS :: nat where "VMCS_CTRL_PROCESSOR_BASED_VM_EXECUTION_CONTROLS \<equiv> 0x4002"
abbreviation (input) VMCS_CTRL_EXCEPTION_BITMAP :: nat where "VMCS_CTRL_EXCEPTION_BITMAP \<equiv> 0x4004"
abbreviation (input) VMCS_CTRL_PAGEFAULT_ERROR_CODE_MASK :: nat where "VMCS_CTRL_PAGEFAULT_ERROR_CODE_MASK \<equiv> 0x4006"
abbreviation (input) VMCS_CTRL_PAGEFAULT_ERROR_CODE_MATCH :: nat where "VMCS_CTRL_PAGEFAULT_ERROR_CODE_MATCH \<equiv> 0x4008"
abbreviation (input) VMCS_CTRL_CR3_TARGET_COUNT :: nat where "VMCS_CTRL_CR3_TARGET_COUNT \<equiv> 0x400A"
abbreviation (input) VMCS_CTRL_PRIMARY_VMEXIT_CONTROLS :: nat where "VMCS_CTRL_PRIMARY_VMEXIT_CONTROLS \<equiv> 0x400C"
abbreviation (input) VMCS_CTRL_VMEXIT_MSR_STORE_COUNT :: nat where "VMCS_CTRL_VMEXIT_MSR_STORE_COUNT \<equiv> 0x400E"
abbreviation (input) VMCS_CTRL_VMEXIT_MSR_LOAD_COUNT :: nat where "VMCS_CTRL_VMEXIT_MSR_LOAD_COUNT \<equiv> 0x4010"
abbreviation (input) VMCS_CTRL_VMENTRY_CONTROLS :: nat where "VMCS_CTRL_VMENTRY_CONTROLS \<equiv> 0x4012"
abbreviation (input) VMCS_CTRL_VMENTRY_MSR_LOAD_COUNT :: nat where "VMCS_CTRL_VMENTRY_MSR_LOAD_COUNT \<equiv> 0x4014"
abbreviation (input) VMCS_CTRL_VMENTRY_INTERRUPTION_INFORMATION_FIELD :: nat where "VMCS_CTRL_VMENTRY_INTERRUPTION_INFORMATION_FIELD \<equiv> 0x4016"
abbreviation (input) VMCS_CTRL_VMENTRY_EXCEPTION_ERROR_CODE :: nat where "VMCS_CTRL_VMENTRY_EXCEPTION_ERROR_CODE \<equiv> 0x4018"
abbreviation (input) VMCS_CTRL_VMENTRY_INSTRUCTION_LENGTH :: nat where "VMCS_CTRL_VMENTRY_INSTRUCTION_LENGTH \<equiv> 0x401A"
abbreviation (input) VMCS_CTRL_SECONDARY_PROCESSOR_BASED_VM_EXECUTION_CONTROLS :: nat where "VMCS_CTRL_SECONDARY_PROCESSOR_BASED_VM_EXECUTION_CONTROLS \<equiv> 0x401E"
abbreviation (input) VMCS_VM_INSTRUCTION_ERROR :: nat where "VMCS_VM_INSTRUCTION_ERROR \<equiv> 0x4400"
abbreviation (input) VMCS_EXIT_REASON :: nat where "VMCS_EXIT_REASON \<equiv> 0x4402"
abbreviation (input) VMCS_VMEXIT_INSTRUCTION_LENGTH :: nat where "VMCS_VMEXIT_INSTRUCTION_LENGTH \<equiv> 0x440C"
abbreviation (input) VMCS_GUEST_ES_LIMIT :: nat where "VMCS_GUEST_ES_LIMIT \<equiv> 0x4800"
abbreviation (input) VMCS_GUEST_CS_LIMIT :: nat where "VMCS_GUEST_CS_LIMIT \<equiv> 0x4802"
abbreviation (input) VMCS_GUEST_SS_LIMIT :: nat where "VMCS_GUEST_SS_LIMIT \<equiv> 0x4804"
abbreviation (input) VMCS_GUEST_DS_LIMIT :: nat where "VMCS_GUEST_DS_LIMIT \<equiv> 0x4806"
abbreviation (input) VMCS_GUEST_FS_LIMIT :: nat where "VMCS_GUEST_FS_LIMIT \<equiv> 0x4808"
abbreviation (input) VMCS_GUEST_GS_LIMIT :: nat where "VMCS_GUEST_GS_LIMIT \<equiv> 0x480A"
abbreviation (input) VMCS_GUEST_LDTR_LIMIT :: nat where "VMCS_GUEST_LDTR_LIMIT \<equiv> 0x480C"
abbreviation (input) VMCS_GUEST_TR_LIMIT :: nat where "VMCS_GUEST_TR_LIMIT \<equiv> 0x480E"
abbreviation (input) VMCS_GUEST_GDTR_LIMIT :: nat where "VMCS_GUEST_GDTR_LIMIT \<equiv> 0x4810"
abbreviation (input) VMCS_GUEST_IDTR_LIMIT :: nat where "VMCS_GUEST_IDTR_LIMIT \<equiv> 0x4812"
abbreviation (input) VMCS_GUEST_ES_ACCESS_RIGHTS :: nat where "VMCS_GUEST_ES_ACCESS_RIGHTS \<equiv> 0x4814"
abbreviation (input) VMCS_GUEST_CS_ACCESS_RIGHTS :: nat where "VMCS_GUEST_CS_ACCESS_RIGHTS \<equiv> 0x4816"
abbreviation (input) VMCS_GUEST_SS_ACCESS_RIGHTS :: nat where "VMCS_GUEST_SS_ACCESS_RIGHTS \<equiv> 0x4818"
abbreviation (input) VMCS_GUEST_DS_ACCESS_RIGHTS :: nat where "VMCS_GUEST_DS_ACCESS_RIGHTS \<equiv> 0x481A"
abbreviation (input) VMCS_GUEST_FS_ACCESS_RIGHTS :: nat where "VMCS_GUEST_FS_ACCESS_RIGHTS \<equiv> 0x481C"
abbreviation (input) VMCS_GUEST_GS_ACCESS_RIGHTS :: nat where "VMCS_GUEST_GS_ACCESS_RIGHTS \<equiv> 0x481E"
abbreviation (input) VMCS_GUEST_LDTR_ACCESS_RIGHTS :: nat where "VMCS_GUEST_LDTR_ACCESS_RIGHTS \<equiv> 0x4820"
abbreviation (input) VMCS_GUEST_TR_ACCESS_RIGHTS :: nat where "VMCS_GUEST_TR_ACCESS_RIGHTS \<equiv> 0x4822"
abbreviation (input) VMCS_GUEST_INTERRUPTIBILITY_STATE :: nat where "VMCS_GUEST_INTERRUPTIBILITY_STATE \<equiv> 0x4824"
abbreviation (input) VMCS_GUEST_ACTIVITY_STATE :: nat where "VMCS_GUEST_ACTIVITY_STATE \<equiv> 0x4826"
abbreviation (input) VMCS_GUEST_SYSENTER_CS :: nat where "VMCS_GUEST_SYSENTER_CS \<equiv> 0x482A"
abbreviation (input) VMCS_GUEST_VMX_PREEMPTION_TIMER_VALUE :: nat where "VMCS_GUEST_VMX_PREEMPTION_TIMER_VALUE \<equiv> 0x482E"
abbreviation (input) VMCS_HOST_SYSENTER_CS :: nat where "VMCS_HOST_SYSENTER_CS \<equiv> 0x4C00"
abbreviation (input) VMCS_CTRL_CR0_GUEST_HOST_MASK :: nat where "VMCS_CTRL_CR0_GUEST_HOST_MASK \<equiv> 0x6000"
abbreviation (input) VMCS_CTRL_CR4_GUEST_HOST_MASK :: nat where "VMCS_CTRL_CR4_GUEST_HOST_MASK \<equiv> 0x6002"
abbreviation (input) VMCS_CTRL_CR0_READ_SHADOW :: nat where "VMCS_CTRL_CR0_READ_SHADOW \<equiv> 0x6004"
abbreviation (input) VMCS_CTRL_CR4_READ_SHADOW :: nat where "VMCS_CTRL_CR4_READ_SHADOW \<equiv> 0x6006"
abbreviation (input) VMCS_CTRL_CR3_TARGET_VALUE_0 :: nat where "VMCS_CTRL_CR3_TARGET_VALUE_0 \<equiv> 0x6008"
abbreviation (input) VMCS_EXIT_QUALIFICATION :: nat where "VMCS_EXIT_QUALIFICATION \<equiv> 0x6400"
abbreviation (input) VMCS_EXIT_GUEST_LINEAR_ADDRESS :: nat where "VMCS_EXIT_GUEST_LINEAR_ADDRESS \<equiv> 0x640A"
abbreviation (input) VMCS_GUEST_CR0 :: nat where "VMCS_GUEST_CR0 \<equiv> 0x6800"
abbreviation (input) VMCS_GUEST_CR3 :: nat where "VMCS_GUEST_CR3 \<equiv> 0x6802"
abbreviation (input) VMCS_GUEST_CR4 :: nat where "VMCS_GUEST_CR4 \<equiv> 0x6804"
abbreviation (input) VMCS_GUEST_ES_BASE :: nat where "VMCS_GUEST_ES_BASE \<equiv> 0x6806"
abbreviation (input) VMCS_GUEST_CS_BASE :: nat where "VMCS_GUEST_CS_BASE \<equiv> 0x6808"
abbreviation (input) VMCS_GUEST_SS_BASE :: nat where "VMCS_GUEST_SS_BASE \<equiv> 0x680A"
abbreviation (input) VMCS_GUEST_DS_BASE :: nat where "VMCS_GUEST_DS_BASE \<equiv> 0x680C"
abbreviation (input) VMCS_GUEST_FS_BASE :: nat where "VMCS_GUEST_FS_BASE \<equiv> 0x680E"
abbreviation (input) VMCS_GUEST_GS_BASE :: nat where "VMCS_GUEST_GS_BASE \<equiv> 0x6810"
abbreviation (input) VMCS_GUEST_LDTR_BASE :: nat where "VMCS_GUEST_LDTR_BASE \<equiv> 0x6812"
abbreviation (input) VMCS_GUEST_TR_BASE :: nat where "VMCS_GUEST_TR_BASE \<equiv> 0x6814"
abbreviation (input) VMCS_GUEST_GDTR_BASE :: nat where "VMCS_GUEST_GDTR_BASE \<equiv> 0x6816"
abbreviation (input) VMCS_GUEST_IDTR_BASE :: nat where "VMCS_GUEST_IDTR_BASE \<equiv> 0x6818"
abbreviation (input) VMCS_GUEST_DR7 :: nat where "VMCS_GUEST_DR7 \<equiv> 0x681A"
abbreviation (input) VMCS_GUEST_RSP :: nat where "VMCS_GUEST_RSP \<equiv> 0x681C"
abbreviation (input) VMCS_GUEST_RIP :: nat where "VMCS_GUEST_RIP \<equiv> 0x681E"
abbreviation (input) VMCS_GUEST_RFLAGS :: nat where "VMCS_GUEST_RFLAGS \<equiv> 0x6820"
abbreviation (input) VMCS_GUEST_PENDING_DEBUG_EXCEPTIONS :: nat where "VMCS_GUEST_PENDING_DEBUG_EXCEPTIONS \<equiv> 0x6822"
abbreviation (input) VMCS_GUEST_SYSENTER_ESP :: nat where "VMCS_GUEST_SYSENTER_ESP \<equiv> 0x6824"
abbreviation (input) VMCS_GUEST_SYSENTER_EIP :: nat where "VMCS_GUEST_SYSENTER_EIP \<equiv> 0x6826"
abbreviation (input) VMCS_HOST_CR0 :: nat where "VMCS_HOST_CR0 \<equiv> 0x6C00"
abbreviation (input) VMCS_HOST_CR3 :: nat where "VMCS_HOST_CR3 \<equiv> 0x6C02"
abbreviation (input) VMCS_HOST_CR4 :: nat where "VMCS_HOST_CR4 \<equiv> 0x6C04"
abbreviation (input) VMCS_HOST_FS_BASE :: nat where "VMCS_HOST_FS_BASE \<equiv> 0x6C06"
abbreviation (input) VMCS_HOST_GS_BASE :: nat where "VMCS_HOST_GS_BASE \<equiv> 0x6C08"
abbreviation (input) VMCS_HOST_TR_BASE :: nat where "VMCS_HOST_TR_BASE \<equiv> 0x6C0A"
abbreviation (input) VMCS_HOST_GDTR_BASE :: nat where "VMCS_HOST_GDTR_BASE \<equiv> 0x6C0C"
abbreviation (input) VMCS_HOST_IDTR_BASE :: nat where "VMCS_HOST_IDTR_BASE \<equiv> 0x6C0E"
abbreviation (input) VMCS_HOST_SYSENTER_ESP :: nat where "VMCS_HOST_SYSENTER_ESP \<equiv> 0x6C10"
abbreviation (input) VMCS_HOST_SYSENTER_EIP :: nat where "VMCS_HOST_SYSENTER_EIP \<equiv> 0x6C12"
abbreviation (input) VMCS_HOST_RSP :: nat where "VMCS_HOST_RSP \<equiv> 0x6C14"
abbreviation (input) VMCS_HOST_RIP :: nat where "VMCS_HOST_RIP \<equiv> 0x6C16"

text \<open>
  The width of a field, from bits 14:13 of its encoding: a VMWRITE to a 16-bit or 32-bit field
  stores the low bits of its operand, a VMREAD returns them zero-extended.
\<close>

definition vmcs_width :: "nat \<Rightarrow> nat" where
  "vmcs_width f = (case f div 8192 mod 4 of 0 \<Rightarrow> 16 | Suc 0 \<Rightarrow> 64 | Suc (Suc 0) \<Rightarrow> 32 | _ \<Rightarrow> 64)"

subsection \<open>Model specific registers\<close>

abbreviation (input) IA32_TIME_STAMP_COUNTER :: u32 where "IA32_TIME_STAMP_COUNTER \<equiv> 0x10"
abbreviation (input) IA32_APIC_BASE :: u32 where "IA32_APIC_BASE \<equiv> 0x1B"
abbreviation (input) IA32_FEATURE_CONTROL :: u32 where "IA32_FEATURE_CONTROL \<equiv> 0x3A"
abbreviation (input) IA32_MPERF :: u32 where "IA32_MPERF \<equiv> 0xE7"
abbreviation (input) IA32_APERF :: u32 where "IA32_APERF \<equiv> 0xE8"
abbreviation (input) IA32_SYSENTER_CS :: u32 where "IA32_SYSENTER_CS \<equiv> 0x174"
abbreviation (input) IA32_SYSENTER_ESP :: u32 where "IA32_SYSENTER_ESP \<equiv> 0x175"
abbreviation (input) IA32_SYSENTER_EIP :: u32 where "IA32_SYSENTER_EIP \<equiv> 0x176"
abbreviation (input) IA32_DEBUGCTL :: u32 where "IA32_DEBUGCTL \<equiv> 0x1D9"
abbreviation (input) IA32_PAT :: u32 where "IA32_PAT \<equiv> 0x277"
abbreviation (input) IA32_PERF_GLOBAL_CTRL :: u32 where "IA32_PERF_GLOBAL_CTRL \<equiv> 0x38F"
abbreviation (input) IA32_VMX_BASIC :: u32 where "IA32_VMX_BASIC \<equiv> 0x480"
abbreviation (input) IA32_VMX_PINBASED_CTLS :: u32 where "IA32_VMX_PINBASED_CTLS \<equiv> 0x481"
abbreviation (input) IA32_VMX_PROCBASED_CTLS :: u32 where "IA32_VMX_PROCBASED_CTLS \<equiv> 0x482"
abbreviation (input) IA32_VMX_EXIT_CTLS :: u32 where "IA32_VMX_EXIT_CTLS \<equiv> 0x483"
abbreviation (input) IA32_VMX_ENTRY_CTLS :: u32 where "IA32_VMX_ENTRY_CTLS \<equiv> 0x484"
abbreviation (input) IA32_VMX_MISC :: u32 where "IA32_VMX_MISC \<equiv> 0x485"
abbreviation (input) IA32_VMX_CR0_FIXED0 :: u32 where "IA32_VMX_CR0_FIXED0 \<equiv> 0x486"
abbreviation (input) IA32_VMX_CR0_FIXED1 :: u32 where "IA32_VMX_CR0_FIXED1 \<equiv> 0x487"
abbreviation (input) IA32_VMX_CR4_FIXED0 :: u32 where "IA32_VMX_CR4_FIXED0 \<equiv> 0x488"
abbreviation (input) IA32_VMX_CR4_FIXED1 :: u32 where "IA32_VMX_CR4_FIXED1 \<equiv> 0x489"
abbreviation (input) IA32_VMX_PROCBASED_CTLS2 :: u32 where "IA32_VMX_PROCBASED_CTLS2 \<equiv> 0x48B"
abbreviation (input) IA32_VMX_TRUE_PINBASED_CTLS :: u32 where "IA32_VMX_TRUE_PINBASED_CTLS \<equiv> 0x48D"
abbreviation (input) IA32_VMX_TRUE_PROCBASED_CTLS :: u32 where "IA32_VMX_TRUE_PROCBASED_CTLS \<equiv> 0x48E"
abbreviation (input) IA32_VMX_TRUE_EXIT_CTLS :: u32 where "IA32_VMX_TRUE_EXIT_CTLS \<equiv> 0x48F"
abbreviation (input) IA32_VMX_TRUE_ENTRY_CTLS :: u32 where "IA32_VMX_TRUE_ENTRY_CTLS \<equiv> 0x490"
abbreviation (input) IA32_X2APIC_ICR :: u32 where "IA32_X2APIC_ICR \<equiv> 0x830"
abbreviation (input) IA32_EFER :: u32 where "IA32_EFER \<equiv> 0xC0000080"
abbreviation (input) IA32_FS_BASE :: u32 where "IA32_FS_BASE \<equiv> 0xC0000100"
abbreviation (input) IA32_GS_BASE :: u32 where "IA32_GS_BASE \<equiv> 0xC0000101"
abbreviation (input) IA32_KERNEL_GS_BASE :: u32 where "IA32_KERNEL_GS_BASE \<equiv> 0xC0000102"

subsection \<open>Exception vectors and interruption types\<close>

abbreviation (input) invalid_opcode :: u16 where "invalid_opcode \<equiv> 6"
abbreviation (input) general_protection :: u16 where "general_protection \<equiv> 13"
abbreviation (input) nmi :: u16 where "nmi \<equiv> 2"
abbreviation (input) hardware_exception :: u64 where "hardware_exception \<equiv> 3"
abbreviation (input) non_maskable_interrupt :: u64 where "non_maskable_interrupt \<equiv> 2"

abbreviation (input) MAXULONG :: u64 where "MAXULONG \<equiv> 0xFFFFFFFF"
abbreviation (input) MAXULONG_PTR :: u64 where "MAXULONG_PTR \<equiv> 0xFFFFFFFFFFFFFFFF"

section \<open>The processor\<close>

datatype invept_type = invept_single_context | invept_all_context

text \<open>
  The state of a logical processor: the current VMCS, its model specific registers, extended
  control registers, how often the time stamp counter was read, the INVEPT instructions executed so
  far, latest first, and the registers of the host: control registers, DR7, RFLAGS, segment
  selectors, the base and limit of its descriptor tables, and whether it is in VMX operation.
\<close>

datatype segment = seg_cs | seg_ss | seg_ds | seg_es | seg_fs | seg_gs | seg_ldtr | seg_tr

record hw =
  vmcs :: "nat \<Rightarrow> u64"
  msrs :: "u32 \<Rightarrow> u64"
  xcrs :: "u32 \<Rightarrow> u64"
  tsc_reads :: nat
  invepts :: "(invept_type \<times> u64) list"
  h_cr0 :: u64
  h_cr3 :: u64
  h_cr4 :: u64
  h_dr7 :: u64
  h_rflags :: u64
  h_selector :: "segment \<Rightarrow> u16"
  h_gdtr :: "u64 \<times> u16"
  h_idtr :: "u64 \<times> u16"
  h_in_vmx :: bool

text \<open>The instructions that \<open>exception_wrappers.asm\<close> executes where they may fault.\<close>

datatype wrapped = W_rdmsr u32 | W_wrmsr u32 u64 | W_invd | W_xsetbv u32 u64

text \<open>
  The rest of the machine: layouts, the VMCS fields the processor supports, the fault of a wrapped
  instruction (vector and error code), the addresses of that instruction and of the end of its
  wrapper, CPUID, the value of the n-th read of the time stamp counter, the layouts of the memory type
  registers and of paging structures, the frames of the two sets of extended page tables, and
  the addresses of a handler's local variable, of the scratch buffer and of the logger's ring.
\<close>

record machine =
  evl :: event_layout
  crl :: cr_layout
  exl :: exit_layout
  ctl :: ctl_layout
  ftl :: feature_layout
  supported :: "nat \<Rightarrow> bool"
  instruction_fault :: "hw \<Rightarrow> wrapped \<Rightarrow> (u64 \<times> u64) option"
  code_addr :: "wrapped \<Rightarrow> u64 \<times> u64"
  cpuid_regs :: "u32 \<Rightarrow> u32 \<Rightarrow> u32 \<times> u32 \<times> u32 \<times> u32"
  tsc_value :: "nat \<Rightarrow> u64"
  mtrrl :: mtrr_layout
  ptl :: pt_layout
  ph_normal :: ept_phys
  ph_target :: ept_phys
  stack_addr :: u64
  local_buffer :: u64
  logger_base :: u64

definition rdtsc :: "machine \<Rightarrow> hw \<Rightarrow> u64 \<times> hw" where
  "rdtsc M h = (tsc_value M (tsc_reads h), h\<lparr>tsc_reads := Suc (tsc_reads h)\<rparr>)"

text \<open>The features in ECX of CPUID leaf 1.\<close>

definition cpuid_1_ecx :: "machine \<Rightarrow> u64" where
  "cpuid_1_ecx M = (case cpuid_regs M 1 0 of (a, b, c, d) \<Rightarrow> ucast c)"

section \<open>An example\<close>

text \<open>The layouts of the processor manual; a processor without faults.\<close>

definition sdm_event_layout :: event_layout where
  "sdm_event_layout = \<lparr>ar_dpl = (5, 2), ar_long_mode = 13, ii_vector = (0, 8), ii_type = (8, 3),
     ii_deliver_error_code = 11, ii_valid = 31, is_blocking_by_sti = 0, is_blocking_by_mov_ss = 1,
     rf_trap_flag = 8, pd_bs = 14\<rparr>"

definition sdm_cr_layout :: cr_layout where
  "sdm_cr_layout = \<lparr>cr0_pe = 0, cr0_ts = 3, cr0_et = 4, cr0_wp = 16, cr0_nw = 29, cr0_cd = 30, cr0_pg = 31,
     cr0_reserved_ignored = 0x1FFAFFC0, cr0_reserved_high = 0xFFFFFFFF00000000,
     cr4_pae = 5, cr4_la57 = 12, cr4_vmxe = 13, cr4_smxe = 14, cr4_pcide = 17, cr4_cet = 23,
     cr4_reserved = 0xFFFFFFFFFE088000\<rparr>"

definition sdm_exit_layout :: exit_layout where
  "sdm_exit_layout = \<lparr>er_basic = (0, 16), er_vm_entry_failure = 31, mc_control_register = (0, 4),
     mc_access_type = (4, 2), mc_gpr = (8, 4), mc_lmsw_source = (16, 16), ev_execute = 2,
     ev_caused_by_translation = 8\<rparr>"

definition sdm_ctl_layout :: ctl_layout where
  "sdm_ctl_layout = \<lparr>
     pin_bit = (\<lambda>c. case c of external_interrupt_exiting \<Rightarrow> 0 | nmi_exiting \<Rightarrow> 3 | virtual_nmi \<Rightarrow> 5
       | activate_vmx_preemption_timer \<Rightarrow> 6 | process_posted_interrupts \<Rightarrow> 7),
     proc_bit = (\<lambda>c. case c of use_tsc_offsetting \<Rightarrow> 3 | nmi_window_exiting \<Rightarrow> 22 | use_msr_bitmaps \<Rightarrow> 28
       | activate_secondary_controls \<Rightarrow> 31),
     proc2_bit = (\<lambda>c. case c of enable_ept \<Rightarrow> 1 | enable_rdtscp \<Rightarrow> 3 | enable_vpid \<Rightarrow> 5 | enable_invpcid \<Rightarrow> 12
       | conceal_vmx_from_pt \<Rightarrow> 19 | enable_xsaves \<Rightarrow> 20 | enable_user_wait_pause \<Rightarrow> 26),
     exit_bit = (\<lambda>c. case c of save_debug_controls \<Rightarrow> 2 | host_address_space_size \<Rightarrow> 9
       | load_ia32_perf_global_ctrl \<Rightarrow> 12 | save_ia32_pat \<Rightarrow> 18 | load_ia32_pat \<Rightarrow> 19 | save_ia32_efer \<Rightarrow> 20
       | load_ia32_efer \<Rightarrow> 21 | exit_conceal_vmx_from_pt \<Rightarrow> 24 | save_ia32_perf_global_ctl \<Rightarrow> 30),
     entry_bit = (\<lambda>c. case c of load_debug_controls \<Rightarrow> 2 | ia32e_mode_guest \<Rightarrow> 9
       | entry_load_ia32_perf_global_ctrl \<Rightarrow> 13 | entry_load_ia32_pat \<Rightarrow> 14 | entry_load_ia32_efer \<Rightarrow> 15
       | entry_conceal_vmx_from_pt \<Rightarrow> 17),
     basic_revision_id = (0, 31), basic_vmx_controls = 55, misc_tsc_relationship = (0, 5),
     ctls_allowed_0 = (0, 32), ctls_allowed_1 = (32, 32),
     eptp_memory_type = (0, 3), eptp_walk_length = (3, 3), eptp_pfn = (12, 36)\<rparr>"

definition sdm_feature_layout :: feature_layout where
  "sdm_feature_layout = \<lparr>cpuid_vmx = 5, cpuid_smx = 6, cpuid_x2apic = 21, fc_lock = 0, fc_vmx_outside_smx = 2,
     apic_x2apic = 10, apic_base = (12, 36)\<rparr>"

definition sdm_machine :: machine where
  "sdm_machine = \<lparr>evl = sdm_event_layout, crl = sdm_cr_layout, exl = sdm_exit_layout, ctl = sdm_ctl_layout,
     ftl = sdm_feature_layout, supported = (\<lambda>_. True), instruction_fault = (\<lambda>_ _. None), code_addr = (\<lambda>_. (0x1000, 0x1010)),
     cpuid_regs = (\<lambda>_ _. (0x16, 0x756E6547, 0x6C65746E, 0x49656E69)), tsc_value = (\<lambda>n. of_nat n * 100),
     mtrrl = \<lparr>lay_variable_range_count = (\<lambda>w. ucast w), lay_fixed_range_supported = (\<lambda>w. bit w 8),
       lay_mtrr_enable = (\<lambda>w. bit w 11), lay_fixed_enable = (\<lambda>w. bit w 10), lay_default_type = (\<lambda>w. ucast w AND 7),
       lay_physbase_pfn = (\<lambda>w. bit_field 12 36 w), lay_physbase_type = (\<lambda>w. ucast w),
       lay_physmask_pfn = (\<lambda>w. bit_field 12 36 w), lay_physmask_valid = (\<lambda>w. bit w 11)\<rparr>,
     ptl = x64_layout,
     ph_normal = \<lparr>ph_split = (\<lambda>k. 0x1000 + of_nat k), ph_pdpt = 0x900, ph_pd = (\<lambda>i. 0xA00 + of_nat i)\<rparr>,
     ph_target = \<lparr>ph_split = (\<lambda>k. 0x3000 + of_nat k), ph_pdpt = 0x2900, ph_pd = (\<lambda>i. 0x2A00 + of_nat i)\<rparr>,
     stack_addr = 0xFFFF900000001000, local_buffer = 0xFFFF900000002000, logger_base = 0xFFFF900000010000\<rparr>"

end
