(* ===== verification/Vmx.thy ===== *)
theory Vmx
  imports Machine
begin

text \<open>
  The wrappers of VMX instructions (\<open>revhv-km/vmx.h\<close>): reading and writing VMCS fields, the events
  injected at VM entry, the preemption timer, the active EPTP and the control registers as the
  guest sees them.
\<close>

section \<open>VMCS access\<close>

definition vmx_vmread :: "machine \<Rightarrow> nat \<Rightarrow> hw \<Rightarrow> u64" where
  "vmx_vmread M f h = (if supported M f then vmcs h f else 0)"

definition vmx_vmwrite :: "machine \<Rightarrow> nat \<Rightarrow> u64 \<Rightarrow> hw \<Rightarrow> bool \<times> hw" where
  "vmx_vmwrite M f v h =
     (if supported M f then (True, h\<lparr>vmcs := (vmcs h)(f := take_bit (vmcs_width f) v)\<rparr>) else (False, h))"

text \<open>A write whose result is ignored.\<close>

abbreviation vmwrite :: "machine \<Rightarrow> nat \<Rightarrow> u64 \<Rightarrow> hw \<Rightarrow> hw" where
  "vmwrite M f v h \<equiv> snd (vmx_vmwrite M f v h)"

lemma vmread_vmwrite [simp]:
  "vmx_vmread M g (vmwrite M f v h) =
     (if g = f \<and> supported M f then take_bit (vmcs_width f) v else vmx_vmread M g h)"
  by (simp add: vmx_vmread_def vmx_vmwrite_def)

lemma vmwrite_ok [simp]: "fst (vmx_vmwrite M f v h) \<longleftrightarrow> supported M f"
  by (simp add: vmx_vmwrite_def)

lemma vmwrite_frame [simp]:
  "msrs (vmwrite M f v h) = msrs h" "xcrs (vmwrite M f v h) = xcrs h"
  "tsc_reads (vmwrite M f v h) = tsc_reads h" "invepts (vmwrite M f v h) = invepts h"
  by (simp_all add: vmx_vmwrite_def)

lemma vmwrite_unsupported: "\<not> supported M f \<Longrightarrow> vmx_vmwrite M f v h = (False, h)"
  by (simp add: vmx_vmwrite_def)

lemma vmwrite_supported: "supported M f \<Longrightarrow> vmx_vmwrite M f v h = (True, vmwrite M f v h)"
  by (simp add: vmx_vmwrite_def)

lemma vmwrite_same [simp]: "vmwrite M f v (vmwrite M f w h) = vmwrite M f v h"
  by (simp add: vmx_vmwrite_def)

lemma vmread_hw_fields [simp]:
  "vmx_vmread M f (h\<lparr>msrs := a\<rparr>) = vmx_vmread M f h" "vmx_vmread M f (h\<lparr>xcrs := b\<rparr>) = vmx_vmread M f h"
  "vmx_vmread M f (h\<lparr>tsc_reads := c\<rparr>) = vmx_vmread M f h"
  "vmx_vmread M f (h\<lparr>invepts := d\<rparr>) = vmx_vmread M f h"
  by (simp_all add: vmx_vmread_def)

text \<open>The width of a field is 16, 32 or 64 bits; fields of full width store every value.\<close>

lemma vmcs_width_le: "vmcs_width f \<le> 64"
  by (simp add: vmcs_width_def split: nat.split)

lemma vmcs_width_natural [simp]: "f div 8192 mod 4 = 3 \<Longrightarrow> vmcs_width f = 64"
  by (simp add: vmcs_width_def numeral_3_eq_3)

lemma take_bit_64 [simp]: "take_bit 64 (w :: u64) = w"
  by (rule take_bit_length_eq [where 'a = 64, simplified])

section \<open>Invalidating translations\<close>

definition invept :: "invept_type \<Rightarrow> u64 \<Rightarrow> hw \<Rightarrow> hw" where
  "invept ty eptp h = h\<lparr>invepts := (ty, eptp) # invepts h\<rparr>"

section \<open>Events\<close>

definition clear_vmentry_interrupt_info :: "machine \<Rightarrow> hw \<Rightarrow> hw" where
  "clear_vmentry_interrupt_info M h = vmwrite M VMCS_CTRL_VMENTRY_INTERRUPTION_INFORMATION_FIELD 0 h"

definition get_guest_cpl :: "machine \<Rightarrow> hw \<Rightarrow> u64" where
  "get_guest_cpl M h = get_member (ar_dpl (evl M)) (vmx_vmread M VMCS_GUEST_SS_ACCESS_RIGHTS h)"

definition get_guest_cr3 :: "machine \<Rightarrow> hw \<Rightarrow> u64" where
  "get_guest_cr3 M h = vmx_vmread M VMCS_GUEST_CR3 h"

definition interrupt_info :: "machine \<Rightarrow> u16 \<Rightarrow> u64 \<Rightarrow> bool \<Rightarrow> u64" where
  "interrupt_info M vector ty with_code =
     put_flag (ii_valid (evl M)) True
      (put_flag (ii_deliver_error_code (evl M)) with_code
       (put_member (ii_type (evl M)) ty
        (put_member (ii_vector (evl M)) (ucast vector) 0)))"

definition inject_hw_exception_code :: "machine \<Rightarrow> u16 \<Rightarrow> u16 \<Rightarrow> hw \<Rightarrow> hw" where
  "inject_hw_exception_code M vector error_code h =
     vmwrite M VMCS_CTRL_VMENTRY_INTERRUPTION_INFORMATION_FIELD
       (interrupt_info M vector hardware_exception True)
       (vmwrite M VMCS_CTRL_VMENTRY_EXCEPTION_ERROR_CODE (ucast error_code) h)"

definition inject_hw_exception :: "machine \<Rightarrow> u16 \<Rightarrow> hw \<Rightarrow> hw" where
  "inject_hw_exception M vector h =
     vmwrite M VMCS_CTRL_VMENTRY_INTERRUPTION_INFORMATION_FIELD
       (interrupt_info M vector hardware_exception False) h"

definition inject_nmi :: "machine \<Rightarrow> hw \<Rightarrow> hw" where
  "inject_nmi M h =
     vmwrite M VMCS_CTRL_VMENTRY_INTERRUPTION_INFORMATION_FIELD
       (interrupt_info M nmi non_maskable_interrupt False) h"

section \<open>Preemption timer and EPTP\<close>

definition preemption_value :: "u32 \<Rightarrow> u64 \<Rightarrow> u32" where
  "preemption_value relation tsc_ticks = max (ucast (drop_bit (unat relation) tsc_ticks)) 1"

definition enable_preemption_timer :: "machine \<Rightarrow> u32 \<Rightarrow> u64 \<Rightarrow> hw \<Rightarrow> hw" where
  "enable_preemption_timer M relation tsc_ticks h =
     vmwrite M VMCS_GUEST_VMX_PREEMPTION_TIMER_VALUE (ucast (preemption_value relation tsc_ticks)) h"

definition disable_preemption_timer :: "machine \<Rightarrow> u32 \<Rightarrow> hw \<Rightarrow> hw" where
  "disable_preemption_timer M relation h = vmwrite M VMCS_GUEST_VMX_PREEMPTION_TIMER_VALUE MAXULONG h"

definition change_eptp :: "machine \<Rightarrow> u64 \<Rightarrow> hw \<Rightarrow> hw" where
  "change_eptp M new_eptp h = vmwrite M VMCS_CTRL_EPT_POINTER new_eptp h"

section \<open>Control registers as the guest sees them\<close>

definition effective_cr :: "u64 \<Rightarrow> u64 \<Rightarrow> u64 \<Rightarrow> u64" where
  "effective_cr m shadow real = (shadow AND m) OR (real AND NOT m)"

definition get_effective_guest_cr0 :: "machine \<Rightarrow> hw \<Rightarrow> u64" where
  "get_effective_guest_cr0 M h =
     effective_cr (vmx_vmread M VMCS_CTRL_CR0_GUEST_HOST_MASK h)
       (vmx_vmread M VMCS_CTRL_CR0_READ_SHADOW h) (vmx_vmread M VMCS_GUEST_CR0 h)"

definition get_effective_guest_cr4 :: "machine \<Rightarrow> hw \<Rightarrow> u64" where
  "get_effective_guest_cr4 M h =
     effective_cr (vmx_vmread M VMCS_CTRL_CR4_GUEST_HOST_MASK h)
       (vmx_vmread M VMCS_CTRL_CR4_READ_SHADOW h) (vmx_vmread M VMCS_GUEST_CR4 h)"

lemma bit_effective_cr: "bit (effective_cr m s r) k \<longleftrightarrow> (if bit m k then bit s k else bit r k)" for m s r :: u64
  using bit_imp_le_length [of r k] by (auto simp: effective_cr_def bit_simps)

text \<open>
  The value the processor runs with, \<open>(v OR fixed0) AND fixed1\<close>, and the shadow \<open>v\<close> together: the
  guest sees \<open>v\<close>, if the mask contains every bit the fixing can change.
\<close>

lemma effective_fixed_cr:
  assumes "NOT m AND fixed0 = 0" and "NOT m AND NOT fixed1 = 0"
  shows "effective_cr m v ((v OR fixed0) AND fixed1) = v"
proof (rule bit_word_eqI)
  fix k
  assume "k < LENGTH(64)"
  then have "\<not> bit m k \<longrightarrow> \<not> bit fixed0 k \<and> bit fixed1 k"
    using arg_cong [OF assms(1), of "\<lambda>x. bit x k"] arg_cong [OF assms(2), of "\<lambda>x. bit x k"]
    by (auto simp: bit_and_iff bit_not_iff)
  then show "bit (effective_cr m v ((v OR fixed0) AND fixed1)) k = bit v k"
    by (auto simp: bit_effective_cr bit_and_iff bit_or_iff)
qed

section \<open>The event of a VM entry\<close>

text \<open>
  What the next VM entry delivers, read back from the VMCS: nothing, an exception with its vector
  and its error code, or an NMI.
\<close>

datatype vm_event = No_event | Exception_event u64 "u64 option" | Nmi_event | Other_event

definition vm_entry_event :: "machine \<Rightarrow> hw \<Rightarrow> vm_event" where
  "vm_entry_event M h =
     (let info = vmx_vmread M VMCS_CTRL_VMENTRY_INTERRUPTION_INFORMATION_FIELD h;
          ty = get_member (ii_type (evl M)) info
      in if \<not> flag (ii_valid (evl M)) info then No_event
         else if ty = hardware_exception then
           Exception_event (get_member (ii_vector (evl M)) info)
             (if flag (ii_deliver_error_code (evl M)) info
              then Some (vmx_vmread M VMCS_CTRL_VMENTRY_EXCEPTION_ERROR_CODE h) else None)
         else if ty = non_maskable_interrupt then Nmi_event
         else Other_event)"

text \<open>
  What the code relies on: the members of the interruption information lie in its 32 bits without
  overlap, the vector has 8 bits and the type 3.
\<close>

definition event_layout_ok :: "event_layout \<Rightarrow> bool" where
  "event_layout_ok L \<longleftrightarrow>
     snd (ii_vector L) = 8 \<and> snd (ii_type L) = 3 \<and>
     fst (ii_vector L) + 8 \<le> 32 \<and> fst (ii_type L) + 3 \<le> 32 \<and>
     (fst (ii_vector L) + 8 \<le> fst (ii_type L) \<or> fst (ii_type L) + 3 \<le> fst (ii_vector L)) \<and>
     ii_valid L < 32 \<and> ii_deliver_error_code L < 32 \<and> ii_valid L \<noteq> ii_deliver_error_code L \<and>
     (\<forall>b \<in> {ii_valid L, ii_deliver_error_code L}.
        (b < fst (ii_vector L) \<or> fst (ii_vector L) + 8 \<le> b) \<and> (b < fst (ii_type L) \<or> fst (ii_type L) + 3 \<le> b))"

definition events_supported :: "machine \<Rightarrow> bool" where
  "events_supported M \<longleftrightarrow> event_layout_ok (evl M) \<and>
     supported M VMCS_CTRL_VMENTRY_INTERRUPTION_INFORMATION_FIELD \<and>
     supported M VMCS_CTRL_VMENTRY_EXCEPTION_ERROR_CODE"

lemma flag_take_bit: "flag b (take_bit n w) \<longleftrightarrow> b < n \<and> flag b w"
  by (simp add: flag_def bit_take_bit_iff)

lemma get_member_take_bit: "fst s + snd s \<le> n \<Longrightarrow> get_member s (take_bit n w) = get_member s w"
  by (rule bit_eqI)
    (auto simp: get_member_def bit_field_def bit_take_bit_iff bit_drop_bit_eq)

lemma interrupt_info_members:
  assumes "event_layout_ok (evl M)"
  shows "flag (ii_valid (evl M)) (take_bit 32 (interrupt_info M v ty c))"
    and "flag (ii_deliver_error_code (evl M)) (take_bit 32 (interrupt_info M v ty c)) = c"
    and "get_member (ii_vector (evl M)) (take_bit 32 (interrupt_info M v ty c)) = take_bit 8 (ucast v)"
    and "get_member (ii_type (evl M)) (take_bit 32 (interrupt_info M v ty c)) = take_bit 3 ty"
  using assms
  by (auto simp: event_layout_ok_def interrupt_info_def flag_take_bit get_member_take_bit)

lemma vmcs_width_simps [simp]:
  "vmcs_width VMCS_CTRL_VMENTRY_INTERRUPTION_INFORMATION_FIELD = 32"
  "vmcs_width VMCS_CTRL_VMENTRY_EXCEPTION_ERROR_CODE = 32"
  "vmcs_width VMCS_CTRL_EPT_POINTER = 64"
  "vmcs_width VMCS_CTRL_PROCESSOR_BASED_VM_EXECUTION_CONTROLS = 32"
  "vmcs_width VMCS_GUEST_INTERRUPTIBILITY_STATE = 32"
  "vmcs_width VMCS_GUEST_VMX_PREEMPTION_TIMER_VALUE = 32"
  "vmcs_width VMCS_CTRL_TSC_OFFSET = 64"
  by (simp_all add: vmcs_width_def numeral_2_eq_2)

lemma take_bit_ucast_16: "take_bit 32 (ucast (c :: u16) :: u64) = ucast c"
proof (rule bit_word_eqI)
  fix n
  have "bit c n \<Longrightarrow> n < 16"
    using bit_imp_le_length [of c n] by simp
  then show "bit (take_bit 32 (ucast c) :: u64) n = bit (ucast c :: u64) n"
    by (auto simp: bit_simps bit_ucast_iff)
qed

text \<open>Each injection is what the VM entry delivers.\<close>

lemma event_clear: "events_supported M \<Longrightarrow> vm_entry_event M (clear_vmentry_interrupt_info M h) = No_event"
  by (simp add: vm_entry_event_def clear_vmentry_interrupt_info_def events_supported_def Let_def)

lemma event_exception:
  assumes "events_supported M"
  shows "vm_entry_event M (inject_hw_exception M v h) = Exception_event (take_bit 8 (ucast v)) None"
  using assms interrupt_info_members [of M v hardware_exception False]
  by (simp add: vm_entry_event_def inject_hw_exception_def events_supported_def Let_def take_bit_eq_mask mask_numeral)

lemma event_exception_code:
  assumes "events_supported M"
  shows "vm_entry_event M (inject_hw_exception_code M v c h) = Exception_event (take_bit 8 (ucast v)) (Some (ucast c))"
  using assms interrupt_info_members [of M v hardware_exception True]
  by (simp add: vm_entry_event_def inject_hw_exception_code_def events_supported_def Let_def take_bit_ucast_16
      take_bit_eq_mask [of 3 hardware_exception] mask_numeral)

lemma event_nmi:
  assumes "events_supported M"
  shows "vm_entry_event M (inject_nmi M h) = Nmi_event"
  using assms interrupt_info_members [of M nmi non_maskable_interrupt False]
  by (simp add: vm_entry_event_def inject_nmi_def events_supported_def Let_def
      take_bit_eq_mask [of 3 non_maskable_interrupt] mask_numeral)

end
