(* ===== verification/Vcpu.thy ===== *)
theory Vcpu
  imports Vmx Introspection Transition_Cfg Ept_Init Logging
begin

text \<open>
  The state of a virtual processor (\<open>revhv-km/vcpu.h\<close>, \<open>exception.h\<close>, \<open>stealth.h\<close>) and of the
  hypervisor around it (\<open>hv.h\<close>). \<open>core\<close> is everything a VM exit on one core can reach: the guest
  registers, the virtual processor, the processor itself, memory, the trace rings of the other
  cores and the shared state of the hypervisor.
\<close>

section \<open>Guest registers\<close>

record guest_context =
  g_rax :: u64
  g_rcx :: u64
  g_rdx :: u64
  g_rbx :: u64
  g_rbp :: u64
  g_rsi :: u64
  g_rdi :: u64
  g_r8 :: u64
  g_r9 :: u64
  g_r10 :: u64
  g_r11 :: u64
  g_r12 :: u64
  g_r13 :: u64
  g_r14 :: u64
  g_r15 :: u64
  g_cr2 :: u64
  g_cr8 :: u64
  g_dr :: "nat \<Rightarrow> u64"
  g_xmm :: "nat \<Rightarrow> 128 word"
  g_mxcsr :: u32

text \<open>
  The 32-bit view of a register is its low half: the members of the union share memory, so a store
  to \<open>eax\<close> leaves the upper half of \<open>rax\<close> alone.
\<close>

definition low32 :: "u64 \<Rightarrow> u32" where
  "low32 r = ucast r"

definition put_low32 :: "u32 \<Rightarrow> u64 \<Rightarrow> u64" where
  "put_low32 v r = (r AND NOT (mask 32)) OR ucast v"

section \<open>Parts of a virtual processor\<close>

record exception_info =
  exception_vector :: u64
  error_code :: u64
  additional_info1 :: u64
  exception_occurred :: bool

definition clear_exception_info :: "exception_info \<Rightarrow> exception_info" where
  "clear_exception_info x = x\<lparr>exception_occurred := False, exception_vector := 0, error_code := 0, additional_info1 := 0\<rparr>"

record vmx_msr_entry =
  msr_index :: u32
  msr_reserved :: u32
  msr_data :: u64

record tsc_data =
  tsc_offset :: u64
  stored_tsc :: u64
  vmexit_to_store_overhead :: u64
  instruction_overhead :: u64
  vmentry_overhead :: u64

record stealth_data =
  msr_entries :: "vmx_msr_entry list"
  msr_store_count :: u64
  msr_load_count :: u64
  tsc_data_of :: tsc_data
  bench_completed :: bool

record msr_bitmap =
  wrmsr_low :: "nat \<Rightarrow> u8"
  wrmsr_high :: "nat \<Rightarrow> u8"

record restore_context =
  rc_gdtr :: "u64 \<times> u16"
  rc_idtr :: "u64 \<times> u16"
  rc_cr3 :: u64
  rc_cr4 :: u64
  rc_cr0 :: u64
  rc_selector :: "segment \<Rightarrow> u16"
  rc_fs_base :: u64
  rc_gs_base :: u64
  rc_kernel_gs_base :: u64
  rc_efer :: u64
  rc_pat :: u64
  rc_sysenter_cs :: u64
  rc_sysenter_esp :: u64
  rc_sysenter_eip :: u64

record vcpu =
  vmxon_revision :: u64
  vmcs_revision :: u64
  vc_msr_bitmap :: msr_bitmap
  ept_pages_normal :: ept_pages
  ept_pages_target :: ept_pages
  stealth :: stealth_data
  in_normal_execution :: bool
  eptp_normal_execution :: u64
  eptp_target_execution :: u64
  restore_ctx :: restore_context
  core_id :: u64
  exc_info :: exception_info
  vc_mtrr_state :: mtrr_state
  queued_nmi_count :: u64
  trace_buffer :: ring_buffer
  generic_transition_cfg :: ept_transition_cfg
  vc_cfg_table :: cfg_table
  tsc_preemption_relation_bit :: u32
  preemption_timer_enabled :: bool

section \<open>The hypervisor and a core\<close>

text \<open>\<open>crash_in_progress\<close> is the value an atomic load would return.\<close>

record onload_target_state =
  ol_active :: bool
  ol_name :: string

record hypervisor =
  system_cr3 :: u64
  crash_in_progress :: bool
  vcpu_count :: u64
  logger :: standard_logger
  onload_target :: onload_target_state

record core =
  cx :: guest_context
  vc :: vcpu
  hws :: hw
  mem :: host_mem
  peer_rings :: "nat \<Rightarrow> ring_buffer"
  ghv :: hypervisor

text \<open>
  Why a handler does not return: an unrecoverable error of the host, a core that gave itself back
  to the host because another one crashed, a processor that was halted, and a loop without end.
\<close>

datatype stop = Unrecoverable_host_error | Gave_control | Host_halted | Endless_loop

definition and_then :: "'e + 'a \<Rightarrow> ('a \<Rightarrow> 'e + 'b) \<Rightarrow> 'e + 'b" where
  "and_then r f = (case r of Inl e \<Rightarrow> Inl e | Inr x \<Rightarrow> f x)"

lemma and_then_simps [simp]: "and_then (Inl e) f = Inl e" "and_then (Inr x) f = f x"
  by (simp_all add: and_then_def)

lemma and_then_Inr: "and_then r f = Inr y \<longleftrightarrow> (\<exists>x. r = Inr x \<and> f x = Inr y)"
  by (cases r) auto

text \<open>Changes to one part of a core.\<close>

definition on_hw :: "(hw \<Rightarrow> hw) \<Rightarrow> core \<Rightarrow> core" where
  "on_hw f st = st\<lparr>hws := f (hws st)\<rparr>"

definition on_vc :: "(vcpu \<Rightarrow> vcpu) \<Rightarrow> core \<Rightarrow> core" where
  "on_vc f st = st\<lparr>vc := f (vc st)\<rparr>"

definition on_cx :: "(guest_context \<Rightarrow> guest_context) \<Rightarrow> core \<Rightarrow> core" where
  "on_cx f st = st\<lparr>cx := f (cx st)\<rparr>"

lemma on_simps [simp]:
  "cx (on_hw f st) = cx st" "vc (on_hw f st) = vc st" "hws (on_hw f st) = f (hws st)"
  "mem (on_hw f st) = mem st" "peer_rings (on_hw f st) = peer_rings st" "ghv (on_hw f st) = ghv st"
  "cx (on_vc g st) = cx st" "vc (on_vc g st) = g (vc st)" "hws (on_vc g st) = hws st"
  "mem (on_vc g st) = mem st" "peer_rings (on_vc g st) = peer_rings st" "ghv (on_vc g st) = ghv st"
  "cx (on_cx k st) = k (cx st)" "vc (on_cx k st) = vc st" "hws (on_cx k st) = hws st"
  "mem (on_cx k st) = mem st" "peer_rings (on_cx k st) = peer_rings st" "ghv (on_cx k st) = ghv st"
  by (simp_all add: on_hw_def on_vc_def on_cx_def)

definition set_instruction_overhead :: "u64 \<Rightarrow> vcpu \<Rightarrow> vcpu" where
  "set_instruction_overhead n v =
     v\<lparr>stealth := (stealth v)\<lparr>tsc_data_of := (tsc_data_of (stealth v))\<lparr>instruction_overhead := n\<rparr>\<rparr>\<rparr>"

section \<open>An example\<close>

text \<open>A core that runs the guest normally, with flat page tables and an empty trace, for the witnesses.\<close>

definition demo_hw :: hw where
  "demo_hw = \<lparr>vmcs = (\<lambda>_. 0),
     msrs = (\<lambda>m. if m = IA32_VMX_BASIC then 0x0080000000000001
                 else if m = IA32_VMX_TRUE_PROCBASED_CTLS then 0xFFF9FFFE04006172 else 0),
     xcrs = (\<lambda>_. 0), tsc_reads = 0, invepts = [], h_cr0 = 0x80050033, h_cr3 = 0x1AD000, h_cr4 = 0x3506F8,
     h_dr7 = 0x400, h_rflags = 0x202, h_selector = (\<lambda>_. 0), h_gdtr = (0, 0), h_idtr = (0, 0), h_in_vmx = False\<rparr>"

definition demo_context :: guest_context where
  "demo_context = \<lparr>g_rax = 1, g_rcx = 0x10, g_rdx = 0, g_rbx = 4, g_rbp = 5, g_rsi = 6, g_rdi = 7, g_r8 = 8, g_r9 = 9,
     g_r10 = 10, g_r11 = 11, g_r12 = 12, g_r13 = 13, g_r14 = 14, g_r15 = 15, g_cr2 = 0, g_cr8 = 0,
     g_dr = (\<lambda>_. 0), g_xmm = (\<lambda>_. 0), g_mxcsr = 0x1F80\<rparr>"

definition demo_vcpu :: vcpu where
  "demo_vcpu = \<lparr>vmxon_revision = 1, vmcs_revision = 1,
     vc_msr_bitmap = \<lparr>wrmsr_low = (\<lambda>_. 0), wrmsr_high = (\<lambda>_. 0)\<rparr>,
     ept_pages_normal = flat_ept, ept_pages_target = flat_ept,
     stealth = \<lparr>msr_entries = replicate 3 \<lparr>msr_index = 0, msr_reserved = 0, msr_data = 0\<rparr>, msr_store_count = 0, msr_load_count = 0,
       tsc_data_of = \<lparr>tsc_offset = 0, stored_tsc = 0, vmexit_to_store_overhead = 0, instruction_overhead = 0,
         vmentry_overhead = 0\<rparr>, bench_completed = False\<rparr>,
     in_normal_execution = True, eptp_normal_execution = 0x1000, eptp_target_execution = 0x2000,
     restore_ctx = \<lparr>rc_gdtr = (0, 0), rc_idtr = (0, 0), rc_cr3 = 0, rc_cr4 = 0, rc_cr0 = 0, rc_selector = (\<lambda>_. 0),
       rc_fs_base = 0, rc_gs_base = 0, rc_kernel_gs_base = 0, rc_efer = 0, rc_pat = 0, rc_sysenter_cs = 0,
       rc_sysenter_esp = 0, rc_sysenter_eip = 0\<rparr>,
     core_id = 0, exc_info = \<lparr>exception_vector = 0, error_code = 0, additional_info1 = 0, exception_occurred = False\<rparr>,
     vc_mtrr_state = \<lparr>mtrr_enable = False, fixed_range_mtrr_enable = False, default_memory_type = 0,
       fixed_supported = False, fixed = [], variable = [], variable_count = 0\<rparr>,
     queued_nmi_count = 0,
     trace_buffer = \<lparr>write_head = 0, read_tail = 0, active = 0,
       entries = (\<lambda>_. \<lparr>e_format_id = 0, e_core_id = 0, e_pad0 = 0, e_timestamp = 0, e_data = []\<rparr>)\<rparr>,
     generic_transition_cfg = default_generic_cfg, vc_cfg_table = empty_cfg_table,
     tsc_preemption_relation_bit = 5, preemption_timer_enabled = False\<rparr>"

definition demo_core :: core where
  "demo_core = \<lparr>cx = demo_context, vc = demo_vcpu, hws = demo_hw, mem = (\<lambda>_. None), peer_rings = (\<lambda>_. trace_buffer demo_vcpu),
     ghv = \<lparr>system_cr3 = 0x1AD000, crash_in_progress = False, vcpu_count = 1,
       logger = \<lparr>messages = (\<lambda>_. \<lparr>message_number = 0, message_text = replicate 256 CHR 0x00\<rparr>), cursor = 0,
         message_count = 0, pending_count = 0\<rparr>,
       onload_target = \<lparr>ol_active = False, ol_name = []\<rparr>\<rparr>\<rparr>"

end
