(* ===== verification/Vmcs_Control.thy ===== *)
theory Vmcs_Control
  imports Vcpu
begin

text \<open>
  Control fields and the MSR bitmap (\<open>write_control_field\<close>, \<open>enable_nmi_window_exiting\<close>,
  \<open>disable_nmi_window_exiting\<close> and \<open>set_wrmsr_exiting\<close> of \<open>revhv-km/vmcs.cpp\<close>): a control field is
  written with the settings the processor allows.
\<close>

section \<open>Control fields\<close>

definition adjusted_control :: "machine \<Rightarrow> hw \<Rightarrow> u64 \<Rightarrow> u32 \<Rightarrow> u32 \<Rightarrow> u64" where
  "adjusted_control M h v capMsr trueCapMsr =
     (let vmxBasic = msrs h IA32_VMX_BASIC in
      if flag (basic_vmx_controls (ctl M)) vmxBasic then
        (let trueCtls = msrs h trueCapMsr
         in (v OR get_member (ctls_allowed_0 (ctl M)) trueCtls) AND get_member (ctls_allowed_1 (ctl M)) trueCtls)
      else
        (let capCtls = msrs h capMsr
         in (v OR get_member (ctls_allowed_0 (ctl M)) capCtls) AND get_member (ctls_allowed_1 (ctl M)) capCtls))"

definition write_control_field :: "machine \<Rightarrow> u64 \<Rightarrow> nat \<Rightarrow> u32 \<Rightarrow> u32 \<Rightarrow> hw \<Rightarrow> bool \<times> hw" where
  "write_control_field M v controlField capMsr trueCapMsr h =
     vmx_vmwrite M controlField (adjusted_control M h v capMsr trueCapMsr) h"

definition enable_nmi_window_exiting :: "machine \<Rightarrow> hw \<Rightarrow> hw" where
  "enable_nmi_window_exiting M h =
     (let proc_based = vmx_vmread M VMCS_CTRL_PROCESSOR_BASED_VM_EXECUTION_CONTROLS h
      in snd (write_control_field M (put_flag (proc_bit (ctl M) nmi_window_exiting) True proc_based)
               VMCS_CTRL_PROCESSOR_BASED_VM_EXECUTION_CONTROLS IA32_VMX_PROCBASED_CTLS IA32_VMX_TRUE_PROCBASED_CTLS h))"

definition disable_nmi_window_exiting :: "machine \<Rightarrow> hw \<Rightarrow> hw" where
  "disable_nmi_window_exiting M h =
     (let proc_based = vmx_vmread M VMCS_CTRL_PROCESSOR_BASED_VM_EXECUTION_CONTROLS h
      in snd (write_control_field M (put_flag (proc_bit (ctl M) nmi_window_exiting) False proc_based)
               VMCS_CTRL_PROCESSOR_BASED_VM_EXECUTION_CONTROLS IA32_VMX_PROCBASED_CTLS IA32_VMX_TRUE_PROCBASED_CTLS h))"

text \<open>The settings the processor reports for a control, as the code reads them.\<close>

definition control_caps :: "machine \<Rightarrow> hw \<Rightarrow> u32 \<Rightarrow> u32 \<Rightarrow> u64" where
  "control_caps M h capMsr trueCapMsr =
     (if flag (basic_vmx_controls (ctl M)) (msrs h IA32_VMX_BASIC) then msrs h trueCapMsr else msrs h capMsr)"

definition must_be_1 :: "machine \<Rightarrow> hw \<Rightarrow> u32 \<Rightarrow> u32 \<Rightarrow> u64" where
  "must_be_1 M h cap true_cap = get_member (ctls_allowed_0 (ctl M)) (control_caps M h cap true_cap)"

definition may_be_1 :: "machine \<Rightarrow> hw \<Rightarrow> u32 \<Rightarrow> u32 \<Rightarrow> u64" where
  "may_be_1 M h cap true_cap = get_member (ctls_allowed_1 (ctl M)) (control_caps M h cap true_cap)"

lemma adjusted_control_eq:
  "adjusted_control M h v cap true_cap = (v OR must_be_1 M h cap true_cap) AND may_be_1 M h cap true_cap"
  by (simp add: adjusted_control_def must_be_1_def may_be_1_def control_caps_def Let_def)

lemma bit_adjusted_control:
  "bit (adjusted_control M h v cap true_cap) k \<longleftrightarrow>
     (bit v k \<or> bit (must_be_1 M h cap true_cap) k) \<and> bit (may_be_1 M h cap true_cap) k"
  by (simp add: adjusted_control_eq bit_and_iff bit_or_iff)

section \<open>Processor-based controls and NMI-window exiting\<close>

text \<open>The processor can turn NMI-window exiting on and off.\<close>

definition nmi_window_supported :: "machine \<Rightarrow> hw \<Rightarrow> bool" where
  "nmi_window_supported M h \<longleftrightarrow>
     supported M VMCS_CTRL_PROCESSOR_BASED_VM_EXECUTION_CONTROLS \<and>
     proc_bit (ctl M) nmi_window_exiting < 32 \<and>
     flag (proc_bit (ctl M) nmi_window_exiting) (may_be_1 M h IA32_VMX_PROCBASED_CTLS IA32_VMX_TRUE_PROCBASED_CTLS) \<and>
     \<not> flag (proc_bit (ctl M) nmi_window_exiting) (must_be_1 M h IA32_VMX_PROCBASED_CTLS IA32_VMX_TRUE_PROCBASED_CTLS)"

definition nmi_window_enabled :: "machine \<Rightarrow> hw \<Rightarrow> bool" where
  "nmi_window_enabled M h \<longleftrightarrow>
     flag (proc_bit (ctl M) nmi_window_exiting) (vmx_vmread M VMCS_CTRL_PROCESSOR_BASED_VM_EXECUTION_CONTROLS h)"

lemma write_control_frame [simp]:
  "msrs (snd (write_control_field M v f a b h)) = msrs h"
  "invepts (snd (write_control_field M v f a b h)) = invepts h"
  "tsc_reads (snd (write_control_field M v f a b h)) = tsc_reads h"
  by (simp_all add: write_control_field_def)

lemma nmi_window_frame [simp]:
  "msrs (enable_nmi_window_exiting M h) = msrs h" "msrs (disable_nmi_window_exiting M h) = msrs h"
  by (simp_all add: enable_nmi_window_exiting_def disable_nmi_window_exiting_def)

lemma vmread_nmi_window [simp]:
  "f \<noteq> VMCS_CTRL_PROCESSOR_BASED_VM_EXECUTION_CONTROLS \<Longrightarrow>
     vmx_vmread M f (enable_nmi_window_exiting M h) = vmx_vmread M f h"
  "f \<noteq> VMCS_CTRL_PROCESSOR_BASED_VM_EXECUTION_CONTROLS \<Longrightarrow>
     vmx_vmread M f (disable_nmi_window_exiting M h) = vmx_vmread M f h"
  by (simp_all add: enable_nmi_window_exiting_def disable_nmi_window_exiting_def write_control_field_def)

lemma caps_cong: "msrs h' = msrs h \<Longrightarrow> nmi_window_supported M h' = nmi_window_supported M h"
  by (simp add: nmi_window_supported_def must_be_1_def may_be_1_def control_caps_def)

lemma nmi_window_supported_simps [simp]:
  "nmi_window_supported M (enable_nmi_window_exiting M h) = nmi_window_supported M h"
  "nmi_window_supported M (disable_nmi_window_exiting M h) = nmi_window_supported M h"
  "nmi_window_supported M (vmwrite M f v h) = nmi_window_supported M h"
  by (rule caps_cong, simp)+

lemma nmi_window_write:
  assumes "nmi_window_supported M h"
  shows "nmi_window_enabled M (snd (write_control_field M w VMCS_CTRL_PROCESSOR_BASED_VM_EXECUTION_CONTROLS
      IA32_VMX_PROCBASED_CTLS IA32_VMX_TRUE_PROCBASED_CTLS h)) \<longleftrightarrow> flag (proc_bit (ctl M) nmi_window_exiting) w"
proof -
  let ?b = "proc_bit (ctl M) nmi_window_exiting"
    and ?v = "adjusted_control M h w IA32_VMX_PROCBASED_CTLS IA32_VMX_TRUE_PROCBASED_CTLS"
  have "bit ?v ?b \<longleftrightarrow> bit w ?b"
    using assms unfolding nmi_window_supported_def flag_def bit_adjusted_control by blast
  moreover have "?b < 32" "supported M VMCS_CTRL_PROCESSOR_BASED_VM_EXECUTION_CONTROLS"
    using assms by (simp_all add: nmi_window_supported_def)
  moreover have "vmx_vmread M VMCS_CTRL_PROCESSOR_BASED_VM_EXECUTION_CONTROLS
      (snd (write_control_field M w VMCS_CTRL_PROCESSOR_BASED_VM_EXECUTION_CONTROLS
        IA32_VMX_PROCBASED_CTLS IA32_VMX_TRUE_PROCBASED_CTLS h)) = take_bit 32 ?v"
    using calculation(3) by (simp add: write_control_field_def)
  ultimately show ?thesis
    unfolding nmi_window_enabled_def by (simp only: flag_take_bit) (simp only: flag_def simp_thms)
qed

lemma nmi_window_enable:
  assumes "nmi_window_supported M h"
  shows "nmi_window_enabled M (enable_nmi_window_exiting M h)"
    and "\<not> nmi_window_enabled M (disable_nmi_window_exiting M h)"
  using assms nmi_window_write [OF assms]
  by (simp_all add: enable_nmi_window_exiting_def disable_nmi_window_exiting_def Let_def nmi_window_supported_def)

section \<open>The MSR bitmap\<close>

abbreviation MSR_ID_LOW_MAX :: u32 where "MSR_ID_LOW_MAX \<equiv> 0x1FFF"
abbreviation MSR_ID_HIGH_MIN :: u32 where "MSR_ID_HIGH_MIN \<equiv> 0xC0000000"
abbreviation MSR_ID_HIGH_MAX :: u32 where "MSR_ID_HIGH_MAX \<equiv> 0xC0001FFF"

definition set_wrmsr_exiting :: "u32 \<Rightarrow> bool \<Rightarrow> msr_bitmap \<Rightarrow> msr_bitmap" where
  "set_wrmsr_exiting msr ex bm =
     (let b = push_bit (unat (msr AND 0b0111)) (1 :: u8) in
      if msr \<le> MSR_ID_LOW_MAX then
        (let i = unat (msr div 8); old = wrmsr_low bm i
         in bm\<lparr>wrmsr_low := (wrmsr_low bm)(i := (if ex then old OR b else old AND NOT b))\<rparr>)
      else if msr \<ge> MSR_ID_HIGH_MIN \<and> msr \<le> MSR_ID_HIGH_MAX then
        (let i = unat ((msr - MSR_ID_HIGH_MIN) div 8); old = wrmsr_high bm i
         in bm\<lparr>wrmsr_high := (wrmsr_high bm)(i := (if ex then old OR b else old AND NOT b))\<rparr>)
      else bm)"

text \<open>
  How the processor consults the bitmap: a register outside both ranges always exits.
\<close>

definition wrmsr_exits :: "msr_bitmap \<Rightarrow> u32 \<Rightarrow> bool" where
  "wrmsr_exits bm msr =
     (if msr \<le> MSR_ID_LOW_MAX then bit (wrmsr_low bm (unat msr div 8)) (unat msr mod 8)
      else if msr \<ge> MSR_ID_HIGH_MIN \<and> msr \<le> MSR_ID_HIGH_MAX
           then bit (wrmsr_high bm (unat (msr - MSR_ID_HIGH_MIN) div 8)) (unat (msr - MSR_ID_HIGH_MIN) mod 8)
      else True)"

definition in_bitmap :: "u32 \<Rightarrow> bool" where
  "in_bitmap msr \<longleftrightarrow> msr \<le> MSR_ID_LOW_MAX \<or> msr \<ge> MSR_ID_HIGH_MIN \<and> msr \<le> MSR_ID_HIGH_MAX"

lemma unat_and_7: "unat (w AND 7) = unat w mod 8" for w :: u32
proof -
  have "(7 :: u32) = mask 3" by (simp add: mask_eq_exp_minus_1)
  then show ?thesis
    by (simp only: take_bit_eq_mask [symmetric] unsigned_take_bit_eq) (simp add: take_bit_eq_mod)
qed

lemma bit_u8_or: "n < 8 \<Longrightarrow> bit (w OR 2 ^ m) n \<longleftrightarrow> bit w n \<or> n = m" for w :: u8
  by (auto simp: bit_or_iff bit_exp_iff)

lemma bit_u8_and_not: "n < 8 \<Longrightarrow> bit (w AND NOT (2 ^ m)) n \<longleftrightarrow> bit w n \<and> n \<noteq> m" for w :: u8
  by (auto simp: bit_and_iff bit_not_iff bit_exp_iff)

lemma high_offset:
  fixes msr :: u32
  assumes "MSR_ID_HIGH_MIN \<le> msr"
  shows "unat (msr - MSR_ID_HIGH_MIN) mod 8 = unat msr mod 8"
proof -
  have e: "unat (msr - MSR_ID_HIGH_MIN) = unat msr - 0xC0000000"
    using unat_sub [OF assms] by simp
  have "unat msr \<ge> 0xC0000000" using assms by (simp add: word_le_nat_alt)
  then obtain k where k: "unat msr = 8 * 0x18000000 + k"
    using le_Suc_ex by fastforce
  then have "unat (msr - MSR_ID_HIGH_MIN) = k"
    using e by simp
  then show ?thesis
    by (simp only: k mod_mult_self4)
qed

lemma same_byte_bit: "a div 8 = b div 8 \<and> a mod 8 = b mod 8 \<longleftrightarrow> a = (b :: nat)"
  by (metis div_mult_mod_eq)

lemma unat_eq_32: "unat a = unat b \<longleftrightarrow> a = (b :: u32)"
  by (simp add: word_unat_eq_iff)

lemma set_wrmsr_exiting_spec:
  "wrmsr_exits (set_wrmsr_exiting msr ex bm) m \<longleftrightarrow>
     (if m = msr \<and> in_bitmap msr then ex else wrmsr_exits bm m)"
proof -
  let ?b = "unat (msr AND 7)"
  consider (low) "msr \<le> MSR_ID_LOW_MAX"
    | (high) "\<not> msr \<le> MSR_ID_LOW_MAX" "msr \<ge> MSR_ID_HIGH_MIN" "msr \<le> MSR_ID_HIGH_MAX"
    | (out) "\<not> in_bitmap msr"
    by (auto simp: in_bitmap_def)
  then show ?thesis
  proof cases
    case low
    show ?thesis
    proof (cases "m \<le> MSR_ID_LOW_MAX")
      case True
      have "unat m div 8 = unat msr div 8 \<Longrightarrow> (unat m mod 8 = unat msr mod 8) = (m = msr)"
        using same_byte_bit [of "unat m" "unat msr"] by (auto simp: unat_eq_32)
      then show ?thesis
        using low True
        by (auto simp: set_wrmsr_exiting_def wrmsr_exits_def in_bitmap_def Let_def unat_div unat_and_7
            bit_u8_or bit_u8_and_not)
    next
      case False
      then show ?thesis
        using low by (auto simp: set_wrmsr_exiting_def wrmsr_exits_def Let_def)
    qed
  next
    case high
    show ?thesis
    proof (cases "m \<ge> MSR_ID_HIGH_MIN \<and> m \<le> MSR_ID_HIGH_MAX \<and> \<not> m \<le> MSR_ID_LOW_MAX")
      case True
      let ?x = "unat (m - MSR_ID_HIGH_MIN)" and ?y = "unat (msr - MSR_ID_HIGH_MIN)"
      have "?x = ?y \<longleftrightarrow> m = msr"
        by (simp add: unat_eq_32)
      then have "?x div 8 = ?y div 8 \<Longrightarrow> (?x mod 8 = ?y mod 8) = (m = msr)"
        using same_byte_bit [of ?x ?y] by auto
      then show ?thesis
        using high True high_offset [of msr] high_offset [of m]
        by (auto simp: set_wrmsr_exiting_def wrmsr_exits_def in_bitmap_def Let_def unat_div unat_and_7
            bit_u8_or bit_u8_and_not)
    next
      case False
      then show ?thesis
        using high by (auto simp: set_wrmsr_exiting_def wrmsr_exits_def Let_def)
    qed
  next
    case out
    then show ?thesis
      by (auto simp: set_wrmsr_exiting_def in_bitmap_def Let_def)
  qed
qed

section \<open>Properties\<close>

lemma may_be_1_bits:
  assumes "snd (ctls_allowed_1 (ctl M)) = 32" and "bit (may_be_1 M h cap true_cap) k"
  shows "k < 32"
  using assms by (simp add: may_be_1_def get_member_def bit_field_def bit_take_bit_iff)

text \<open>
  C22. A control field is written with the settings the processor allows. Every control the
  processor requires is 1, every control it does not support is 0, every other control is what the
  caller asked for, whether or not the processor reports true controls, and no other field changes.
  What the code relies on: the controls have 32 bits, and a required control is supported.
\<close>

theorem control_field_allowed:
  assumes "snd (ctls_allowed_1 (ctl M)) = 32" and "32 \<le> vmcs_width f" and "supported M f"
    and "must_be_1 M h cap true_cap AND NOT (may_be_1 M h cap true_cap) = 0"
    and "write_control_field M v f cap true_cap h = (ok, h')"
  shows "ok \<and>
    (\<forall>k. bit (vmx_vmread M f h') k \<longleftrightarrow>
       bit (must_be_1 M h cap true_cap) k \<or> bit (may_be_1 M h cap true_cap) k \<and> bit v k) \<and>
    (\<forall>g. g \<noteq> f \<longrightarrow> vmx_vmread M g h' = vmx_vmread M g h)"
proof -
  let ?v = "adjusted_control M h v cap true_cap"
  have h': "ok" "h' = vmwrite M f ?v h"
    using trans [OF assms(5) [symmetric, unfolded write_control_field_def] vmwrite_supported [OF assms(3)]]
    by (rule Pair_inject, simp)+
  have sub: "bit (must_be_1 M h cap true_cap) k \<Longrightarrow> bit (may_be_1 M h cap true_cap) k" for k
  proof (rule ccontr)
    assume m: "bit (must_be_1 M h cap true_cap) k" "\<not> bit (may_be_1 M h cap true_cap) k"
    then have "bit (must_be_1 M h cap true_cap AND NOT (may_be_1 M h cap true_cap)) k"
      using bit_imp_le_length [OF m(1)] by (simp add: bit_and_iff bit_not_iff)
    then show False by (simp add: assms(4))
  qed
  have r: "vmx_vmread M f h' = take_bit (vmcs_width f) ?v"
    using h'(2) assms(3) by simp
  have "bit (vmx_vmread M f h') k \<longleftrightarrow>
       bit (must_be_1 M h cap true_cap) k \<or> bit (may_be_1 M h cap true_cap) k \<and> bit v k" for k
  proof -
    have "bit (may_be_1 M h cap true_cap) k \<Longrightarrow> k < vmcs_width f"
      using may_be_1_bits [OF assms(1), of h cap true_cap k] assms(2) by linarith
    then show ?thesis
      unfolding r bit_take_bit_iff bit_adjusted_control using sub [of k] by blast
  qed
  with h' show ?thesis by simp
qed

text \<open>
  The MSR bitmap is exact: setting or clearing the exit for writes of one register changes the
  processor's answer for this register and no other, in both ranges of the bitmap; a register
  outside them cannot be configured and always exits.
\<close>

theorem wrmsr_bitmap_exact:
  "wrmsr_exits (set_wrmsr_exiting msr ex bm) m \<longleftrightarrow>
     (if m = msr \<and> in_bitmap msr then ex else wrmsr_exits bm m)"
  by (rule set_wrmsr_exiting_spec)

text \<open>The primary processor-based controls of the example processor.\<close>

theorem control_field_allowed_witness:
  "vmx_vmread sdm_machine VMCS_CTRL_PROCESSOR_BASED_VM_EXECUTION_CONTROLS
     (snd (write_control_field sdm_machine 0x10000000 VMCS_CTRL_PROCESSOR_BASED_VM_EXECUTION_CONTROLS
        IA32_VMX_PROCBASED_CTLS IA32_VMX_TRUE_PROCBASED_CTLS demo_hw)) = 0x14006172"
proof -
  let ?r = "write_control_field sdm_machine 0x10000000 VMCS_CTRL_PROCESSOR_BASED_VM_EXECUTION_CONTROLS
        IA32_VMX_PROCBASED_CTLS IA32_VMX_TRUE_PROCBASED_CTLS demo_hw"
  have m: "must_be_1 sdm_machine demo_hw IA32_VMX_PROCBASED_CTLS IA32_VMX_TRUE_PROCBASED_CTLS = 0x04006172"
    and p: "may_be_1 sdm_machine demo_hw IA32_VMX_PROCBASED_CTLS IA32_VMX_TRUE_PROCBASED_CTLS = 0xFFF9FFFE"
    by code_simp+
  have "32 \<le> vmcs_width VMCS_CTRL_PROCESSOR_BASED_VM_EXECUTION_CONTROLS" by simp
  moreover have "snd (ctls_allowed_1 (ctl sdm_machine)) = 32" "supported sdm_machine f" for f
    by (simp_all add: sdm_machine_def sdm_ctl_layout_def)
  ultimately have "bit (vmx_vmread sdm_machine VMCS_CTRL_PROCESSOR_BASED_VM_EXECUTION_CONTROLS (snd ?r)) k \<longleftrightarrow>
      bit (0x04006172 :: u64) k \<or> bit (0xFFF9FFFE :: u64) k \<and> bit (0x10000000 :: u64) k" for k
    using control_field_allowed [where M = sdm_machine and f = VMCS_CTRL_PROCESSOR_BASED_VM_EXECUTION_CONTROLS
        and h = demo_hw and v = "0x10000000" and ok = "fst ?r" and h' = "snd ?r"
        and cap = IA32_VMX_PROCBASED_CTLS and true_cap = IA32_VMX_TRUE_PROCBASED_CTLS]
    unfolding m p by simp
  then have "vmx_vmread sdm_machine VMCS_CTRL_PROCESSOR_BASED_VM_EXECUTION_CONTROLS (snd ?r) =
      0x04006172 OR (0xFFF9FFFE AND 0x10000000)"
    by (intro bit_eqI) (simp only: bit_or_iff bit_and_iff)
  then show ?thesis by simp
qed

end
