(* ===== verification/Exception.thy ===== *)
theory Exception
  imports Vmcs_Control
begin

text \<open>
  Host exceptions (\<open>revhv-km/exception.cpp\<close>, \<open>exception_wrappers.asm\<close>, \<open>isr.h\<close>) and the entry
  points of the crash handling (\<open>error.cpp\<close>) as the handlers of one core see them: an
  unrecoverable error does not return, and neither does a core that finds another core crashing.
  The messages written to the log are left out.
\<close>

section \<open>Crash handling as seen by one core\<close>

definition unrecoverable_host_error :: "core \<Rightarrow> stop + 'a" where
  "unrecoverable_host_error st = Inl Unrecoverable_host_error"

definition give_control_on_unrecoverable_error :: "core \<Rightarrow> stop + core" where
  "give_control_on_unrecoverable_error st = (if crash_in_progress (ghv st) then Inl Gave_control else Inr st)"

section \<open>Exceptions\<close>

definition vector_has_error_code :: "u16 \<Rightarrow> bool" where
  "vector_has_error_code vector \<longleftrightarrow> vector \<in> {8, 10, 11, 12, 13, 14, 17, 21}"

text \<open>The parts of the frame that are not only logged.\<close>

record trap_frame =
  t_r14 :: u64
  t_r15 :: u64
  t_vector :: u64
  t_error_code :: u64
  t_rip :: u64

definition record_exception :: "trap_frame \<Rightarrow> core \<Rightarrow> core" where
  "record_exception tf st =
     on_vc (\<lambda>v. v\<lparr>exc_info := (exc_info v)\<lparr>exception_occurred := True, exception_vector := t_vector tf,
                                          error_code := t_error_code tf\<rparr>\<rparr>) st"

definition handle_generic :: "trap_frame \<Rightarrow> bool \<Rightarrow> core \<Rightarrow> stop + trap_frame \<times> core" where
  "handle_generic tf expected_exception st =
     (if \<not> expected_exception then unrecoverable_host_error st else unrecoverable_host_error st)"

definition handle_gp :: "trap_frame \<Rightarrow> bool \<Rightarrow> core \<Rightarrow> stop + trap_frame \<times> core" where
  "handle_gp tf expected_exception st =
     (if \<not> expected_exception then unrecoverable_host_error st
      else Inr (tf\<lparr>t_rip := t_r15 tf\<rparr>, record_exception tf st))"

definition handle_ud :: "trap_frame \<Rightarrow> bool \<Rightarrow> core \<Rightarrow> stop + trap_frame \<times> core" where
  "handle_ud tf expected_exception st =
     (if \<not> expected_exception then unrecoverable_host_error st
      else Inr (tf\<lparr>t_rip := t_r15 tf\<rparr>, record_exception tf st))"

definition handle_df :: "trap_frame \<Rightarrow> bool \<Rightarrow> core \<Rightarrow> stop + trap_frame \<times> core" where
  "handle_df tf expected_exception st = unrecoverable_host_error st"

definition handle_mc :: "trap_frame \<Rightarrow> bool \<Rightarrow> core \<Rightarrow> stop + trap_frame \<times> core" where
  "handle_mc tf expected_exception st = unrecoverable_host_error st"

definition queue_nmi :: "machine \<Rightarrow> core \<Rightarrow> core" where
  "queue_nmi M st =
     on_hw (enable_nmi_window_exiting M) (on_vc (\<lambda>v. v\<lparr>queued_nmi_count := queued_nmi_count v + 1\<rparr>) st)"

definition handle_host_nmi :: "machine \<Rightarrow> trap_frame \<Rightarrow> bool \<Rightarrow> core \<Rightarrow> stop + trap_frame \<times> core" where
  "handle_host_nmi M tf expected_exception st =
     and_then (give_control_on_unrecoverable_error st) (\<lambda>st. Inr (tf, queue_nmi M st))"

text \<open>
  Divide error, debug, breakpoint, overflow, bound range, device not available, invalid TSS,
  segment not present, stack fault, page fault, x87 error, alignment check, SIMD error,
  virtualization exception and control protection.
\<close>

definition generic_vectors :: "u64 set" where
  "generic_vectors = {0, 1, 3, 4, 5, 7, 10, 11, 12, 14, 16, 17, 19, 20, 21}"

definition handle_exception :: "machine \<Rightarrow> trap_frame \<Rightarrow> core \<Rightarrow> stop + trap_frame \<times> core" where
  "handle_exception M tf st =
     (let expected_exception = (t_r14 tf = t_rip tf); v = t_vector tf in
      if v = 8 then handle_df tf expected_exception st
      else if v = 13 then handle_gp tf expected_exception st
      else if v = 6 then handle_ud tf expected_exception st
      else if v = 18 then handle_mc tf expected_exception st
      else if v = 2 then handle_host_nmi M tf expected_exception st
      else if v \<in> generic_vectors then handle_generic tf expected_exception st
      else unrecoverable_host_error st)"

section \<open>Instructions that may fault\<close>

text \<open>
  A wrapper loads R14 with the address of its instruction and R15 with its own end, so that a
  fault of the instruction is an expected exception and execution resumes at the end.
\<close>

definition wrapper_frame :: "machine \<Rightarrow> wrapped \<Rightarrow> u64 \<Rightarrow> u64 \<Rightarrow> trap_frame" where
  "wrapper_frame M w vec ec =
     \<lparr>t_r14 = fst (code_addr M w), t_r15 = snd (code_addr M w), t_vector = vec, t_error_code = ec,
      t_rip = fst (code_addr M w)\<rparr>"

definition run_wrapped :: "machine \<Rightarrow> wrapped \<Rightarrow> (hw \<Rightarrow> hw) \<Rightarrow> core \<Rightarrow> stop + core" where
  "run_wrapped M w effect st =
     (case instruction_fault M (hws st) w of
        None \<Rightarrow> Inr (on_hw effect st)
      | Some (vec, ec) \<Rightarrow> and_then (handle_exception M (wrapper_frame M w vec ec) st) (\<lambda>(tf, st'). Inr st'))"

text \<open>After a fault the result register holds no result; the callers do not use it.\<close>

definition rdmsr_wrapper :: "machine \<Rightarrow> u32 \<Rightarrow> core \<Rightarrow> stop + u64 \<times> core" where
  "rdmsr_wrapper M msr st = and_then (run_wrapped M (W_rdmsr msr) id st) (\<lambda>st'. Inr (msrs (hws st) msr, st'))"

definition wrmsr_wrapper :: "machine \<Rightarrow> u32 \<Rightarrow> u64 \<Rightarrow> core \<Rightarrow> stop + core" where
  "wrmsr_wrapper M msr v = run_wrapped M (W_wrmsr msr v) (\<lambda>h. h\<lparr>msrs := (msrs h)(msr := v)\<rparr>)"

definition invd_wrapper :: "machine \<Rightarrow> core \<Rightarrow> stop + core" where
  "invd_wrapper M = run_wrapped M W_invd id"

definition xsetbv_wrapper :: "machine \<Rightarrow> u32 \<Rightarrow> u64 \<Rightarrow> core \<Rightarrow> stop + core" where
  "xsetbv_wrapper M index v = run_wrapped M (W_xsetbv index v) (\<lambda>h. h\<lparr>xcrs := (xcrs h)(index := v)\<rparr>)"

lemmas wrapper_defs = rdmsr_wrapper_def wrmsr_wrapper_def invd_wrapper_def xsetbv_wrapper_def

section \<open>Which exceptions return\<close>

lemmas exception_defs = handle_exception_def handle_generic_def handle_gp_def handle_ud_def handle_df_def
  handle_mc_def handle_host_nmi_def unrecoverable_host_error_def give_control_on_unrecoverable_error_def

text \<open>
  Only three exceptions of the host are survived. The handler returns for a general protection
  fault or an invalid opcode at the instruction a wrapper announced in R14, which it records for
  the wrapper's caller before it resumes at R15, and for an NMI while no core is crashing, which
  it queues for the guest with NMI-window exiting turned on, leaving the interrupted code where it
  was. Every other exception ends in a crash of the host, or in handing control back to a crash
  already in progress.
\<close>

theorem only_expected_exceptions_return:
  "handle_exception M tf st =
     (if (t_vector tf = 6 \<or> t_vector tf = 13) \<and> t_r14 tf = t_rip tf
      then Inr (tf\<lparr>t_rip := t_r15 tf\<rparr>, record_exception tf st)
      else if t_vector tf = 2
           then (if crash_in_progress (ghv st) then Inl Gave_control else Inr (tf, queue_nmi M st))
      else Inl Unrecoverable_host_error)"
  unfolding exception_defs Let_def by simp

lemma wrapper_fault:
  "handle_exception M (wrapper_frame M w vec ec) st =
     (if vec = 6 \<or> vec = 13
      then Inr ((wrapper_frame M w vec ec)\<lparr>t_rip := snd (code_addr M w)\<rparr>,
                record_exception (wrapper_frame M w vec ec) st)
      else if vec = 2
           then (if crash_in_progress (ghv st) then Inl Gave_control
                 else Inr (wrapper_frame M w vec ec, queue_nmi M st))
      else Inl Unrecoverable_host_error)"
  unfolding exception_defs Let_def wrapper_frame_def by simp

text \<open>
  The outcome of a wrapped instruction that either succeeds or raises one of the two exceptions
  the wrappers expect.
\<close>

lemma run_wrapped_ok:
  assumes "instruction_fault M (hws st) w = None"
  shows "run_wrapped M w f st = Inr (on_hw f st)"
  using assms by (simp add: run_wrapped_def)

lemma run_wrapped_fault:
  assumes "instruction_fault M (hws st) w = Some (vec, ec)" and "vec = 6 \<or> vec = 13"
  shows "run_wrapped M w f st = Inr (record_exception (wrapper_frame M w vec ec) st)"
  using assms by (auto simp: run_wrapped_def wrapper_fault)

end
