(* ===== verification/Vmexit_Instr.thy ===== *)
theory Vmexit_Instr
  imports Exception
begin

text \<open>
  The VM-exit handlers of emulated instructions and of NMIs (\<open>revhv-km/vmexit.cpp\<close>): a handler either
  completes the instruction of the guest, so that the guest continues behind it, or injects the
  exception the processor would raise and leaves the guest where it is.
\<close>

section \<open>Completing an instruction\<close>

definition next_rip :: "machine \<Rightarrow> hw \<Rightarrow> u64" where
  "next_rip M h =
     (let rip = vmx_vmread M VMCS_GUEST_RIP h;
          instruction_length = vmx_vmread M VMCS_VMEXIT_INSTRUCTION_LENGTH h;
          new_rip = rip + instruction_length
      in if rip < 0x100000000 \<and> new_rip \<ge> 0x100000000
         then (let cs_access_rights = ucast (ucast (vmx_vmread M VMCS_GUEST_CS_ACCESS_RIGHTS h) :: u32)
               in if \<not> flag (ar_long_mode (evl M)) cs_access_rights then new_rip AND 0xFFFFFFFF else new_rip)
         else new_rip)"

definition unblock_interrupts :: "machine \<Rightarrow> hw \<Rightarrow> hw" where
  "unblock_interrupts M h =
     (let s = vmx_vmread M VMCS_GUEST_INTERRUPTIBILITY_STATE h
      in if flag (is_blocking_by_mov_ss (evl M)) s \<or> flag (is_blocking_by_sti (evl M)) s
         then vmwrite M VMCS_GUEST_INTERRUPTIBILITY_STATE
                (put_flag (is_blocking_by_sti (evl M)) False (put_flag (is_blocking_by_mov_ss (evl M)) False s)) h
         else h)"

definition pend_single_step :: "machine \<Rightarrow> hw \<Rightarrow> hw" where
  "pend_single_step M h =
     (let guest_rflags = vmx_vmread M VMCS_GUEST_RFLAGS h;
          pending = vmx_vmread M VMCS_GUEST_PENDING_DEBUG_EXCEPTIONS h
      in if flag (rf_trap_flag (evl M)) guest_rflags \<and> \<not> flag (pd_bs (evl M)) pending
         then vmwrite M VMCS_GUEST_PENDING_DEBUG_EXCEPTIONS (put_flag (pd_bs (evl M)) True pending) h
         else h)"

definition advance_guest_rip :: "machine \<Rightarrow> core \<Rightarrow> stop + core" where
  "advance_guest_rip M st =
     (let h = hws st; r = vmx_vmwrite M VMCS_GUEST_RIP (next_rip M h) h
      in if \<not> fst r then Inl Host_halted
         else Inr (st\<lparr>hws := pend_single_step M (unblock_interrupts M (snd r))\<rparr>))"

section \<open>Injecting a fault of the host\<close>

definition inject_host_hw_exception_to_guest :: "machine \<Rightarrow> core \<Rightarrow> core" where
  "inject_host_hw_exception_to_guest M st =
     (let x = exc_info (vc st); vector = ucast (exception_vector x) :: u16
      in on_vc (\<lambda>v. v\<lparr>exc_info := clear_exception_info (exc_info v)\<rparr>)
          (on_hw (if vector_has_error_code vector
                  then inject_hw_exception_code M vector (ucast (error_code x))
                  else inject_hw_exception M vector) st))"

definition raise_gp :: "machine \<Rightarrow> core \<Rightarrow> stop + core" where
  "raise_gp M st = Inr (on_hw (inject_hw_exception_code M general_protection 0) st)"

section \<open>VM-entry failures\<close>

datatype entry_failure = Invalid_guest_state u64 | Msr_load_failure u64 | Machine_check_failure | Unknown_failure u64

definition entry_failure_of :: "u64 \<Rightarrow> u64 \<Rightarrow> entry_failure" where
  "entry_failure_of basic_exit_reason exit_qualification =
     (if basic_exit_reason = 33 then Invalid_guest_state exit_qualification
      else if basic_exit_reason = 34 then Msr_load_failure exit_qualification
      else if basic_exit_reason = 41 then Machine_check_failure
      else Unknown_failure basic_exit_reason)"

text \<open>The cause is written to the log, then the host crashes.\<close>

definition handle_vm_entry_failure :: "machine \<Rightarrow> u64 \<Rightarrow> core \<Rightarrow> stop + core" where
  "handle_vm_entry_failure M basic_exit_reason st =
     (let cause = entry_failure_of basic_exit_reason (vmx_vmread M VMCS_EXIT_QUALIFICATION (hws st))
      in unrecoverable_host_error st)"

section \<open>CPUID, RDMSR, WRMSR\<close>

definition timed :: "machine \<Rightarrow> u64 \<Rightarrow> core \<Rightarrow> core" where
  "timed M start st =
     (let e = rdtsc M (hws st)
      in on_vc (set_instruction_overhead (fst e - start)) (st\<lparr>hws := snd e\<rparr>))"

definition read_tsc :: "machine \<Rightarrow> core \<Rightarrow> u64 \<times> core" where
  "read_tsc M st = (let r = rdtsc M (hws st) in (fst r, st\<lparr>hws := snd r\<rparr>))"

definition put_cpuid :: "u32 \<times> u32 \<times> u32 \<times> u32 \<Rightarrow> guest_context \<Rightarrow> guest_context" where
  "put_cpuid r g = (case r of (a, b, c, d) \<Rightarrow>
     g\<lparr>g_rax := put_low32 a (g_rax g), g_rbx := put_low32 b (g_rbx g),
       g_rcx := put_low32 c (g_rcx g), g_rdx := put_low32 d (g_rdx g)\<rparr>)"

definition handle_cpuid :: "machine \<Rightarrow> core \<Rightarrow> stop + core" where
  "handle_cpuid M st =
     (let (start, st1) = read_tsc M st;
          cpuid = cpuid_regs M (low32 (g_rax (cx st1))) (low32 (g_rcx (cx st1)));
          st2 = timed M start st1
      in advance_guest_rip M (on_cx (put_cpuid cpuid) st2))"

text \<open>What a handler does after a wrapped instruction.\<close>

definition finish_wrapped :: "machine \<Rightarrow> (core \<Rightarrow> stop + core) \<Rightarrow> core \<Rightarrow> stop + core" where
  "finish_wrapped M k st =
     (if exception_occurred (exc_info (vc st)) then Inr (inject_host_hw_exception_to_guest M st)
      else and_then (k st) (advance_guest_rip M))"

abbreviation HV_X64_MSR_GUEST_IDLE :: u32 where "HV_X64_MSR_GUEST_IDLE \<equiv> 0x400000F0"

definition handle_rdmsr :: "machine \<Rightarrow> core \<Rightarrow> stop + core" where
  "handle_rdmsr M st =
     (let msr = low32 (g_rcx (cx st)); (start, st1) = read_tsc M st
      in and_then (if msr = HV_X64_MSR_GUEST_IDLE then Inr (0, st1) else rdmsr_wrapper M msr st1)
           (\<lambda>(msr_result, st2).
              finish_wrapped M
                (\<lambda>st. Inr (on_cx (\<lambda>g. g\<lparr>g_rdx := put_low32 (ucast (drop_bit 32 msr_result)) (g_rdx g),
                                        g_rax := put_low32 (ucast msr_result) (g_rax g)\<rparr>) st))
                (timed M start st2)))"

definition is_mtrr_msr :: "u32 \<Rightarrow> bool" where
  "is_mtrr_msr msr \<longleftrightarrow>
     (if msr = IA32_MTRR_DEF_TYPE then True
      else if msr = IA32_MTRR_FIX64K_00000 then True
      else if msr \<ge> fix16k_msrs ! 0 \<and> msr \<le> fix16k_msrs ! 1 then True
      else if msr \<ge> fix4k_msrs ! 0 \<and> msr \<le> fix4k_msrs ! 7 then True
      else if msr \<ge> IA32_MTRR_PHYSBASE0 \<and> msr \<le> IA32_MTRR_PHYSBASE0 + 19 then True
      else False)"

text \<open>The value of EDX:EAX.\<close>

definition edx_eax :: "guest_context \<Rightarrow> u64" where
  "edx_eax g = push_bit 32 (ucast (low32 (g_rdx g))) OR ucast (low32 (g_rax g))"

text \<open>
  The update of the extended page tables is the option of \<open>update_ept_memory_types\<close>; where it is
  \<open>None\<close> the walk over a memory range does not end.
\<close>

definition follow_mtrrs :: "machine \<Rightarrow> core \<Rightarrow> stop + core" where
  "follow_mtrrs M st =
     (let ms = read_mtrrs (mtrrl M) (msrs (hws st))
      in case (update_ept_memory_types (ph_normal M) (ept_pages_normal (vc st)) ms,
               update_ept_memory_types (ph_target M) (ept_pages_target (vc st)) ms) of
           (Some en, Some et) \<Rightarrow>
             Inr (on_hw (invept invept_all_context 0)
               (on_vc (\<lambda>v. v\<lparr>vc_mtrr_state := ms, ept_pages_normal := en, ept_pages_target := et\<rparr>) st))
         | _ \<Rightarrow> Inl Endless_loop)"

definition handle_wrmsr :: "machine \<Rightarrow> core \<Rightarrow> stop + core" where
  "handle_wrmsr M st =
     (let msr = low32 (g_rcx (cx st)); v = edx_eax (cx st); (start, st1) = read_tsc M st
      in and_then (wrmsr_wrapper M msr v st1)
           (\<lambda>st2. finish_wrapped M (\<lambda>st. if is_mtrr_msr msr then follow_mtrrs M st else Inr st) (timed M start st2)))"

section \<open>INVD, GETSEC, XSETBV and VMX instructions\<close>

definition handle_invd :: "machine \<Rightarrow> core \<Rightarrow> stop + core" where
  "handle_invd M st = and_then (invd_wrapper M st) (finish_wrapped M Inr)"

definition handle_getsec :: "machine \<Rightarrow> core \<Rightarrow> stop + core" where
  "handle_getsec M st = Inr (on_hw (inject_hw_exception M invalid_opcode) st)"

definition handle_xsetbv :: "machine \<Rightarrow> core \<Rightarrow> stop + core" where
  "handle_xsetbv M st =
     (let index = low32 (g_rcx (cx st)); v = edx_eax (cx st); (start, st1) = read_tsc M st
      in and_then (xsetbv_wrapper M index v st1) (\<lambda>st2. finish_wrapped M Inr (timed M start st2)))"

definition handle_vmx_instruction :: "machine \<Rightarrow> core \<Rightarrow> stop + core" where
  "handle_vmx_instruction M st = Inr (on_hw (inject_hw_exception M invalid_opcode) st)"

section \<open>NMIs\<close>

definition handle_nmi :: "machine \<Rightarrow> core \<Rightarrow> stop + core" where
  "handle_nmi M st = and_then (give_control_on_unrecoverable_error st) (\<lambda>st. Inr (queue_nmi M st))"

text \<open>The second test of the count sees the NMIs that arrived in between; here there are none.\<close>

definition handle_nmi_window :: "machine \<Rightarrow> core \<Rightarrow> stop + core" where
  "handle_nmi_window M st =
     (let st1 = on_hw (inject_nmi M) (on_vc (\<lambda>v. v\<lparr>queued_nmi_count := queued_nmi_count v - 1\<rparr>) st)
      in Inr (if queued_nmi_count (vc st1) = 0
              then (let st2 = on_hw (disable_nmi_window_exiting M) st1
                    in if queued_nmi_count (vc st2) \<noteq> 0 then on_hw (enable_nmi_window_exiting M) st2 else st2)
              else st1))"

section \<open>Facts about completing an instruction\<close>

lemma vmread_unblock [simp]:
  "f \<noteq> VMCS_GUEST_INTERRUPTIBILITY_STATE \<Longrightarrow> vmx_vmread M f (unblock_interrupts M h) = vmx_vmread M f h"
  by (simp add: unblock_interrupts_def Let_def)

lemma vmread_pend [simp]:
  "f \<noteq> VMCS_GUEST_PENDING_DEBUG_EXCEPTIONS \<Longrightarrow> vmx_vmread M f (pend_single_step M h) = vmx_vmread M f h"
  by (simp add: pend_single_step_def Let_def)

lemma advance_frame [simp]:
  "msrs (unblock_interrupts M h) = msrs h" "xcrs (unblock_interrupts M h) = xcrs h" "invepts (unblock_interrupts M h) = invepts h"
  "msrs (pend_single_step M h) = msrs h" "xcrs (pend_single_step M h) = xcrs h" "invepts (pend_single_step M h) = invepts h"
  by (simp_all add: unblock_interrupts_def pend_single_step_def Let_def)

text \<open>The processor has the fields involved, and the members involved lie inside them.\<close>

definition platform_ok :: "machine \<Rightarrow> bool" where
  "platform_ok M \<longleftrightarrow> events_supported M \<and>
     (\<forall>f \<in> {VMCS_GUEST_RIP, VMCS_GUEST_INTERRUPTIBILITY_STATE, VMCS_GUEST_PENDING_DEBUG_EXCEPTIONS,
            VMCS_GUEST_RFLAGS, VMCS_VMEXIT_INSTRUCTION_LENGTH, VMCS_GUEST_CS_ACCESS_RIGHTS,
            VMCS_CTRL_CR0_READ_SHADOW, VMCS_CTRL_CR4_READ_SHADOW, VMCS_GUEST_CR0, VMCS_GUEST_CR4,
            VMCS_CTRL_CR0_GUEST_HOST_MASK, VMCS_CTRL_CR4_GUEST_HOST_MASK, VMCS_CTRL_EPT_POINTER}. supported M f) \<and>
     is_blocking_by_sti (evl M) < 32 \<and> is_blocking_by_mov_ss (evl M) < 32 \<and>
     is_blocking_by_sti (evl M) \<noteq> is_blocking_by_mov_ss (evl M) \<and> pd_bs (evl M) < 64"

lemma platform_supported:
  "platform_ok M \<Longrightarrow> supported M VMCS_GUEST_RIP" "platform_ok M \<Longrightarrow> events_supported M"
  "platform_ok M \<Longrightarrow> supported M VMCS_GUEST_INTERRUPTIBILITY_STATE"
  "platform_ok M \<Longrightarrow> supported M VMCS_GUEST_PENDING_DEBUG_EXCEPTIONS"
  "platform_ok M \<Longrightarrow> supported M VMCS_CTRL_CR0_READ_SHADOW" "platform_ok M \<Longrightarrow> supported M VMCS_CTRL_CR4_READ_SHADOW"
  "platform_ok M \<Longrightarrow> supported M VMCS_GUEST_CR0" "platform_ok M \<Longrightarrow> supported M VMCS_GUEST_CR4"
  "platform_ok M \<Longrightarrow> supported M VMCS_CTRL_EPT_POINTER"
  by (simp_all add: platform_ok_def)

lemma sdm_platform_ok: "platform_ok sdm_machine"
  by (simp add: platform_ok_def sdm_machine_def events_supported_def event_layout_ok_def sdm_event_layout_def)

lemma advance_result:
  assumes "supported M VMCS_GUEST_RIP"
  shows "advance_guest_rip M st =
     Inr (st\<lparr>hws := pend_single_step M (unblock_interrupts M (vmwrite M VMCS_GUEST_RIP (next_rip M (hws st)) (hws st)))\<rparr>)"
  using assms by (simp add: advance_guest_rip_def Let_def)

text \<open>What a handler leaves of the parts of a core that it must not touch.\<close>

lemma vm_entry_event_cong:
  assumes "vmx_vmread M VMCS_CTRL_VMENTRY_INTERRUPTION_INFORMATION_FIELD h' =
      vmx_vmread M VMCS_CTRL_VMENTRY_INTERRUPTION_INFORMATION_FIELD h"
    and "vmx_vmread M VMCS_CTRL_VMENTRY_EXCEPTION_ERROR_CODE h' = vmx_vmread M VMCS_CTRL_VMENTRY_EXCEPTION_ERROR_CODE h"
  shows "vm_entry_event M h' = vm_entry_event M h"
  unfolding vm_entry_event_def assms ..

definition completes :: "machine \<Rightarrow> core \<Rightarrow> core \<Rightarrow> bool" where
  "completes M st st' \<longleftrightarrow>
     vmx_vmread M VMCS_GUEST_RIP (hws st') = next_rip M (hws st) \<and>
     vm_entry_event M (hws st') = vm_entry_event M (hws st) \<and> exc_info (vc st') = exc_info (vc st)"

text \<open>The guest gets an exception with the vector and the low 16 bits of the error code.\<close>

definition faults_with :: "machine \<Rightarrow> u64 \<Rightarrow> u64 \<Rightarrow> core \<Rightarrow> core \<Rightarrow> bool" where
  "faults_with M vec ec st st' \<longleftrightarrow>
     vmx_vmread M VMCS_GUEST_RIP (hws st') = vmx_vmread M VMCS_GUEST_RIP (hws st) \<and>
     vm_entry_event M (hws st') = Exception_event vec (if vector_has_error_code (ucast vec) then Some (take_bit 16 ec) else None) \<and>
     cx st' = cx st \<and> msrs (hws st') = msrs (hws st) \<and> xcrs (hws st') = xcrs (hws st) \<and>
     \<not> exception_occurred (exc_info (vc st'))"

lemma vmcs_width_rip [simp]: "vmcs_width VMCS_GUEST_RIP = 64"
  by simp

lemma completes_advance:
  assumes "platform_ok M" and "vmx_vmread M VMCS_GUEST_RIP (hws st1) = vmx_vmread M VMCS_GUEST_RIP (hws st)"
    and "next_rip M (hws st1) = next_rip M (hws st)" and "vm_entry_event M (hws st1) = vm_entry_event M (hws st)"
    and "exc_info (vc st1) = exc_info (vc st)"
  shows "\<exists>st'. advance_guest_rip M st1 = Inr st' \<and> completes M st st' \<and> cx st' = cx st1 \<and> vc st' = vc st1 \<and>
    mem st' = mem st1 \<and> msrs (hws st') = msrs (hws st1) \<and> xcrs (hws st') = xcrs (hws st1) \<and> invepts (hws st') = invepts (hws st1)"
proof -
  let ?h = "pend_single_step M (unblock_interrupts M (vmwrite M VMCS_GUEST_RIP (next_rip M (hws st1)) (hws st1)))"
  have "vm_entry_event M ?h = vm_entry_event M (hws st1)"
    by (rule vm_entry_event_cong) simp_all
  then show ?thesis
    using assms advance_result [OF platform_supported(1) [OF assms(1)], of st1] platform_supported(1) [OF assms(1)]
    by (simp add: completes_def)
qed

lemma take_bit_vector: "vec = 6 \<or> vec = 13 \<Longrightarrow> take_bit 8 (ucast (ucast vec :: u16)) = (vec :: u64)"
  by (auto simp: take_bit_eq_mask mask_numeral)

lemma ucast_16: "ucast (ucast w :: u16) = (take_bit 16 w :: u64)"
  by (rule bit_word_eqI) (auto simp: bit_simps bit_ucast_iff)

lemma inject_host_exception:
  assumes "platform_ok M" and "exception_vector (exc_info (vc st)) = vec" and "vec = 6 \<or> vec = 13"
    and "error_code (exc_info (vc st)) = ec"
  shows "vm_entry_event M (hws (inject_host_hw_exception_to_guest M st)) =
      Exception_event vec (if vector_has_error_code (ucast vec) then Some (take_bit 16 ec) else None)"
    and "f \<notin> {VMCS_CTRL_VMENTRY_INTERRUPTION_INFORMATION_FIELD, VMCS_CTRL_VMENTRY_EXCEPTION_ERROR_CODE} \<Longrightarrow>
      vmx_vmread M f (hws (inject_host_hw_exception_to_guest M st)) = vmx_vmread M f (hws st)"
    and "cx (inject_host_hw_exception_to_guest M st) = cx st"
    and "msrs (hws (inject_host_hw_exception_to_guest M st)) = msrs (hws st)"
    and "xcrs (hws (inject_host_hw_exception_to_guest M st)) = xcrs (hws st)"
    and "\<not> exception_occurred (exc_info (vc (inject_host_hw_exception_to_guest M st)))"
proof -
  note ev = event_exception [OF platform_supported(2) [OF assms(1)]]
    event_exception_code [OF platform_supported(2) [OF assms(1)]]
  have v: "take_bit 8 vec = vec"
    using take_bit_vector [OF assms(3)] by (simp add: ucast_16)
  show "vm_entry_event M (hws (inject_host_hw_exception_to_guest M st)) =
      Exception_event vec (if vector_has_error_code (ucast vec) then Some (take_bit 16 ec) else None)"
    by (simp add: inject_host_hw_exception_to_guest_def Let_def assms(2,4) ev v ucast_16)
qed (simp_all add: inject_host_hw_exception_to_guest_def Let_def clear_exception_info_def
      inject_hw_exception_def inject_hw_exception_code_def)

text \<open>The fault of a wrapped instruction reaches the guest.\<close>

lemma wrapped_fault_result:
  assumes "platform_ok M" and "instruction_fault M (hws st1) w = Some (vec, ec)" and "vec = 6 \<or> vec = 13"
    and "cx st1 = cx st" and "msrs (hws st1) = msrs (hws st)" and "xcrs (hws st1) = xcrs (hws st)"
    and "vmx_vmread M VMCS_GUEST_RIP (hws st1) = vmx_vmread M VMCS_GUEST_RIP (hws st)"
  shows "\<exists>st2. run_wrapped M w f st1 = Inr st2 \<and> msrs (hws st2) = msrs (hws st) \<and>
    (\<forall>k. \<exists>st'. finish_wrapped M k st2 = Inr st' \<and> faults_with M vec ec st st') \<and>
    (\<forall>k start. \<exists>st'. finish_wrapped M k (timed M start st2) = Inr st' \<and> faults_with M vec ec st st')"
proof -
  let ?s = "record_exception (wrapper_frame M w vec ec) st1"
  have x: "exc_info (vc ?s) = (exc_info (vc st1))\<lparr>exception_occurred := True, exception_vector := vec, error_code := ec\<rparr>"
    by (simp add: record_exception_def wrapper_frame_def)
  have t: "exc_info (vc (timed M start st)) = exc_info (vc st)" "cx (timed M start st) = cx st"
    "msrs (hws (timed M start st)) = msrs (hws st)" "xcrs (hws (timed M start st)) = xcrs (hws st)"
    "vmx_vmread M f (hws (timed M start st)) = vmx_vmread M f (hws st)" for start st f
    by (simp_all add: timed_def rdtsc_def Let_def set_instruction_overhead_def)
  have r: "cx ?s = cx st1" "hws ?s = hws st1" by (simp_all add: record_exception_def)
  have "faults_with M vec ec st (inject_host_hw_exception_to_guest M st2)"
    if "exc_info (vc st2) = exc_info (vc ?s)" "cx st2 = cx st" "msrs (hws st2) = msrs (hws st)" "xcrs (hws st2) = xcrs (hws st)"
      "vmx_vmread M VMCS_GUEST_RIP (hws st2) = vmx_vmread M VMCS_GUEST_RIP (hws st)" for st2
    using inject_host_exception [OF assms(1), of st2 vec ec] that x assms(3)
    by (simp add: faults_with_def)
  then show ?thesis
    using run_wrapped_fault [OF assms(2,3), of f] x t r assms(4-7)
    by (simp add: finish_wrapped_def)
qed

section \<open>Properties\<close>

text \<open>
  Completing an instruction moves the guest behind it and does what a processor does besides:
  the next instruction pointer is the sum modulo \<open>2 ^ 64\<close>, cut to 32 bits when a guest outside 64-bit
  mode runs past 4 GB; interrupts blocked by STI or MOV SS are no longer blocked; a single-step
  trap is pending if the trap flag is set; and nothing else of the VMCS changes. The processor is
  halted only if it refuses the write of the instruction pointer.
\<close>

theorem advance_rip_correct:
  assumes "platform_ok M"
  defines "rip h \<equiv> vmx_vmread M VMCS_GUEST_RIP h"
    and "blocked h \<equiv> flag (is_blocking_by_sti (evl M)) (vmx_vmread M VMCS_GUEST_INTERRUPTIBILITY_STATE h) \<or>
      flag (is_blocking_by_mov_ss (evl M)) (vmx_vmread M VMCS_GUEST_INTERRUPTIBILITY_STATE h)"
    and "step h \<equiv> flag (pd_bs (evl M)) (vmx_vmread M VMCS_GUEST_PENDING_DEBUG_EXCEPTIONS h)"
    and "long_mode h \<equiv> flag (ar_long_mode (evl M)) (take_bit 32 (vmx_vmread M VMCS_GUEST_CS_ACCESS_RIGHTS h))"
  shows "\<exists>h'. advance_guest_rip M st = Inr (st\<lparr>hws := h'\<rparr>) \<and>
    (let t = rip (hws st) + vmx_vmread M VMCS_VMEXIT_INSTRUCTION_LENGTH (hws st)
     in rip h' = (if rip (hws st) < 0x100000000 \<and> 0x100000000 \<le> t \<and> \<not> long_mode (hws st) then take_bit 32 t else t)) \<and>
    \<not> blocked h' \<and>
    step h' = (step (hws st) \<or> flag (rf_trap_flag (evl M)) (vmx_vmread M VMCS_GUEST_RFLAGS (hws st))) \<and>
    (\<forall>f. f \<notin> {VMCS_GUEST_RIP, VMCS_GUEST_INTERRUPTIBILITY_STATE, VMCS_GUEST_PENDING_DEBUG_EXCEPTIONS} \<longrightarrow>
       vmx_vmread M f h' = vmx_vmread M f (hws st))"
proof -
  let ?h1 = "vmwrite M VMCS_GUEST_RIP (next_rip M (hws st)) (hws st)"
  let ?h2 = "unblock_interrupts M ?h1"
  let ?h3 = "pend_single_step M ?h2"
  note sup = platform_supported [OF assms(1)]
  have b: "is_blocking_by_sti (evl M) < 32" "is_blocking_by_mov_ss (evl M) < 32" "pd_bs (evl M) < 64"
    using assms(1) by (simp_all add: platform_ok_def)
  have m32: "w AND 0xFFFFFFFF = take_bit 32 w" for w :: u64
    by (simp add: take_bit_eq_mask mask_eq_exp_minus_1)
  have c32: "ucast (ucast w :: u32) = (take_bit 32 w :: u64)" for w :: u64
    by (rule bit_word_eqI) (auto simp: bit_simps bit_ucast_iff)
  have "rip ?h3 = next_rip M (hws st)"
    using sup by (simp add: rip_def)
  then have r: "let t = rip (hws st) + vmx_vmread M VMCS_VMEXIT_INSTRUCTION_LENGTH (hws st)
     in rip ?h3 = (if rip (hws st) < 0x100000000 \<and> 0x100000000 \<le> t \<and> \<not> long_mode (hws st) then take_bit 32 t else t)"
    by (simp add: next_rip_def rip_def long_mode_def Let_def m32 c32)
  have "\<not> blocked ?h2"
    using sup b by (auto simp: blocked_def unblock_interrupts_def Let_def flag_take_bit)
  moreover have "blocked ?h3 = blocked ?h2"
    by (simp add: blocked_def)
  moreover have "step ?h3 = (step (hws st) \<or> flag (rf_trap_flag (evl M)) (vmx_vmread M VMCS_GUEST_RFLAGS (hws st)))"
    using sup b by (auto simp: step_def pend_single_step_def Let_def)
  ultimately show ?thesis
    using advance_result [OF sup(1), of st] r by (intro exI [of _ ?h3]) simp
qed

theorem advance_rip_correct_witness:
  "\<exists>h'. advance_guest_rip sdm_machine demo_core = Inr (demo_core\<lparr>hws := h'\<rparr>) \<and>
     \<not> flag 0 (vmx_vmread sdm_machine VMCS_GUEST_INTERRUPTIBILITY_STATE h')"
  using advance_rip_correct [OF sdm_platform_ok, of demo_core]
  by (auto simp: Let_def) (auto simp: sdm_machine_def sdm_event_layout_def)

lemma read_tsc_frame [simp]:
  "cx (snd (read_tsc M st)) = cx st" "vc (snd (read_tsc M st)) = vc st" "mem (snd (read_tsc M st)) = mem st"
  "msrs (hws (snd (read_tsc M st))) = msrs (hws st)" "xcrs (hws (snd (read_tsc M st))) = xcrs (hws st)"
  "vmx_vmread M f (hws (snd (read_tsc M st))) = vmx_vmread M f (hws st)"
  by (simp_all add: read_tsc_def rdtsc_def Let_def)

lemma timed_frame [simp]:
  "cx (timed M n st) = cx st" "mem (timed M n st) = mem st" "exc_info (vc (timed M n st)) = exc_info (vc st)"
  "vc_mtrr_state (vc (timed M n st)) = vc_mtrr_state (vc st)"
  "ept_pages_normal (vc (timed M n st)) = ept_pages_normal (vc st)"
  "ept_pages_target (vc (timed M n st)) = ept_pages_target (vc st)"
  "msrs (hws (timed M n st)) = msrs (hws st)" "xcrs (hws (timed M n st)) = xcrs (hws st)"
  "vmx_vmread M f (hws (timed M n st)) = vmx_vmread M f (hws st)"
  by (simp_all add: timed_def rdtsc_def Let_def set_instruction_overhead_def)

lemma next_rip_cong:
  assumes "\<And>f. vmx_vmread M f h' = vmx_vmread M f h"
  shows "next_rip M h' = next_rip M h" "vm_entry_event M h' = vm_entry_event M h"
  unfolding next_rip_def vm_entry_event_def assms by (rule refl)+

lemma low32_put: "low32 (put_low32 v r) = v"
proof (rule bit_word_eqI)
  fix n
  assume "n < LENGTH(32)"
  then show "bit (low32 (put_low32 v r)) n = bit v n"
    by (simp add: low32_def put_low32_def bit_ucast_iff bit_or_iff bit_and_iff bit_not_iff bit_mask_iff)
qed

lemma put_low32_high: "drop_bit 32 (put_low32 v r) = drop_bit 32 r"
proof (rule bit_word_eqI)
  fix n
  have "\<not> bit v (32 + n)"
    using bit_imp_le_length [of v "32 + n"] by auto
  then show "bit (drop_bit 32 (put_low32 v r)) n = bit (drop_bit 32 r) n"
    using bit_imp_le_length [of r "32 + n"]
    by (auto simp: put_low32_def bit_drop_bit_eq bit_or_iff bit_and_iff bit_not_iff bit_mask_iff bit_ucast_iff)
qed

lemma rdmsr_completes:
  assumes "platform_ok M" and "\<not> exception_occurred (exc_info (vc st))"
  defines "msr \<equiv> low32 (g_rcx (cx st))"
  assumes that: "msr = HV_X64_MSR_GUEST_IDLE \<or> instruction_fault M (snd (rdtsc M (hws st))) (W_rdmsr msr) = None"
  shows "\<exists>st'. handle_rdmsr M st = Inr st' \<and> completes M st st' \<and>
    edx_eax (cx st') = (if msr = HV_X64_MSR_GUEST_IDLE then 0 else msrs (hws st) msr) \<and>
    drop_bit 32 (g_rax (cx st')) = drop_bit 32 (g_rax (cx st)) \<and>
    drop_bit 32 (g_rdx (cx st')) = drop_bit 32 (g_rdx (cx st))"
proof -
  obtain start st1 where t: "read_tsc M st = (start, st1)" by fastforce
  note f = read_tsc_frame [where M = M and st = st, unfolded t snd_conv]
  have h1: "hws st1 = snd (rdtsc M (hws st))"
    using t by (auto simp: read_tsc_def Let_def)
  have fin: "\<exists>st'. and_then (Inr (r, st2)) (\<lambda>(msr_result, st2). finish_wrapped M
        (\<lambda>st. Inr (on_cx (\<lambda>g. g\<lparr>g_rdx := put_low32 (ucast (drop_bit 32 msr_result)) (g_rdx g),
                               g_rax := put_low32 (ucast msr_result) (g_rax g)\<rparr>) st)) (timed M start st2)) = Inr st' \<and>
      completes M st st' \<and> edx_eax (cx st') = r \<and>
      drop_bit 32 (g_rax (cx st')) = drop_bit 32 (g_rax (cx st)) \<and> drop_bit 32 (g_rdx (cx st')) = drop_bit 32 (g_rdx (cx st))"
    if s: "cx st2 = cx st" "vc st2 = vc st" "\<And>f. vmx_vmread M f (hws st2) = vmx_vmread M f (hws st)" for r st2
  proof -
    let ?st3 = "on_cx (\<lambda>g. g\<lparr>g_rdx := put_low32 (ucast (drop_bit 32 r)) (g_rdx g), g_rax := put_low32 (ucast r) (g_rax g)\<rparr>) (timed M start st2)"
    have v: "\<And>f. vmx_vmread M f (hws ?st3) = vmx_vmread M f (hws st)" by (simp add: s(3))
    obtain st' where st': "advance_guest_rip M ?st3 = Inr st'" "completes M st st'" "cx st' = cx ?st3"
      using completes_advance [OF assms(1) v next_rip_cong [OF v]] s by auto
    have "edx_eax (cx ?st3) = push_bit 32 (ucast (ucast (drop_bit 32 r) :: u32)) OR ucast (ucast r :: u32)"
      by (simp add: edx_eax_def low32_put)
    also have "\<dots> = r"
      by (rule bit_word_eqI) (auto simp: bit_or_iff bit_push_bit_iff bit_ucast_iff bit_drop_bit_eq)
    finally have "edx_eax (cx ?st3) = r" .
    then show ?thesis
      using st' s assms(2) by (simp add: finish_wrapped_def put_low32_high)
  qed
  show ?thesis
  proof (cases "msr = HV_X64_MSR_GUEST_IDLE")
    case True
    then show ?thesis
      using fin [of st1 0] f t by (simp add: handle_rdmsr_def msr_def Let_def)
  next
    case False
    then have "rdmsr_wrapper M msr st1 = Inr (msrs (hws st1) msr, on_hw id st1)"
      using that h1 by (simp add: rdmsr_wrapper_def run_wrapped_def)
    then show ?thesis
      using fin [of "on_hw id st1" "msrs (hws st) msr"] f t False by (simp add: handle_rdmsr_def msr_def Let_def)
  qed
qed

lemma rdmsr_faults:
  assumes "platform_ok M" and "\<not> exception_occurred (exc_info (vc st))"
  defines "msr \<equiv> low32 (g_rcx (cx st))"
  assumes h: "msr \<noteq> HV_X64_MSR_GUEST_IDLE" "instruction_fault M (snd (rdtsc M (hws st))) (W_rdmsr msr) = Some (vec, ec)"
    "vec = 6 \<or> vec = 13"
  shows "\<exists>st'. handle_rdmsr M st = Inr st' \<and> faults_with M vec ec st st'"
proof -
  obtain start st1 where t: "read_tsc M st = (start, st1)" by fastforce
  note f = read_tsc_frame [where M = M and st = st, unfolded t snd_conv]
  have h1: "hws st1 = snd (rdtsc M (hws st))"
    using t by (auto simp: read_tsc_def Let_def)
  show ?thesis
  proof -
    obtain st2 where st2: "run_wrapped M (W_rdmsr msr) id st1 = Inr st2"
      "\<And>k start. \<exists>st'. finish_wrapped M k (timed M start st2) = Inr st' \<and> faults_with M vec ec st st'"
      using wrapped_fault_result [OF assms(1) h(2) [folded h1] h(3), of st id] f by auto
    then show ?thesis
      using h(1) t by (simp add: handle_rdmsr_def rdmsr_wrapper_def msr_def Let_def)
  qed
qed

text \<open>
  RDMSR and WRMSR act on the register the guest names. RDMSR of a register the processor has
  delivers its value in EDX:EAX (zero for the synthetic idle register, which is never read) and
  completes. If the processor refuses the access with an invalid opcode or a general protection
  fault, the guest gets this fault with its error code at the unmoved instruction, and no register
  of the guest changes. The upper halves of RAX and RDX keep their old values, where the processor
  would clear them.
\<close>

theorem rdmsr_emulated:
  assumes "platform_ok M" and "\<not> exception_occurred (exc_info (vc st))"
  defines "msr \<equiv> low32 (g_rcx (cx st))"
  shows "(msr = HV_X64_MSR_GUEST_IDLE \<or> instruction_fault M (snd (rdtsc M (hws st))) (W_rdmsr msr) = None \<longrightarrow>
      (\<exists>st'. handle_rdmsr M st = Inr st' \<and> completes M st st' \<and>
         edx_eax (cx st') = (if msr = HV_X64_MSR_GUEST_IDLE then 0 else msrs (hws st) msr) \<and>
         drop_bit 32 (g_rax (cx st')) = drop_bit 32 (g_rax (cx st)) \<and>
         drop_bit 32 (g_rdx (cx st')) = drop_bit 32 (g_rdx (cx st)))) \<and>
    (\<forall>vec ec. msr \<noteq> HV_X64_MSR_GUEST_IDLE \<and> instruction_fault M (snd (rdtsc M (hws st))) (W_rdmsr msr) = Some (vec, ec) \<and>
      (vec = 6 \<or> vec = 13) \<longrightarrow> (\<exists>st'. handle_rdmsr M st = Inr st' \<and> faults_with M vec ec st st'))"
  using rdmsr_completes [OF assms(1,2)] rdmsr_faults [OF assms(1,2)] unfolding msr_def by blast

theorem rdmsr_emulated_witness:
  "\<exists>st'. handle_rdmsr sdm_machine (demo_core\<lparr>cx := (cx demo_core)\<lparr>g_rcx := 0x10\<rparr>, vc := (vc demo_core)\<lparr>exc_info := \<lparr>exception_vector = 0,
      error_code = 0, additional_info1 = 0, exception_occurred = False\<rparr>\<rparr>\<rparr>) = Inr st' \<and>
    edx_eax (cx st') = msrs (hws demo_core) 0x10"
proof -
  let ?st = "demo_core\<lparr>cx := (cx demo_core)\<lparr>g_rcx := 0x10\<rparr>, vc := (vc demo_core)\<lparr>exc_info := \<lparr>exception_vector = 0,
      error_code = 0, additional_info1 = 0, exception_occurred = False\<rparr>\<rparr>\<rparr>"
  have "low32 0x10 = 0x10" "instruction_fault sdm_machine h w = None" for h w
    by (simp_all add: low32_def sdm_machine_def)
  then show ?thesis
    using rdmsr_emulated [OF sdm_platform_ok, of ?st] by auto
qed

lemma finish_completes:
  assumes "platform_ok M" and "\<not> exception_occurred (exc_info (vc st))"
    and "exc_info (vc st2) = exc_info (vc st)" and "k (timed M start st2) = Inr st3"
    and "exc_info (vc st3) = exc_info (vc st)" and v: "\<And>f. vmx_vmread M f (hws st3) = vmx_vmread M f (hws st)"
  shows "\<exists>st'. finish_wrapped M k (timed M start st2) = Inr st' \<and> completes M st st' \<and> cx st' = cx st3 \<and> vc st' = vc st3 \<and>
    mem st' = mem st3 \<and> msrs (hws st') = msrs (hws st3) \<and> xcrs (hws st') = xcrs (hws st3) \<and> invepts (hws st') = invepts (hws st3)"
  using completes_advance [OF assms(1) v next_rip_cong [OF v] assms(5)] assms(2-4)
  by (simp add: finish_wrapped_def)

lemma wrmsr_plain:
  assumes "platform_ok M" and "\<not> exception_occurred (exc_info (vc st))"
  defines "msr \<equiv> low32 (g_rcx (cx st))" and "val \<equiv> edx_eax (cx st)"
  defines "msrs' \<equiv> (msrs (hws st))(msr := val)"
  assumes h: "instruction_fault M (snd (rdtsc M (hws st))) (W_wrmsr msr val) = None" "\<not> is_mtrr_msr msr"
  shows "\<exists>st'. handle_wrmsr M st = Inr st' \<and> completes M st st' \<and> cx st' = cx st \<and> msrs (hws st') = msrs'"
proof -
  obtain start st1 where t: "read_tsc M st = (start, st1)" by fastforce
  note f = read_tsc_frame [where M = M and st = st, unfolded t snd_conv]
  have h1: "hws st1 = snd (rdtsc M (hws st))"
    using t by (auto simp: read_tsc_def Let_def)
  let ?w = "on_hw (\<lambda>h. h\<lparr>msrs := (msrs h)(msr := val)\<rparr>) st1"
  show ?thesis
  proof -
    have "wrmsr_wrapper M msr val st1 = Inr ?w"
      using h(1) h1 by (simp add: wrmsr_wrapper_def run_wrapped_def)
    moreover have "\<exists>st'. finish_wrapped M Inr (timed M start ?w) = Inr st' \<and> completes M st st' \<and> cx st' = cx st \<and> msrs (hws st') = msrs'"
      using finish_completes [OF assms(1,2), of ?w Inr start "timed M start ?w"] f by (auto simp: msrs'_def)
    ultimately show ?thesis
      using h(2) t by (simp add: handle_wrmsr_def msr_def val_def Let_def)
  qed
qed

lemma wrmsr_mtrr:
  assumes "platform_ok M" and "\<not> exception_occurred (exc_info (vc st))"
  defines "msr \<equiv> low32 (g_rcx (cx st))" and "val \<equiv> edx_eax (cx st)"
  defines "msrs' \<equiv> (msrs (hws st))(msr := val)"
  defines "ms \<equiv> read_mtrrs (mtrrl M) msrs'"
  assumes h: "instruction_fault M (snd (rdtsc M (hws st))) (W_wrmsr msr val) = None" "is_mtrr_msr msr"
      "update_ept_memory_types (ph_normal M) (ept_pages_normal (vc st)) ms = Some en"
      "update_ept_memory_types (ph_target M) (ept_pages_target (vc st)) ms = Some et"
  shows "\<exists>st'. handle_wrmsr M st = Inr st' \<and> completes M st st' \<and> cx st' = cx st \<and> msrs (hws st') = msrs' \<and>
         vc_mtrr_state (vc st') = ms \<and> ept_pages_normal (vc st') = en \<and> ept_pages_target (vc st') = et \<and>
         (invept_all_context, 0) \<in> set (invepts (hws st'))"
proof -
  obtain start st1 where t: "read_tsc M st = (start, st1)" by fastforce
  note f = read_tsc_frame [where M = M and st = st, unfolded t snd_conv]
  have h1: "hws st1 = snd (rdtsc M (hws st))"
    using t by (auto simp: read_tsc_def Let_def)
  let ?w = "on_hw (\<lambda>h. h\<lparr>msrs := (msrs h)(msr := val)\<rparr>) st1"
  show ?thesis
  proof -
    have w: "wrmsr_wrapper M msr val st1 = Inr ?w"
      using h(1) h1 by (simp add: wrmsr_wrapper_def run_wrapped_def)
    let ?st3 = "on_hw (invept invept_all_context 0)
       (on_vc (\<lambda>v. v\<lparr>vc_mtrr_state := ms, ept_pages_normal := en, ept_pages_target := et\<rparr>) (timed M start ?w))"
    have m: "msrs (hws (timed M start ?w)) = msrs'" using f by (simp add: msrs'_def)
    have fm: "follow_mtrrs M (timed M start ?w) = Inr ?st3"
      using h(3,4) f unfolding follow_mtrrs_def m by (simp add: ms_def Let_def)
    have x1: "exc_info (vc ?w) = exc_info (vc st)" and x2: "exc_info (vc ?st3) = exc_info (vc st)"
      and x3: "\<And>f. vmx_vmread M f (hws ?st3) = vmx_vmread M f (hws st)"
      using f by (simp_all add: invept_def)
    have y: "cx ?st3 = cx st" "msrs (hws ?st3) = msrs'" "(invept_all_context, 0) \<in> set (invepts (hws ?st3))"
      "vc_mtrr_state (vc ?st3) = ms" "ept_pages_normal (vc ?st3) = en" "ept_pages_target (vc ?st3) = et"
      using f m by (simp_all add: invept_def)
    obtain st' where "finish_wrapped M (follow_mtrrs M) (timed M start ?w) = Inr st'" "completes M st st'"
      "cx st' = cx st" "vc st' = vc ?st3" "msrs (hws st') = msrs'" "(invept_all_context, 0) \<in> set (invepts (hws st'))"
      using finish_completes [of M st ?w "follow_mtrrs M" start ?st3, OF assms(1,2) x1 fm x2 x3] unfolding y(1,2) using y(3) by (elim exE conjE) (simp only:)
    with y(4-6) have "\<exists>st'. finish_wrapped M (follow_mtrrs M) (timed M start ?w) = Inr st' \<and> completes M st st' \<and>
      cx st' = cx st \<and> msrs (hws st') = msrs' \<and> vc_mtrr_state (vc st') = ms \<and> ept_pages_normal (vc st') = en \<and>
      ept_pages_target (vc st') = et \<and> (invept_all_context, 0) \<in> set (invepts (hws st'))"
      by (intro exI [of _ st']) (simp only: simp_thms)
    then show ?thesis
      using w h(2) t by (simp add: handle_wrmsr_def msr_def val_def Let_def)
  qed
qed

lemma wrmsr_faults:
  assumes "platform_ok M" and "\<not> exception_occurred (exc_info (vc st))"
  defines "msr \<equiv> low32 (g_rcx (cx st))" and "val \<equiv> edx_eax (cx st)"
  assumes h: "instruction_fault M (snd (rdtsc M (hws st))) (W_wrmsr msr val) = Some (vec, ec)" "vec = 6 \<or> vec = 13"
  shows "\<exists>st'. handle_wrmsr M st = Inr st' \<and> faults_with M vec ec st st'"
proof -
  obtain start st1 where t: "read_tsc M st = (start, st1)" by fastforce
  note f = read_tsc_frame [where M = M and st = st, unfolded t snd_conv]
  have h1: "hws st1 = snd (rdtsc M (hws st))"
    using t by (auto simp: read_tsc_def Let_def)
  show ?thesis
  proof -
    obtain st2 where "run_wrapped M (W_wrmsr msr val) (\<lambda>h. h\<lparr>msrs := (msrs h)(msr := val)\<rparr>) st1 = Inr st2"
      "\<And>k start. \<exists>st'. finish_wrapped M k (timed M start st2) = Inr st' \<and> faults_with M vec ec st st'"
      using wrapped_fault_result [OF assms(1) h(1) [folded h1] h(2), of st "\<lambda>h. h\<lparr>msrs := (msrs h)(msr := val)\<rparr>"] f by auto
    then show ?thesis
      using t by (simp add: handle_wrmsr_def wrmsr_wrapper_def msr_def val_def Let_def)
  qed
qed

lemma xsetbv_completes:
  assumes "platform_ok M" and "\<not> exception_occurred (exc_info (vc st))"
  defines "msr \<equiv> low32 (g_rcx (cx st))" and "val \<equiv> edx_eax (cx st)"
  assumes h: "instruction_fault M (snd (rdtsc M (hws st))) (W_xsetbv msr val) = None"
  shows "\<exists>st'. handle_xsetbv M st = Inr st' \<and> completes M st st' \<and> cx st' = cx st \<and> xcrs (hws st') = (xcrs (hws st))(msr := val)"
proof -
  obtain start st1 where t: "read_tsc M st = (start, st1)" by fastforce
  note f = read_tsc_frame [where M = M and st = st, unfolded t snd_conv]
  have h1: "hws st1 = snd (rdtsc M (hws st))"
    using t by (auto simp: read_tsc_def Let_def)
  show ?thesis
  proof -
    let ?x = "on_hw (\<lambda>h. h\<lparr>xcrs := (xcrs h)(msr := val)\<rparr>) st1"
    have "xsetbv_wrapper M msr val st1 = Inr ?x"
      using h h1 by (simp add: xsetbv_wrapper_def run_wrapped_def)
    moreover have "\<exists>st'. finish_wrapped M Inr (timed M start ?x) = Inr st' \<and> completes M st st' \<and> cx st' = cx st \<and>
        xcrs (hws st') = (xcrs (hws st))(msr := val)"
      using finish_completes [OF assms(1,2), of ?x Inr start "timed M start ?x"] f by auto
    ultimately show ?thesis
      using t by (simp add: handle_xsetbv_def msr_def val_def Let_def)
  qed
qed



end
