(* ===== verification/Vmexit_Cr.thy ===== *)
theory Vmexit_Cr
  imports Vmexit_Instr
begin

text \<open>
  Accesses of the guest to control registers that exit (\<open>handle_mov_to_cr\<close>, \<open>handle_clts\<close>,
  \<open>handle_lmsw\<close> and \<open>handle_cr_access\<close> of \<open>revhv-km/vmexit.cpp\<close>). The value the guest wrote is
  checked as the processor would, kept in the read shadow, and forced to the values VMX operation
  requires in the register itself.
\<close>

section \<open>The source operand\<close>

definition get_gpr_value :: "machine \<Rightarrow> core \<Rightarrow> u64 \<Rightarrow> u64" where
  "get_gpr_value M st reg =
     (let g = cx st in
      if reg = 0 then g_rax g else if reg = 1 then g_rcx g else if reg = 2 then g_rdx g
      else if reg = 3 then g_rbx g else if reg = 4 then vmx_vmread M VMCS_GUEST_RSP (hws st)
      else if reg = 5 then g_rbp g else if reg = 6 then g_rsi g else if reg = 7 then g_rdi g
      else if reg = 8 then g_r8 g else if reg = 9 then g_r9 g else if reg = 10 then g_r10 g
      else if reg = 11 then g_r11 g else if reg = 12 then g_r12 g else if reg = 13 then g_r13 g
      else if reg = 14 then g_r14 g else g_r15 g)"

section \<open>Writing a control register\<close>

text \<open>Read shadow and register are written in this order; a failed write is fatal.\<close>

definition fixed_cr :: "u64 \<Rightarrow> u64 \<Rightarrow> u64 \<Rightarrow> u64" where
  "fixed_cr fixed0 fixed1 v = (v OR fixed0) AND fixed1"

definition write_cr :: "machine \<Rightarrow> nat \<Rightarrow> nat \<Rightarrow> u64 \<Rightarrow> u64 \<Rightarrow> core \<Rightarrow> stop + core" where
  "write_cr M shadow_field guest_field shadow v st =
     (let r1 = vmx_vmwrite M shadow_field shadow (hws st)
      in if \<not> fst r1 then unrecoverable_host_error st
         else let r2 = vmx_vmwrite M guest_field v (snd r1)
              in if \<not> fst r2 then unrecoverable_host_error st else Inr (st\<lparr>hws := snd r2\<rparr>))"

definition checked_cr0 :: "cr_layout \<Rightarrow> u64 \<Rightarrow> u64" where
  "checked_cr0 L reg_val = put_flag (cr0_et L) True (reg_val AND NOT (cr0_reserved_ignored L))"

definition mov_to_cr0 :: "machine \<Rightarrow> u64 \<Rightarrow> core \<Rightarrow> stop + core" where
  "mov_to_cr0 M reg_val st =
     (let L = crl M; h = hws st; curr_effective_cr4 = get_effective_guest_cr4 M h; new_cr0 = checked_cr0 L reg_val in
      if new_cr0 AND cr0_reserved_high L \<noteq> 0 then raise_gp M st
      else if flag (cr0_pg L) new_cr0 \<and> \<not> flag (cr0_pe L) new_cr0 then raise_gp M st
      else if \<not> flag (cr0_wp L) new_cr0 \<and> flag (cr4_cet L) curr_effective_cr4 then raise_gp M st
      else if \<not> flag (cr0_pg L) new_cr0 then raise_gp M st
      else if \<not> flag (cr0_cd L) new_cr0 \<and> flag (cr0_nw L) new_cr0 then raise_gp M st
      else and_then
             (write_cr M VMCS_CTRL_CR0_READ_SHADOW VMCS_GUEST_CR0 new_cr0
               (fixed_cr (msrs h IA32_VMX_CR0_FIXED0) (msrs h IA32_VMX_CR0_FIXED1) new_cr0) st)
             (advance_guest_rip M))"

definition mov_to_cr4 :: "machine \<Rightarrow> u64 \<Rightarrow> core \<Rightarrow> stop + core" where
  "mov_to_cr4 M reg_val st =
     (let L = crl M; h = hws st;
          curr_effective_cr0 = get_effective_guest_cr0 M h; curr_effective_cr4 = get_effective_guest_cr4 M h;
          new_cr4 = reg_val in
      if new_cr4 AND cr4_reserved L \<noteq> 0 then raise_gp M st
      else if flag (cr4_cet L) new_cr4 \<and> \<not> flag (cr0_wp L) curr_effective_cr0 then raise_gp M st
      else if \<not> flag (cr4_pcide L) curr_effective_cr4 \<and> flag (cr4_pcide L) new_cr4
              \<and> vmx_vmread M VMCS_GUEST_CR3 h AND 0xFFF \<noteq> 0 then raise_gp M st
      else if flag (cr4_pae L) new_cr4 \<noteq> flag (cr4_pae L) curr_effective_cr4
              \<or> flag (cr4_la57 L) new_cr4 \<noteq> flag (cr4_la57 L) curr_effective_cr4 then raise_gp M st
      else if \<not> flag (cpuid_smx (ftl M)) (cpuid_1_ecx M) \<and> flag (cr4_smxe L) new_cr4 then raise_gp M st
      else and_then
             (write_cr M VMCS_CTRL_CR4_READ_SHADOW VMCS_GUEST_CR4 new_cr4
               (fixed_cr (msrs h IA32_VMX_CR4_FIXED0) (msrs h IA32_VMX_CR4_FIXED1) new_cr4) st)
             (advance_guest_rip M))"

definition handle_mov_to_cr :: "machine \<Rightarrow> u64 \<Rightarrow> core \<Rightarrow> stop + core" where
  "handle_mov_to_cr M qualification st =
     (let reg_val = get_gpr_value M st (get_member (mc_gpr (exl M)) qualification);
          control_register = get_member (mc_control_register (exl M)) qualification
      in if control_register = 0 then mov_to_cr0 M reg_val st
         else if control_register = 4 then mov_to_cr4 M reg_val st
         else unrecoverable_host_error st)"

definition handle_clts :: "machine \<Rightarrow> core \<Rightarrow> stop + core" where
  "handle_clts M st =
     (let ts = cr0_ts (crl M);
          current_cr0_shadow = vmx_vmread M VMCS_CTRL_CR0_READ_SHADOW (hws st);
          current_cr0 = vmx_vmread M VMCS_GUEST_CR0 (hws st)
      in write_cr M VMCS_CTRL_CR0_READ_SHADOW VMCS_GUEST_CR0
           (current_cr0_shadow AND NOT (push_bit ts 1)) (current_cr0 AND NOT (push_bit ts 1)) st)"

definition lmsw_mask :: u64 where "lmsw_mask = 0xF"

definition handle_lmsw :: "machine \<Rightarrow> u64 \<Rightarrow> core \<Rightarrow> stop + core" where
  "handle_lmsw M qualification st =
     (let pe = push_bit (cr0_pe (crl M)) (1 :: u64);
          source = get_member (mc_lmsw_source (exl M)) qualification AND lmsw_mask;
          h = hws st;
          current_cr0_shadow = vmx_vmread M VMCS_CTRL_CR0_READ_SHADOW h;
          current_cr0 = vmx_vmread M VMCS_GUEST_CR0 h;
          new_bits = (if current_cr0_shadow AND pe \<noteq> 0 then source OR pe else source);
          new_cr0_shadow = (current_cr0_shadow AND NOT lmsw_mask) OR new_bits;
          new_cr0 = (current_cr0 AND NOT lmsw_mask) OR new_bits
      in and_then
           (write_cr M VMCS_CTRL_CR0_READ_SHADOW VMCS_GUEST_CR0 new_cr0_shadow
             (fixed_cr (msrs h IA32_VMX_CR0_FIXED0) (msrs h IA32_VMX_CR0_FIXED1) new_cr0) st)
           (advance_guest_rip M))"

definition handle_cr_access :: "machine \<Rightarrow> core \<Rightarrow> stop + core" where
  "handle_cr_access M st =
     (let qualification = vmx_vmread M VMCS_EXIT_QUALIFICATION (hws st);
          access_type = get_member (mc_access_type (exl M)) qualification
      in and_then
           (if access_type = 0 then handle_mov_to_cr M qualification st
            else if access_type = 2 then handle_clts M st
            else if access_type = 3 then handle_lmsw M qualification st
            else unrecoverable_host_error st)
           (\<lambda>st. Inr (on_vc (set_instruction_overhead 100) st)))"

section \<open>Facts about control register writes\<close>

text \<open>
  The fields a write of a control register changes: the register and its shadow, and what completing
  an instruction changes.
\<close>

abbreviation advance_fields :: "nat set" where
  "advance_fields \<equiv> {VMCS_GUEST_RIP, VMCS_GUEST_INTERRUPTIBILITY_STATE, VMCS_GUEST_PENDING_DEBUG_EXCEPTIONS}"

abbreviation event_fields :: "nat set" where
  "event_fields \<equiv> {VMCS_CTRL_VMENTRY_INTERRUPTION_INFORMATION_FIELD, VMCS_CTRL_VMENTRY_EXCEPTION_ERROR_CODE}"

abbreviation cr_fields :: "(nat \<times> nat) set" where
  "cr_fields \<equiv> {(VMCS_CTRL_CR0_READ_SHADOW, VMCS_GUEST_CR0), (VMCS_CTRL_CR4_READ_SHADOW, VMCS_GUEST_CR4)}"

lemma write_cr_result:
  assumes "platform_ok M" and "(sf, gf) \<in> cr_fields"
  shows "\<exists>h'. write_cr M sf gf s v st = Inr (st\<lparr>hws := h'\<rparr>) \<and> vmx_vmread M sf h' = s \<and> vmx_vmread M gf h' = v \<and>
    (\<forall>f. f \<noteq> sf \<and> f \<noteq> gf \<longrightarrow> vmx_vmread M f h' = vmx_vmread M f (hws st)) \<and> msrs h' = msrs (hws st)"
proof -
  have "supported M sf" "supported M gf" "vmcs_width sf = 64" "vmcs_width gf = 64" "sf \<noteq> gf"
    using assms(2) platform_supported [OF assms(1)] by auto
  then show ?thesis
    by (intro exI [of _ "vmwrite M gf v (vmwrite M sf s (hws st))"]) (simp add: write_cr_def Let_def)
qed

lemma write_cr_advance:
  assumes "platform_ok M" and "(sf, gf) \<in> cr_fields"
  shows "\<exists>st'. and_then (write_cr M sf gf s v st) (advance_guest_rip M) = Inr st' \<and> completes M st st' \<and> cx st' = cx st \<and>
    vmx_vmread M sf (hws st') = s \<and> vmx_vmread M gf (hws st') = v \<and>
    (\<forall>f. f \<notin> {sf, gf} \<union> advance_fields \<longrightarrow> vmx_vmread M f (hws st') = vmx_vmread M f (hws st))"
proof -
  obtain h1 where h1: "write_cr M sf gf s v st = Inr (st\<lparr>hws := h1\<rparr>)" "vmx_vmread M sf h1 = s" "vmx_vmread M gf h1 = v"
    "\<And>f. f \<noteq> sf \<and> f \<noteq> gf \<Longrightarrow> vmx_vmread M f h1 = vmx_vmread M f (hws st)"
    using write_cr_result [OF assms, of s v st] by blast
  have ne: "sf \<notin> advance_fields" "gf \<notin> advance_fields"
    using assms(2) by auto
  have "\<forall>f \<in> event_fields \<union> {VMCS_GUEST_RIP, VMCS_VMEXIT_INSTRUCTION_LENGTH, VMCS_GUEST_CS_ACCESS_RIGHTS}.
      vmx_vmread M f h1 = vmx_vmread M f (hws st)"
    using assms(2) h1(4) by auto
  then have r: "vmx_vmread M VMCS_GUEST_RIP h1 = vmx_vmread M VMCS_GUEST_RIP (hws st)"
    "vmx_vmread M VMCS_VMEXIT_INSTRUCTION_LENGTH h1 = vmx_vmread M VMCS_VMEXIT_INSTRUCTION_LENGTH (hws st)"
    "vmx_vmread M VMCS_GUEST_CS_ACCESS_RIGHTS h1 = vmx_vmread M VMCS_GUEST_CS_ACCESS_RIGHTS (hws st)"
    "vmx_vmread M VMCS_CTRL_VMENTRY_INTERRUPTION_INFORMATION_FIELD h1 =
       vmx_vmread M VMCS_CTRL_VMENTRY_INTERRUPTION_INFORMATION_FIELD (hws st)"
    "vmx_vmread M VMCS_CTRL_VMENTRY_EXCEPTION_ERROR_CODE h1 = vmx_vmread M VMCS_CTRL_VMENTRY_EXCEPTION_ERROR_CODE (hws st)"
    by blast+
  let ?st1 = "st\<lparr>hws := h1\<rparr>"
  let ?st' = "st\<lparr>hws := pend_single_step M (unblock_interrupts M (vmwrite M VMCS_GUEST_RIP (next_rip M h1) h1))\<rparr>"
  have n: "next_rip M h1 = next_rip M (hws st)"
    by (simp only: next_rip_def r)
  have e: "vm_entry_event M (hws ?st') = vm_entry_event M (hws st)"
    by (rule vm_entry_event_cong) (simp_all add: r)
  have "advance_guest_rip M ?st1 = Inr ?st'"
    using advance_result [OF platform_supported(1) [OF assms(1)], of ?st1] by simp
  then show ?thesis
    using h1 n e ne assms(2) platform_supported(1) [OF assms(1)]
    by (intro exI [of _ ?st']) (auto simp: completes_def)
qed

lemma raise_gp_result:
  assumes "platform_ok M"
  shows "\<exists>st'. raise_gp M st = Inr st' \<and> vm_entry_event M (hws st') = Exception_event 13 (Some 0) \<and> cx st' = cx st \<and> vc st' = vc st \<and>
    (\<forall>f. f \<notin> event_fields \<longrightarrow> vmx_vmread M f (hws st') = vmx_vmread M f (hws st))"
  using event_exception_code [OF platform_supported(2) [OF assms], of general_protection 0 "hws st"]
  by (simp add: raise_gp_def inject_hw_exception_code_def take_bit_eq_mask mask_numeral)

text \<open>The bits of a register that VMX operation fixes belong to the host, so the guest sees its shadow there.\<close>

definition fixed_bits_hidden :: "machine \<Rightarrow> hw \<Rightarrow> bool" where
  "fixed_bits_hidden M h \<longleftrightarrow>
     (let m0 = vmx_vmread M VMCS_CTRL_CR0_GUEST_HOST_MASK h; m4 = vmx_vmread M VMCS_CTRL_CR4_GUEST_HOST_MASK h
      in NOT m0 AND msrs h IA32_VMX_CR0_FIXED0 = 0 \<and> NOT m0 AND NOT (msrs h IA32_VMX_CR0_FIXED1) = 0 \<and>
         NOT m4 AND msrs h IA32_VMX_CR4_FIXED0 = 0 \<and> NOT m4 AND NOT (msrs h IA32_VMX_CR4_FIXED1) = 0)"

definition gp_refused :: "machine \<Rightarrow> core \<Rightarrow> core \<Rightarrow> bool" where
  "gp_refused M st st' \<longleftrightarrow> vm_entry_event M (hws st') = Exception_event 13 (Some 0) \<and>
     vmx_vmread M VMCS_GUEST_RIP (hws st') = vmx_vmread M VMCS_GUEST_RIP (hws st) \<and> cx st' = cx st \<and>
     get_effective_guest_cr0 M (hws st') = get_effective_guest_cr0 M (hws st) \<and>
     get_effective_guest_cr4 M (hws st') = get_effective_guest_cr4 M (hws st)"

lemma raise_gp_refused: "platform_ok M \<Longrightarrow> \<exists>st'. raise_gp M st = Inr st' \<and> gp_refused M st st'"
  using raise_gp_result [of M st]
  by (auto simp: gp_refused_def get_effective_guest_cr0_def get_effective_guest_cr4_def)

lemma fixed_cr_bits: "fixed_cr f0 f1 v AND (f0 AND f1) = f0 AND f1" "fixed_cr f0 f1 v AND NOT f1 = 0"
  by (rule bit_word_eqI; auto simp: fixed_cr_def bit_simps)+

lemma effective_lmsw:
  assumes "NOT m AND f0 = 0" and "NOT m AND NOT f1 = 0"
  shows "effective_cr m ((s AND NOT l) OR n) (fixed_cr f0 f1 ((r AND NOT l) OR n)) = (effective_cr m s r AND NOT l) OR n"
proof (rule bit_word_eqI)
  fix k
  assume "k < LENGTH(64)"
  then have "\<not> bit m k \<longrightarrow> \<not> bit f0 k \<and> bit f1 k"
    using arg_cong [OF assms(1), of "\<lambda>x. bit x k"] arg_cong [OF assms(2), of "\<lambda>x. bit x k"]
    by (auto simp: bit_and_iff bit_not_iff)
  then show "bit (effective_cr m ((s AND NOT l) OR n) (fixed_cr f0 f1 ((r AND NOT l) OR n))) k =
      bit ((effective_cr m s r AND NOT l) OR n) k"
    using \<open>k < LENGTH(64)\<close> by (auto simp: bit_effective_cr bit_and_iff bit_or_iff bit_not_iff fixed_cr_def)
qed

section \<open>Properties\<close>

text \<open>
  C21. MOV to CR0 by a guest in 64-bit mode is refused with \<open>#GP(0)\<close>, and nothing changes, exactly if the
  written value (less the reserved bits that are ignored, and with ET set) has a bit above 31, clears
  PG or PE, clears WP while CET is on, or sets NW without CD. Otherwise the instruction completes;
  the guest reads the value back as written, its CR4 is unchanged, and the register itself has every bit
  that VMX operation fixes.
\<close>

theorem mov_to_cr0_correct:
  fixes M :: machine and st :: core and reg_val :: u64
  assumes "platform_ok M" and "fixed_bits_hidden M (hws st)"
  defines "v \<equiv> checked_cr0 (crl M) reg_val"
  defines "refused \<equiv> v AND cr0_reserved_high (crl M) \<noteq> 0 \<or> \<not> flag (cr0_pg (crl M)) v \<or> \<not> flag (cr0_pe (crl M)) v \<or>
    \<not> flag (cr0_wp (crl M)) v \<and> flag (cr4_cet (crl M)) (get_effective_guest_cr4 M (hws st)) \<or>
    flag (cr0_nw (crl M)) v \<and> \<not> flag (cr0_cd (crl M)) v"
    and "fixed0 \<equiv> msrs (hws st) IA32_VMX_CR0_FIXED0" and "fixed1 \<equiv> msrs (hws st) IA32_VMX_CR0_FIXED1"
  shows "\<exists>st'. mov_to_cr0 M reg_val st = Inr st' \<and>
    (if refused then gp_refused M st st'
     else completes M st st' \<and> cx st' = cx st \<and> get_effective_guest_cr0 M (hws st') = v \<and>
       get_effective_guest_cr4 M (hws st') = get_effective_guest_cr4 M (hws st) \<and>
       vmx_vmread M VMCS_GUEST_CR0 (hws st') AND (fixed0 AND fixed1) = fixed0 AND fixed1 \<and>
       vmx_vmread M VMCS_GUEST_CR0 (hws st') AND NOT fixed1 = 0)"
proof (cases refused)
  case True
  then have "mov_to_cr0 M reg_val st = raise_gp M st"
    by (auto simp: mov_to_cr0_def Let_def refused_def v_def)
  then show ?thesis
    using raise_gp_refused [OF assms(1), of st] True by simp
next
  case False
  let ?real = "fixed_cr fixed0 fixed1 v"
  have "mov_to_cr0 M reg_val st =
      and_then (write_cr M VMCS_CTRL_CR0_READ_SHADOW VMCS_GUEST_CR0 v ?real st) (advance_guest_rip M)"
    using False by (auto simp: mov_to_cr0_def Let_def refused_def v_def fixed0_def fixed1_def)
  then obtain st' where st': "mov_to_cr0 M reg_val st = Inr st'" "completes M st st'" "cx st' = cx st"
    "vmx_vmread M VMCS_CTRL_CR0_READ_SHADOW (hws st') = v" "vmx_vmread M VMCS_GUEST_CR0 (hws st') = ?real"
    "\<forall>f. f \<notin> {VMCS_CTRL_CR0_READ_SHADOW, VMCS_GUEST_CR0} \<union> advance_fields \<longrightarrow> vmx_vmread M f (hws st') = vmx_vmread M f (hws st)"
    using write_cr_advance [OF assms(1), of VMCS_CTRL_CR0_READ_SHADOW VMCS_GUEST_CR0 v ?real st] by auto
  have "get_effective_guest_cr0 M (hws st') = v"
    using assms(2) st'(4-6) effective_fixed_cr
    by (simp add: get_effective_guest_cr0_def fixed_bits_hidden_def Let_def fixed_cr_def fixed0_def fixed1_def)
  then show ?thesis
    using st' fixed_cr_bits False by (simp add: get_effective_guest_cr4_def)
qed

theorem mov_to_cr0_correct_witness:
  "\<exists>st'. mov_to_cr0 sdm_machine 0x80010031 (demo_core\<lparr>hws := (hws demo_core)\<lparr>vmcs := \<lambda>_. - 1\<rparr>\<rparr>) = Inr st' \<and>
     get_effective_guest_cr0 sdm_machine (hws st') = 0x80010031"
proof -
  let ?st = "demo_core\<lparr>hws := (hws demo_core)\<lparr>vmcs := \<lambda>_. - 1\<rparr>\<rparr>"
  have "fixed_bits_hidden sdm_machine (hws ?st)"
    by (simp add: fixed_bits_hidden_def vmx_vmread_def sdm_machine_def Let_def)
  moreover have "checked_cr0 (crl sdm_machine) 0x80010031 = 0x80010031"
    by (simp add: checked_cr0_def sdm_machine_def sdm_cr_layout_def put_flag_def set_bit_u64_def)
  ultimately show ?thesis
    using mov_to_cr0_correct [OF sdm_platform_ok, of ?st "0x80010031"]
    by (auto simp: sdm_machine_def sdm_cr_layout_def flag_def)
qed

text \<open>
  MOV to CR4 is refused with \<open>#GP(0)\<close> exactly if the written value has a reserved bit, sets CET while
  WP is clear, turns on PCIDs while the low 12 bits of CR3 are not zero, changes PAE or LA57, or sets SMXE on a
  processor without safer mode extensions. Otherwise the guest reads the value back as written, even
  where VMX operation fixes a bit (VMXE stays on in the register itself), and CR0 is unchanged.
\<close>

theorem mov_to_cr4_correct:
  fixes M :: machine and st :: core and reg_val :: u64
  assumes "platform_ok M" and "fixed_bits_hidden M (hws st)"
  defines "old0 \<equiv> get_effective_guest_cr0 M (hws st)" and "old4 \<equiv> get_effective_guest_cr4 M (hws st)"
  defines "refused \<equiv> reg_val AND cr4_reserved (crl M) \<noteq> 0 \<or>
    flag (cr4_cet (crl M)) reg_val \<and> \<not> flag (cr0_wp (crl M)) old0 \<or>
    flag (cr4_pcide (crl M)) reg_val \<and> \<not> flag (cr4_pcide (crl M)) old4 \<and> take_bit 12 (vmx_vmread M VMCS_GUEST_CR3 (hws st)) \<noteq> 0 \<or>
    flag (cr4_pae (crl M)) reg_val \<noteq> flag (cr4_pae (crl M)) old4 \<or>
    flag (cr4_la57 (crl M)) reg_val \<noteq> flag (cr4_la57 (crl M)) old4 \<or>
    flag (cr4_smxe (crl M)) reg_val \<and> \<not> flag (cpuid_smx (ftl M)) (cpuid_1_ecx M)"
    and "fixed0 \<equiv> msrs (hws st) IA32_VMX_CR4_FIXED0" and "fixed1 \<equiv> msrs (hws st) IA32_VMX_CR4_FIXED1"
  shows "\<exists>st'. mov_to_cr4 M reg_val st = Inr st' \<and>
    (if refused then gp_refused M st st'
     else completes M st st' \<and> cx st' = cx st \<and> get_effective_guest_cr4 M (hws st') = reg_val \<and>
       get_effective_guest_cr0 M (hws st') = old0 \<and>
       vmx_vmread M VMCS_GUEST_CR4 (hws st') AND (fixed0 AND fixed1) = fixed0 AND fixed1 \<and>
       vmx_vmread M VMCS_GUEST_CR4 (hws st') AND NOT fixed1 = 0)"
proof -
  have m: "w AND 0xFFF = take_bit 12 w" for w :: u64
    by (simp add: take_bit_eq_mask mask_eq_exp_minus_1)
  show ?thesis
  proof (cases refused)
    case True
    then have "mov_to_cr4 M reg_val st = raise_gp M st"
      by (simp add: mov_to_cr4_def Let_def refused_def old0_def old4_def m) argo
    then show ?thesis
      using raise_gp_refused [OF assms(1), of st] True by simp
  next
    case False
    let ?real = "fixed_cr fixed0 fixed1 reg_val"
    have "mov_to_cr4 M reg_val st =
        and_then (write_cr M VMCS_CTRL_CR4_READ_SHADOW VMCS_GUEST_CR4 reg_val ?real st) (advance_guest_rip M)"
      using False by (auto simp: mov_to_cr4_def Let_def refused_def old0_def old4_def fixed0_def fixed1_def m)
    then obtain st' where st': "mov_to_cr4 M reg_val st = Inr st'" "completes M st st'" "cx st' = cx st"
      "vmx_vmread M VMCS_CTRL_CR4_READ_SHADOW (hws st') = reg_val" "vmx_vmread M VMCS_GUEST_CR4 (hws st') = ?real"
      "\<forall>f. f \<notin> {VMCS_CTRL_CR4_READ_SHADOW, VMCS_GUEST_CR4} \<union> advance_fields \<longrightarrow> vmx_vmread M f (hws st') = vmx_vmread M f (hws st)"
      using write_cr_advance [OF assms(1), of VMCS_CTRL_CR4_READ_SHADOW VMCS_GUEST_CR4 reg_val ?real st] by auto
    have "get_effective_guest_cr4 M (hws st') = reg_val"
      using assms(2) st'(4-6) effective_fixed_cr
      by (simp add: get_effective_guest_cr4_def fixed_bits_hidden_def Let_def fixed_cr_def fixed0_def fixed1_def)
    then show ?thesis
      using st' fixed_cr_bits False by (simp add: get_effective_guest_cr0_def old0_def)
  qed
qed

theorem mov_to_cr4_correct_witness:
  "\<exists>st'. mov_to_cr4 sdm_machine 0x20 (demo_core\<lparr>hws := (hws demo_core)\<lparr>vmcs := (\<lambda>_. - 1)(VMCS_CTRL_CR4_READ_SHADOW := 0x20)\<rparr>\<rparr>) = Inr st' \<and>
     get_effective_guest_cr4 sdm_machine (hws st') = 0x20"
proof -
  let ?st = "demo_core\<lparr>hws := (hws demo_core)\<lparr>vmcs := (\<lambda>_. - 1)(VMCS_CTRL_CR4_READ_SHADOW := 0x20)\<rparr>\<rparr>"
  have "fixed_bits_hidden sdm_machine (hws ?st)"
    by (simp add: fixed_bits_hidden_def vmx_vmread_def sdm_machine_def Let_def)
  moreover have "get_effective_guest_cr4 sdm_machine (hws ?st) = 0x20"
    by (simp add: get_effective_guest_cr4_def effective_cr_def vmx_vmread_def sdm_machine_def)
  ultimately show ?thesis
    using mov_to_cr4_correct [OF sdm_platform_ok, of ?st "0x20"]
    by (auto simp: sdm_machine_def sdm_cr_layout_def flag_def)
qed

text \<open>
  CLTS clears the task-switched bit of CR0 and nothing else. LMSW loads the low four bits of its
  operand into CR0, except that it cannot clear PE; the other bits keep their values. In both cases
  the guest sees exactly this.
\<close>

theorem clts_lmsw_correct:
  fixes M :: machine and st :: core and qualification :: u64
  assumes "platform_ok M" and "fixed_bits_hidden M (hws st)" and "cr0_pe (crl M) = 0"
    and "flag 0 (vmx_vmread M VMCS_CTRL_CR0_GUEST_HOST_MASK (hws st))"
  defines "old \<equiv> get_effective_guest_cr0 M (hws st)"
    and "source \<equiv> take_bit 4 (get_member (mc_lmsw_source (exl M)) qualification)"
  shows "(\<exists>st'. handle_clts M st = Inr st' \<and>
      get_effective_guest_cr0 M (hws st') = old AND NOT (push_bit (cr0_ts (crl M)) 1) \<and> cx st' = cx st) \<and>
    (\<exists>st'. handle_lmsw M qualification st = Inr st' \<and> completes M st st' \<and> cx st' = cx st \<and>
      get_effective_guest_cr0 M (hws st') = (old AND NOT (mask 4)) OR (source OR (old AND 1)))"
proof -
  let ?s = "vmx_vmread M VMCS_CTRL_CR0_READ_SHADOW (hws st)" and ?r = "vmx_vmread M VMCS_GUEST_CR0 (hws st)"
  let ?m = "vmx_vmread M VMCS_CTRL_CR0_GUEST_HOST_MASK (hws st)" and ?ts = "push_bit (cr0_ts (crl M)) 1 :: u64"
  let ?f0 = "msrs (hws st) IA32_VMX_CR0_FIXED0" and ?f1 = "msrs (hws st) IA32_VMX_CR0_FIXED1"
  let ?cr = "(VMCS_CTRL_CR0_READ_SHADOW, VMCS_GUEST_CR0)"
  obtain h' where clts: "handle_clts M st = Inr (st\<lparr>hws := h'\<rparr>)" "vmx_vmread M VMCS_CTRL_CR0_READ_SHADOW h' = ?s AND NOT ?ts"
    "vmx_vmread M VMCS_GUEST_CR0 h' = ?r AND NOT ?ts"
    "vmx_vmread M VMCS_CTRL_CR0_GUEST_HOST_MASK h' = ?m"
    using write_cr_result [OF assms(1), of "fst ?cr" "snd ?cr" "?s AND NOT ?ts" "?r AND NOT ?ts" st]
    by (auto simp: handle_clts_def Let_def)
  have "effective_cr ?m (?s AND NOT ?ts) (?r AND NOT ?ts) = effective_cr ?m ?s ?r AND NOT ?ts"
    by (rule bit_word_eqI) (auto simp: bit_effective_cr bit_and_iff bit_not_iff)
  then have 1: "\<exists>st'. handle_clts M st = Inr st' \<and>
      get_effective_guest_cr0 M (hws st') = old AND NOT (push_bit (cr0_ts (crl M)) 1) \<and> cx st' = cx st"
    using clts by (simp add: get_effective_guest_cr0_def old_def)
  define n where "n = source OR (?s AND 1)"
  have m4: "lmsw_mask = mask 4"
    by (simp add: lmsw_mask_def mask_eq_exp_minus_1)
  have one: "x AND 1 = (if bit x 0 then 1 else 0)" for x :: u64
    by (simp add: and_one_eq bit_0 mod_2_eq_odd)
  have n: "(if ?s AND push_bit (cr0_pe (crl M)) 1 \<noteq> 0
      then (get_member (mc_lmsw_source (exl M)) qualification AND lmsw_mask) OR push_bit (cr0_pe (crl M)) 1
      else get_member (mc_lmsw_source (exl M)) qualification AND lmsw_mask) = n"
    by (simp add: n_def source_def m4 assms(3) take_bit_eq_mask one)
  obtain st' where lmsw: "handle_lmsw M qualification st = Inr st'" "completes M st st'" "cx st' = cx st"
    "vmx_vmread M VMCS_CTRL_CR0_READ_SHADOW (hws st') = (?s AND NOT (mask 4)) OR n"
    "vmx_vmread M VMCS_GUEST_CR0 (hws st') = fixed_cr ?f0 ?f1 ((?r AND NOT (mask 4)) OR n)"
    "vmx_vmread M VMCS_CTRL_CR0_GUEST_HOST_MASK (hws st') = ?m"
    using write_cr_advance [OF assms(1), of "fst ?cr" "snd ?cr" "(?s AND NOT (mask 4)) OR n"
        "fixed_cr ?f0 ?f1 ((?r AND NOT (mask 4)) OR n)" st]
    unfolding handle_lmsw_def Let_def n unfolding m4 by auto
  have "old AND 1 = ?s AND 1"
    using assms(4) by (simp add: one old_def get_effective_guest_cr0_def bit_effective_cr flag_def)
  then have "effective_cr ?m ((?s AND NOT (mask 4)) OR n) (fixed_cr ?f0 ?f1 ((?r AND NOT (mask 4)) OR n)) =
      (old AND NOT (mask 4)) OR (source OR (old AND 1))"
    using effective_lmsw [where m = ?m and ?f0.0 = ?f0 and ?f1.0 = ?f1 and s = ?s and r = ?r and l = "mask 4" and n = n] assms(2)
    by (simp add: n_def old_def get_effective_guest_cr0_def fixed_bits_hidden_def Let_def)
  then show ?thesis
    using 1 lmsw by (auto simp: get_effective_guest_cr0_def)
qed

theorem clts_lmsw_correct_witness:
  "\<exists>st'. handle_lmsw sdm_machine 0 (demo_core\<lparr>hws := (hws demo_core)\<lparr>vmcs := \<lambda>_. - 1\<rparr>\<rparr>) = Inr st' \<and>
     get_effective_guest_cr0 sdm_machine (hws st') = NOT (mask 4) OR 1"
proof -
  let ?st = "demo_core\<lparr>hws := (hws demo_core)\<lparr>vmcs := \<lambda>_. - 1\<rparr>\<rparr>"
  have "fixed_bits_hidden sdm_machine (hws ?st)" "cr0_pe (crl sdm_machine) = 0"
    "flag 0 (vmx_vmread sdm_machine VMCS_CTRL_CR0_GUEST_HOST_MASK (hws ?st))"
    "get_effective_guest_cr0 sdm_machine (hws ?st) = - 1"
    "get_member (mc_lmsw_source (exl sdm_machine)) 0 = 0"
    by (simp_all add: fixed_bits_hidden_def vmx_vmread_def sdm_machine_def Let_def sdm_cr_layout_def flag_def
        get_effective_guest_cr0_def effective_cr_def sdm_exit_layout_def get_member_def bit_field_def)
  then show ?thesis
    using clts_lmsw_correct [OF sdm_platform_ok, of ?st 0] by auto
qed

end
