(* ===== verification/Vmexit_Ept.thy ===== *)
theory Vmexit_Ept
  imports Vmexit_Instr
begin

text \<open>
  EPT violations (\<open>lookup_transition_cfg\<close> callers, \<open>resolve_data_field\<close>, \<open>resolve_data_fields\<close> and
  \<open>handle_ept_violation\<close> of \<open>revhv-km/vmexit.cpp\<close>): a violation on a hooked page swaps the view of this
  page, every other execute violation moves the core between normal execution and the execution
  of the traced target, and the way back writes an entry to the trace.
\<close>

section \<open>Data of a trace entry\<close>

fun put_bytes :: "host_mem \<Rightarrow> u64 \<Rightarrow> u8 list \<Rightarrow> host_mem" where
  "put_bytes hm a [] = hm"
| "put_bytes hm a (b # bs) = put_bytes (hm(a := Some b)) (a + 1) bs"

text \<open>
  \<open>retaddr\<close> is a local variable at the address \<open>stack_addr M\<close>, zero before the read. \<open>None\<close> is a fault
  in the page tables of the guest.
\<close>

definition read_retaddr :: "machine \<Rightarrow> u64 \<Rightarrow> u64 \<Rightarrow> host_mem \<Rightarrow> (host_mem \<times> u64) option" where
  "read_retaddr M cr3 guest_rsp hm =
     (case read_guest_virtual (ptl M) (put_bytes hm (stack_addr M) (replicate 8 0)) cr3 guest_rsp (stack_addr M) 8 of
        None \<Rightarrow> None
      | Some (hm', _) \<Rightarrow> map_option (\<lambda>retaddr. (hm', retaddr)) (read_u64 hm' (stack_addr M)))"

definition resolve_data_field ::
  "machine \<Rightarrow> u64 \<Rightarrow> ept_transition_data_field \<Rightarrow> u64 \<Rightarrow> u64 \<Rightarrow> guest_context \<Rightarrow> host_mem \<Rightarrow> (host_mem \<times> u64) option" where
  "resolve_data_field M cr3 field guest_rip guest_rsp ctx hm =
     (case field of
        F_none \<Rightarrow> Some (hm, 0)
      | F_guest_rip \<Rightarrow> Some (hm, guest_rip)
      | F_guest_rsp \<Rightarrow> Some (hm, guest_rsp)
      | F_guest_rax \<Rightarrow> Some (hm, g_rax ctx)
      | F_guest_rbx \<Rightarrow> Some (hm, g_rbx ctx)
      | F_guest_rcx \<Rightarrow> Some (hm, g_rcx ctx)
      | F_guest_rdx \<Rightarrow> Some (hm, g_rdx ctx)
      | F_guest_rsi \<Rightarrow> Some (hm, g_rsi ctx)
      | F_guest_rdi \<Rightarrow> Some (hm, g_rdi ctx)
      | F_guest_rbp \<Rightarrow> Some (hm, g_rbp ctx)
      | F_guest_r8 \<Rightarrow> Some (hm, g_r8 ctx)
      | F_guest_r9 \<Rightarrow> Some (hm, g_r9 ctx)
      | F_guest_r10 \<Rightarrow> Some (hm, g_r10 ctx)
      | F_guest_r11 \<Rightarrow> Some (hm, g_r11 ctx)
      | F_guest_r12 \<Rightarrow> Some (hm, g_r12 ctx)
      | F_guest_r13 \<Rightarrow> Some (hm, g_r13 ctx)
      | F_guest_r14 \<Rightarrow> Some (hm, g_r14 ctx)
      | F_guest_r15 \<Rightarrow> Some (hm, g_r15 ctx)
      | F_guest_retaddr \<Rightarrow> if guest_rsp = 0 then Some (hm, 0) else read_retaddr M cr3 guest_rsp hm
      | F_other _ \<Rightarrow> Some (hm, 0))"

fun resolve_data_fields ::
  "machine \<Rightarrow> u64 \<Rightarrow> ept_transition_data_field list \<Rightarrow> u64 \<Rightarrow> u64 \<Rightarrow> guest_context \<Rightarrow> host_mem \<Rightarrow> (host_mem \<times> u64 list) option" where
  "resolve_data_fields M cr3 [] guest_rip guest_rsp ctx hm = Some (hm, [])"
| "resolve_data_fields M cr3 (field # rest) guest_rip guest_rsp ctx hm =
     (case resolve_data_field M cr3 field guest_rip guest_rsp ctx hm of
        None \<Rightarrow> None
      | Some (hm', d) \<Rightarrow> map_option (\<lambda>(hm'', ds). (hm'', d # ds)) (resolve_data_fields M cr3 rest guest_rip guest_rsp ctx hm'))"

section \<open>Violations on hooked pages\<close>

definition swap_hook :: "bool \<Rightarrow> ept_hook \<Rightarrow> pte_ptr \<Rightarrow> ept_pages \<Rightarrow> ept_pages" where
  "swap_hook execute hook q =
     upd_pte q (\<lambda>pte. if execute
       then pte\<lparr>read_access := False, write_access := False, execute_access := True, page_frame_number := ucast (hook_pfn hook)\<rparr>
       else pte\<lparr>read_access := True, write_access := True, execute_access := False, page_frame_number := ucast (orig_pfn hook)\<rparr>)"

definition current_ept_pages :: "vcpu \<Rightarrow> ept_pages" where
  "current_ept_pages v = (if in_normal_execution v then ept_pages_normal v else ept_pages_target v)"

definition current_eptp :: "vcpu \<Rightarrow> u64" where
  "current_eptp v = (if in_normal_execution v then eptp_normal_execution v else eptp_target_execution v)"

definition set_current_ept_pages :: "ept_pages \<Rightarrow> vcpu \<Rightarrow> vcpu" where
  "set_current_ept_pages ep v = (if in_normal_execution v then v\<lparr>ept_pages_normal := ep\<rparr> else v\<lparr>ept_pages_target := ep\<rparr>)"

definition active_hook :: "ept_pages \<Rightarrow> u64 \<Rightarrow> (ept_hook \<times> pte_ptr) option" where
  "active_hook ep physical_address =
     (case get_hook_by_orig_pfn ep (drop_bit 12 physical_address) of
        None \<Rightarrow> None
      | Some i \<Rightarrow> map_option (\<lambda>q. (hooks ep ! i, q)) (hk_pte (hooks ep ! i)))"

section \<open>The transition back to normal execution\<close>

text \<open>The time stamp of the entry is read after the tests of \<open>emit\<close>.\<close>

definition emit_transition :: "machine \<Rightarrow> u64 list \<Rightarrow> core \<Rightarrow> core" where
  "emit_transition M data st =
     (let buf = trace_buffer (vc st); r = rdtsc M (hws st);
          buf' = emit (fst r) buf fmt_ept_target_transition (ucast (core_id (vc st))) data;
          dropped = (active buf = 0 \<or> (write_head buf + 1) AND ring_buffer_index_mask = read_tail buf)
      in on_vc (\<lambda>v. v\<lparr>trace_buffer := buf'\<rparr>) (if dropped then st else on_hw (\<lambda>_. snd r) st))"

definition trace_transition :: "machine \<Rightarrow> core \<Rightarrow> stop + core" where
  "trace_transition M st =
     (let h = hws st; v = vc st;
          guest_rip = vmx_vmread M VMCS_GUEST_RIP h; guest_rsp = vmx_vmread M VMCS_GUEST_RSP h;
          config = lookup_transition_cfg (vc_cfg_table v) (generic_transition_cfg v) guest_rip
      in case resolve_data_fields M (get_guest_cr3 M h) (data_map config) guest_rip guest_rsp (cx st) (mem st) of
           None \<Rightarrow> unrecoverable_host_error st
         | Some (hm, data) \<Rightarrow> Inr (emit_transition M data (st\<lparr>mem := hm\<rparr>)))"

definition violation_address :: "machine \<Rightarrow> hw \<Rightarrow> u64" where
  "violation_address M h =
     (let qualification = vmx_vmread M VMCS_EXIT_QUALIFICATION h
      in vmx_vmread M (if flag (ev_caused_by_translation (exl M)) qualification
                       then VMCS_GUEST_PHYSICAL_ADDRESS else VMCS_EXIT_GUEST_LINEAR_ADDRESS) h)"

definition handle_ept_violation :: "machine \<Rightarrow> core \<Rightarrow> stop + core" where
  "handle_ept_violation M st =
     (let v = vc st; ep = current_ept_pages v;
          execute = flag (ev_execute (exl M)) (vmx_vmread M VMCS_EXIT_QUALIFICATION (hws st));
          physical_address = violation_address M (hws st)
      in case active_hook ep physical_address of
           Some (hook, q) \<Rightarrow>
             Inr (on_hw (invept invept_single_context (current_eptp v))
                   (on_vc (set_current_ept_pages (swap_hook execute hook q ep)) st))
         | None \<Rightarrow>
             if execute then
               (if in_normal_execution v
                then Inr (on_vc (\<lambda>v. v\<lparr>in_normal_execution := False\<rparr>) (on_hw (change_eptp M (eptp_target_execution v)) st))
                else trace_transition M
                       (on_vc (\<lambda>v. v\<lparr>in_normal_execution := True\<rparr>) (on_hw (change_eptp M (eptp_normal_execution v)) st)))
             else unrecoverable_host_error st)"

section \<open>Facts about hooks and modes\<close>

lemma find_hook_Some: "find_hook hs pfn i = Some k \<Longrightarrow> i \<le> k \<and> k < i + length hs \<and> ucast (orig_pfn (hs ! (k - i))) = pfn"
proof (induction hs pfn i rule: find_hook.induct)
  case (2 h hs pfn i)
  then show ?case
    by (cases "ucast (orig_pfn h) = pfn") (auto simp: nth_Cons' diff_Suc split: nat.splits)
qed simp

lemma active_hookD:
  assumes "ept_base ep" and "active_hook ep a = Some (hook, q)"
  shows "hook \<in> set (hooks ep)" and "ucast (orig_pfn hook) = drop_bit 12 a" and "ptr_of ep (hook_gpa hook) q"
proof -
  obtain i where i: "find_hook (hooks ep) (drop_bit 12 a) 0 = Some i" "hook = hooks ep ! i" "hk_pte hook = Some q"
    using assms(2) by (auto simp: active_hook_def get_hook_by_orig_pfn_def split: option.splits)
  then show h: "hook \<in> set (hooks ep)" and "ucast (orig_pfn hook) = drop_bit 12 a"
    using find_hook_Some [OF i(1)] by auto
  then have "hook_ok ep hook"
    using assms(1) by (auto simp: ept_base_def hooks_wf_def)
  then show "ptr_of ep (hook_gpa hook) q"
    using i(3) by (auto simp: hook_ok_def)
qed

lemma swap_hook_base:
  assumes "ept_base ep" and "active_hook ep a = Some (hook, q)"
  shows "ept_base (swap_hook x hook q ep)"
proof -
  note h = active_hookD [OF assms]
  have i: "find_hook (hooks ep) (drop_bit 12 a) 0 \<noteq> None" "hk_pte hook = Some q"
    using assms(2) by (auto simp: active_hook_def get_hook_by_orig_pfn_def split: option.splits)
  have wf: "ept_wf ep" and hs: "hooks_wf ep"
    and lf: "leaves_on slots (\<lambda>i j n l. hook_covers ep i j n \<or> plain_leaf i j n l) ep"
    using assms(1) by (simp_all add: ept_base_def)
  let ?e = "swap_hook x hook q ep"
  have e: "hooks ?e = hooks ep" "ptr_of ?e = ptr_of ep" "ept_wf ?e"
    using wf by (simp_all add: swap_hook_def)
  have "hook_covers ?e i j n \<or> plain_leaf i j n (leaf_at ?e i j n)" if "(i, j) \<in> slots" "n < 512" for i j n
  proof (cases "at_gpa (hook_gpa hook) i j n")
    case True
    then show ?thesis
      using h(1) i(2) unfolding hook_covers_def e(1) by blast
  next
    case False
    then have "leaf_at ?e i j n = leaf_at ep i j n"
      using leaf_at_upd_pte [OF wf h(3) that(1)] by (simp add: swap_hook_def)
    then show ?thesis
      using lf that by (simp add: leaves_on_def hook_covers_def e)
  qed
  then show ?thesis
    using e hs by (simp add: ept_base_def leaves_on_def hooks_wf_def hook_ok_def)
qed

lemma current_ept_pages_set [simp]:
  "current_ept_pages (set_current_ept_pages ep v) = ep"
  "in_normal_execution (set_current_ept_pages ep v) = in_normal_execution v"
  "eptp_normal_execution (set_current_ept_pages ep v) = eptp_normal_execution v"
  "eptp_target_execution (set_current_ept_pages ep v) = eptp_target_execution v"
  "trace_buffer (set_current_ept_pages ep v) = trace_buffer v"
  by (simp_all add: current_ept_pages_def set_current_ept_pages_def)

lemma swap_hook_walk:
  assumes "ept_base ep" and "active_hook ep a = Some (hook, q)" and "gpa < 0x8000000000"
  shows "if drop_bit 12 gpa = drop_bit 12 a
    then \<exists>x. ept_walk (swap_hook execute hook q ep) gpa = Some x \<and> a_execute x = execute \<and> a_read x = (\<not> execute) \<and>
       a_write x = (\<not> execute) \<and> a_pfn x = ucast (if execute then hook_pfn hook else orig_pfn hook)
    else ept_walk (swap_hook execute hook q ep) gpa = ept_walk ep gpa"
proof -
  note h = active_hookD [OF assms(1,2)]
  have wf: "ept_wf ep" and ok: "hook_ok ep hook"
    using assms(1) h(1) by (auto simp: ept_base_def hooks_wf_def)
  let ?e = "swap_hook execute hook q ep"
  have wf': "ept_wf ?e"
    using wf by (simp add: swap_hook_def)
  have idx: "(unat (pdpt_idx gpa), unat (pd_idx gpa)) \<in> slots"
    by simp
  have page: "idx_gpa (at_gpa (hook_gpa hook)) gpa \<longleftrightarrow> drop_bit 12 gpa = drop_bit 12 a"
    using hook_page_iff [OF ok assms(3)] h(2) by simp
  note w = ept_walk_wf [OF _ mapped_gpa(1) [OF assms(3)]]
  show ?thesis
    unfolding w [OF wf] w [OF wf'] Let_def
    using leaf_at_upd_pte [OF wf h(3) idx] page by (simp add: swap_hook_def)
qed

text \<open>The EPTP the processor uses belongs to the mode of the core.\<close>

definition eptp_matches :: "machine \<Rightarrow> core \<Rightarrow> bool" where
  "eptp_matches M st \<longleftrightarrow> vmx_vmread M VMCS_CTRL_EPT_POINTER (hws st) = current_eptp (vc st)"

lemma change_eptp_read [simp]:
  "supported M VMCS_CTRL_EPT_POINTER \<Longrightarrow> vmx_vmread M VMCS_CTRL_EPT_POINTER (change_eptp M e h) = e"
  "f \<noteq> VMCS_CTRL_EPT_POINTER \<Longrightarrow> vmx_vmread M f (change_eptp M e h) = vmx_vmread M f h"
  by (simp_all add: change_eptp_def)

lemma emit_transition_frame [simp]:
  "cx (emit_transition M ds st) = cx st" "mem (emit_transition M ds st) = mem st"
  "vmx_vmread M f (hws (emit_transition M ds st)) = vmx_vmread M f (hws st)"
  "in_normal_execution (vc (emit_transition M ds st)) = in_normal_execution (vc st)"
  "eptp_normal_execution (vc (emit_transition M ds st)) = eptp_normal_execution (vc st)"
  "eptp_target_execution (vc (emit_transition M ds st)) = eptp_target_execution (vc st)"
  by (simp_all add: emit_transition_def rdtsc_def Let_def)

lemma emit_transition_contents:
  assumes "ring_inv (trace_buffer (vc st))"
  shows "ring_inv (trace_buffer (vc (emit_transition M ds st)))"
    and "ring_contents (trace_buffer (vc (emit_transition M ds st))) =
      (if active (trace_buffer (vc st)) = 0 \<or> length (ring_contents (trace_buffer (vc st))) = 8191
       then ring_contents (trace_buffer (vc st))
       else ring_contents (trace_buffer (vc st)) @
         [\<lparr>e_format_id = fmt_ept_target_transition, e_core_id = ucast (core_id (vc st)), e_pad0 = 0,
           e_timestamp = tsc_value M (tsc_reads (hws st)), e_data = ds\<rparr>])"
  using emit_inv [OF assms] emit_contents_aux [OF assms]
  by (simp_all add: emit_transition_def rdtsc_def Let_def length_ring_contents)

section \<open>Properties\<close>

text \<open>
  C18. A violation on a page with an active hook swaps the view of this page in the tables the core runs on:
  after an execute violation the page is executable only and shows the replacement frame, after
  a read or write violation it is readable and writable only and shows the original frame, so that the
  access that failed is allowed. Every other page keeps its mapping, the invariant of the tables
  holds again, the stale translations are invalidated, and the core stays in its mode.
\<close>

theorem hooked_page_swapped:
  assumes "ept_base (current_ept_pages (vc st))"
    and "active_hook (current_ept_pages (vc st)) (violation_address M (hws st)) = Some (hook, q)"
    and "gpa < 0x8000000000"
  defines "execute \<equiv> flag (ev_execute (exl M)) (vmx_vmread M VMCS_EXIT_QUALIFICATION (hws st))"
  shows "\<exists>st'. handle_ept_violation M st = Inr st' \<and> in_normal_execution (vc st') = in_normal_execution (vc st) \<and>
    ept_base (current_ept_pages (vc st')) \<and> trace_buffer (vc st') = trace_buffer (vc st) \<and>
    invepts (hws st') = (invept_single_context, current_eptp (vc st)) # invepts (hws st) \<and>
    (if drop_bit 12 gpa = drop_bit 12 (violation_address M (hws st))
     then \<exists>x. ept_walk (current_ept_pages (vc st')) gpa = Some x \<and> a_execute x = execute \<and> a_read x = (\<not> execute) \<and>
       a_write x = (\<not> execute) \<and> a_pfn x = ucast (if execute then hook_pfn hook else orig_pfn hook)
     else ept_walk (current_ept_pages (vc st')) gpa = ept_walk (current_ept_pages (vc st)) gpa)"
proof -
  let ?ep = "current_ept_pages (vc st)"
  have "handle_ept_violation M st =
      Inr (on_hw (invept invept_single_context (current_eptp (vc st)))
            (on_vc (set_current_ept_pages (swap_hook execute hook q ?ep)) st))"
    using assms(2) by (simp add: handle_ept_violation_def Let_def execute_def)
  then show ?thesis
    using swap_hook_base [OF assms(1,2), of execute] swap_hook_walk [OF assms(1-3), of execute]
    by (simp add: invept_def)
qed

theorem hooked_page_swapped_witness:
  "\<exists>st' x. handle_ept_violation sdm_machine
      (demo_core\<lparr>vc := (vc demo_core)\<lparr>in_normal_execution := True, ept_pages_normal := fst (add_hook flat_ept 5 7)\<rparr>,
          hws := (hws demo_core)\<lparr>vmcs := (\<lambda>_. 0)(VMCS_EXIT_QUALIFICATION := 0x104, VMCS_GUEST_PHYSICAL_ADDRESS := 0x5010)\<rparr>\<rparr>) = Inr st' \<and>
    ept_walk (current_ept_pages (vc st')) 0x5000 = Some x \<and> a_execute x \<and> a_pfn x = 7"
proof -
  let ?ep = "fst (add_hook flat_ept 5 7)"
  let ?st = "demo_core\<lparr>vc := (vc demo_core)\<lparr>in_normal_execution := True, ept_pages_normal := ?ep\<rparr>,
      hws := (hws demo_core)\<lparr>vmcs := (\<lambda>_. 0)(VMCS_EXIT_QUALIFICATION := 0x104, VMCS_GUEST_PHYSICAL_ADDRESS := 0x5010)\<rparr>\<rparr>"
  have s: "add_hook flat_ept 5 7 = (?ep, True)"
    by (simp add: add_hook_def get_ept_pte_def split_pde_def flat_ept_def zeroed_ept_def Let_def
        va_field_defs bit_field_def push_bit_eq_mult drop_bit_eq_div take_bit_eq_mod)
  have hk: "\<exists>q. hooks ?ep = [\<lparr>orig_pfn = 5, hook_pfn = 7, hk_pte = Some q\<rparr>]"
    by (simp add: add_hook_def get_ept_pte_def split_pde_def flat_ept_def zeroed_ept_def Let_def upd_pte_def
        va_field_defs bit_field_def push_bit_eq_mult drop_bit_eq_div take_bit_eq_mod)
  then obtain q where q: "hooks ?ep = [\<lparr>orig_pfn = 5, hook_pfn = 7, hk_pte = Some q\<rparr>]" by blast
  have b: "ept_base (current_ept_pages (vc ?st))"
    using add_hook_effect(1) [OF flat_ept_base s] by (simp add: current_ept_pages_def)
  have v: "violation_address sdm_machine (hws ?st) = 0x5010" "flag (ev_execute (exl sdm_machine)) 0x104"
    by (simp_all add: violation_address_def vmx_vmread_def sdm_machine_def sdm_exit_layout_def flag_def Let_def)
  have "active_hook (current_ept_pages (vc ?st)) (violation_address sdm_machine (hws ?st)) =
      Some (\<lparr>orig_pfn = 5, hook_pfn = 7, hk_pte = Some q\<rparr>, q)"
    unfolding v by (simp add: active_hook_def get_hook_by_orig_pfn_def current_ept_pages_def q drop_bit_eq_div)
  from hooked_page_swapped [OF b this, of "0x5000"] v show ?thesis
    by (auto simp: vmx_vmread_def sdm_machine_def drop_bit_eq_div)
qed

text \<open>
  C17. Every other execute violation changes the mode of the core, and the processor uses the
  EPTP of the mode afterwards. Entering the traced target writes no trace; leaving it appends exactly one
  entry with the core, the time and the configured data to the trace (unless tracing is off or the
  ring is full). The entry is lost, with the host, only if the page tables of the guest cannot be read. A
  data violation on a page without an active hook crashes the host.
\<close>

theorem ept_violation_switches_mode:
  assumes "platform_ok M" and "ring_inv (trace_buffer (vc st))"
    and "active_hook (current_ept_pages (vc st)) (violation_address M (hws st)) = None"
  defines "execute \<equiv> flag (ev_execute (exl M)) (vmx_vmread M VMCS_EXIT_QUALIFICATION (hws st))"
    and "rip \<equiv> vmx_vmread M VMCS_GUEST_RIP (hws st)" and "rsp \<equiv> vmx_vmread M VMCS_GUEST_RSP (hws st)"
  defines "config \<equiv> lookup_transition_cfg (vc_cfg_table (vc st)) (generic_transition_cfg (vc st)) rip"
  shows "case handle_ept_violation M st of
      Inr st' \<Rightarrow> execute \<and> in_normal_execution (vc st') = (\<not> in_normal_execution (vc st)) \<and> eptp_matches M st' \<and>
        ring_inv (trace_buffer (vc st')) \<and> cx st' = cx st \<and>
        (if in_normal_execution (vc st) then mem st' = mem st \<and> trace_buffer (vc st') = trace_buffer (vc st)
         else \<exists>ds. resolve_data_fields M (get_guest_cr3 M (hws st)) (data_map config) rip rsp (cx st) (mem st) = Some (mem st', ds) \<and>
           ring_contents (trace_buffer (vc st')) =
             (if active (trace_buffer (vc st)) = 0 \<or> length (ring_contents (trace_buffer (vc st))) = 8191
              then ring_contents (trace_buffer (vc st))
              else ring_contents (trace_buffer (vc st)) @
                [\<lparr>e_format_id = fmt_ept_target_transition, e_core_id = ucast (core_id (vc st)), e_pad0 = 0,
                  e_timestamp = tsc_value M (tsc_reads (hws st)), e_data = ds\<rparr>]))
    | Inl e \<Rightarrow> e = Unrecoverable_host_error \<and>
        (\<not> execute \<or> \<not> in_normal_execution (vc st) \<and>
           resolve_data_fields M (get_guest_cr3 M (hws st)) (data_map config) rip rsp (cx st) (mem st) = None)"
proof -
  note p = platform_supported(9) [OF assms(1)]
  let ?t = "on_vc (\<lambda>v. v\<lparr>in_normal_execution := True\<rparr>) (on_hw (change_eptp M (eptp_normal_execution (vc st))) st)"
  have cr3: "get_guest_cr3 M (change_eptp M e h) = get_guest_cr3 M h" for e h
    by (simp add: get_guest_cr3_def)
  show ?thesis
  proof (cases "execute \<and> \<not> in_normal_execution (vc st)")
    case True
    have tsc: "tsc_reads (change_eptp M e h) = tsc_reads h" for e h
      by (simp add: change_eptp_def)
    have "handle_ept_violation M st = trace_transition M ?t"
      using assms(3) True by (simp add: handle_ept_violation_def Let_def execute_def)
    also have "\<dots> = (case resolve_data_fields M (get_guest_cr3 M (hws st)) (data_map config) rip rsp (cx st) (mem st) of
        None \<Rightarrow> Inl Unrecoverable_host_error | Some (hm, ds) \<Rightarrow> Inr (emit_transition M ds (?t\<lparr>mem := hm\<rparr>)))"
      by (simp add: trace_transition_def Let_def cr3 config_def rip_def rsp_def unrecoverable_host_error_def split: option.split)
    finally show ?thesis
      using True p emit_transition_contents [of "?t\<lparr>mem := hm\<rparr>" M for hm] assms(2)
      by (auto simp: eptp_matches_def current_eptp_def tsc split: option.splits)
  next
    case False
    then show ?thesis
      using assms(2,3) p
      by (auto simp: handle_ept_violation_def Let_def execute_def unrecoverable_host_error_def eptp_matches_def current_eptp_def)
  qed
qed

theorem ept_violation_switches_mode_witness:
  "case handle_ept_violation sdm_machine
      (demo_core\<lparr>vc := (vc demo_core)\<lparr>in_normal_execution := True, ept_pages_normal := flat_ept, trace_buffer := demo_ring\<rparr>,
          hws := (hws demo_core)\<lparr>vmcs := (\<lambda>_. 0)(VMCS_EXIT_QUALIFICATION := 0x104)\<rparr>\<rparr>) of
     Inr st' \<Rightarrow> \<not> in_normal_execution (vc st') \<and> eptp_matches sdm_machine st' | Inl e \<Rightarrow> False"
proof -
  let ?st = "demo_core\<lparr>vc := (vc demo_core)\<lparr>in_normal_execution := True, ept_pages_normal := flat_ept, trace_buffer := demo_ring\<rparr>,
          hws := (hws demo_core)\<lparr>vmcs := (\<lambda>_. 0)(VMCS_EXIT_QUALIFICATION := 0x104)\<rparr>\<rparr>"
  have "ring_inv (trace_buffer (vc ?st))"
    by (simp add: ring_inv_def demo_ring_def)
  moreover have "active_hook (current_ept_pages (vc ?st)) (violation_address sdm_machine (hws ?st)) = None"
    by (simp add: active_hook_def get_hook_by_orig_pfn_def current_ept_pages_def flat_ept_hooks)
  moreover have "flag (ev_execute (exl sdm_machine)) (vmx_vmread sdm_machine VMCS_EXIT_QUALIFICATION (hws ?st))"
    by (simp add: vmx_vmread_def sdm_machine_def sdm_exit_layout_def flag_def)
  ultimately show ?thesis
    using ept_violation_switches_mode [OF sdm_platform_ok, of ?st] by (simp split: sum.splits)
qed

end
