(* ===== verification/Apic.thy ===== *)
theory Apic
  imports Vcpu
begin

text \<open>
  The local APIC (\<open>revhv-km/apic.cpp\<close>): whether x2APIC mode is on, the physical address of its
  registers, and the NMI sent to all other cores when one of them crashes. The registers of an
  xAPIC are memory mapped: a read of the low half of the interrupt command register is the next value of
  a stream, since it depends on the hardware; the writes are recorded in order.
\<close>

section \<open>Constants\<close>

definition ICR_DELIVERY_NMI :: u64 where "ICR_DELIVERY_NMI = push_bit 8 4"
definition ICR_DEST_SHORTHAND_ALL_EXCL_SELF :: u64 where "ICR_DEST_SHORTHAND_ALL_EXCL_SELF = push_bit 18 3"
definition ICR_LEVEL_ASSERT :: u64 where "ICR_LEVEL_ASSERT = push_bit 14 1"
definition ICR_DELIVERY_STATUS :: u64 where "ICR_DELIVERY_STATUS = push_bit 12 1"
definition LAPIC_ICR_LOW :: u32 where "LAPIC_ICR_LOW = 0x300"
definition LAPIC_ICR_HIGH :: u32 where "LAPIC_ICR_HIGH = 0x310"

lemmas icr_defs = ICR_DELIVERY_NMI_def ICR_DEST_SHORTHAND_ALL_EXCL_SELF_def ICR_LEVEL_ASSERT_def ICR_DELIVERY_STATUS_def

section \<open>Mode and base address\<close>

definition is_x2apic_enabled :: "machine \<Rightarrow> hw \<Rightarrow> bool" where
  "is_x2apic_enabled M h =
     (if \<not> flag (cpuid_x2apic (ftl M)) (cpuid_1_ecx M) then False
      else if \<not> flag (apic_x2apic (ftl M)) (msrs h IA32_APIC_BASE) then False
      else True)"

definition get_lapic_mmio_phys_base :: "machine \<Rightarrow> hw \<Rightarrow> u64" where
  "get_lapic_mmio_phys_base M h = push_bit 12 (get_member (apic_base (ftl M)) (msrs h IA32_APIC_BASE))"

section \<open>The NMI to all other cores\<close>

definition nmi_all_others :: u64 where
  "nmi_all_others = ICR_DELIVERY_NMI OR ICR_LEVEL_ASSERT OR ICR_DEST_SHORTHAND_ALL_EXCL_SELF"

definition x2apic_send_nmi_all_others :: "hw \<Rightarrow> hw" where
  "x2apic_send_nmi_all_others h = h\<lparr>msrs := (msrs h)(IA32_X2APIC_ICR := nmi_all_others)\<rparr>"

text \<open>\<open>icr_low k\<close> is the value of the \<open>k\<close>-th read; the result is the number of reads.\<close>

fun wait_icr_idle :: "(nat \<Rightarrow> u32) \<Rightarrow> nat \<Rightarrow> nat \<Rightarrow> nat" where
  "wait_icr_idle icr_low i 0 = i"
| "wait_icr_idle icr_low i (Suc left) =
     (if icr_low i AND ucast ICR_DELIVERY_STATUS = 0 then i + 1 else wait_icr_idle icr_low (i + 1) left)"

definition xapic_send_nmi_all_others :: "(nat \<Rightarrow> u32) \<Rightarrow> nat \<times> (u32 \<times> u32) list" where
  "xapic_send_nmi_all_others icr_low =
     (wait_icr_idle icr_low 0 100000,
      [(LAPIC_ICR_HIGH, 0),
       (LAPIC_ICR_LOW, ucast ICR_DELIVERY_NMI OR ucast ICR_LEVEL_ASSERT OR ucast ICR_DEST_SHORTHAND_ALL_EXCL_SELF)])"

lemma wait_icr_idle_result:
  "i \<le> wait_icr_idle icr_low i left \<and> wait_icr_idle icr_low i left \<le> i + left \<and>
   (\<forall>k. i \<le> k \<and> k < wait_icr_idle icr_low i left - 1 \<longrightarrow> bit (icr_low k) 12) \<and>
   (wait_icr_idle icr_low i left < i + left \<longrightarrow>
      i < wait_icr_idle icr_low i left \<and> \<not> bit (icr_low (wait_icr_idle icr_low i left - 1)) 12)"
proof (induction left arbitrary: i)
  case (Suc left)
  have m: "(w :: u32) AND ucast ICR_DELIVERY_STATUS = 0 \<longleftrightarrow> \<not> bit w 12" for w
  proof -
    have "(ucast ICR_DELIVERY_STATUS :: u32) = 2 ^ 12"
      by (simp add: icr_defs)
    then show ?thesis
      by (simp only: and_exp_eq_0_iff_not_bit)
  qed
  show ?case
  proof (cases "bit (icr_low i) 12")
    case True
    then show ?thesis
      using Suc.IH [of "Suc i"] by (simp add: m) (metis Suc_leD Suc_leI le_neq_implies_less less_Suc_eq_le)
  qed (auto simp: m)
qed auto

section \<open>Properties\<close>

text \<open>
  Both ways to stop the other cores send the same command: delivery mode NMI, level assert,
  destination all but self, and no other bit. The xAPIC waits until the previous command is
  delivered, at most 100000 reads, and writes the low half of the command, which triggers it, last.
\<close>

theorem nmi_reaches_all_others:
  fixes icr_low :: "nat \<Rightarrow> u32"
  defines "send \<equiv> xapic_send_nmi_all_others icr_low"
  defines "n \<equiv> fst send"
  shows "snd send = [(LAPIC_ICR_HIGH, 0), (LAPIC_ICR_LOW, ucast (msrs (x2apic_send_nmi_all_others h) IA32_X2APIC_ICR))] \<and>
    (\<forall>k. bit (msrs (x2apic_send_nmi_all_others h) IA32_X2APIC_ICR) k \<longleftrightarrow> k \<in> {10, 14, 18, 19}) \<and>
    1 \<le> n \<and> n \<le> 100000 \<and> (\<forall>k < n - 1. bit (icr_low k) 12) \<and> (n < 100000 \<longrightarrow> \<not> bit (icr_low (n - 1)) 12)"
proof -
  have eq: "nmi_all_others = 2 ^ 10 OR (2 ^ 14 OR (2 ^ 18 OR 2 ^ 19))"
    by (simp add: nmi_all_others_def icr_defs push_bit_eq_mult)
  have "bit nmi_all_others k \<longleftrightarrow> k \<in> {10, 14, 18, 19}" for k
    unfolding eq bit_or_iff bit_exp_iff possible_bit_word by auto
  moreover have "(ucast nmi_all_others :: u32) = ucast ICR_DELIVERY_NMI OR ucast ICR_LEVEL_ASSERT OR ucast ICR_DEST_SHORTHAND_ALL_EXCL_SELF"
    by (simp add: nmi_all_others_def icr_defs push_bit_eq_mult)
  moreover have "n \<le> 100000 \<and> (\<forall>k < n - 1. bit (icr_low k) 12) \<and> (n < 100000 \<longrightarrow> 0 < n \<and> \<not> bit (icr_low (n - 1)) 12)"
    using wait_icr_idle_result [of 0 icr_low 100000] by (auto simp: n_def send_def xapic_send_nmi_all_others_def)
  ultimately show ?thesis
    by (auto simp: send_def xapic_send_nmi_all_others_def x2apic_send_nmi_all_others_def)
qed

theorem nmi_reaches_all_others_witness:
  "let r = xapic_send_nmi_all_others (\<lambda>k. if k < 3 then 0x1000 else 0)
   in \<not> bit (0 :: u32) 12 \<and> fst r \<le> 100000 \<and> length (snd r) = 2 \<and> bit (0x1000 :: u32) 12"
  using nmi_reaches_all_others [of "\<lambda>k. if k < 3 then 0x1000 else 0" demo_hw]
  by (simp add: Let_def bit_numeral_rec)

end
