(* ===== verification/Hypercall.thy ===== *)
theory Hypercall
  imports Vmexit_Ept Apic
begin

text \<open>
  The hypercalls (\<open>revhv-km/hypercall.cpp\<close>, \<open>common/hypercall_types.hpp\<close>). A request in guest memory is
  copied to a local variable at \<open>stack_addr M\<close>; data goes through the scratch buffer of the core, a page at
  \<open>local_buffer M\<close>. A fault of the host itself, which only the page tables of the guest can cause, is
  \<open>Unrecoverable_host_error\<close>. The messages the handlers write to the log are left out.
\<close>

section \<open>Constants and helpers\<close>

definition HYPERCALL_KEY :: u64 where "HYPERCALL_KEY = 0x5245564856"
definition MAX_VMEM_CHUNK_SIZE :: u64 where "MAX_VMEM_CHUNK_SIZE = 0x1000"
definition max_onload_name_length :: nat where "max_onload_name_length = 64"

definition set_rax :: "u64 \<Rightarrow> core \<Rightarrow> core" where
  "set_rax v st = on_cx (\<lambda>g. g\<lparr>g_rax := v\<rparr>) st"

text \<open>The little-endian bytes of a value.\<close>

definition le_bytes :: "nat \<Rightarrow> u64 \<Rightarrow> u8 list" where
  "le_bytes n w = map (\<lambda>i. ucast (drop_bit (8 * i) w)) [0..<n]"

definition guest_read :: "machine \<Rightarrow> u64 \<Rightarrow> u64 \<Rightarrow> u64 \<Rightarrow> u64 \<Rightarrow> core \<Rightarrow> stop + u64 \<times> core" where
  "guest_read M cr3 gva buffer sz st =
     (case read_guest_virtual (ptl M) (mem st) cr3 gva buffer sz of
        None \<Rightarrow> unrecoverable_host_error st
      | Some (hm, n) \<Rightarrow> Inr (n, st\<lparr>mem := hm\<rparr>))"

definition guest_write :: "machine \<Rightarrow> u64 \<Rightarrow> u64 \<Rightarrow> u64 \<Rightarrow> u64 \<Rightarrow> core \<Rightarrow> stop + u64 \<times> core" where
  "guest_write M cr3 gva buffer sz st =
     (case write_guest_virtual (ptl M) (mem st) cr3 gva buffer sz of
        None \<Rightarrow> unrecoverable_host_error st
      | Some (hm, n) \<Rightarrow> Inr (n, st\<lparr>mem := hm\<rparr>))"

definition guest_cr3 :: "machine \<Rightarrow> core \<Rightarrow> u64" where
  "guest_cr3 M st = get_guest_cr3 M (hws st)"

text \<open>A load from the memory of the host.\<close>

definition load_u64 :: "u64 \<Rightarrow> core \<Rightarrow> stop + u64" where
  "load_u64 a st = (case read_u64 (mem st) a of None \<Rightarrow> unrecoverable_host_error st | Some v \<Rightarrow> Inr v)"

definition store_bytes :: "u64 \<Rightarrow> u8 list \<Rightarrow> core \<Rightarrow> core" where
  "store_bytes a bs st = st\<lparr>mem := put_bytes (mem st) a bs\<rparr>"

section \<open>Reading and writing the memory of another address space\<close>

record vmem_request =
  rq_guest_buffer :: u64
  rq_target_va :: u64
  rq_size :: u64
  rq_target_cr3 :: u64

definition load_vmem_request :: "u64 \<Rightarrow> core \<Rightarrow> stop + vmem_request" where
  "load_vmem_request a st =
     and_then (load_u64 a st) (\<lambda>b. and_then (load_u64 (a + 8) st) (\<lambda>va. and_then (load_u64 (a + 16) st) (\<lambda>sz.
     and_then (load_u64 (a + 24) st) (\<lambda>c.
       Inr \<lparr>rq_guest_buffer = b, rq_target_va = va, rq_size = sz, rq_target_cr3 = c\<rparr>))))"

text \<open>The local request is zero before the copy; \<open>None\<close> is a request that could not be copied in full.\<close>

definition fetch_vmem_request :: "machine \<Rightarrow> core \<Rightarrow> stop + vmem_request option \<times> core" where
  "fetch_vmem_request M st =
     (let st1 = store_bytes (local_buffer M) (replicate (unat MAX_VMEM_CHUNK_SIZE) 0) st;
          st2 = store_bytes (stack_addr M) (replicate 32 0) st1
      in and_then (guest_read M (guest_cr3 M st2) (g_rdx (cx st2)) (stack_addr M) 32 st2) (\<lambda>(n, st3).
           if n \<noteq> 32 then Inr (None, st3)
           else and_then (load_vmem_request (stack_addr M) st3) (\<lambda>rq. Inr (Some rq, st3))))"

definition request_cr3 :: "vmem_request \<Rightarrow> core \<Rightarrow> u64" where
  "request_cr3 rq st = (if rq_target_cr3 rq \<noteq> 0 then rq_target_cr3 rq else system_cr3 (ghv st))"

definition handle_vmem_read :: "machine \<Rightarrow> core \<Rightarrow> stop + core" where
  "handle_vmem_read M st =
     and_then (fetch_vmem_request M st) (\<lambda>(request, st1).
       case request of
         None \<Rightarrow> Inr (set_rax 0 st1)
       | Some rq \<Rightarrow>
           (let bytes_to_read = min (rq_size rq) MAX_VMEM_CHUNK_SIZE in
            if bytes_to_read = 0 then Inr (set_rax 0 st1)
            else and_then (guest_read M (request_cr3 rq st1) (rq_target_va rq) (local_buffer M) bytes_to_read st1) (\<lambda>(bytes_read, st2).
              if bytes_read = 0 then Inr (set_rax 0 st2)
              else and_then (guest_write M (guest_cr3 M st2) (rq_guest_buffer rq) (local_buffer M) bytes_read st2) (\<lambda>(n, st3).
                Inr (set_rax (if n \<noteq> bytes_read then 0 else bytes_read) st3)))))"

definition handle_vmem_write :: "machine \<Rightarrow> core \<Rightarrow> stop + core" where
  "handle_vmem_write M st =
     and_then (fetch_vmem_request M st) (\<lambda>(request, st1).
       case request of
         None \<Rightarrow> Inr (set_rax 0 st1)
       | Some rq \<Rightarrow>
           (let bytes_to_write = min (rq_size rq) MAX_VMEM_CHUNK_SIZE in
            if bytes_to_write = 0 then Inr (set_rax 0 st1)
            else and_then (guest_read M (guest_cr3 M st1) (rq_guest_buffer rq) (local_buffer M) bytes_to_write st1) (\<lambda>(bytes_read, st2).
              if bytes_read = 0 then Inr (set_rax 0 st2)
              else and_then (guest_write M (request_cr3 rq st2) (rq_target_va rq) (local_buffer M) bytes_read st2) (\<lambda>(bytes_written, st3).
                Inr (set_rax bytes_written st3)))))"

section \<open>Ping, logs, hooks\<close>

definition handle_ping :: "core \<Rightarrow> stop + core" where
  "handle_ping st = Inr (set_rax 1 st)"

definition handle_flush_standard_logs :: "machine \<Rightarrow> core \<Rightarrow> stop + core" where
  "handle_flush_standard_logs M st =
     (case flush_to_guest (ptl M) (guest_cr3 M st) (logger_base M) (logger (ghv st)) (mem st) (g_rdx (cx st)) (g_r8 (cx st)) of
        None \<Rightarrow> unrecoverable_host_error st
      | Some (hm, l, flushed) \<Rightarrow> Inr (set_rax flushed (st\<lparr>mem := hm, ghv := (ghv st)\<lparr>logger := l\<rparr>\<rparr>)))"

text \<open>The second table is changed only if the first hook was added.\<close>

definition handle_ept_hook :: "core \<Rightarrow> stop + core" where
  "handle_ept_hook st =
     (let orig = g_rdx (cx st); hook = g_r8 (cx st); v = vc st;
          (en, ok_n) = add_hook (ept_pages_normal v) orig hook;
          (et, ok_t) = (if ok_n then add_hook (ept_pages_target v) orig hook else (ept_pages_target v, False))
      in Inr (on_hw (invept invept_all_context 0)
               (set_rax (if ok_n \<and> ok_t then 1 else 0)
                 (on_vc (\<lambda>v. v\<lparr>ept_pages_normal := en, ept_pages_target := et\<rparr>) st))))"

section \<open>Auto tracing\<close>

text \<open>
  The pages are translated with the page tables of the system. A fault on the way is fatal, but
  the loop reaches only the pages in front of one it fails on.
\<close>

definition system_walk :: "machine \<Rightarrow> core \<Rightarrow> u64 \<Rightarrow> (u64 \<times> u64 option) option" where
  "system_walk M st va = gva_to_gpa (ptl M) (mem st) (system_cr3 (ghv st)) va"

definition system_xlate :: "machine \<Rightarrow> core \<Rightarrow> u64 \<Rightarrow> u64" where
  "system_xlate M st va = (case system_walk M st va of None \<Rightarrow> 0 | Some (gpa, _) \<Rightarrow> gpa)"

definition start_auto_trace :: "machine \<Rightarrow> core \<Rightarrow> ept_pages \<Rightarrow> ept_pages \<Rightarrow> u64 \<Rightarrow> u64 \<Rightarrow> stop + bool \<times> ept_pages \<times> ept_pages" where
  "start_auto_trace M st nrm tgt va sz =
     (let base = va AND NOT 0xFFF;
          offs = page_offsets (((va + sz + 0xFFF) AND NOT 0xFFF) - base);
          walked = takeWhile (\<lambda>off. system_walk M st (base + off) \<noteq> None) offs
      in if walked = offs then Inr (enable_auto_trace (system_xlate M st) nrm tgt va sz)
         else case auto_trace_loop (system_xlate M st) base walked nrm (set_all_permissions tgt True True False) of
                (True, _) \<Rightarrow> unrecoverable_host_error st
              | failed \<Rightarrow> Inr failed)"

definition normal_mode :: "machine \<Rightarrow> core \<Rightarrow> core" where
  "normal_mode M st = on_vc (\<lambda>v. v\<lparr>in_normal_execution := True\<rparr>) (on_hw (change_eptp M (eptp_normal_execution (vc st))) st)"

definition handle_enable_auto_trace :: "machine \<Rightarrow> core \<Rightarrow> stop + core" where
  "handle_enable_auto_trace M st =
     (let target_va = g_rdx (cx st); target_size = g_r8 (cx st); v = vc st
      in and_then (start_auto_trace M st (deactivate_hooks (ept_pages_normal v)) (deactivate_hooks (ept_pages_target v)) target_va target_size)
          (\<lambda>(ok, en, et).
            if ok then
              Inr (set_rax 1 (on_hw (invept invept_all_context 0)
                    (normal_mode M
                      (on_vc (\<lambda>v. v\<lparr>ept_pages_normal := en, ept_pages_target := et,
                        trace_buffer := (trace_buffer v)\<lparr>write_head := 0, read_tail := 0, active := 1\<rparr>\<rparr>) st))))
            else
              Inr (set_rax 0 (on_hw (invept invept_all_context 0)
                    (on_vc (\<lambda>v. v\<lparr>ept_pages_normal := reactivate_hooks en, ept_pages_target := reactivate_hooks et\<rparr>) st)))))"

definition handle_disable_auto_trace :: "machine \<Rightarrow> core \<Rightarrow> stop + core" where
  "handle_disable_auto_trace M st =
     (let v = vc st; (en, et) = restore_auto_trace (ept_pages_normal v) (ept_pages_target v)
      in Inr (on_hw (invept invept_all_context 0)
               (normal_mode M
                 (on_vc (\<lambda>v. v\<lparr>trace_buffer := (trace_buffer v)\<lparr>active := 0\<rparr>,
                     ept_pages_normal := reactivate_hooks en, ept_pages_target := reactivate_hooks et\<rparr>) st))))"

section \<open>Flushing a trace\<close>

definition entry_bytes :: "entry \<Rightarrow> u8 list" where
  "entry_bytes e =
     le_bytes 2 (ucast (e_format_id e)) @ le_bytes 2 (ucast (e_core_id e)) @ le_bytes 4 (ucast (e_pad0 e)) @
     le_bytes 8 (e_timestamp e) @ concat (map (le_bytes 8) (e_data e))"

definition sizeof_entry :: u64 where "sizeof_entry = 64"
definition batch_capacity :: u64 where "batch_capacity = MAX_VMEM_CHUNK_SIZE div sizeof_entry"

lemma batch_capacity: "batch_capacity = 64"
  by (simp add: batch_capacity_def MAX_VMEM_CHUNK_SIZE_def sizeof_entry_def)

lemma drain_loop_count_le:
  "count \<le> m \<Longrightarrow> drain_loop buf m count tail out = (count', tail', out') \<Longrightarrow> count' \<le> m"
proof (induction buf m count tail out rule: drain_loop.induct)
  case (1 buf m count tail out)
  show ?case
  proof (cases "count < m \<and> tail \<noteq> write_head buf")
    case True
    then show ?thesis
      using 1 inc_le [of count m] by (simp add: drain_loop.simps [of buf m count] add.commute)
  next
    case False
    then show ?thesis
      using 1 by (auto simp: drain_loop.simps [of buf m count] split: if_splits)
  qed
qed

lemma drain_count_le: "drain buf m = (count, out, b) \<Longrightarrow> count \<le> m"
  using drain_loop_count_le [of 0 m buf "read_tail buf" "[]"]
  by (auto simp: drain_def split: prod.splits)

function flush_trace_loop ::
  "machine \<Rightarrow> u64 \<Rightarrow> u64 \<Rightarrow> u64 \<Rightarrow> ring_buffer \<Rightarrow> host_mem \<Rightarrow> u64 \<Rightarrow> (ring_buffer \<times> host_mem \<times> u64) option" where
  "flush_trace_loop M cr3 guest_buffer max_entries ring hm total_flushed =
     (if total_flushed < max_entries then
        let to_drain = min (max_entries - total_flushed) batch_capacity;
            (drained, batch, ring') = drain ring to_drain
        in if drained = 0 then Some (ring', hm, total_flushed)
           else (case write_guest_virtual (ptl M) (put_bytes hm (local_buffer M) (concat (map entry_bytes batch))) cr3
                   (guest_buffer + total_flushed * sizeof_entry) (local_buffer M) (drained * sizeof_entry) of
                   None \<Rightarrow> None
                 | Some (hm', n) \<Rightarrow>
                     if n \<noteq> drained * sizeof_entry then Some (ring', hm', total_flushed)
                     else flush_trace_loop M cr3 guest_buffer max_entries ring' hm' (total_flushed + drained))
      else Some (ring, hm, total_flushed))"
  by pat_completeness auto
termination
proof (relation "measure (\<lambda>(M, cr3, b, m, ring, hm, total). unat m - unat total)", goal_cases)
  case (2 M cr3 b m ring hm total to_drain p drained q batch ring' x hm' n)
  then have d: "drain ring to_drain = (drained, batch, ring')" and "drained \<noteq> 0" and "to_drain \<le> m - total"
    by auto
  then have "drained \<le> m - total"
    using drain_count_le [OF d] by simp
  with \<open>drained \<noteq> 0\<close> have "drained \<le> m - total" "drained \<noteq> 0" by simp_all
  then have "unat drained \<le> unat m - unat total" "0 < unat drained"
    using unat_sub_no_wrap [OF less_imp_le [OF 2(1)]] by (auto simp: word_le_nat_alt unat_gt_0)
  moreover have "unat (total + drained) = unat total + unat drained"
    using calculation 2(1) unat_less_64 [of m] by (intro unat_add_no_wrap) (auto simp: word_less_nat_alt simp del: unat_less_64)
  ultimately show ?case by simp
qed simp

declare flush_trace_loop.simps [simp del]

definition ring_of_core :: "core \<Rightarrow> u64 \<Rightarrow> ring_buffer" where
  "ring_of_core st c = (if c = core_id (vc st) then trace_buffer (vc st) else peer_rings st (unat c))"

definition put_ring_of_core :: "u64 \<Rightarrow> ring_buffer \<Rightarrow> core \<Rightarrow> core" where
  "put_ring_of_core c r st =
     (if c = core_id (vc st) then on_vc (\<lambda>v. v\<lparr>trace_buffer := r\<rparr>) st
      else st\<lparr>peer_rings := (peer_rings st)(unat c := r)\<rparr>)"

definition handle_flush_trace_logs :: "machine \<Rightarrow> core \<Rightarrow> stop + core" where
  "handle_flush_trace_logs M st =
     (let target_core = g_rdx (cx st); max_entries = min (g_r9 (cx st)) max_flush_entries in
      if target_core \<ge> vcpu_count (ghv st) then Inr (set_rax 0 st)
      else case flush_trace_loop M (guest_cr3 M st) (g_r8 (cx st)) max_entries (ring_of_core st target_core) (mem st) 0 of
             None \<Rightarrow> unrecoverable_host_error st
           | Some (ring, hm, total_flushed) \<Rightarrow>
               Inr (set_rax total_flushed (put_ring_of_core target_core ring (st\<lparr>mem := hm\<rparr>))))"

section \<open>Transition configurations, APIC, the target to trace on load\<close>

definition load_bytes :: "u64 \<Rightarrow> nat \<Rightarrow> core \<Rightarrow> stop + u8 list" where
  "load_bytes a n st = (case read_bytes (mem st) a n of None \<Rightarrow> unrecoverable_host_error st | Some bs \<Rightarrow> Inr bs)"

text \<open>The request has 8 bytes of address, 6 of configuration and 2 of padding.\<close>

definition handle_at_config_ept_transition :: "machine \<Rightarrow> core \<Rightarrow> stop + core" where
  "handle_at_config_ept_transition M st =
     (let scope = g_rdx (cx st); st1 = store_bytes (stack_addr M) (replicate 16 0) st in
      and_then (guest_read M (guest_cr3 M st1) (g_r8 (cx st1)) (stack_addr M) 16 st1) (\<lambda>(n, st2).
        if n \<noteq> 16 then Inr (set_rax 0 st2)
        else and_then (load_u64 (stack_addr M) st2) (\<lambda>exact_addr. and_then (load_bytes (stack_addr M + 8) max_data_fields st2) (\<lambda>bs.
          let config = \<lparr>data_map = map field_of_u8 bs\<rparr> in
          if scope = 0 then Inr (set_rax 1 (on_vc (\<lambda>v. v\<lparr>generic_transition_cfg := config\<rparr>) st2))
          else if scope = 1 then
            (let (table, ok) = insert_exact_transition_cfg (vc_cfg_table (vc st2)) exact_addr config
             in Inr (set_rax (if ok then 1 else 0) (on_vc (\<lambda>v. v\<lparr>vc_cfg_table := table\<rparr>) st2)))
          else Inr (set_rax 0 st2)))))"

text \<open>The address (zero in x2APIC mode), the mode and 7 bytes of padding.\<close>

definition handle_get_apic_info :: "machine \<Rightarrow> core \<Rightarrow> stop + core" where
  "handle_get_apic_info M st =
     (let x2apic = is_x2apic_enabled M (hws st);
          base = (if \<not> x2apic then get_lapic_mmio_phys_base M (hws st) else 0);
          st1 = store_bytes (stack_addr M) (le_bytes 8 base @ (if x2apic then 1 else 0) # replicate 7 0) st
      in and_then (guest_write M (guest_cr3 M st1) (g_rdx (cx st1)) (stack_addr M) 16 st1) (\<lambda>(n, st2).
           Inr (set_rax (if n \<noteq> 16 then 0 else 1) st2)))"

definition char_of_u8 :: "u8 \<Rightarrow> char" where
  "char_of_u8 b = char_of (unat b)"

definition set_onload_target :: "string \<Rightarrow> bool \<Rightarrow> core \<Rightarrow> core" where
  "set_onload_target name on st = st\<lparr>ghv := (ghv st)\<lparr>onload_target := \<lparr>ol_active = on, ol_name = name\<rparr>\<rparr>\<rparr>"

definition handle_set_onload_target :: "machine \<Rightarrow> core \<Rightarrow> stop + core" where
  "handle_set_onload_target M st =
     (let st1 = store_bytes (stack_addr M) (replicate 64 0) st in
      and_then (guest_read M (guest_cr3 M st1) (g_rdx (cx st1)) (stack_addr M) 64 st1) (\<lambda>(n, st2).
        if n \<noteq> 64 then Inr (set_rax 0 st2)
        else and_then (load_bytes (stack_addr M) max_onload_name_length st2) (\<lambda>bs.
          let driver_name = (map char_of_u8 bs)[max_onload_name_length - 1 := CHR 0x00]
          in Inr (set_rax 1 (set_onload_target driver_name True st2)))))"

definition handle_clear_onload_target :: "core \<Rightarrow> stop + core" where
  "handle_clear_onload_target st =
     Inr (set_rax 1 (set_onload_target ((ol_name (onload_target (ghv st)))[0 := CHR 0x00]) False st))"

section \<open>The dispatcher\<close>

text \<open>
  The double fault test loses the stack pointer; the double fault that follows is fatal. The
  result is \<open>False\<close> for a wrong key.
\<close>

definition handle_test_host_df :: "core \<Rightarrow> stop + core" where
  "handle_test_host_df st = unrecoverable_host_error st"

definition handle_hypercall :: "machine \<Rightarrow> core \<Rightarrow> stop + bool \<times> core" where
  "handle_hypercall M st =
     (if g_rax (cx st) \<noteq> HYPERCALL_KEY then Inr (False, st)
      else let number = g_rcx (cx st) in
        and_then
          (if number = 1 then handle_ping st
           else if number = 2 then handle_flush_standard_logs M st
           else if number = 3 then handle_vmem_read M st
           else if number = 4 then handle_vmem_write M st
           else if number = 5 then handle_ept_hook st
           else if number = 6 then handle_enable_auto_trace M st
           else if number = 7 then handle_disable_auto_trace M st
           else if number = 8 then handle_flush_trace_logs M st
           else if number = 9 then handle_get_apic_info M st
           else if number = 11 then handle_at_config_ept_transition M st
           else if number = 12 then handle_set_onload_target M st
           else if number = 13 then handle_clear_onload_target st
           else if number = 10 then handle_test_host_df st
           else Inr st)
          (\<lambda>st'. Inr (True, st')))"

end
