(* ===== verification/Trace_Session.thy ===== *)
theory Trace_Session
  imports Hypercall
begin

text \<open>
  Tracing sessions: what the hypercalls that start and stop auto tracing, and the EPT violations
  in between, do together to the two sets of tables, the hooks and the mode of a core.
\<close>

section \<open>Facts about starting a trace\<close>

lemma start_auto_trace_result:
  assumes "ept_wf nrm" and "ept_wf tgt" and "start_auto_trace M st nrm tgt va sz = Inr (ok, nrm', tgt')"
  shows "\<exists>f g. kept nrm nrm' \<and> kept tgt tgt' \<and> leaves_from nrm nrm' f \<and> leaves_from tgt tgt' g \<and>
    (\<forall>i j n l. page_frame_number (f i j n l) = page_frame_number l \<and> page_frame_number (g i j n l) = page_frame_number l) \<and>
    (ok \<longrightarrow> f = (\<lambda>i j n. restrict_exec (visits (system_xlate M st) (va AND NOT 0xFFF)
          (page_offsets (((va + sz + 0xFFF) AND NOT 0xFFF) - (va AND NOT 0xFFF))) i j n)) \<and>
       g = (\<lambda>i j n l. grant_exec (visits (system_xlate M st) (va AND NOT 0xFFF)
          (page_offsets (((va + sz + 0xFFF) AND NOT 0xFFF) - (va AND NOT 0xFFF))) i j n) (set_perm True True False l))) \<and>
    (\<not> ok \<longrightarrow> f = (\<lambda>i j n. set_perm True True True) \<and> g = (\<lambda>i j n. set_perm True True True))"
proof -
  let ?pa = "va AND NOT 0xFFF"
  let ?offs = "page_offsets (((va + sz + 0xFFF) AND NOT 0xFFF) - ?pa)"
  let ?walked = "takeWhile (\<lambda>off. system_walk M st (?pa + off) \<noteq> None) ?offs"
  have "auto_trace_loop (system_xlate M st) ?pa ?offs nrm (set_all_permissions tgt True True False) = (ok, nrm', tgt') \<or>
      \<not> ok \<and> auto_trace_loop (system_xlate M st) ?pa ?walked nrm (set_all_permissions tgt True True False) = (ok, nrm', tgt')"
    using assms(3)
    by (auto simp: start_auto_trace_def enable_auto_trace_def unrecoverable_host_error_def Let_def
        split: if_splits prod.splits bool.splits)
  then show ?thesis
    using tracing_loop_result [OF assms(1,2)] by (elim disjE conjE) blast+
qed

lemma start_auto_trace_success:
  assumes "ept_wf nrm" and "ept_wf tgt" and "start_auto_trace M st nrm tgt va sz = Inr (True, nrm', tgt')"
  defines "v \<equiv> visits (system_xlate M st) (va AND NOT 0xFFF) (page_offsets (((va + sz + 0xFFF) AND NOT 0xFFF) - (va AND NOT 0xFFF)))"
  shows "leaves_from nrm nrm' (\<lambda>i j n. restrict_exec (v i j n))"
    and "leaves_from tgt tgt' (\<lambda>i j n l. grant_exec (v i j n) (set_perm True True False l))"
  using start_auto_trace_result [OF assms(1-3)] by (auto simp: v_def)

text \<open>Deactivating hooks that are inactive changes nothing.\<close>

lemma deactivate_inactive:
  assumes "\<forall>h \<in> set (hooks ep). hk_pte h = None"
  shows "deactivate_hooks ep = ep"
proof -
  have "fold deactivate_hook [0..<m] ep = ep" if "m \<le> length (hooks ep)" for m
    using that
  proof (induction m)
    case (Suc m)
    then show ?case
      using assms by (simp add: deactivate_hook_def Let_def)
  qed simp
  then show ?thesis
    by (simp add: deactivate_hooks_def)
qed

section \<open>A session\<close>

text \<open>
  Between two exits the guest changes registers, memory and the state of the processor as it
  likes, but not the virtual processor. During a trace the exits of interest are EPT violations.
\<close>

inductive session_step :: "machine \<Rightarrow> core \<Rightarrow> core \<Rightarrow> bool" for M where
  guest_runs: "vc st' = vc st \<Longrightarrow> session_step M st st'"
| violation: "handle_ept_violation M st = Inr st' \<Longrightarrow> session_step M st st'"

definition hooks_inactive :: "vcpu \<Rightarrow> bool" where
  "hooks_inactive v \<longleftrightarrow> (\<forall>h \<in> set (hooks (ept_pages_normal v)) \<union> set (hooks (ept_pages_target v)). hk_pte h = None)"

lemma inactive_no_hook:
  assumes "hooks_inactive v"
  shows "active_hook (current_ept_pages v) a = None"
proof (cases "get_hook_by_orig_pfn (current_ept_pages v) (drop_bit 12 a)")
  case (Some i)
  then have "i < length (hooks (current_ept_pages v))"
    using find_hook_Some [of "hooks (current_ept_pages v)" "drop_bit 12 a" 0 i] by (simp add: get_hook_by_orig_pfn_def)
  then have "hooks (current_ept_pages v) ! i \<in> set (hooks (current_ept_pages v))"
    by simp
  then have "hk_pte (hooks (current_ept_pages v) ! i) = None"
    using assms unfolding hooks_inactive_def current_ept_pages_def by (metis UnCI)
  with Some show ?thesis by (simp add: active_hook_def)
qed (simp add: active_hook_def)

lemma violation_keeps_tables:
  assumes "hooks_inactive (vc st)" and "handle_ept_violation M st = Inr st'"
  shows "ept_pages_normal (vc st') = ept_pages_normal (vc st) \<and> ept_pages_target (vc st') = ept_pages_target (vc st) \<and>
    eptp_normal_execution (vc st') = eptp_normal_execution (vc st) \<and> eptp_target_execution (vc st') = eptp_target_execution (vc st)"
  using assms(2) inactive_no_hook [OF assms(1)]
  by (auto simp: handle_ept_violation_def trace_transition_def unrecoverable_host_error_def Let_def
      emit_transition_def split: if_splits option.splits)

lemma session_keeps_tables:
  assumes "(session_step M)\<^sup>*\<^sup>* st st'" and "hooks_inactive (vc st)"
  shows "ept_pages_normal (vc st') = ept_pages_normal (vc st) \<and> ept_pages_target (vc st') = ept_pages_target (vc st)"
  using assms
proof (induction rule: rtranclp_induct)
  case (step st1 st2)
  then have "hooks_inactive (vc st1)"
    by (simp add: hooks_inactive_def)
  with step show ?case
    by (auto elim!: session_step.cases dest: violation_keeps_tables)
qed simp

text \<open>The start of a session.\<close>

lemma enable_trace_result:
  assumes "handle_enable_auto_trace M st = Inr st1"
  obtains ok en et where "start_auto_trace M st (deactivate_hooks (ept_pages_normal (vc st))) (deactivate_hooks (ept_pages_target (vc st)))
      (g_rdx (cx st)) (g_r8 (cx st)) = Inr (ok, en, et)"
    and "g_rax (cx st1) = (if ok then 1 else 0)"
    and "ok \<longrightarrow> ept_pages_normal (vc st1) = en \<and> ept_pages_target (vc st1) = et"
    and "\<not> ok \<longrightarrow> ept_pages_normal (vc st1) = reactivate_hooks en \<and> ept_pages_target (vc st1) = reactivate_hooks et"
proof -
  obtain ok en et where s: "start_auto_trace M st (deactivate_hooks (ept_pages_normal (vc st))) (deactivate_hooks (ept_pages_target (vc st)))
      (g_rdx (cx st)) (g_r8 (cx st)) = Inr (ok, en, et)"
    using assms unfolding handle_enable_auto_trace_def Let_def and_then_Inr by auto
  have st1: "handle_enable_auto_trace M st = (if ok then
        Inr (set_rax 1 (on_hw (invept invept_all_context 0) (normal_mode M
          (on_vc (\<lambda>v. v\<lparr>ept_pages_normal := en, ept_pages_target := et,
             trace_buffer := (trace_buffer v)\<lparr>write_head := 0, read_tail := 0, active := 1\<rparr>\<rparr>) st))))
      else Inr (set_rax 0 (on_hw (invept invept_all_context 0)
         (on_vc (\<lambda>v. v\<lparr>ept_pages_normal := reactivate_hooks en, ept_pages_target := reactivate_hooks et\<rparr>) st))))"
    using s by (simp add: handle_enable_auto_trace_def Let_def)
  show ?thesis
  proof (rule that [OF s])
    show "g_rax (cx st1) = (if ok then 1 else 0)"
      using st1 assms by (auto simp: set_rax_def)
    show "ok \<longrightarrow> ept_pages_normal (vc st1) = en \<and> ept_pages_target (vc st1) = et"
      using st1 assms by (auto simp: set_rax_def normal_mode_def)
    show "\<not> ok \<longrightarrow> ept_pages_normal (vc st1) = reactivate_hooks en \<and> ept_pages_target (vc st1) = reactivate_hooks et"
      using st1 assms by (auto simp: set_rax_def)
  qed
qed

lemma start_keeps_inactive:
  assumes "ept_wf nrm" and "ept_wf tgt" and "start_auto_trace M st nrm tgt va sz = Inr (ok, en, et)"
    and "\<forall>h \<in> set (hooks nrm). hk_pte h = None" and "\<forall>h \<in> set (hooks tgt). hk_pte h = None"
  shows "ept_wf en" and "ept_wf et" and "\<forall>h \<in> set (hooks en) \<union> set (hooks et). hk_pte h = None"
  using start_auto_trace_result [OF assms(1-3)] assms(4,5) by (auto simp: kept_def)

lemma hooks_inactive_base:
  "ept_base ep \<Longrightarrow> ept_wf (deactivate_hooks ep) \<and> (\<forall>h \<in> set (hooks (deactivate_hooks ep)). hk_pte h = None)"
  using deactivate_hooks_base [of ep] by (auto simp: ept_base_def)

section \<open>Restoring the hooks\<close>

text \<open>\<open>new\<close> has the hooks of \<open>old\<close>, all of them active, and is the identity map otherwise.\<close>

definition hooks_restored :: "ept_pages \<Rightarrow> ept_pages \<Rightarrow> u64 \<Rightarrow> bool" where
  "hooks_restored old new gpa \<longleftrightarrow> ept_base new \<and>
     (\<exists>a. ept_walk new gpa = Some a \<and> identity_access (\<forall>h \<in> set (hooks old). drop_bit 12 gpa \<noteq> ucast (orig_pfn h)) gpa a) \<and>
     map (\<lambda>h. (orig_pfn h, hook_pfn h)) (hooks new) = map (\<lambda>h. (orig_pfn h, hook_pfn h)) (hooks old) \<and>
     (\<forall>h \<in> set (hooks new). hk_pte h \<noteq> None)"

lemma inactive_base:
  assumes b: "ept_base ep" and none: "\<forall>h \<in> set (hooks ep). hk_pte h = None" and k: "kept ep ep'"
    and l: "leaves_from ep ep' f" and f: "\<And>i j n l. page_frame_number (f i j n l) = page_frame_number l \<and> rwx_leaf (f i j n l)"
  shows "ept_base ep'"
proof (rule ept_baseI)
  show "ept_wf ep'"
    using k by (simp add: kept_def)
  have "hook_ok ep' h" if "h \<in> set (hooks ep)" for h
  proof (rule hook_ok_mono)
    show "hook_ok ep h"
      using b that by (simp add: ept_base_def hooks_wf_def)
    show "ptr_of ep' g q" if "ptr_of ep g q" for g q
      using k that unfolding kept_def by blast
  qed
  then show "hooks_wf ep'"
    using k b by (simp add: hooks_wf_def kept_def ept_base_def)
  show "plain_leaf i j n (leaf_at ep' i j n)" if "(i, j) \<in> slots" "n < 512" for i j n
    using all_inactive_plain [OF b none that] l f that by (simp add: leaves_from_def plain_leaf_def)
qed

lemma reactivated_restores:
  assumes "ept_base ep" and "kept (deactivate_hooks ep) e" and "leaves_from (deactivate_hooks ep) e f"
    and "\<And>i j n l. page_frame_number (f i j n l) = page_frame_number l \<and> rwx_leaf (f i j n l)" and "gpa < 0x8000000000"
  shows "hooks_restored ep (reactivate_hooks e) gpa"
proof -
  note d = deactivate_hooks_base [OF assms(1)]
  have none: "\<forall>h \<in> set (hooks (deactivate_hooks ep)). hk_pte h = None"
    using d(2) by auto
  have b: "ept_base e"
    using inactive_base [OF d(1) none assms(2,3)] assms(4) by blast
  have h: "hooks e = hooks (deactivate_hooks ep)"
    using assms(2) by (simp add: kept_def)
  have none': "\<forall>h \<in> set (hooks e). hk_pte h = None"
    using none h by simp
  show ?thesis
    using reactivated_walk [OF b none' assms(5)] unfolding hooks_restored_def h d(2) by (simp add: comp_def)
qed

lemma reset_restores:
  assumes "ept_base ep" and "kept (deactivate_hooks ep) e" and l: "leaves_from (deactivate_hooks ep) e f"
    and "\<And>i j n l. page_frame_number (f i j n l) = page_frame_number l" and "gpa < 0x8000000000"
  shows "hooks_restored ep (reactivate_hooks (set_all_permissions e True True True)) gpa"
proof (rule reactivated_restores [OF assms(1) _ _ _ assms(5)])
  have wf: "ept_wf e"
    using assms(2) by (simp add: kept_def)
  show "kept (deactivate_hooks ep) (set_all_permissions e True True True)"
    using assms(2) by (simp add: kept_def set_all_permissions_wf)
  show "leaves_from (deactivate_hooks ep) (set_all_permissions e True True True) (\<lambda>i j n l. set_perm True True True (f i j n l))"
    using l leaf_at_set_all [OF wf] by (simp add: leaves_from_def)
  show "page_frame_number (set_perm True True True (f i j n l)) = page_frame_number l \<and>
      rwx_leaf (set_perm True True True (f i j n l))" for i j n l
    using assms(4) by (simp add: set_perm_def rwx_leaf_def)
qed

section \<open>Properties\<close>

text \<open>
  C14. A tracing session gives back what it took. However the guest runs and whatever violations it causes
  after a successful start of the trace, the hypercall that stops it puts the core back into normal
  execution under the normal tables, turns the trace off, makes exactly the hooks from before active again in
  both sets of tables and maps every other page below 512 GB to itself with all permissions. A start that
  fails leaves the same hooks active at once.
\<close>

theorem trace_session_restores_hooks:
  assumes "platform_ok M" and "ept_base (ept_pages_normal (vc st))" and "ept_base (ept_pages_target (vc st))"
    and "handle_enable_auto_trace M st = Inr st1" and "(session_step M)\<^sup>*\<^sup>* st1 st2" and "gpa < 0x8000000000"
  shows "if g_rax (cx st1) = 1
    then \<exists>st3. handle_disable_auto_trace M st2 = Inr st3 \<and> in_normal_execution (vc st3) \<and> eptp_matches M st3 \<and>
      active (trace_buffer (vc st3)) = 0 \<and>
      hooks_restored (ept_pages_normal (vc st)) (ept_pages_normal (vc st3)) gpa \<and>
      hooks_restored (ept_pages_target (vc st)) (ept_pages_target (vc st3)) gpa
    else g_rax (cx st1) = 0 \<and>
      hooks_restored (ept_pages_normal (vc st)) (ept_pages_normal (vc st1)) gpa \<and>
      hooks_restored (ept_pages_target (vc st)) (ept_pages_target (vc st1)) gpa"
proof -
  let ?dn = "deactivate_hooks (ept_pages_normal (vc st))" and ?dt = "deactivate_hooks (ept_pages_target (vc st))"
  obtain ok en et where s: "start_auto_trace M st ?dn ?dt (g_rdx (cx st)) (g_r8 (cx st)) = Inr (ok, en, et)"
    and rax: "g_rax (cx st1) = (if ok then 1 else 0)"
    and on: "ok \<longrightarrow> ept_pages_normal (vc st1) = en \<and> ept_pages_target (vc st1) = et"
    and off: "\<not> ok \<longrightarrow> ept_pages_normal (vc st1) = reactivate_hooks en \<and> ept_pages_target (vc st1) = reactivate_hooks et"
    using enable_trace_result [OF assms(4)] by blast
  note dn = hooks_inactive_base [OF assms(2)] and dt = hooks_inactive_base [OF assms(3)]
  note wf = conjunct1 [OF dn] conjunct1 [OF dt]
  note none = start_keeps_inactive(3) [OF wf s conjunct2 [OF dn] conjunct2 [OF dt]]
  obtain f g where r: "kept ?dn en" "kept ?dt et" "leaves_from ?dn en f" "leaves_from ?dt et g"
    "\<And>i j n l. page_frame_number (f i j n l) = page_frame_number l" "\<And>i j n l. page_frame_number (g i j n l) = page_frame_number l"
    "\<not> ok \<Longrightarrow> f = (\<lambda>i j n. set_perm True True True) \<and> g = (\<lambda>i j n. set_perm True True True)"
    using start_auto_trace_result [OF wf s] by blast
  show ?thesis
  proof (cases ok)
    case True
    have "hooks_inactive (vc st1)"
      using on True none by (simp add: hooks_inactive_def)
    then have t: "ept_pages_normal (vc st2) = en" "ept_pages_target (vc st2) = et"
      using session_keeps_tables [OF assms(5)] on True by simp_all
    show ?thesis
      using True rax t reset_restores [OF assms(2) r(1,3,5) assms(6)] reset_restores [OF assms(3) r(2,4,6) assms(6)]
        platform_supported(9) [OF assms(1)]
      by (simp add: handle_disable_auto_trace_def restore_auto_trace_def Let_def normal_mode_def eptp_matches_def
          current_eptp_def invept_def)
  next
    case False
    have p: "page_frame_number (set_perm True True True l) = page_frame_number l \<and> rwx_leaf (set_perm True True True l)" for l
      by (simp add: set_perm_def rwx_leaf_def)
    show ?thesis
      using False rax off False r(7) [OF False] reactivated_restores [OF assms(2) r(1,3) _ assms(6)]
        reactivated_restores [OF assms(3) r(2,4) _ assms(6)] p by simp
  qed
qed

text \<open>
  A core with one hook whose guest maps its first gigabyte to itself, about to trace the page at
  \<open>0x5000\<close>.
\<close>

definition traced_core :: core where
  "traced_core = demo_core\<lparr>mem := tiny_mem, ghv := (ghv demo_core)\<lparr>system_cr3 := 0\<rparr>,
     cx := demo_context\<lparr>g_rdx := 0x5000, g_r8 := 0x10\<rparr>\<rparr>"

lemma traced_core_walk: "system_walk sdm_machine traced_core 0x5000 = gva_to_gpa x64_layout tiny_mem 0 0x5000"
  by (simp add: system_walk_def sdm_machine_def traced_core_def)

lemma traced_core_offsets: "page_offsets (((0x5000 + 0x10 + 0xFFF) AND NOT 0xFFF) - (0x5000 AND NOT 0xFFF)) = [0]"
  by (simp add: page_offsets_def)

lemma flat_split: "\<exists>e q t. get_ept_pte flat_ept 0x5000 True = (e, Some q) \<and> pde e 0 0 = Split t"
  by (simp add: get_ept_pte_def split_pde_def flat_ept_def zeroed_ept_def Let_def
      va_field_defs bit_field_def push_bit_eq_mult drop_bit_eq_div take_bit_eq_mod)

lemma flat_target_split:
  "\<exists>e q t. get_ept_pte (set_all_permissions flat_ept True True False) 0x5000 True = (e, Some q) \<and> pde e 0 0 = Split t"
  by (simp add: get_ept_pte_def split_pde_def flat_ept_def zeroed_ept_def Let_def set_all_permissions_def
      va_field_defs bit_field_def push_bit_eq_mult drop_bit_eq_div take_bit_eq_mod)

lemma traced_core_started:
  "\<exists>en et t u. start_auto_trace sdm_machine traced_core (deactivate_hooks flat_ept) (deactivate_hooks flat_ept) 0x5000 0x10 =
     Inr (True, en, et) \<and> pde en 0 0 = Split t \<and> pde et 0 0 = Split u"
proof -
  have d: "deactivate_hooks flat_ept = flat_ept"
    by (rule deactivate_inactive) (simp add: flat_ept_hooks)
  have x: "system_xlate sdm_machine traced_core 0x5000 = 0x5000" "system_walk sdm_machine traced_core 0x5000 \<noteq> None"
    using tiny_translation [of tiny_mem "0x5000"] by (simp_all add: system_xlate_def traced_core_walk)
  show ?thesis
    using flat_split flat_target_split x unfolding start_auto_trace_def enable_auto_trace_def d Let_def traced_core_offsets
    by auto
qed

theorem trace_session_restores_hooks_witness:
  "\<exists>st1 st3. handle_enable_auto_trace sdm_machine traced_core = Inr st1 \<and> g_rax (cx st1) = 1 \<and>
     handle_disable_auto_trace sdm_machine st1 = Inr st3 \<and> hooks_restored flat_ept (ept_pages_normal (vc st3)) 0x5000"
proof -
  let ?st = traced_core
  have e: "ept_pages_normal (vc ?st) = flat_ept" "ept_pages_target (vc ?st) = flat_ept" "g_rdx (cx ?st) = 0x5000" "g_r8 (cx ?st) = 0x10"
    by (simp_all add: traced_core_def demo_core_def demo_vcpu_def)
  obtain st1 where st1: "handle_enable_auto_trace sdm_machine ?st = Inr st1" "g_rax (cx st1) = 1"
    using traced_core_started by (auto simp: handle_enable_auto_trace_def e Let_def set_rax_def)
  have b: "ept_base (ept_pages_normal (vc ?st))" "ept_base (ept_pages_target (vc ?st))"
    by (simp_all add: e flat_ept_base)
  have "(0x5000 :: u64) < 0x8000000000" by simp
  from trace_session_restores_hooks [OF sdm_platform_ok b st1(1) rtranclp.rtrancl_refl this]
  show ?thesis
    using st1 by (auto simp: e)
qed

section \<open>Two traces without an end\<close>

lemma walk_not_executable:
  assumes "ept_wf ep" and "gpa < 0x8000000000" and "\<not> execute_access (idx_gpa (leaf_at ep) gpa)"
  shows "\<exists>a. ept_walk ep gpa = Some a \<and> \<not> a_execute a"
  using assms(3) ept_walk_wf [OF assms(1) mapped_gpa(1) [OF assms(2)]] by (simp add: Let_def)

lemma leaves_from_idx: "leaves_from ep ep' f \<Longrightarrow> idx_gpa (leaf_at ep') gpa = idx_gpa f gpa (idx_gpa (leaf_at ep) gpa)"
  by (simp add: leaves_from_def)

text \<open>
  Starting a second trace without ending the first one can hang a core: a page of the first target that
  is not part of the second one is executable in neither set of tables, and however often the
  violations of the guest switch between the modes, it never becomes executable. The start of
  a trace gives the execute permission back only to the target tables.
\<close>

theorem second_trace_hangs:
  assumes "ept_base (ept_pages_normal (vc st))" and "ept_base (ept_pages_target (vc st))"
    and "handle_enable_auto_trace M st = Inr st1" and "g_rax (cx st1) = 1"
    and "(session_step M)\<^sup>*\<^sup>* st1 st2"
    and "handle_enable_auto_trace M st2 = Inr st3" and "g_rax (cx st3) = 1"
    and "(session_step M)\<^sup>*\<^sup>* st3 st4"
    and "unat (g_rdx (cx st)) + unat (g_r8 (cx st)) + 0xFFF < 2 ^ 64"
    and "unat (g_rdx (cx st2)) + unat (g_r8 (cx st2)) + 0xFFF < 2 ^ 64"
    and "traced (system_xlate M st) (g_rdx (cx st)) (g_r8 (cx st)) gpa"
    and "\<not> traced (system_xlate M st2) (g_rdx (cx st2)) (g_r8 (cx st2)) gpa" and "gpa < 0x8000000000"
  shows "\<exists>a. ept_walk (current_ept_pages (vc st4)) gpa = Some a \<and> \<not> a_execute a"
proof -
  let ?dn = "deactivate_hooks (ept_pages_normal (vc st))" and ?dt = "deactivate_hooks (ept_pages_target (vc st))"
  note dn = hooks_inactive_base [OF assms(1)] and dt = hooks_inactive_base [OF assms(2)]
  note wf = conjunct1 [OF dn] conjunct1 [OF dt]
  obtain ok en et where s: "start_auto_trace M st ?dn ?dt (g_rdx (cx st)) (g_r8 (cx st)) = Inr (ok, en, et)"
    and ok: "g_rax (cx st1) = (if ok then 1 else 0)" and t1: "ok \<longrightarrow> ept_pages_normal (vc st1) = en \<and> ept_pages_target (vc st1) = et"
    using enable_trace_result [OF assms(3)] by blast
  have ok: ok using ok assms(4) by (auto split: if_splits)
  note i = start_keeps_inactive [OF wf s conjunct2 [OF dn] conjunct2 [OF dt]]
  have "hooks_inactive (vc st1)"
    using t1 ok i(3) by (simp add: hooks_inactive_def)
  then have t2: "ept_pages_normal (vc st2) = en" "ept_pages_target (vc st2) = et"
    using session_keeps_tables [OF assms(5)] t1 ok by simp_all
  note l = start_auto_trace_success(1) [OF wf s [simplified ok]]
  have nx: "\<not> execute_access (idx_gpa (leaf_at en) gpa)"
    unfolding leaves_from_idx [OF l] visits_traced [OF assms(9)] using assms(11) by (simp add: restrict_exec_def)
  have h2: "\<forall>h \<in> set (hooks en). hk_pte h = None" "\<forall>h \<in> set (hooks et). hk_pte h = None"
    using i(3) by simp_all
  obtain ok2 en' et' where s2: "start_auto_trace M st2 en et (g_rdx (cx st2)) (g_r8 (cx st2)) = Inr (ok2, en', et')"
    and ok2: "g_rax (cx st3) = (if ok2 then 1 else 0)" and t3: "ok2 \<longrightarrow> ept_pages_normal (vc st3) = en' \<and> ept_pages_target (vc st3) = et'"
    using enable_trace_result [OF assms(6), unfolded t2 deactivate_inactive [OF h2(1)] deactivate_inactive [OF h2(2)]] by blast
  have ok2: ok2 using ok2 assms(7) by (auto split: if_splits)
  note j = start_keeps_inactive [OF i(1,2) s2 h2]
  note l2 = start_auto_trace_success [OF i(1,2) s2 [simplified ok2]]
  have "\<not> execute_access (idx_gpa (leaf_at en') gpa)"
    unfolding leaves_from_idx [OF l2(1)] using nx by (simp add: restrict_exec_def)
  moreover have "\<not> execute_access (idx_gpa (leaf_at et') gpa)"
    unfolding leaves_from_idx [OF l2(2)] visits_traced [OF assms(10)] using assms(12) by (simp add: grant_exec_def set_perm_def)
  ultimately have w: "\<exists>a. ept_walk en' gpa = Some a \<and> \<not> a_execute a" "\<exists>a. ept_walk et' gpa = Some a \<and> \<not> a_execute a"
    using walk_not_executable [OF j(1) assms(13)] walk_not_executable [OF j(2) assms(13)] by blast+
  have "hooks_inactive (vc st3)"
    using t3 ok2 j(3) by (simp add: hooks_inactive_def)
  from session_keeps_tables [OF assms(8) this]
  have "current_ept_pages (vc st4) = en' \<or> current_ept_pages (vc st4) = et'"
    using t3 ok2 by (auto simp: current_ept_pages_def)
  with w show ?thesis by auto
qed

lemma div_eq_range:
  fixes m :: nat
  assumes "0x7000 < m" and "m < 0x8010" and "m mod 4096 = 0"
  shows "m div 4096 = 8"
proof -
  obtain k where k: "m = 4096 * k"
    using assms(3) by (auto elim: dvdE)
  then have "7 < k" "k < 9" using assms(1,2) by simp_all
  then have "k = 8" by simp
  then show ?thesis by (simp add: k)
qed

lemma small_page_traced:
  assumes "xlate 0x5000 = 0x5000" and "xlate' 0x8000 = 0x8000"
  shows "traced xlate 0x5000 0x10 0x5000" and "\<not> traced xlate' 0x8000 0x10 0x5000"
proof -
  have "0x5000 \<in> target_pages 0x5000 0x10"
    by (simp add: target_pages_def)
  then show "traced xlate 0x5000 0x10 0x5000"
    unfolding traced_def by (rule bexI [rotated]) (simp add: assms(1))
  have only: "p = 0x8000" if "p \<in> target_pages 0x8000 0x10" for p
  proof -
    have "unat p mod 4096 = 0" "0x7000 < unat p" "unat p < 0x8010"
      using that unat_and_page_mask [of p] by (auto simp: target_pages_def)
    then have "unat p div 4096 = 8"
      by (intro div_eq_range) simp_all
    then have "unat p = 0x8000"
      using div_mult_mod_eq [of "unat p" 4096] \<open>unat p mod 4096 = 0\<close> by simp
    then show ?thesis by (simp add: word_unat_eq_iff)
  qed
  then show "\<not> traced xlate' 0x8000 0x10 0x5000"
    using assms(2) by (auto simp: traced_def bit_field_def drop_bit_eq_div take_bit_eq_mod dest!: only)
qed

lemma split_found:
  "pde ep 0 0 = Split t \<Longrightarrow> get_ept_pte ep 0x8000 True = (ep, Some (t_page_frame_number t, 8))"
  by (simp add: get_ept_pte_def Let_def va_field_defs bit_field_def drop_bit_eq_div take_bit_eq_mod)

theorem second_trace_hangs_witness:
  "\<exists>st1 st3 a. handle_enable_auto_trace sdm_machine traced_core = Inr st1 \<and> g_rax (cx st1) = 1 \<and>
     handle_enable_auto_trace sdm_machine (traced_core\<lparr>cx := demo_context\<lparr>g_rdx := 0x8000, g_r8 := 0x10\<rparr>, vc := vc st1\<rparr>) = Inr st3 \<and>
     g_rax (cx st3) = 1 \<and> ept_walk (current_ept_pages (vc st3)) 0x5000 = Some a \<and> \<not> a_execute a"
proof -
  let ?st = traced_core
  have e: "ept_pages_normal (vc ?st) = flat_ept" "ept_pages_target (vc ?st) = flat_ept" "g_rdx (cx ?st) = 0x5000" "g_r8 (cx ?st) = 0x10"
    by (simp_all add: traced_core_def demo_core_def demo_vcpu_def)
  obtain en et t u where s: "start_auto_trace sdm_machine ?st (deactivate_hooks flat_ept) (deactivate_hooks flat_ept) 0x5000 0x10 = Inr (True, en, et)"
    "pde en 0 0 = Split t" "pde et 0 0 = Split u"
    using traced_core_started by blast
  obtain st1 where st1: "handle_enable_auto_trace sdm_machine ?st = Inr st1" "g_rax (cx st1) = 1"
    "ept_pages_normal (vc st1) = en" "ept_pages_target (vc st1) = et"
    using s(1) by (auto simp: handle_enable_auto_trace_def e Let_def set_rax_def normal_mode_def)
  define st2 where "st2 = traced_core\<lparr>cx := demo_context\<lparr>g_rdx := 0x8000, g_r8 := 0x10\<rparr>, vc := vc st1\<rparr>"
  have b: "ept_base (ept_pages_normal (vc ?st))" "ept_base (ept_pages_target (vc ?st))"
    by (simp_all add: e flat_ept_base)
  have "\<forall>h \<in> set (hooks en) \<union> set (hooks et). hk_pte h = None"
    using start_keeps_inactive(3) [OF _ _ s(1)] hooks_inactive_base [OF flat_ept_base] by blast
  then have d: "deactivate_hooks en = en" "deactivate_hooks et = et"
    by (simp_all add: deactivate_inactive)
  have x: "system_xlate sdm_machine st2 0x8000 = 0x8000" "system_walk sdm_machine st2 0x8000 \<noteq> None"
    "system_xlate sdm_machine ?st 0x5000 = 0x5000"
    using tiny_translation [of tiny_mem "0x8000"] tiny_translation [of tiny_mem "0x5000"]
    by (simp_all add: system_xlate_def system_walk_def st2_def sdm_machine_def traced_core_def)
  have o: "page_offsets (((0x8000 + 0x10 + 0xFFF) AND NOT 0xFFF) - (0x8000 AND NOT 0xFFF)) = [0]"
    by (simp add: page_offsets_def)
  have "\<exists>u'. pde (set_all_permissions et True True False) 0 0 = Split u'"
    using s(3) by (simp add: set_all_permissions_def)
  then obtain u' where u': "pde (set_all_permissions et True True False) 0 0 = Split u'" by blast
  have "\<exists>en' et'. start_auto_trace sdm_machine st2 en et 0x8000 0x10 = Inr (True, en', et')"
    using x split_found [OF s(2)] split_found [OF u'] unfolding start_auto_trace_def enable_auto_trace_def Let_def o
    by simp
  then obtain st3 where st3: "handle_enable_auto_trace sdm_machine st2 = Inr st3" "g_rax (cx st3) = 1"
    using st1(3,4) by (auto simp: handle_enable_auto_trace_def st2_def d Let_def set_rax_def)
  have run: "(session_step sdm_machine)\<^sup>*\<^sup>* st1 st2"
    by (rule r_into_rtranclp, rule guest_runs) (simp add: st2_def)
  have a: "g_rdx (cx st2) = 0x8000" "g_r8 (cx st2) = 0x10"
    by (simp_all add: st2_def)
  have t: "traced (system_xlate sdm_machine ?st) 0x5000 0x10 0x5000" "\<not> traced (system_xlate sdm_machine st2) 0x8000 0x10 0x5000"
    by (rule small_page_traced [where xlate = "system_xlate sdm_machine ?st" and xlate' = "system_xlate sdm_machine st2"]; simp add: x)+
  obtain w where "ept_walk (current_ept_pages (vc st3)) 0x5000 = Some w \<and> \<not> a_execute w"
    using second_trace_hangs [OF b st1(1,2) run st3 rtranclp.rtrancl_refl, of "0x5000"] t unfolding e a by auto
  with st1(1,2) st3 show ?thesis
    unfolding st2_def by (intro exI [of _ st1] exI [of _ st3] exI [of _ w] conjI) simp_all
qed

end
