(* ===== verification/Ept_Inv.thy ===== *)
theory Ept_Inv
  imports Ept_Trace Ept_Init
begin

text \<open>
  The invariant that every operation of \<open>revhv-km/ept.cpp\<close> keeps, whatever the state of hooks and
  traces: the tables are well-formed, frame numbers fit their fields, and every hook points to the
  entry of its page or to nothing.
\<close>

definition tables_ok :: "ept_pages \<Rightarrow> bool" where
  "tables_ok ep \<longleftrightarrow> ept_wf ep \<and> pfn_fields ep \<and> hooks_wf ep"

lemma hooks_wf_mono:
  assumes "hooks_wf ep" and "hooks ep' = hooks ep" and "\<And>g q. ptr_of ep g q \<Longrightarrow> ptr_of ep' g q"
  shows "hooks_wf ep'"
  using assms(1,2) hook_ok_mono [of ep ep'] assms(3) by (auto simp: hooks_wf_def)

section \<open>Single steps\<close>

lemma pfn_fields_upd_pte:
  assumes "pfn_fields ep" and "\<And>l. unat (page_frame_number l) < 2 ^ 40 \<Longrightarrow> unat (page_frame_number (f l)) < 2 ^ 40"
  shows "pfn_fields (upd_pte q f ep)"
  using assms by (auto simp: pfn_fields_def upd_pte_def)

lemma pfn_fields_hooks [simp]: "pfn_fields (ep\<lparr>hooks := hs\<rparr>) = pfn_fields ep"
  by (simp add: pfn_fields_def)

lemma unat_ucast_pfn: "unat (ucast (p :: u32) :: u64) < 2 ^ 40"
proof -
  have "unat (ucast p :: u64) < 2 ^ 32"
    using unat_orig_pfn [of "\<lparr>orig_pfn = p, hook_pfn = 0, hk_pte = None\<rparr>"] by simp
  then show ?thesis
    by simp
qed

lemma tables_ok_upd_pte:
  assumes "tables_ok ep" and "\<And>l. page_frame_number (f l) = page_frame_number l \<or> (\<exists>p :: u32. page_frame_number (f l) = ucast p)"
  shows "tables_ok (upd_pte q f ep)"
proof -
  have "unat (page_frame_number (f l)) < 2 ^ 40" if "unat (page_frame_number l) < 2 ^ 40" for l
    using assms(2) [of l] that unat_ucast_pfn by auto
  then have "pfn_fields (upd_pte q f ep)"
    using assms(1) pfn_fields_upd_pte by (simp add: tables_ok_def)
  moreover have "hooks_wf (upd_pte q f ep)"
    using assms(1) hooks_wf_mono [of ep "upd_pte q f ep"] by (simp add: tables_ok_def)
  ultimately show ?thesis
    using assms(1) by (simp add: tables_ok_def)
qed

lemma tables_ok_set_hook:
  assumes "tables_ok ep" and "i < length (hooks ep)" and "hook_ok ep h"
  shows "tables_ok (ep\<lparr>hooks := (hooks ep)[i := h]\<rparr>)"
  using assms hooks_update_ok [of ep i h "ep\<lparr>hooks := (hooks ep)[i := h]\<rparr>"] by (simp add: tables_ok_def)

lemma get_ept_pte_fields:
  assumes "pfn_fields ep" and "get_ept_pte ep gpa b = (ep', r)"
  shows "pfn_fields ep'"
  using assms split_pde_fails split_pde_fields
  by (auto simp: get_ept_pte_def Let_def split: if_splits ept_pd_slot.splits prod.splits option.splits)

lemma get_ept_pte_ok:
  assumes "tables_ok ep" and "get_ept_pte ep gpa b = (ep', r)"
  shows "tables_ok ep'" and "hooks ep' = hooks ep" and "\<And>q. r = Some q \<Longrightarrow> ptr_of ep' gpa q"
    and "\<And>h. hook_ok ep h \<Longrightarrow> hook_ok ep' h"
proof -
  have wf: "ept_wf ep" and pf: "pfn_fields ep" and hw: "hooks_wf ep"
    using assms(1) by (simp_all add: tables_ok_def)
  note v = get_ept_pte_view [OF wf assms(2)]
  show "hooks ep' = hooks ep" and "\<And>q. r = Some q \<Longrightarrow> ptr_of ep' gpa q" and "\<And>h. hook_ok ep h \<Longrightarrow> hook_ok ep' h"
    using v hook_ok_mono [of ep ep'] by blast+
  show "tables_ok ep'"
    using v get_ept_pte_fields [OF pf assms(2)] hooks_wf_mono [OF hw] by (auto simp: tables_ok_def)
qed

lemma tables_ok_set_all [simp]:
  assumes "tables_ok ep"
  shows "tables_ok (set_all_permissions ep r w x)"
proof -
  have "pfn_fields (set_all_permissions ep r w x)"
    using assms by (auto simp: tables_ok_def pfn_fields_def set_all_permissions_def set_perm_def split: ept_pd_slot.splits)
  then show ?thesis
    using assms hooks_wf_mono [of ep "set_all_permissions ep r w x"]
    by (simp add: tables_ok_def set_all_permissions_wf)
qed

section \<open>Hooks\<close>

lemma add_hook_ok:
  assumes ok: "tables_ok ep" and r: "add_hook ep orig hook = (ep', res)"
  shows "tables_ok ep'"
proof (cases "length (hooks ep) \<ge> ept_max_hook_count")
  case True
  then show ?thesis using ok r by (simp add: add_hook_def)
next
  case False
  obtain ep1 p where g: "get_ept_pte ep (push_bit 12 orig) True = (ep1, p)"
    by (cases "get_ept_pte ep (push_bit 12 orig) True")
  note v = get_ept_pte_ok [OF ok g]
  show ?thesis
  proof (cases p)
    case None
    then show ?thesis using False r g v(1) by (simp add: add_hook_def)
  next
    case (Some q)
    let ?h = "\<lparr>orig_pfn = ucast orig, hook_pfn = ucast hook, hk_pte = Some q\<rparr>"
    let ?e = "ep1\<lparr>hooks := hooks ep1 @ [?h]\<rparr>"
    have pq: "ptr_of ep1 (push_bit 12 orig) q"
      using v(3) Some by simp
    then have "ptr_of ep1 (hook_gpa ?h) q"
      using ptr_of_new_hook by simp
    then have "hook_ok ?e ?h"
      unfolding hook_ok_def by (intro exI [of _ q]) simp
    moreover have "length (hooks ep1 @ [?h]) \<le> 32"
      using False v(2) by (simp add: ept_max_hook_count_def)
    moreover have "hook_ok ?e h" if "h \<in> set (hooks ep1)" for h
      using that v(1) by (simp add: tables_ok_def hooks_wf_def hook_ok_def)
    ultimately have "tables_ok ?e"
      using v(1) by (auto simp: tables_ok_def hooks_wf_def)
    then show ?thesis
      using False r g Some tables_ok_upd_pte [of ?e "\<lambda>l. l\<lparr>execute_access := False\<rparr>" q]
      by (simp add: add_hook_def)
  qed
qed

lemma deactivate_hook_ok:
  assumes "tables_ok ep" and "k < length (hooks ep)"
  shows "tables_ok (deactivate_hook k ep) \<and> length (hooks (deactivate_hook k ep)) = length (hooks ep)"
proof (cases "hk_pte (hooks ep ! k)")
  case None
  then show ?thesis using assms by (simp add: deactivate_hook_def)
next
  case (Some q)
  let ?h = "hooks ep ! k"
  let ?e = "upd_pte q (\<lambda>l. l\<lparr>read_access := True, write_access := True, execute_access := True,
    page_frame_number := ucast (orig_pfn ?h)\<rparr>) ep"
  have e: "tables_ok ?e"
    by (rule tables_ok_upd_pte [OF assms(1)]) auto
  have "hook_ok ep ?h"
    using assms by (auto simp: tables_ok_def hooks_wf_def)
  then have "hook_ok ?e (?h\<lparr>hk_pte := None\<rparr>)"
    by (auto simp: hook_ok_def hook_gpa_def)
  from tables_ok_set_hook [OF e _ this, of k] show ?thesis
    using assms(2) Some by (simp add: deactivate_hook_def Let_def)
qed

lemma reactivate_hook_ok:
  assumes "tables_ok ep" and "k < length (hooks ep)"
  shows "tables_ok (reactivate_hook k ep) \<and> length (hooks (reactivate_hook k ep)) = length (hooks ep)"
proof (cases "hk_pte (hooks ep ! k)")
  case None
  let ?h = "hooks ep ! k"
  have "hook_ok ep ?h"
    using assms by (auto simp: tables_ok_def hooks_wf_def)
  then obtain q where q: "ptr_of ep (hook_gpa ?h) q"
    by (auto simp: hook_ok_def)
  let ?e = "upd_pte q (\<lambda>l. l\<lparr>page_frame_number := ucast (orig_pfn ?h), execute_access := False\<rparr>) ep"
  have e: "tables_ok ?e"
    by (rule tables_ok_upd_pte [OF assms(1)]) auto
  have "hook_ok ?e (?h\<lparr>hk_pte := Some q\<rparr>)"
    using q unfolding hook_ok_def by (intro exI [of _ q]) (simp add: hook_gpa_def)
  from tables_ok_set_hook [OF e _ this, of k] show ?thesis
    using assms(2) None get_ept_pte_ptr_of [OF q, of False] by (simp add: reactivate_hook_def Let_def hook_gpa_def)
qed (use assms in \<open>simp add: reactivate_hook_def\<close>)

lemma fold_ok:
  assumes "\<And>k ep. tables_ok ep \<Longrightarrow> k < length (hooks ep) \<Longrightarrow> tables_ok (f k ep) \<and> length (hooks (f k ep)) = length (hooks ep)"
    and "tables_ok ep" and "m \<le> length (hooks ep)"
  shows "tables_ok (fold f [0..<m] ep) \<and> length (hooks (fold f [0..<m] ep)) = length (hooks ep)"
  using assms(3)
proof (induction m)
  case (Suc m)
  then show ?case
    using assms(1) [of "fold f [0..<m] ep" m] by simp
qed (use assms(2) in simp)

lemma deactivate_hooks_ok: "tables_ok ep \<Longrightarrow> tables_ok (deactivate_hooks ep)"
  unfolding deactivate_hooks_def using fold_ok [of deactivate_hook ep] deactivate_hook_ok by blast

lemma reactivate_hooks_ok: "tables_ok ep \<Longrightarrow> tables_ok (reactivate_hooks ep)"
  unfolding reactivate_hooks_def using fold_ok [of reactivate_hook ep] reactivate_hook_ok by blast

section \<open>Tracing and memory types\<close>

lemma auto_trace_loop_ok:
  "tables_ok nrm \<Longrightarrow> tables_ok tgt \<Longrightarrow> auto_trace_loop xlate va offs nrm tgt = (ok, nrm', tgt') \<Longrightarrow>
   tables_ok nrm' \<and> tables_ok tgt'"
proof (induction xlate va offs nrm tgt rule: auto_trace_loop.induct)
  case (2 xlate va off offs nrm tgt)
  show ?case
  proof (cases "xlate (va + off) = 0")
    case True
    then show ?thesis using 2 by simp
  next
    case False
    obtain n1 qn t1 qt where g: "get_ept_pte nrm (xlate (va + off)) True = (n1, qn)" "get_ept_pte tgt (xlate (va + off)) True = (t1, qt)"
      by (meson surj_pair)
    note n = get_ept_pte_ok(1) [OF 2(3) g(1)] and t = get_ept_pte_ok(1) [OF 2(4) g(2)]
    have u: "tables_ok (upd_pte q (\<lambda>l. l\<lparr>execute_access := b\<rparr>) e)" if "tables_ok e" for q b e
      by (rule tables_ok_upd_pte [OF that]) simp
    show ?thesis
    proof (cases "\<exists>q q'. qn = Some q \<and> qt = Some q'")
      case True
      then obtain q q' where q: "qn = Some q" "qt = Some q'" by blast
      show ?thesis
        using 2(2) [OF refl False refl g(1) [symmetric] refl g(2) [symmetric] refl q(1) q(2)] 2(5) False g q u [OF n] u [OF t]
        by (simp add: Let_def)
    next
      case False
      then show ?thesis
        using \<open>xlate (va + off) \<noteq> 0\<close> 2(5) g n t by (auto simp: Let_def split: option.splits)
    qed
  qed
qed simp

lemma update_ept_ok:
  assumes "tables_ok ep"
  shows "\<exists>ep'. update_ept_memory_types ph ep st = Some ep' \<and> tables_ok ep'"
proof -
  have wf: "ept_wf_on slots ep" "tables_open ep" and f: "pfn_fields ep" "hooks_wf ep"
    using assms by (simp_all add: tables_ok_def ept_wf_def)
  have "large_typed st {} ep" by (simp add: large_typed_def)
  then obtain ep' where r: "update_pdptes st (ph_pd ph) [0..<512] ep = Some (True, ep')"
    "only_types (below ep) (below ep')" "\<forall>i. rwx_table (pdpte ep i) \<longrightarrow> rwx_table (pdpte ep' i)"
    using update_pdptes_spec [OF wf(1) f(1), of "[0..<512]" st "{}" "ph_pd ph"] by auto
  have o: "ept_wf_on slots ep'" "pfn_fields ep'" "hooks ep' = hooks ep" "pml4e0 ep' = pml4e0 ep" "\<forall>g q. ptr_of ep g q \<longrightarrow> ptr_of ep' g q"
    using r(2) unfolding only_types_def same_rest_def below_simps by blast+
  have "tables_ok ep'"
    using o(1,2,4) wf(2) r(3) hooks_wf_mono [OF f(2) o(3) o(5) [rule_format]] by (simp add: tables_ok_def ept_wf_def tables_open_def)
  then show ?thesis
    using r(1) by (simp add: update_ept_memory_types_def)
qed

lemma update_ept_keeps: "update_ept_memory_types ph ep st = Some ep' \<Longrightarrow> tables_ok ep \<Longrightarrow> tables_ok ep'"
  using update_ept_ok [of ep ph st] by auto

end
