(* ===== verification/Vmexit.thy ===== *)
theory Vmexit
  imports Vmexit_Cr Trace_Session Ept_Inv
begin

text \<open>
  A whole VM exit (\<open>revhv-km/vmexit.cpp\<close>: \<open>handler\<close>; \<open>vmexit_stub.asm\<close>; \<open>stealth.cpp\<close>: \<open>on_vmexit\<close>): the
  dispatch on the exit reason, the bookkeeping around it, and the correction of the time stamp counter
  that hides how long the exit took. The stub saves and restores the registers of the guest, which are
  the context \<open>cx\<close> of the core.
\<close>

section \<open>Exit reasons\<close>

abbreviation (input) VMX_EXIT_REASON_EXCEPTION_OR_NMI :: u64 where "VMX_EXIT_REASON_EXCEPTION_OR_NMI \<equiv> 0"
abbreviation (input) VMX_EXIT_REASON_NMI_WINDOW :: u64 where "VMX_EXIT_REASON_NMI_WINDOW \<equiv> 8"
abbreviation (input) VMX_EXIT_REASON_EXECUTE_CPUID :: u64 where "VMX_EXIT_REASON_EXECUTE_CPUID \<equiv> 10"
abbreviation (input) VMX_EXIT_REASON_EXECUTE_GETSEC :: u64 where "VMX_EXIT_REASON_EXECUTE_GETSEC \<equiv> 11"
abbreviation (input) VMX_EXIT_REASON_EXECUTE_INVD :: u64 where "VMX_EXIT_REASON_EXECUTE_INVD \<equiv> 13"
abbreviation (input) VMX_EXIT_REASON_EXECUTE_VMCALL :: u64 where "VMX_EXIT_REASON_EXECUTE_VMCALL \<equiv> 18"
abbreviation (input) VMX_EXIT_REASON_MOV_CR :: u64 where "VMX_EXIT_REASON_MOV_CR \<equiv> 28"
abbreviation (input) VMX_EXIT_REASON_EXECUTE_RDMSR :: u64 where "VMX_EXIT_REASON_EXECUTE_RDMSR \<equiv> 31"
abbreviation (input) VMX_EXIT_REASON_EXECUTE_WRMSR :: u64 where "VMX_EXIT_REASON_EXECUTE_WRMSR \<equiv> 32"
abbreviation (input) VMX_EXIT_REASON_EPT_VIOLATION :: u64 where "VMX_EXIT_REASON_EPT_VIOLATION \<equiv> 48"
abbreviation (input) VMX_EXIT_REASON_VMX_PREEMPTION_TIMER_EXPIRED :: u64 where "VMX_EXIT_REASON_VMX_PREEMPTION_TIMER_EXPIRED \<equiv> 52"
abbreviation (input) VMX_EXIT_REASON_EXECUTE_XSETBV :: u64 where "VMX_EXIT_REASON_EXECUTE_XSETBV \<equiv> 55"

text \<open>VMCLEAR, VMLAUNCH, VMPTRLD, VMPTRST, VMREAD, VMRESUME, VMWRITE, VMXOFF, VMXON, INVEPT, INVVPID,
  SEAMCALL and TDCALL.\<close>

definition vmx_instruction_exits :: "u64 list" where
  "vmx_instruction_exits = [50, 53, 76, 77, 19, 20, 21, 22, 24, 26, 27, 23, 25]"

section \<open>The handler\<close>

definition max_msr_entries :: nat where "max_msr_entries = 3"

definition on_vmexit :: "stealth_data \<Rightarrow> stealth_data" where
  "on_vmexit d = d\<lparr>tsc_data_of := (tsc_data_of d)\<lparr>stored_tsc := msr_data (msr_entries d ! (max_msr_entries - 1)),
     instruction_overhead := 0\<rparr>\<rparr>"

definition handle_preemption_timer :: "machine \<Rightarrow> core \<Rightarrow> stop + core" where
  "handle_preemption_timer M st =
     Inr (on_vc (\<lambda>v. v\<lparr>preemption_timer_enabled := False\<rparr>)
       (on_hw (\<lambda>h. disable_preemption_timer M (tsc_preemption_relation_bit (vc st)) (vmwrite M VMCS_CTRL_TSC_OFFSET 0 h))
         (on_vc (\<lambda>v. v\<lparr>stealth := (stealth v)\<lparr>tsc_data_of := (tsc_data_of (stealth v))\<lparr>tsc_offset := 0\<rparr>\<rparr>\<rparr>) st)))"

definition handle_vmcall :: "machine \<Rightarrow> core \<Rightarrow> stop + core" where
  "handle_vmcall M st =
     and_then (handle_hypercall M st) (\<lambda>(accepted, st1).
       if \<not> accepted then handle_vmx_instruction M st1 else advance_guest_rip M st1)"

text \<open>The flag of the result: the exit is one whose time is hidden.\<close>

definition run_exit :: "machine \<Rightarrow> u64 \<Rightarrow> core \<Rightarrow> stop + bool \<times> core" where
  "run_exit M reason st =
     (let hidden = (\<lambda>r. and_then r (\<lambda>st'. Inr (True, st'))); shown = (\<lambda>r. and_then r (\<lambda>st'. Inr (False, st'))) in
      if reason = VMX_EXIT_REASON_EXECUTE_CPUID then hidden (handle_cpuid M st)
      else if reason = VMX_EXIT_REASON_EXECUTE_INVD then shown (handle_invd M st)
      else if reason = VMX_EXIT_REASON_EXECUTE_RDMSR then hidden (handle_rdmsr M st)
      else if reason = VMX_EXIT_REASON_EXECUTE_WRMSR then hidden (handle_wrmsr M st)
      else if reason = VMX_EXIT_REASON_EXECUTE_XSETBV then hidden (handle_xsetbv M st)
      else if reason = VMX_EXIT_REASON_EXECUTE_GETSEC then shown (handle_getsec M st)
      else if reason = VMX_EXIT_REASON_NMI_WINDOW then shown (handle_nmi_window M st)
      else if reason = VMX_EXIT_REASON_EXCEPTION_OR_NMI then shown (handle_nmi M st)
      else if reason = VMX_EXIT_REASON_EXECUTE_VMCALL then shown (handle_vmcall M st)
      else if reason = VMX_EXIT_REASON_EPT_VIOLATION then shown (handle_ept_violation M st)
      else if reason = VMX_EXIT_REASON_VMX_PREEMPTION_TIMER_EXPIRED then shown (handle_preemption_timer M st)
      else if reason = VMX_EXIT_REASON_MOV_CR then hidden (handle_cr_access M st)
      else if reason \<in> set vmx_instruction_exits then shown (handle_vmx_instruction M st)
      else unrecoverable_host_error st)"

definition tsc_hiding_enabled :: bool where "tsc_hiding_enabled = True"

text \<open>The flag of the result: the stub has to correct the time stamp counter.\<close>

definition handler :: "machine \<Rightarrow> core \<Rightarrow> stop + bool \<times> core" where
  "handler M st =
     (let st1 = on_vc (\<lambda>v. v\<lparr>stealth := on_vmexit (stealth v)\<rparr>) st;
          reason = vmx_vmread M VMCS_EXIT_REASON (hws st1);
          basic_exit_reason = get_member (er_basic (exl M)) reason;
          st2 = on_hw (clear_vmentry_interrupt_info M) st1
      in if flag (er_vm_entry_failure (exl M)) reason
         then and_then (handle_vm_entry_failure M basic_exit_reason st2) (\<lambda>st'. Inr (False, st'))
         else and_then (run_exit M basic_exit_reason st2) (\<lambda>(hide, st3).
           let return_data = (hide \<and> tsc_hiding_enabled \<and> bench_completed (stealth (vc st3)))
           in if return_data \<and> \<not> preemption_timer_enabled (vc st3)
              then Inr (True, on_vc (\<lambda>v. v\<lparr>preemption_timer_enabled := True\<rparr>)
                     (on_hw (enable_preemption_timer M (tsc_preemption_relation_bit (vc st3)) 10000000) st3))
              else Inr (return_data, st3)))"

section \<open>The stub\<close>

definition update_tsc_offset :: "machine \<Rightarrow> core \<Rightarrow> core" where
  "update_tsc_offset M st =
     (let t = tsc_data_of (stealth (vc st));
          desired_tsc = stored_tsc t + instruction_overhead t - vmentry_overhead t - vmexit_to_store_overhead t;
          (curr_tsc, st1) = read_tsc M st;
          offset = tsc_offset t - (curr_tsc - desired_tsc)
      in on_hw (vmwrite M VMCS_CTRL_TSC_OFFSET offset)
           (on_vc (\<lambda>v. v\<lparr>stealth := (stealth v)\<lparr>tsc_data_of := (tsc_data_of (stealth v))\<lparr>tsc_offset := offset\<rparr>\<rparr>\<rparr>) st1))"

text \<open>The fast path for the benchmark of the driver; \<open>rax\<close> keeps the encoding of the field written last.\<close>

definition bench_key :: u64 where "bench_key = 0x52564856424E4348"

definition bench_exit :: "machine \<Rightarrow> core \<Rightarrow> core" where
  "bench_exit M st =
     (let (tsc, st1) = read_tsc M (on_hw (vmwrite M VMCS_GUEST_RIP (g_r8 (cx st))) st)
      in on_hw (vmwrite M VMCS_CTRL_TSC_OFFSET (- 1)) (on_cx (\<lambda>g. g\<lparr>g_rax := 0x2010, g_r9 := tsc\<rparr>) st1))"

definition vmexit_stub :: "machine \<Rightarrow> core \<Rightarrow> stop + core" where
  "vmexit_stub M st =
     (if low32 (g_rcx (cx st)) = 0x424E4348 \<and> vmx_vmread M VMCS_EXIT_REASON (hws st) = VMX_EXIT_REASON_EXECUTE_CPUID \<and>
         g_rcx (cx st) = bench_key
      then Inr (bench_exit M st)
      else and_then (handler M st) (\<lambda>(return_data, st'). Inr (if return_data then update_tsc_offset M st' else st')))"

end
