(* ===== verification/Vmexit_Inv.thy ===== *)
theory Vmexit_Inv
  imports Vmexit
begin

text \<open>
  The invariant of a core, kept by every VM exit that returns: both sets of extended page tables are
  well-formed, the trace rings and the table of transition configurations keep their invariants, and
  the EPTP in the VMCS belongs to the mode of the core.
\<close>

section \<open>The invariant\<close>

definition core_inv :: "machine \<Rightarrow> core \<Rightarrow> bool" where
  "core_inv M st \<longleftrightarrow> tables_ok (ept_pages_normal (vc st)) \<and> tables_ok (ept_pages_target (vc st)) \<and>
     ring_inv (trace_buffer (vc st)) \<and> (\<forall>k. ring_inv (peer_rings st k)) \<and> table_inv (vc_cfg_table (vc st)) \<and>
     eptp_matches M st"

text \<open>What the invariant depends on.\<close>

definition core_part :: "machine \<Rightarrow> core \<Rightarrow> (ept_pages \<times> ept_pages \<times> ring_buffer \<times> cfg_table) \<times> (nat \<Rightarrow> ring_buffer) \<times> u64 \<times> bool \<times> u64 \<times> u64" where
  "core_part M st = ((ept_pages_normal (vc st), ept_pages_target (vc st), trace_buffer (vc st), vc_cfg_table (vc st)), peer_rings st,
     vmx_vmread M VMCS_CTRL_EPT_POINTER (hws st), in_normal_execution (vc st), eptp_normal_execution (vc st), eptp_target_execution (vc st))"

lemma core_inv_part: "core_part M st' = core_part M st \<Longrightarrow> core_inv M st' = core_inv M st"
  by (simp add: core_part_def core_inv_def eptp_matches_def current_eptp_def)

lemma part_on_hw: "vmx_vmread M VMCS_CTRL_EPT_POINTER (f (hws st)) = vmx_vmread M VMCS_CTRL_EPT_POINTER (hws st) \<Longrightarrow>
    core_part M (on_hw f st) = core_part M st"
  by (simp add: core_part_def)

lemma part_hws: "vmx_vmread M VMCS_CTRL_EPT_POINTER h = vmx_vmread M VMCS_CTRL_EPT_POINTER (hws st) \<Longrightarrow>
    core_part M (st\<lparr>hws := h\<rparr>) = core_part M st"
  by (simp add: core_part_def)

lemma part_other [simp]:
  "core_part M (on_cx k st) = core_part M st" "core_part M (set_rax v st) = core_part M st"
  "core_part M (st\<lparr>mem := hm\<rparr>) = core_part M st" "core_part M (st\<lparr>ghv := g\<rparr>) = core_part M st"
  "core_part M (store_bytes a bs st) = core_part M st" "core_part M (set_onload_target s b st) = core_part M st"
  by (simp_all add: core_part_def set_rax_def store_bytes_def set_onload_target_def)

lemma part_on_vc:
  "core_part M (on_vc (\<lambda>v. v\<lparr>exc_info := x v\<rparr>) st) = core_part M st"
  "core_part M (on_vc (\<lambda>v. v\<lparr>queued_nmi_count := n v\<rparr>) st) = core_part M st"
  "core_part M (on_vc (\<lambda>v. v\<lparr>stealth := s v\<rparr>) st) = core_part M st"
  "core_part M (on_vc (set_instruction_overhead t) st) = core_part M st"
  "core_part M (on_vc (\<lambda>v. v\<lparr>preemption_timer_enabled := b v\<rparr>) st) = core_part M st"
  "core_part M (on_vc (\<lambda>v. v\<lparr>generic_transition_cfg := c v\<rparr>) st) = core_part M st"
  by (simp_all add: core_part_def set_instruction_overhead_def)

text \<open>Operations of the processor that leave the EPTP alone.\<close>

lemma eptp_reads [simp]:
  "vmx_vmread M VMCS_CTRL_EPT_POINTER (invept t e h) = vmx_vmread M VMCS_CTRL_EPT_POINTER h"
  "vmx_vmread M VMCS_CTRL_EPT_POINTER (clear_vmentry_interrupt_info M h) = vmx_vmread M VMCS_CTRL_EPT_POINTER h"
  "vmx_vmread M VMCS_CTRL_EPT_POINTER (inject_hw_exception M v h) = vmx_vmread M VMCS_CTRL_EPT_POINTER h"
  "vmx_vmread M VMCS_CTRL_EPT_POINTER (inject_hw_exception_code M v c h) = vmx_vmread M VMCS_CTRL_EPT_POINTER h"
  "vmx_vmread M VMCS_CTRL_EPT_POINTER (inject_nmi M h) = vmx_vmread M VMCS_CTRL_EPT_POINTER h"
  "vmx_vmread M VMCS_CTRL_EPT_POINTER (enable_preemption_timer M r n h) = vmx_vmread M VMCS_CTRL_EPT_POINTER h"
  "vmx_vmread M VMCS_CTRL_EPT_POINTER (disable_preemption_timer M r h) = vmx_vmread M VMCS_CTRL_EPT_POINTER h"
  "vmx_vmread M VMCS_CTRL_EPT_POINTER (snd (rdtsc M h)) = vmx_vmread M VMCS_CTRL_EPT_POINTER h"
  by (simp_all add: invept_def clear_vmentry_interrupt_info_def inject_hw_exception_def inject_hw_exception_code_def
      inject_nmi_def enable_preemption_timer_def disable_preemption_timer_def rdtsc_def)

section \<open>Handlers of instructions and NMIs\<close>

lemma advance_part: "advance_guest_rip M st = Inr st' \<Longrightarrow> core_part M st' = core_part M st"
  by (auto simp: advance_guest_rip_def Let_def part_hws split: if_splits)

lemma inject_host_part [simp]: "core_part M (inject_host_hw_exception_to_guest M st) = core_part M st"
  by (simp add: inject_host_hw_exception_to_guest_def Let_def part_on_vc part_on_hw)

lemma read_tsc_part: "read_tsc M st = (t, st1) \<Longrightarrow> core_part M st1 = core_part M st"
  by (auto simp: read_tsc_def Let_def part_hws)

lemma timed_part [simp]: "core_part M (timed M s st) = core_part M st"
  by (simp add: timed_def Let_def part_on_vc part_hws)

lemma queue_nmi_part [simp]: "core_part M (queue_nmi M st) = core_part M st"
  by (simp add: queue_nmi_def part_on_hw part_on_vc)

lemma exception_part:
  "handle_exception M tf st = Inr (tf', st') \<Longrightarrow> core_part M st' = core_part M st"
  by (auto simp: exception_defs unrecoverable_host_error_def handle_host_nmi_def and_then_Inr Let_def
      give_control_on_unrecoverable_error_def record_exception_def part_on_vc split: if_splits)

lemma run_wrapped_part:
  assumes "run_wrapped M w f st = Inr st'" and "vmx_vmread M VMCS_CTRL_EPT_POINTER (f (hws st)) = vmx_vmread M VMCS_CTRL_EPT_POINTER (hws st)"
  shows "core_part M st' = core_part M st"
  using assms exception_part by (auto simp: run_wrapped_def part_on_hw and_then_Inr split: option.splits)

lemma finish_part:
  assumes "finish_wrapped M k st = Inr st'"
    and "\<And>st2. k st = Inr st2 \<Longrightarrow> core_inv M st2"
    and "core_inv M st"
  shows "core_inv M st'"
  using assms core_inv_part [OF inject_host_part] core_inv_part [OF advance_part]
  by (auto simp: finish_wrapped_def and_then_Inr split: if_splits)

lemma cpuid_inv: "core_inv M st \<Longrightarrow> handle_cpuid M st = Inr st' \<Longrightarrow> core_inv M st'"
  using core_inv_part [OF advance_part] core_inv_part [OF read_tsc_part]
  by (auto simp: handle_cpuid_def Let_def core_inv_part [OF timed_part] core_inv_part [OF part_other(1)] split: prod.splits)

text \<open>A handler that reads the time, runs a wrapped instruction and finishes.\<close>

lemma wrapped_inv:
  assumes "core_inv M st" and "read_tsc M st = (t, st1)" and "run_wrapped M w f st1 = Inr st2"
    and "\<And>h. vmx_vmread M VMCS_CTRL_EPT_POINTER (f h) = vmx_vmread M VMCS_CTRL_EPT_POINTER h"
    and "finish_wrapped M k (timed M s st2) = Inr st'"
    and "\<And>a b. k a = Inr b \<Longrightarrow> core_inv M a \<Longrightarrow> core_inv M b"
  shows "core_inv M st'"
proof -
  have "core_inv M (timed M s st2)"
    using assms(1) core_inv_part [OF read_tsc_part [OF assms(2)]] core_inv_part [OF run_wrapped_part [OF assms(3,4)]]
      core_inv_part [OF timed_part] by blast
  then show ?thesis
    using finish_part [OF assms(5)] assms(6) by blast
qed

lemma rdmsr_inv:
  assumes "core_inv M st" and "handle_rdmsr M st = Inr st'"
  shows "core_inv M st'"
proof -
  let ?msr = "low32 (g_rcx (cx st))"
  obtain t st1 where t: "read_tsc M st = (t, st1)" by fastforce
  obtain r st2 where s: "(if ?msr = HV_X64_MSR_GUEST_IDLE then Inr (0, st1) else rdmsr_wrapper M ?msr st1) = Inr (r, st2)"
    and f: "finish_wrapped M (\<lambda>st. Inr (on_cx (\<lambda>g. g\<lparr>g_rdx := put_low32 (ucast (drop_bit 32 r)) (g_rdx g),
        g_rax := put_low32 (ucast r) (g_rax g)\<rparr>) st)) (timed M t st2) = Inr st'"
    using assms(2) t by (auto simp: handle_rdmsr_def Let_def and_then_Inr)
  have "core_part M st2 = core_part M st1"
    using s run_wrapped_part [of M "W_rdmsr ?msr" id st1 st2] by (auto simp: rdmsr_wrapper_def and_then_Inr split: if_splits)
  then have "core_inv M (timed M t st2)"
    using assms(1) core_inv_part [OF read_tsc_part [OF t]] core_inv_part [of M st2 st1] core_inv_part [OF timed_part] by blast
  then show ?thesis
    using finish_part [OF f] core_inv_part [OF part_other(1)] by blast
qed

lemma follow_mtrrs_inv: "follow_mtrrs M st = Inr st' \<Longrightarrow> core_inv M st \<Longrightarrow> core_inv M st'"
  using update_ept_keeps
  by (auto simp: follow_mtrrs_def Let_def core_inv_def eptp_matches_def current_eptp_def split: option.splits)

lemma wrmsr_inv:
  assumes "core_inv M st" and "handle_wrmsr M st = Inr st'"
  shows "core_inv M st'"
proof -
  let ?msr = "low32 (g_rcx (cx st))"
  obtain t st1 where t: "read_tsc M st = (t, st1)" by fastforce
  obtain st2 where s: "wrmsr_wrapper M ?msr (edx_eax (cx st)) st1 = Inr st2"
    and f: "finish_wrapped M (\<lambda>st. if is_mtrr_msr ?msr then follow_mtrrs M st else Inr st) (timed M t st2) = Inr st'"
    using assms(2) t by (auto simp: handle_wrmsr_def Let_def and_then_Inr)
  show ?thesis
    using wrapped_inv [OF assms(1) t s [unfolded wrmsr_wrapper_def] _ f] follow_mtrrs_inv [of M]
    by (cases "is_mtrr_msr ?msr") simp_all
qed

lemma xsetbv_inv:
  assumes "core_inv M st" and "handle_xsetbv M st = Inr st'"
  shows "core_inv M st'"
proof -
  obtain t st1 where t: "read_tsc M st = (t, st1)" by fastforce
  obtain st2 where s: "xsetbv_wrapper M (low32 (g_rcx (cx st))) (edx_eax (cx st)) st1 = Inr st2"
    and f: "finish_wrapped M Inr (timed M t st2) = Inr st'"
    using assms(2) t by (auto simp: handle_xsetbv_def Let_def and_then_Inr)
  show ?thesis
    using wrapped_inv [OF assms(1) t s [unfolded xsetbv_wrapper_def] _ f] by simp
qed

lemma invd_inv:
  assumes "core_inv M st" and "handle_invd M st = Inr st'"
  shows "core_inv M st'"
proof -
  obtain st1 where 1: "run_wrapped M W_invd id st = Inr st1" "finish_wrapped M Inr st1 = Inr st'"
    using assms(2) by (auto simp: handle_invd_def invd_wrapper_def and_then_Inr)
  then have "core_inv M st1"
    using assms(1) core_inv_part [OF run_wrapped_part [OF 1(1)]] by simp
  then show ?thesis
    using finish_part [OF 1(2)] by simp
qed

lemma exception_inv:
  "core_inv M st \<Longrightarrow> handle_vmx_instruction M st = Inr st' \<Longrightarrow> core_inv M st'"
  "core_inv M st \<Longrightarrow> handle_getsec M st = Inr st' \<Longrightarrow> core_inv M st'"
  "core_inv M st \<Longrightarrow> raise_gp M st = Inr st' \<Longrightarrow> core_inv M st'"
  by (auto simp: handle_vmx_instruction_def handle_getsec_def raise_gp_def core_inv_part [OF part_on_hw])

lemma nmi_inv: "core_inv M st \<Longrightarrow> handle_nmi M st = Inr st' \<Longrightarrow> core_inv M st'"
  by (auto simp: handle_nmi_def and_then_Inr give_control_on_unrecoverable_error_def core_inv_part [OF queue_nmi_part] split: if_splits)

lemma nmi_window_inv: "core_inv M st \<Longrightarrow> handle_nmi_window M st = Inr st' \<Longrightarrow> core_inv M st'"
  by (auto simp: handle_nmi_window_def Let_def core_inv_part [OF part_on_hw] core_inv_part [OF part_on_vc(2)] split: if_splits)

lemma preemption_inv: "core_inv M st \<Longrightarrow> handle_preemption_timer M st = Inr st' \<Longrightarrow> core_inv M st'"
  by (auto simp: handle_preemption_timer_def core_inv_part [OF part_on_hw] core_inv_part [OF part_on_vc(3)] core_inv_part [OF part_on_vc(5)])

lemma write_cr_inv:
  "core_inv M st \<Longrightarrow> write_cr M f g a b st = Inr st' \<Longrightarrow> f \<noteq> VMCS_CTRL_EPT_POINTER \<Longrightarrow> g \<noteq> VMCS_CTRL_EPT_POINTER \<Longrightarrow> core_inv M st'"
  by (auto simp: write_cr_def Let_def unrecoverable_host_error_def core_inv_part [OF part_hws] split: if_splits)

lemma cr_advance_inv:
  assumes "core_inv M st" and "and_then (write_cr M f g a b st) (advance_guest_rip M) = Inr st'"
    and "f \<noteq> VMCS_CTRL_EPT_POINTER" and "g \<noteq> VMCS_CTRL_EPT_POINTER"
  shows "core_inv M st'"
proof -
  obtain st1 where "write_cr M f g a b st = Inr st1" "advance_guest_rip M st1 = Inr st'"
    using assms(2) by (auto simp: and_then_Inr)
  then show ?thesis
    using write_cr_inv [OF assms(1) _ assms(3,4)] core_inv_part [OF advance_part] by blast
qed

lemma mov_to_cr_inv:
  assumes "core_inv M st"
  shows "mov_to_cr0 M v st = Inr st' \<Longrightarrow> core_inv M st'" and "mov_to_cr4 M v st = Inr st' \<Longrightarrow> core_inv M st'"
  using exception_inv(3) [OF assms] cr_advance_inv [OF assms]
  by (simp_all add: mov_to_cr0_def mov_to_cr4_def Let_def split: if_splits)

lemma cr_inv:
  assumes "core_inv M st" and "handle_cr_access M st = Inr st'"
  shows "core_inv M st'"
proof -
  let ?q = "vmx_vmread M VMCS_EXIT_QUALIFICATION (hws st)"
  obtain st1 where "handle_mov_to_cr M ?q st = Inr st1 \<or> handle_clts M st = Inr st1 \<or> handle_lmsw M ?q st = Inr st1"
    and st': "st' = on_vc (set_instruction_overhead 100) st1"
    using assms(2) by (auto simp: handle_cr_access_def Let_def and_then_Inr unrecoverable_host_error_def split: if_splits)
  then have "core_inv M st1"
    using mov_to_cr_inv [OF assms(1)] write_cr_inv [OF assms(1)] cr_advance_inv [OF assms(1)]
    by (auto simp: handle_mov_to_cr_def handle_clts_def handle_lmsw_def Let_def unrecoverable_host_error_def split: if_splits)
  then show ?thesis
    using core_inv_part [OF part_on_vc(4)] by (simp add: st')
qed

section \<open>Hypercalls\<close>

lemma guest_access_part:
  "guest_read M c a b n st = Inr (k, st') \<Longrightarrow> core_part M st' = core_part M st"
  "guest_write M c a b n st = Inr (k, st') \<Longrightarrow> core_part M st' = core_part M st"
  by (auto simp: guest_read_def guest_write_def unrecoverable_host_error_def split: option.splits)

lemma fetch_part: "fetch_vmem_request M st = Inr (r, st') \<Longrightarrow> core_part M st' = core_part M st"
  by (auto simp: fetch_vmem_request_def Let_def and_then_Inr dest!: guest_access_part split: if_splits)

lemma vmem_read_part:
  assumes "handle_vmem_read M st = Inr st'"
  shows "core_part M st' = core_part M st"
proof -
  obtain r st1 where f: "fetch_vmem_request M st = Inr (r, st1)"
    using assms by (auto simp: handle_vmem_read_def and_then_Inr)
  have "core_part M st' = core_part M st1"
    using assms f guest_access_part
    by (fastforce simp: handle_vmem_read_def Let_def and_then_Inr split: option.splits if_splits)
  then show ?thesis using fetch_part [OF f] by simp
qed

lemma vmem_write_part:
  assumes "handle_vmem_write M st = Inr st'"
  shows "core_part M st' = core_part M st"
proof -
  obtain r st1 where f: "fetch_vmem_request M st = Inr (r, st1)"
    using assms by (auto simp: handle_vmem_write_def and_then_Inr)
  have "core_part M st' = core_part M st1"
    using assms f guest_access_part
    by (fastforce simp: handle_vmem_write_def Let_def and_then_Inr split: option.splits if_splits)
  then show ?thesis using fetch_part [OF f] by simp
qed

lemma small_hypercalls_part:
  "handle_ping st = Inr st' \<Longrightarrow> core_part M st' = core_part M st"
  "handle_flush_standard_logs M st = Inr st' \<Longrightarrow> core_part M st' = core_part M st"
  "handle_clear_onload_target st = Inr st' \<Longrightarrow> core_part M st' = core_part M st"
  "handle_set_onload_target M st = Inr st' \<Longrightarrow> core_part M st' = core_part M st"
  "handle_get_apic_info M st = Inr st' \<Longrightarrow> core_part M st' = core_part M st"
  by (auto simp: handle_ping_def handle_flush_standard_logs_def handle_clear_onload_target_def handle_set_onload_target_def
      handle_get_apic_info_def unrecoverable_host_error_def Let_def and_then_Inr dest!: guest_access_part split: option.splits if_splits)

lemma table_inv_insert:
  assumes "table_inv t" and "insert_exact_transition_cfg t a c = (t', ok)"
  shows "table_inv t'"
proof (cases "a = 0")
  case False
  then show ?thesis using insert_exact_spec [OF assms(1) _ assms(2)] by simp
next
  case True
  show ?thesis
  proof (cases rule: insert_probe_cases [of "probes a" t a c])
    case (old xs p ys)
    let ?e = "(exact_transition_cfgs t)[p := (exact_transition_cfgs t ! p)\<lparr>cfg := c\<rparr>]"
    have len: "length (exact_transition_cfgs t) = 64" "p < 64"
      using assms(1) set_probes [of a] old(1) by (auto simp: table_inv_def)
    then have same: "addr (?e ! q) = addr (exact_transition_cfgs t ! q)" for q
      by (cases "q = p") simp_all
    have "table_inv (t\<lparr>exact_transition_cfgs := ?e\<rparr>)"
      using assms(1) len by (simp add: table_inv_def occupied_def same)
    then show ?thesis
      using old(4) assms(2) by (simp add: insert_exact_transition_cfg_def)
  qed (use True assms in \<open>simp_all add: insert_exact_transition_cfg_def\<close>)
qed

lemma at_config_inv:
  assumes "core_inv M st" and "handle_at_config_ept_transition M st = Inr st'"
  shows "core_inv M st'"
proof -
  let ?st1 = "store_bytes (stack_addr M) (replicate 16 0) st"
  obtain n st2 where r: "guest_read M (guest_cr3 M ?st1) (g_r8 (cx ?st1)) (stack_addr M) 16 ?st1 = Inr (n, st2)"
    using assms(2) by (auto simp: handle_at_config_ept_transition_def Let_def and_then_Inr)
  have inv: "core_inv M st2"
    using core_inv_part [OF guest_access_part(1) [OF r]] core_inv_part [OF part_other(5)] assms(1) by simp
  have table: "core_inv M (set_rax v (on_vc (\<lambda>v. v\<lparr>vc_cfg_table := table\<rparr>) st2))"
    if "insert_exact_transition_cfg (vc_cfg_table (vc st2)) a c = (table, ok)" for v table ok a c
    using inv table_inv_insert [OF _ that]
    by (simp add: core_inv_def eptp_matches_def current_eptp_def set_rax_def)
  have other: "core_inv M (set_rax v st2)" "core_inv M (set_rax v (on_vc (\<lambda>v. v\<lparr>generic_transition_cfg := c\<rparr>) st2))" for v c
    using inv core_inv_part [OF part_other(2)] core_inv_part [OF part_on_vc(6)] by auto
  show ?thesis
    using assms(2) r other
    by (auto simp: handle_at_config_ept_transition_def Let_def and_then_Inr split: if_splits prod.splits elim: table)
qed

lemma ept_hook_inv:
  assumes "core_inv M st" and "handle_ept_hook st = Inr st'"
  shows "core_inv M st'"
proof -
  let ?v = "vc st"
  obtain en ok_n where n: "add_hook (ept_pages_normal ?v) (g_rdx (cx st)) (g_r8 (cx st)) = (en, ok_n)" by fastforce
  obtain et ok_t where t: "(if ok_n then add_hook (ept_pages_target ?v) (g_rdx (cx st)) (g_r8 (cx st)) else (ept_pages_target ?v, False)) = (et, ok_t)"
    by fastforce
  have "tables_ok en" "tables_ok et"
    using assms(1) add_hook_ok [OF _ n] add_hook_ok t by (auto simp: core_inv_def split: if_splits)
  then show ?thesis
    using assms n t by (auto simp: handle_ept_hook_def Let_def core_inv_def eptp_matches_def current_eptp_def set_rax_def)
qed

lemma disable_trace_inv:
  assumes "core_inv M st" and "handle_disable_auto_trace M st = Inr st'" and "supported M VMCS_CTRL_EPT_POINTER"
  shows "core_inv M st'"
  using assms reactivate_hooks_ok
  by (auto simp: handle_disable_auto_trace_def restore_auto_trace_def normal_mode_def Let_def core_inv_def eptp_matches_def
      current_eptp_def ring_inv_def)

lemma start_auto_trace_ok:
  assumes "start_auto_trace M st nrm tgt va sz = Inr (ok, nrm', tgt')" and "tables_ok nrm" and "tables_ok tgt"
  shows "tables_ok nrm' \<and> tables_ok tgt'"
proof -
  obtain offs b where "auto_trace_loop (system_xlate M st) (va AND NOT 0xFFF) offs nrm (set_all_permissions tgt True True False) = (b, nrm', tgt')"
    using assms(1)
    by (auto simp: start_auto_trace_def enable_auto_trace_def unrecoverable_host_error_def Let_def
        split: if_splits prod.splits bool.splits)
  then show ?thesis
    using auto_trace_loop_ok assms(2,3) tables_ok_set_all by blast
qed

lemma enable_trace_inv:
  assumes "core_inv M st" and "handle_enable_auto_trace M st = Inr st'" and "supported M VMCS_CTRL_EPT_POINTER"
  shows "core_inv M st'"
proof -
  let ?dn = "deactivate_hooks (ept_pages_normal (vc st))" and ?dt = "deactivate_hooks (ept_pages_target (vc st))"
  obtain ok en et where s: "start_auto_trace M st ?dn ?dt (g_rdx (cx st)) (g_r8 (cx st)) = Inr (ok, en, et)"
    using assms(2) unfolding handle_enable_auto_trace_def Let_def and_then_Inr by auto
  have "tables_ok en \<and> tables_ok et"
    using start_auto_trace_ok [OF s] deactivate_hooks_ok assms(1) by (simp add: core_inv_def)
  then show ?thesis
    using assms s reactivate_hooks_ok ring_inv_init [where buf = "trace_buffer (vc st)" and a = 1]
    by (auto simp: handle_enable_auto_trace_def normal_mode_def Let_def core_inv_def eptp_matches_def current_eptp_def
        set_rax_def split: if_splits)
qed

lemma flush_trace_loop_inv:
  "flush_trace_loop M cr3 b m ring hm flushed = Some (ring', hm', n) \<Longrightarrow> ring_inv ring \<Longrightarrow> ring_inv ring'"
proof (induction M cr3 b m ring hm flushed rule: flush_trace_loop.induct)
  case (1 M cr3 b m ring hm flushed)
  let ?k = "min (m - flushed) batch_capacity"
  obtain drained batch r where d: "drain ring ?k = (drained, batch, r)"
    by (cases "drain ring ?k")
  have r: "ring_inv r"
    using drain_spec(1) [OF 1(3) d] .
  let ?w = "write_guest_virtual (ptl M) (put_bytes hm (local_buffer M) (concat (map entry_bytes batch))) cr3
      (b + flushed * sizeof_entry) (local_buffer M) (drained * sizeof_entry)"
  show ?case
  proof (cases "flushed < m \<and> drained \<noteq> 0 \<and> ?w \<noteq> None")
    case False
    then show ?thesis
      using 1(2,3) r d by (auto simp: flush_trace_loop.simps [of M cr3 b m ring hm flushed] Let_def split: if_splits option.splits)
  next
    case True
    then obtain hm2 k where w: "?w = Some (hm2, k)" by auto
    show ?thesis
    proof (cases "k \<noteq> drained * sizeof_entry")
      case True
      then show ?thesis
        using 1(2,3) r d w \<open>flushed < m \<and> drained \<noteq> 0 \<and> ?w \<noteq> None\<close>
        by (auto simp: flush_trace_loop.simps [of M cr3 b m ring hm flushed] Let_def)
    next
      case False
      then have "flush_trace_loop M cr3 b m r hm2 (flushed + drained) = Some (ring', hm', n)"
        using 1(2) d w True by (simp add: flush_trace_loop.simps [of M cr3 b m ring hm flushed] Let_def)
      then show ?thesis
        using 1(1) [OF _ refl d [symmetric] refl refl _ w refl] True False r by simp
    qed
  qed
qed

lemma flush_trace_inv:
  assumes "core_inv M st" and "handle_flush_trace_logs M st = Inr st'"
  shows "core_inv M st'"
proof (cases "g_rdx (cx st) \<ge> vcpu_count (ghv st)")
  case True
  then show ?thesis
    using assms core_inv_part [OF part_other(2)] by (auto simp: handle_flush_trace_logs_def Let_def)
next
  case False
  let ?c = "g_rdx (cx st)"
  obtain ring hm n where f: "flush_trace_loop M (guest_cr3 M st) (g_r8 (cx st)) (min (g_r9 (cx st)) max_flush_entries)
      (ring_of_core st ?c) (mem st) 0 = Some (ring, hm, n)"
    and st': "st' = set_rax n (put_ring_of_core ?c ring (st\<lparr>mem := hm\<rparr>))"
    using assms(2) False by (auto simp: handle_flush_trace_logs_def Let_def unrecoverable_host_error_def split: option.splits)
  have "ring_inv (ring_of_core st ?c)"
    using assms(1) by (simp add: core_inv_def ring_of_core_def)
  then have "ring_inv ring"
    by (rule flush_trace_loop_inv [OF f])
  then show ?thesis
    using assms(1) by (simp add: st' core_inv_def put_ring_of_core_def eptp_matches_def current_eptp_def set_rax_def)
qed

lemma hypercall_inv:
  assumes "core_inv M st" and "handle_hypercall M st = Inr (b, st')" and "supported M VMCS_CTRL_EPT_POINTER"
  shows "core_inv M st'"
proof -
  note part = small_hypercalls_part vmem_read_part vmem_write_part
  note same = part [THEN core_inv_part]
  note inv = ept_hook_inv [OF assms(1)] enable_trace_inv [OF assms(1) _ assms(3)] disable_trace_inv [OF assms(1) _ assms(3)]
    flush_trace_inv [OF assms(1)] at_config_inv [OF assms(1)]
  show ?thesis
    using assms(1,2) same inv
    by (auto simp: handle_hypercall_def Let_def and_then_Inr handle_test_host_df_def unrecoverable_host_error_def split: if_splits)
qed

section \<open>EPT violations and whole exits\<close>

lemma trace_transition_inv: "core_inv M st \<Longrightarrow> trace_transition M st = Inr st' \<Longrightarrow> core_inv M st'"
  using emit_inv [of "trace_buffer (vc st)"]
  by (auto simp: trace_transition_def Let_def unrecoverable_host_error_def core_inv_def eptp_matches_def current_eptp_def
      emit_transition_def rdtsc_def split: option.splits if_splits)

lemma violation_inv:
  assumes "core_inv M st" and "handle_ept_violation M st = Inr st'" and "supported M VMCS_CTRL_EPT_POINTER"
  shows "core_inv M st'"
proof (cases "active_hook (current_ept_pages (vc st)) (violation_address M (hws st))")
  case None
  have "core_inv M (on_vc (\<lambda>v. v\<lparr>in_normal_execution := True\<rparr>) (on_hw (change_eptp M (eptp_normal_execution (vc st))) st))"
    "core_inv M (on_vc (\<lambda>v. v\<lparr>in_normal_execution := False\<rparr>) (on_hw (change_eptp M (eptp_target_execution (vc st))) st))"
    using assms(1,3) by (simp_all add: core_inv_def eptp_matches_def current_eptp_def)
  then show ?thesis
    using assms(2) None trace_transition_inv
    by (auto simp: handle_ept_violation_def Let_def unrecoverable_host_error_def split: if_splits)
next
  case (Some p)
  obtain hook q where p: "p = (hook, q)" by (cases p)
  let ?x = "flag (ev_execute (exl M)) (vmx_vmread M VMCS_EXIT_QUALIFICATION (hws st))"
  have "tables_ok (swap_hook ?x hook q (current_ept_pages (vc st)))"
    unfolding swap_hook_def
    by (rule tables_ok_upd_pte) (use assms(1) in \<open>auto simp: core_inv_def current_ept_pages_def\<close>)
  then show ?thesis
    using assms(1,2) Some p
    by (auto simp: handle_ept_violation_def Let_def core_inv_def eptp_matches_def current_eptp_def set_current_ept_pages_def)
qed

lemma vmcall_inv:
  assumes "core_inv M st" and "handle_vmcall M st = Inr st'" and "supported M VMCS_CTRL_EPT_POINTER"
  shows "core_inv M st'"
proof -
  obtain b st1 where h: "handle_hypercall M st = Inr (b, st1)"
    using assms(2) by (auto simp: handle_vmcall_def and_then_Inr)
  then show ?thesis
    using assms(2) hypercall_inv [OF assms(1) h assms(3)] exception_inv(1) core_inv_part [OF advance_part]
    by (cases b) (auto simp: handle_vmcall_def)
qed

lemma run_exit_inv:
  assumes "core_inv M st" and "run_exit M reason st = Inr (b, st')" and "supported M VMCS_CTRL_EPT_POINTER"
  shows "core_inv M st'"
  using assms(2) cpuid_inv [OF assms(1)] invd_inv [OF assms(1)] rdmsr_inv [OF assms(1)] wrmsr_inv [OF assms(1)]
    xsetbv_inv [OF assms(1)] exception_inv [OF assms(1)] nmi_window_inv [OF assms(1)] nmi_inv [OF assms(1)]
    vmcall_inv [OF assms(1) _ assms(3)] violation_inv [OF assms(1) _ assms(3)] preemption_inv [OF assms(1)] cr_inv [OF assms(1)]
  by (auto simp: run_exit_def Let_def and_then_Inr unrecoverable_host_error_def split: if_splits)

lemma handler_inv:
  assumes "core_inv M st" and "handler M st = Inr (b, st')" and "supported M VMCS_CTRL_EPT_POINTER"
  shows "core_inv M st'"
proof -
  let ?st1 = "on_vc (\<lambda>v. v\<lparr>stealth := on_vmexit (stealth v)\<rparr>) st"
  let ?st2 = "on_hw (clear_vmentry_interrupt_info M) ?st1"
  have i2: "core_inv M ?st2"
    using assms(1) by (simp add: core_inv_part [OF part_on_hw] core_inv_part [OF part_on_vc(3)])
  obtain hide st3 where r: "run_exit M (get_member (er_basic (exl M)) (vmx_vmread M VMCS_EXIT_REASON (hws ?st1))) ?st2 = Inr (hide, st3)"
    and st': "st' = st3 \<or> st' = on_vc (\<lambda>v. v\<lparr>preemption_timer_enabled := True\<rparr>)
        (on_hw (enable_preemption_timer M (tsc_preemption_relation_bit (vc st3)) 10000000) st3)"
    using assms(2) by (auto simp: handler_def Let_def and_then_Inr handle_vm_entry_failure_def unrecoverable_host_error_def split: if_splits)
  show ?thesis
    using run_exit_inv [OF i2 r assms(3)] st' by (auto simp: core_inv_part [OF part_on_hw] core_inv_part [OF part_on_vc(5)])
qed

lemma update_tsc_part [simp]: "core_part M (update_tsc_offset M st) = core_part M st"
  by (auto simp: update_tsc_offset_def Let_def part_on_hw part_on_vc split: prod.splits dest: read_tsc_part)

lemma bench_part [simp]: "core_part M (bench_exit M st) = core_part M st"
  by (auto simp: bench_exit_def Let_def part_on_hw split: prod.splits dest!: read_tsc_part)

lemma stub_inv:
  assumes "core_inv M st" and "vmexit_stub M st = Inr st'" and "supported M VMCS_CTRL_EPT_POINTER"
  shows "core_inv M st'"
  using assms(2) core_inv_part [OF bench_part] core_inv_part [OF update_tsc_part] handler_inv [OF assms(1) _ assms(3)] assms(1)
  by (auto simp: vmexit_stub_def and_then_Inr split: if_splits)

section \<open>The life of a core\<close>

text \<open>
  A core in operation: the guest runs, which changes registers and memory and what the processor
  records in the VMCS, but not the EPTP; an exit is handled; another core drains the ring of this
  one, or works on its own ring.
\<close>

inductive ring_step :: "ring_buffer \<Rightarrow> ring_buffer \<Rightarrow> bool" where
  emits: "ring_step r (emit tsc r fmt core ds)"
| drains: "drain r m = (count, out, r') \<Longrightarrow> ring_step r r'"
| starts: "ring_step r (r\<lparr>write_head := 0, read_tail := 0, active := 1\<rparr>)"
| stops: "ring_step r (r\<lparr>active := 0\<rparr>)"

lemma ring_step_inv: "ring_step r r' \<Longrightarrow> ring_inv r \<Longrightarrow> ring_inv r'"
proof (induction rule: ring_step.induct)
  case (drains r m count out r')
  then show ?case using drain_spec(1) by blast
next
  case (starts r)
  then show ?case using ring_inv_init by blast
next
  case (stops r)
  then show ?case by (simp add: ring_inv_def)
qed (rule emit_inv)

inductive core_step :: "machine \<Rightarrow> core \<Rightarrow> core \<Rightarrow> bool" for M where
  guest: "vc st' = vc st \<Longrightarrow> peer_rings st' = peer_rings st \<Longrightarrow>
     vmx_vmread M VMCS_CTRL_EPT_POINTER (hws st') = vmx_vmread M VMCS_CTRL_EPT_POINTER (hws st) \<Longrightarrow> core_step M st st'"
| exit: "vmexit_stub M st = Inr st' \<Longrightarrow> core_step M st st'"
| drained: "drain (trace_buffer (vc st)) m = (count, out, r) \<Longrightarrow> core_step M st (on_vc (\<lambda>v. v\<lparr>trace_buffer := r\<rparr>) st)"
| peer: "ring_step (peer_rings st k) r \<Longrightarrow> core_step M st (st\<lparr>peer_rings := (peer_rings st)(k := r)\<rparr>)"

lemma core_step_inv:
  assumes "core_step M st st'" and "core_inv M st" and "supported M VMCS_CTRL_EPT_POINTER"
  shows "core_inv M st'"
  using assms(1)
proof cases
  case guest
  then show ?thesis
    using assms(2) by (simp add: core_inv_def eptp_matches_def)
next
  case exit
  then show ?thesis using stub_inv assms(2,3) by blast
next
  case (drained m count out r)
  then show ?thesis
    using assms(2) drain_spec(1) [of "trace_buffer (vc st)" m count out r]
    by (simp add: core_inv_def eptp_matches_def current_eptp_def)
next
  case (peer k r)
  then show ?thesis
    using assms(2) ring_step_inv by (simp add: core_inv_def eptp_matches_def current_eptp_def)
qed

lemma core_steps_inv:
  "(core_step M)\<^sup>*\<^sup>* st st' \<Longrightarrow> core_inv M st \<Longrightarrow> supported M VMCS_CTRL_EPT_POINTER \<Longrightarrow> core_inv M st'"
  by (induction rule: rtranclp_induct) (auto intro: core_step_inv)

section \<open>Properties\<close>

text \<open>
  C2. In every state a core can reach from a good one, by any sequence of VM exits of any kind, guest
  execution, and work of other cores on the trace rings, the processor uses the tables of the mode
  the core is in, these tables map every guest physical address below 512 GB to a frame, every hook
  points to the entry of its page or to none, all trace rings have their indices in range, and the
  table of exact configurations is a finite map.
\<close>

theorem reachable_core_is_sound:
  assumes "core_inv M st" and "supported M VMCS_CTRL_EPT_POINTER" and "(core_step M)\<^sup>*\<^sup>* st st'"
  shows "vmx_vmread M VMCS_CTRL_EPT_POINTER (hws st') =
      (if in_normal_execution (vc st') then eptp_normal_execution (vc st') else eptp_target_execution (vc st')) \<and>
    (\<forall>gpa < 0x8000000000. \<exists>a. ept_walk (current_ept_pages (vc st')) gpa = Some a) \<and>
    (\<forall>ep \<in> {ept_pages_normal (vc st'), ept_pages_target (vc st')}. \<forall>h \<in> set (hooks ep).
       \<exists>q. ptr_of ep (hook_gpa h) q \<and> (hk_pte h = None \<or> hk_pte h = Some q)) \<and>
    (\<forall>r \<in> insert (trace_buffer (vc st')) (range (peer_rings st')). unat (write_head r) < 8192 \<and> unat (read_tail r) < 8192) \<and>
    table_inv (vc_cfg_table (vc st'))"
proof -
  have inv: "core_inv M st'"
    by (rule core_steps_inv [OF assms(3,1,2)])
  then have n: "tables_ok (ept_pages_normal (vc st'))" and t: "tables_ok (ept_pages_target (vc st'))"
    by (simp_all add: core_inv_def)
  have "\<exists>a. ept_walk ep gpa = Some a" if "tables_ok ep" "gpa < 0x8000000000" for ep gpa
    using ept_walk_wf [OF _ mapped_gpa(1) [OF that(2)], of ep] that(1) by (simp add: tables_ok_def Let_def)
  moreover have "hook_ok ep h" if "tables_ok ep" "h \<in> set (hooks ep)" for ep h
    using that by (simp add: tables_ok_def hooks_wf_def)
  ultimately show ?thesis
    using inv n t by (auto simp: core_inv_def eptp_matches_def current_eptp_def ring_inv_def current_ept_pages_def hook_ok_def)
qed

text \<open>A core whose guest has just executed VMLAUNCH.\<close>

definition sound_ept :: ept_pages where
  "sound_ept = flat_ept\<lparr>pde := (\<lambda>_ _. Large zero_leaf)\<rparr>"

definition sound_core :: core where
  "sound_core = demo_core\<lparr>vc := demo_vcpu\<lparr>ept_pages_normal := sound_ept, ept_pages_target := sound_ept\<rparr>,
     hws := demo_hw\<lparr>vmcs := (\<lambda>_. 0)(VMCS_CTRL_EPT_POINTER := 0x1000, VMCS_EXIT_REASON := 20, VMCS_GUEST_RIP := 0x400)\<rparr>\<rparr>"

lemma sound_ept_ok: "tables_ok sound_ept"
  using inj_of_nat_256
  by (simp add: tables_ok_def hooks_wf_def ept_wf_def ept_wf_on_def tables_open_def sound_ept_def flat_ept_def zeroed_ept_def
      rwx_table_def pfn_fields_def Let_def zero_leaf_def)

lemma sound_core_inv: "core_inv sdm_machine sound_core"
  using sound_ept_ok empty_cfg_table_inv(1)
  by (simp add: core_inv_def sound_core_def demo_core_def demo_vcpu_def demo_hw_def ring_inv_def eptp_matches_def
      current_eptp_def vmx_vmread_def sdm_machine_def)

lemma sound_core_exit: "\<exists>st'. vmexit_stub sdm_machine sound_core = Inr st'"
proof -
  have "vmx_vmread sdm_machine VMCS_EXIT_REASON (hws (on_vc f sound_core)) = 20" "low32 (g_rcx (cx sound_core)) = 0x10"
    "vmx_vmread sdm_machine VMCS_EXIT_REASON (hws sound_core) = 20" for f
    by (simp_all add: sound_core_def demo_core_def demo_hw_def demo_context_def vmx_vmread_def sdm_machine_def low32_def)
  moreover have "\<not> flag (er_vm_entry_failure (exl sdm_machine)) 20" "get_member (er_basic (exl sdm_machine)) 20 = 20"
    by (simp_all add: sdm_machine_def sdm_exit_layout_def flag_def get_member_def bit_field_def bit_numeral_rec take_bit_eq_mod)
  ultimately show ?thesis
    by (simp add: vmexit_stub_def handler_def run_exit_def handle_vmx_instruction_def vmx_instruction_exits_def Let_def)
qed

theorem reachable_core_is_sound_witness:
  "\<exists>st'. vmexit_stub sdm_machine sound_core = Inr st' \<and> vmx_vmread sdm_machine VMCS_CTRL_EPT_POINTER (hws st') =
      (if in_normal_execution (vc st') then eptp_normal_execution (vc st') else eptp_target_execution (vc st'))"
proof -
  obtain st' where "vmexit_stub sdm_machine sound_core = Inr st'"
    using sound_core_exit by blast
  moreover have "(core_step sdm_machine)\<^sup>*\<^sup>* sound_core st'"
    using calculation by (intro r_into_rtranclp exit)
  moreover have "supported sdm_machine VMCS_CTRL_EPT_POINTER"
    by (simp add: sdm_machine_def)
  ultimately show ?thesis
    using reachable_core_is_sound [OF sound_core_inv] by blast
qed

end
