(* ===== verification/Vmexit_Ends.thy ===== *)
theory Vmexit_Ends
  imports Vmexit_Inv
begin

text \<open>
  Every exit ends: the only loop of the exit handlers whose end depends on data, the walk over the
  memory type ranges after a change of the range registers, ends in every state a core can reach.
\<close>

definition ends :: "stop + 'a \<Rightarrow> bool" where
  "ends r \<longleftrightarrow> r \<noteq> Inl Endless_loop"

lemma ends_and_then: "ends r \<Longrightarrow> (\<And>x. r = Inr x \<Longrightarrow> ends (f x)) \<Longrightarrow> ends (and_then r f)"
  by (cases r) (auto simp: ends_def)

lemma ends_simps [simp]:
  "ends (Inr x)" "ends (unrecoverable_host_error st)" "ends (Inl Host_halted)" "ends (Inl Gave_control)"
  "ends (Inl Unrecoverable_host_error)"
  by (simp_all add: ends_def unrecoverable_host_error_def)

section \<open>Instructions\<close>

lemma ends_advance [simp]: "ends (advance_guest_rip M st)"
  by (simp add: advance_guest_rip_def Let_def)

lemma ends_exception [simp]: "ends (handle_exception M tf st)"
  by (auto simp: exception_defs handle_host_nmi_def give_control_on_unrecoverable_error_def Let_def intro!: ends_and_then)

lemma ends_run_wrapped [simp]: "ends (run_wrapped M w f st)"
  by (auto simp: run_wrapped_def intro!: ends_and_then split: option.splits)

lemma ends_finish: "(\<And>a. a = st \<Longrightarrow> ends (k a)) \<Longrightarrow> ends (finish_wrapped M k st)"
  by (auto simp: finish_wrapped_def intro!: ends_and_then)

lemma ends_rdmsr [simp]: "ends (handle_rdmsr M st)"
  by (auto simp: handle_rdmsr_def rdmsr_wrapper_def Let_def intro!: ends_and_then ends_finish split: prod.splits)

lemma ends_instructions [simp]:
  "ends (handle_cpuid M st)" "ends (handle_invd M st)" "ends (handle_xsetbv M st)" "ends (handle_getsec M st)"
  "ends (handle_vmx_instruction M st)" "ends (handle_nmi M st)" "ends (handle_nmi_window M st)" "ends (handle_preemption_timer M st)"
  by (auto simp: handle_cpuid_def handle_invd_def invd_wrapper_def handle_xsetbv_def xsetbv_wrapper_def handle_getsec_def
      handle_vmx_instruction_def handle_nmi_def give_control_on_unrecoverable_error_def handle_nmi_window_def
      handle_preemption_timer_def Let_def intro!: ends_and_then ends_finish split: prod.splits)

text \<open>The walk after WRMSR: tables in order are enough.\<close>

lemma ends_follow:
  assumes "tables_ok (ept_pages_normal (vc st))" and "tables_ok (ept_pages_target (vc st))"
  shows "ends (follow_mtrrs M st)"
  using update_ept_ok [OF assms(1)] update_ept_ok [OF assms(2)]
  by (auto simp: follow_mtrrs_def Let_def split: option.splits) (metis option.distinct(1))+

lemma ends_wrmsr:
  assumes "core_inv M st"
  shows "ends (handle_wrmsr M st)"
proof -
  obtain t st1 where t: "read_tsc M st = (t, st1)" by fastforce
  let ?msr = "low32 (g_rcx (cx st))"
  have "ends (follow_mtrrs M (timed M t st2))" if "wrmsr_wrapper M ?msr (edx_eax (cx st)) st1 = Inr st2" for st2
  proof -
    have "core_part M st2 = core_part M st1"
      by (rule run_wrapped_part [OF that [unfolded wrmsr_wrapper_def]]) simp
    then have "core_inv M (timed M t st2)"
      using assms core_inv_part [OF read_tsc_part [OF t]] core_inv_part [of M st2 st1] core_inv_part [OF timed_part] by blast
    then show ?thesis
      by (intro ends_follow) (simp_all add: core_inv_def)
  qed
  then show ?thesis
    by (auto simp: handle_wrmsr_def t Let_def wrmsr_wrapper_def intro!: ends_and_then ends_finish)
qed

lemma ends_write_cr [simp]: "ends (write_cr M f g a b st)"
  by (simp add: write_cr_def Let_def)

lemma ends_raise_gp [simp]: "ends (raise_gp M st)"
  by (simp add: raise_gp_def)

lemma ends_cr_advance [simp]: "ends (and_then (write_cr M f g a b st) (advance_guest_rip M))"
  by (rule ends_and_then) simp_all

lemma ends_mov_cr [simp]: "ends (mov_to_cr0 M v st)" "ends (mov_to_cr4 M v st)"
  by (simp_all add: mov_to_cr0_def mov_to_cr4_def Let_def)

lemma ends_cr [simp]: "ends (handle_cr_access M st)"
  unfolding handle_cr_access_def Let_def
  by (rule ends_and_then) (simp_all add: handle_mov_to_cr_def handle_clts_def handle_lmsw_def Let_def)

section \<open>Hypercalls\<close>

lemma ends_access [simp]:
  "ends (guest_read M c a b n st)" "ends (guest_write M c a b n st)" "ends (load_u64 a st)" "ends (load_bytes a k st)"
  by (simp_all add: guest_read_def guest_write_def load_u64_def load_bytes_def split: option.splits)

lemma ends_fetch [simp]: "ends (fetch_vmem_request M st)"
  by (auto simp: fetch_vmem_request_def load_vmem_request_def Let_def intro!: ends_and_then)

lemma ends_vmem [simp]: "ends (handle_vmem_read M st)" "ends (handle_vmem_write M st)"
  by (auto simp: handle_vmem_read_def handle_vmem_write_def Let_def intro!: ends_and_then split: option.splits)

lemma ends_flush [simp]: "ends (handle_flush_trace_logs M st)" "ends (handle_flush_standard_logs M st)"
  by (auto simp: handle_flush_trace_logs_def handle_flush_standard_logs_def Let_def split: option.splits)

lemma ends_trace [simp]: "ends (start_auto_trace M st nrm tgt va sz)" "ends (handle_enable_auto_trace M st)" "ends (handle_disable_auto_trace M st)"
proof -
  show "ends (start_auto_trace M st nrm tgt va sz)" for nrm tgt va sz
    by (auto simp: start_auto_trace_def Let_def split: prod.splits bool.splits)
  then show "ends (handle_enable_auto_trace M st)"
    by (auto simp: handle_enable_auto_trace_def Let_def intro!: ends_and_then)
  show "ends (handle_disable_auto_trace M st)"
    by (simp add: handle_disable_auto_trace_def Let_def split: prod.splits)
qed

lemma ends_config [simp]:
  "ends (handle_ept_hook st)" "ends (handle_at_config_ept_transition M st)" "ends (handle_get_apic_info M st)"
  "ends (handle_set_onload_target M st)" "ends (handle_clear_onload_target st)" "ends (handle_ping st)" "ends (handle_test_host_df st)"
  by (auto simp: handle_ept_hook_def handle_at_config_ept_transition_def handle_get_apic_info_def handle_set_onload_target_def
      handle_clear_onload_target_def handle_ping_def handle_test_host_df_def Let_def intro!: ends_and_then split: prod.splits)

lemma ends_hypercall [simp]: "ends (handle_hypercall M st)"
  unfolding handle_hypercall_def Let_def by (auto intro!: ends_and_then)

lemma ends_vmcall [simp]: "ends (handle_vmcall M st)"
  unfolding handle_vmcall_def by (auto intro!: ends_and_then)

lemma ends_violation [simp]: "ends (handle_ept_violation M st)"
  by (auto simp: handle_ept_violation_def trace_transition_def Let_def split: option.splits)

section \<open>Whole exits\<close>

lemma ends_run_exit:
  assumes "core_inv M st"
  shows "ends (run_exit M reason st)"
proof -
  have t: "ends (and_then r (\<lambda>st'. Inr (b, st')))" if "ends r" for b and r :: "stop + core"
    using that by (auto intro: ends_and_then)
  show ?thesis
    unfolding run_exit_def Let_def by (simp add: t ends_wrmsr [OF assms])
qed

lemma ends_stub:
  assumes "core_inv M st"
  shows "ends (vmexit_stub M st)"
proof -
  have "core_inv M (on_hw (clear_vmentry_interrupt_info M) (on_vc (\<lambda>v. v\<lparr>stealth := on_vmexit (stealth v)\<rparr>) st))"
    using assms by (simp add: core_inv_part [OF part_on_hw] core_inv_part [OF part_on_vc(3)])
  then have "ends (handler M st)"
    unfolding handler_def Let_def
    by (auto simp: handle_vm_entry_failure_def Let_def intro!: ends_and_then ends_run_exit)
  then show ?thesis
    unfolding vmexit_stub_def by (auto intro!: ends_and_then)
qed

section \<open>Property\<close>

text \<open>
  C3. In every state a core can reach from a good one, the handling of an exit ends: the guest
  is resumed, in a state that again satisfies the invariant, or the core stops for good, because
  the host crashed, another core crashed, or the VMCS refused a new instruction pointer. In
  particular the walk over the memory type ranges ends for any content of the range registers.
\<close>

theorem every_exit_ends:
  assumes "core_inv M st" and "supported M VMCS_CTRL_EPT_POINTER" and "(core_step M)\<^sup>*\<^sup>* st st1"
  shows "(case vmexit_stub M st1 of
      Inr st2 \<Rightarrow> core_inv M st2
    | Inl e \<Rightarrow> e \<in> {Unrecoverable_host_error, Gave_control, Host_halted}) \<and>
    update_ept_memory_types (ph_normal M) (ept_pages_normal (vc st1)) ms \<noteq> None"
proof -
  have inv: "core_inv M st1"
    by (rule core_steps_inv [OF assms(3,1,2)])
  have "e \<in> {Unrecoverable_host_error, Gave_control, Host_halted}" if "e \<noteq> Endless_loop" for e
    using that by (cases e) simp_all
  then have "case vmexit_stub M st1 of Inr st2 \<Rightarrow> core_inv M st2 | Inl e \<Rightarrow> e \<in> {Unrecoverable_host_error, Gave_control, Host_halted}"
    using ends_stub [OF inv] stub_inv [OF inv _ assms(2)] by (cases "vmexit_stub M st1") (auto simp: ends_def)
  moreover have "update_ept_memory_types (ph_normal M) (ept_pages_normal (vc st1)) ms \<noteq> None"
    using inv update_ept_ok [of "ept_pages_normal (vc st1)" "ph_normal M" ms] by (auto simp: core_inv_def)
  ultimately show ?thesis by blast
qed

theorem every_exit_ends_witness:
  "\<exists>st1. vmexit_stub sdm_machine sound_core = Inr st1 \<and> core_inv sdm_machine st1"
proof -
  obtain st1 where st1: "vmexit_stub sdm_machine sound_core = Inr st1"
    using sound_core_exit by blast
  moreover have "supported sdm_machine VMCS_CTRL_EPT_POINTER"
    by (simp add: sdm_machine_def)
  ultimately show ?thesis
    using every_exit_ends [OF sound_core_inv _ rtranclp.rtrancl_refl] by fastforce
qed

end
