(* ===== verification/Vmexit_Outcome.thy ===== *)
theory Vmexit_Outcome
  imports Vmexit
begin

text \<open>
  What a whole exit delivers: the event of the next VM entry, where the guest goes on, and the time
  the guest sees.
\<close>

section \<open>Fields of the VMCS\<close>

text \<open>Hypercalls and EPT violations change the EPTP and no other field.\<close>

abbreviation vm_same :: "machine \<Rightarrow> core \<Rightarrow> core \<Rightarrow> bool" where
  "vm_same M st st' \<equiv> \<forall>f. f \<noteq> VMCS_CTRL_EPT_POINTER \<longrightarrow> vmx_vmread M f (hws st') = vmx_vmread M f (hws st)"

lemma invept_read [simp]: "vmx_vmread M f (invept t e h) = vmx_vmread M f h"
  by (simp add: invept_def)

lemma set_parts_hws [simp]:
  "hws (set_rax v st) = hws st" "hws (store_bytes a bs st) = hws st" "hws (set_onload_target s b st) = hws st"
  "hws (put_ring_of_core c r st) = hws st"
  by (simp_all add: set_rax_def store_bytes_def set_onload_target_def put_ring_of_core_def)

lemma access_hws:
  "guest_read M c a b n st = Inr (k, st') \<Longrightarrow> hws st' = hws st" "guest_write M c a b n st = Inr (k, st') \<Longrightarrow> hws st' = hws st"
  by (auto simp: guest_read_def guest_write_def unrecoverable_host_error_def split: option.splits)

lemma fetch_hws: "fetch_vmem_request M st = Inr (r, st') \<Longrightarrow> hws st' = hws st"
  by (auto simp: fetch_vmem_request_def Let_def and_then_Inr dest!: access_hws split: if_splits)

lemma vmem_hws:
  "handle_vmem_read M st = Inr st' \<Longrightarrow> hws st' = hws st" "handle_vmem_write M st = Inr st' \<Longrightarrow> hws st' = hws st"
  by (fastforce simp: handle_vmem_read_def handle_vmem_write_def Let_def and_then_Inr dest!: fetch_hws access_hws
      split: option.splits if_splits)+

lemma small_hws:
  "handle_ping st = Inr st' \<Longrightarrow> hws st' = hws st"
  "handle_flush_standard_logs M st = Inr st' \<Longrightarrow> hws st' = hws st"
  "handle_flush_trace_logs M st = Inr st' \<Longrightarrow> hws st' = hws st"
  "handle_clear_onload_target st = Inr st' \<Longrightarrow> hws st' = hws st"
  "handle_set_onload_target M st = Inr st' \<Longrightarrow> hws st' = hws st"
  "handle_get_apic_info M st = Inr st' \<Longrightarrow> hws st' = hws st"
  by (auto simp: handle_ping_def handle_flush_standard_logs_def handle_flush_trace_logs_def handle_clear_onload_target_def
      handle_set_onload_target_def handle_get_apic_info_def unrecoverable_host_error_def
      Let_def and_then_Inr dest!: access_hws split: option.splits if_splits prod.splits)

lemma at_config_hws: "handle_at_config_ept_transition M st = Inr st' \<Longrightarrow> hws st' = hws st"
  by (auto simp: handle_at_config_ept_transition_def case_prod_unfold Let_def and_then_Inr dest!: access_hws split: if_splits)

lemma trace_vm_same:
  "handle_ept_hook st = Inr st' \<Longrightarrow> vm_same M st st'" "handle_enable_auto_trace M st = Inr st' \<Longrightarrow> vm_same M st st'"
  "handle_disable_auto_trace M st = Inr st' \<Longrightarrow> vm_same M st st'"
  by (auto simp: handle_ept_hook_def handle_enable_auto_trace_def handle_disable_auto_trace_def normal_mode_def Let_def
      and_then_Inr split: if_splits prod.splits)

lemma hypercall_cases:
  assumes "handle_hypercall M st = Inr (b, st')"
  shows "b = (g_rax (cx st) = HYPERCALL_KEY)" and "\<not> b \<longrightarrow> st' = st"
    and "st' = st \<or> handle_ping st = Inr st' \<or> handle_flush_standard_logs M st = Inr st' \<or> handle_vmem_read M st = Inr st' \<or>
      handle_vmem_write M st = Inr st' \<or> handle_ept_hook st = Inr st' \<or> handle_enable_auto_trace M st = Inr st' \<or>
      handle_disable_auto_trace M st = Inr st' \<or> handle_flush_trace_logs M st = Inr st' \<or> handle_get_apic_info M st = Inr st' \<or>
      handle_at_config_ept_transition M st = Inr st' \<or> handle_set_onload_target M st = Inr st' \<or> handle_clear_onload_target st = Inr st'"
  using assms
  by (auto simp: handle_hypercall_def Let_def and_then_Inr handle_test_host_df_def unrecoverable_host_error_def split: if_splits)

lemma hypercall_vm_same:
  assumes "handle_hypercall M st = Inr (b, st')" and "f \<noteq> VMCS_CTRL_EPT_POINTER"
  shows "vmx_vmread M f (hws st') = vmx_vmread M f (hws st)"
proof -
  note same = trace_vm_same [rule_format, OF _ assms(2)]
  have "hws st' = hws st \<or> handle_ept_hook st = Inr st' \<or> handle_enable_auto_trace M st = Inr st' \<or> handle_disable_auto_trace M st = Inr st'"
    using hypercall_cases(3) [OF assms(1)] by (elim disjE) (blast dest: small_hws at_config_hws vmem_hws)+
  then show ?thesis
    by (elim disjE) (blast intro: same arg_cong [of _ _ "vmx_vmread M f"])+
qed

lemma violation_vm_same: "handle_ept_violation M st = Inr st' \<Longrightarrow> vm_same M st st'"
  by (auto simp: handle_ept_violation_def trace_transition_def unrecoverable_host_error_def Let_def split: option.splits if_splits prod.splits)

section \<open>Timing data\<close>

text \<open>What an exit must not change, all but the overhead of the instruction.\<close>

definition timing :: "core \<Rightarrow> stealth_data" where
  "timing st = (stealth (vc st))\<lparr>tsc_data_of := (tsc_data_of (stealth (vc st)))\<lparr>instruction_overhead := 0\<rparr>\<rparr>"

lemma timing_simps [simp]:
  "timing (on_hw f st) = timing st" "timing (on_cx g st) = timing st" "timing (st\<lparr>hws := h\<rparr>) = timing st"
  "timing (on_vc (\<lambda>v. v\<lparr>exc_info := x v\<rparr>) st) = timing st" "timing (on_vc (set_instruction_overhead t) st) = timing st"
  "timing (on_vc (\<lambda>v. v\<lparr>queued_nmi_count := n v\<rparr>) st) = timing st"
  "timing (on_vc (\<lambda>v. v\<lparr>vc_mtrr_state := a, ept_pages_normal := b, ept_pages_target := c\<rparr>) st) = timing st"
  "timing (timed M s st) = timing st" "timing (inject_host_hw_exception_to_guest M st) = timing st"
  by (simp_all add: timing_def set_instruction_overhead_def timed_def inject_host_hw_exception_to_guest_def Let_def)

lemma advance_timing: "advance_guest_rip M st = Inr st' \<Longrightarrow> timing st' = timing st"
  by (auto simp: advance_guest_rip_def Let_def split: if_splits)

lemma read_tsc_timing: "read_tsc M st = (t, st1) \<Longrightarrow> timing st1 = timing st"
  by (auto simp: read_tsc_def Let_def)

lemma wrapped_timing: "run_wrapped M w f st = Inr st' \<Longrightarrow> timing st' = timing st"
  by (auto simp: run_wrapped_def and_then_Inr exception_defs handle_host_nmi_def give_control_on_unrecoverable_error_def queue_nmi_def
      unrecoverable_host_error_def record_exception_def Let_def split: option.splits if_splits)

lemma finish_timing:
  "finish_wrapped M k st = Inr st' \<Longrightarrow> (\<And>a b. k a = Inr b \<Longrightarrow> timing b = timing a) \<Longrightarrow> timing st' = timing st"
  by (auto simp: finish_wrapped_def and_then_Inr dest!: advance_timing split: if_splits)

lemma follow_timing: "follow_mtrrs M st = Inr st' \<Longrightarrow> timing st' = timing st"
  by (auto simp: follow_mtrrs_def Let_def split: option.splits)

lemma rdmsr_timing:
  assumes "handle_rdmsr M st = Inr st'"
  shows "timing st' = timing st"
proof -
  let ?msr = "low32 (g_rcx (cx st))"
  obtain t st1 where t: "read_tsc M st = (t, st1)" by fastforce
  obtain r st2 where s: "(if ?msr = HV_X64_MSR_GUEST_IDLE then Inr (0, st1) else rdmsr_wrapper M ?msr st1) = Inr (r, st2)"
    and f: "finish_wrapped M (\<lambda>st. Inr (on_cx (\<lambda>g. g\<lparr>g_rdx := put_low32 (ucast (drop_bit 32 r)) (g_rdx g),
        g_rax := put_low32 (ucast r) (g_rax g)\<rparr>) st)) (timed M t st2) = Inr st'"
    using assms t by (auto simp: handle_rdmsr_def Let_def and_then_Inr)
  have "timing st2 = timing st1"
    using s wrapped_timing by (auto simp: rdmsr_wrapper_def and_then_Inr split: if_splits)
  then show ?thesis
    using finish_timing [OF f] read_tsc_timing [OF t] by auto
qed

lemma wrmsr_timing:
  assumes "handle_wrmsr M st = Inr st'"
  shows "timing st' = timing st"
proof -
  let ?msr = "low32 (g_rcx (cx st))"
  obtain t st1 where t: "read_tsc M st = (t, st1)" by fastforce
  obtain st2 where s: "wrmsr_wrapper M ?msr (edx_eax (cx st)) st1 = Inr st2"
    and f: "finish_wrapped M (\<lambda>st. if is_mtrr_msr ?msr then follow_mtrrs M st else Inr st) (timed M t st2) = Inr st'"
    using assms t by (auto simp: handle_wrmsr_def Let_def and_then_Inr)
  have "timing b = timing a" if "(if is_mtrr_msr ?msr then follow_mtrrs M a else Inr a) = Inr b" for a b
    using that follow_timing by (auto split: if_splits)
  then show ?thesis
    using finish_timing [OF f] read_tsc_timing [OF t] wrapped_timing [OF s [unfolded wrmsr_wrapper_def]] by auto
qed

lemma xsetbv_timing:
  assumes "handle_xsetbv M st = Inr st'"
  shows "timing st' = timing st"
proof -
  obtain t st1 where t: "read_tsc M st = (t, st1)" by fastforce
  obtain st2 where s: "xsetbv_wrapper M (low32 (g_rcx (cx st))) (edx_eax (cx st)) st1 = Inr st2"
    and f: "finish_wrapped M Inr (timed M t st2) = Inr st'"
    using assms t by (auto simp: handle_xsetbv_def Let_def and_then_Inr)
  show ?thesis
    using finish_timing [OF f] read_tsc_timing [OF t] wrapped_timing [OF s [unfolded xsetbv_wrapper_def]] by auto
qed

lemma cpuid_timing: "handle_cpuid M st = Inr st' \<Longrightarrow> timing st' = timing st"
  by (auto simp: handle_cpuid_def Let_def dest!: advance_timing read_tsc_timing split: prod.splits)

lemma write_cr_timing: "write_cr M f g a b st = Inr st' \<Longrightarrow> timing st' = timing st"
  by (auto simp: write_cr_def Let_def unrecoverable_host_error_def split: if_splits)

lemma mov_cr_timing:
  "mov_to_cr0 M v st = Inr st' \<Longrightarrow> timing st' = timing st" "mov_to_cr4 M v st = Inr st' \<Longrightarrow> timing st' = timing st"
  by (auto simp: mov_to_cr0_def mov_to_cr4_def raise_gp_def Let_def and_then_Inr dest!: advance_timing write_cr_timing split: if_splits)

lemma cr_timing:
  assumes "handle_cr_access M st = Inr st'"
  shows "timing st' = timing st"
proof -
  let ?q = "vmx_vmread M VMCS_EXIT_QUALIFICATION (hws st)"
  obtain st1 where "handle_mov_to_cr M ?q st = Inr st1 \<or> handle_clts M st = Inr st1 \<or> handle_lmsw M ?q st = Inr st1"
    and st': "st' = on_vc (set_instruction_overhead 100) st1"
    using assms by (auto simp: handle_cr_access_def Let_def and_then_Inr unrecoverable_host_error_def split: if_splits)
  then have "timing st1 = timing st"
    using mov_cr_timing write_cr_timing advance_timing
    by (auto simp: handle_mov_to_cr_def handle_clts_def handle_lmsw_def and_then_Inr Let_def unrecoverable_host_error_def split: if_splits)
  then show ?thesis by (simp add: st')
qed

lemma hidden_timing:
  "run_exit M reason st = Inr (True, st') \<Longrightarrow> timing st' = timing st"
  using cpuid_timing rdmsr_timing wrmsr_timing xsetbv_timing cr_timing
  by (auto simp: run_exit_def Let_def and_then_Inr unrecoverable_host_error_def split: if_splits)

section \<open>The frame of an exit\<close>

definition entered :: "machine \<Rightarrow> core \<Rightarrow> core" where
  "entered M st = on_hw (clear_vmentry_interrupt_info M) (on_vc (\<lambda>v. v\<lparr>stealth := on_vmexit (stealth v)\<rparr>) st)"

definition exit_reason :: "machine \<Rightarrow> core \<Rightarrow> u64" where
  "exit_reason M st = get_member (er_basic (exl M)) (vmx_vmread M VMCS_EXIT_REASON (hws st))"

definition entry_failed :: "machine \<Rightarrow> core \<Rightarrow> bool" where
  "entry_failed M st \<longleftrightarrow> flag (er_vm_entry_failure (exl M)) (vmx_vmread M VMCS_EXIT_REASON (hws st))"

lemma handler_shown:
  "\<not> entry_failed M st \<Longrightarrow> run_exit M (exit_reason M st) (entered M st) = Inr (False, st') \<Longrightarrow> handler M st = Inr (False, st')"
  by (simp add: handler_def entry_failed_def entered_def exit_reason_def Let_def)

lemma handler_result:
  assumes "handler M st = Inr (b, st')" and "\<not> entry_failed M st"
  shows "\<exists>hide st3. run_exit M (exit_reason M st) (entered M st) = Inr (hide, st3) \<and>
    b = (hide \<and> bench_completed (stealth (vc st3))) \<and>
    (st' = st3 \<and> (b \<longrightarrow> preemption_timer_enabled (vc st3)) \<or>
     b \<and> st' = on_vc (\<lambda>v. v\<lparr>preemption_timer_enabled := True\<rparr>)
      (on_hw (enable_preemption_timer M (tsc_preemption_relation_bit (vc st3)) 10000000) st3))"
proof -
  let ?timer = "\<lambda>st3. on_vc (\<lambda>v. v\<lparr>preemption_timer_enabled := True\<rparr>)
      (on_hw (enable_preemption_timer M (tsc_preemption_relation_bit (vc st3)) 10000000) st3)"
  obtain hide st3 where r: "run_exit M (exit_reason M st) (entered M st) = Inr (hide, st3)"
    and t: "(if (hide \<and> bench_completed (stealth (vc st3))) \<and> \<not> preemption_timer_enabled (vc st3) then Inr (True, ?timer st3)
      else Inr (hide \<and> bench_completed (stealth (vc st3)), st3)) = (Inr (b, st') :: stop + bool \<times> core)"
    using assms unfolding handler_def entry_failed_def entered_def exit_reason_def Let_def and_then_Inr tsc_hiding_enabled_def
    by (simp only: on_simps if_False simp_thms and_then_Inr split_paired_Ex prod.case) blast
  show ?thesis
  proof (cases "(hide \<and> bench_completed (stealth (vc st3))) \<and> \<not> preemption_timer_enabled (vc st3)")
    case True
    then have "b" "st' = ?timer st3" using t by simp_all
    then show ?thesis using r True by (intro exI [of _ hide] exI [of _ st3] conjI disjI2) simp_all
  next
    case False
    then have "b = (hide \<and> bench_completed (stealth (vc st3)))" "st' = st3"
      using t unfolding if_not_P [OF False] by (auto simp only: sum.inject prod.inject)
    then show ?thesis using r False by (intro exI [of _ hide] exI [of _ st3] conjI disjI1) simp_all
  qed
qed

lemma handler_shown_result:
  assumes "handler M st = Inr (b, st')" and "\<not> entry_failed M st"
    and "\<And>hide st3. run_exit M (exit_reason M st) (entered M st) = Inr (hide, st3) \<Longrightarrow> \<not> hide"
  shows "\<not> b \<and> run_exit M (exit_reason M st) (entered M st) = Inr (False, st')"
  using handler_result [OF assms(1,2)] assms(3) by auto

lemma entered_simps [simp]:
  "cx (entered M st) = cx st" "mem (entered M st) = mem st" "ghv (entered M st) = ghv st" "exc_info (vc (entered M st)) = exc_info (vc st)"
  "queued_nmi_count (vc (entered M st)) = queued_nmi_count (vc st)"
  "f \<noteq> VMCS_CTRL_VMENTRY_INTERRUPTION_INFORMATION_FIELD \<Longrightarrow> vmx_vmread M f (hws (entered M st)) = vmx_vmread M f (hws st)"
  by (simp_all add: entered_def clear_vmentry_interrupt_info_def)

lemma entered_no_event: "events_supported M \<Longrightarrow> vm_entry_event M (hws (entered M st)) = No_event"
  by (simp add: entered_def event_clear)

lemma entered_next_rip: "next_rip M (hws (entered M st)) = next_rip M (hws st)"
  by (simp add: next_rip_def Let_def)

text \<open>After a change of other fields the event is still the one of the entry.\<close>

lemma same_no_event:
  assumes "events_supported M" and "vm_same M (entered M st) st'"
  shows "vm_entry_event M (hws st') = No_event"
  using vm_entry_event_cong [of M "hws st'" "hws (entered M st)"] entered_no_event [OF assms(1)] assms(2) by simp

lemma timingD:
  assumes "timing a = timing b"
  defines "t \<equiv> tsc_data_of (stealth (vc a))" and "u \<equiv> tsc_data_of (stealth (vc b))"
  shows "tsc_offset t = tsc_offset u" "stored_tsc t = stored_tsc u" "vmentry_overhead t = vmentry_overhead u"
    "vmexit_to_store_overhead t = vmexit_to_store_overhead u" "bench_completed (stealth (vc a)) = bench_completed (stealth (vc b))"
  using arg_cong [OF assms(1), of "\<lambda>d. (tsc_offset (tsc_data_of d), stored_tsc (tsc_data_of d), vmentry_overhead (tsc_data_of d),
    vmexit_to_store_overhead (tsc_data_of d), bench_completed d)"]
  by (simp_all add: timing_def t_def u_def)

lemma update_tsc_result:
  fixes st :: core
  assumes "supported M VMCS_CTRL_TSC_OFFSET"
  defines "t \<equiv> tsc_data_of (stealth (vc st))" and "st' \<equiv> update_tsc_offset M st"
  shows "tsc_value M (tsc_reads (hws st)) + vmx_vmread M VMCS_CTRL_TSC_OFFSET (hws st') =
      stored_tsc t + tsc_offset t + instruction_overhead t - vmentry_overhead t - vmexit_to_store_overhead t"
    and "tsc_offset (tsc_data_of (stealth (vc st'))) = vmx_vmread M VMCS_CTRL_TSC_OFFSET (hws st')"
  using assms(1) by (simp_all add: update_tsc_offset_def st'_def t_def read_tsc_def rdtsc_def Let_def algebra_simps)

section \<open>Kinds of exits\<close>

lemma ud_outcome:
  assumes "platform_ok M" and "\<not> entry_failed M st"
    and "exit_reason M st \<in> set vmx_instruction_exits \<or> exit_reason M st = 11 \<or> exit_reason M st = 18 \<and> g_rax (cx st) \<noteq> HYPERCALL_KEY"
  shows "\<exists>st'. handler M st = Inr (False, st') \<and> vm_entry_event M (hws st') = Exception_event 6 None \<and>
    vmx_vmread M VMCS_GUEST_RIP (hws st') = vmx_vmread M VMCS_GUEST_RIP (hws st) \<and> cx st' = cx st \<and> mem st' = mem st"
proof -
  let ?u = "on_hw (inject_hw_exception M invalid_opcode) (entered M st)"
  have "run_exit M (exit_reason M st) (entered M st) = Inr (False, ?u)"
    using assms(3) by (auto simp: run_exit_def vmx_instruction_exits_def handle_vmx_instruction_def handle_getsec_def
        handle_vmcall_def handle_hypercall_def Let_def)
  moreover have "vmx_vmread M VMCS_GUEST_RIP (hws ?u) = vmx_vmread M VMCS_GUEST_RIP (hws st)"
    by (simp add: inject_hw_exception_def)
  moreover have "vm_entry_event M (hws ?u) = Exception_event 6 None"
    by (simp add: event_exception [OF platform_supported(2) [OF assms(1)]] take_bit_eq_mod)
  ultimately show ?thesis
    using handler_shown [OF assms(2)] by (intro exI [of _ ?u]) simp
qed

lemma vmcall_outcome:
  assumes "platform_ok M" and "\<not> entry_failed M st" and "exit_reason M st = 18" and "g_rax (cx st) = HYPERCALL_KEY"
    and "handler M st = Inr (b, st')"
  shows "\<not> b \<and> vm_entry_event M (hws st') = No_event \<and> vmx_vmread M VMCS_GUEST_RIP (hws st') = next_rip M (hws st)"
proof -
  let ?s = "entered M st"
  have r: "run_exit M (exit_reason M st) ?s = and_then (handle_vmcall M ?s) (\<lambda>st'. Inr (False, st'))"
    by (simp add: run_exit_def assms(3) Let_def)
  then have "\<not> b" "handle_vmcall M ?s = Inr st'"
    using handler_shown_result [OF assms(5,2)] by (auto simp: and_then_Inr)
  then obtain ok st1 where h: "handle_hypercall M ?s = Inr (ok, st1)" and v: "(if ok then advance_guest_rip M st1 else handle_vmx_instruction M st1) = Inr st'"
    by (auto simp: handle_vmcall_def and_then_Inr split: if_splits)
  have adv: "advance_guest_rip M st1 = Inr st'"
    using v hypercall_cases(1) [OF h] assms(4) by simp
  have same: "vm_same M ?s st1"
    using hypercall_vm_same [OF h] by blast
  have "next_rip M (hws st1) = next_rip M (hws ?s)"
    using same by (simp add: next_rip_def Let_def)
  moreover have "vm_entry_event M (hws st1) = No_event"
    by (rule same_no_event [OF platform_supported(2) [OF assms(1)] same])
  moreover obtain st4 where "advance_guest_rip M st1 = Inr st4" "completes M st1 st4"
    using completes_advance [OF assms(1), of st1 st1] by auto
  ultimately show ?thesis
    using adv \<open>\<not> b\<close> by (simp add: completes_def entered_next_rip)
qed

lemma reentry_outcome:
  assumes "platform_ok M" and "\<not> entry_failed M st" and "exit_reason M st = 48 \<or> exit_reason M st = 52" and "handler M st = Inr (b, st')"
  shows "\<not> b \<and> vm_entry_event M (hws st') = No_event \<and> vmx_vmread M VMCS_GUEST_RIP (hws st') = vmx_vmread M VMCS_GUEST_RIP (hws st) \<and> cx st' = cx st"
proof -
  let ?s = "entered M st"
  have "run_exit M (exit_reason M st) ?s =
      and_then (if exit_reason M st = 48 then handle_ept_violation M ?s else handle_preemption_timer M ?s) (\<lambda>st'. Inr (False, st'))"
    using assms(3) by (auto simp: run_exit_def Let_def)
  then have nb: "\<not> b" and v: "handle_ept_violation M ?s = Inr st' \<or> handle_preemption_timer M ?s = Inr st'"
    using handler_shown_result [OF assms(4,2)] by (auto simp: and_then_Inr split: if_splits)
  from v have "cx st' = cx ?s \<and> vm_same M ?s st' \<or>
      cx st' = cx ?s \<and> hws st' = disable_preemption_timer M (tsc_preemption_relation_bit (vc ?s)) (vmwrite M VMCS_CTRL_TSC_OFFSET 0 (hws ?s))"
  proof (elim disjE)
    assume a: "handle_ept_violation M ?s = Inr st'"
    then have "cx st' = cx ?s"
      by (auto simp: handle_ept_violation_def trace_transition_def emit_transition_def unrecoverable_host_error_def Let_def
          split: option.splits if_splits prod.splits)
    then show ?thesis
      using violation_vm_same [OF a] by blast
  next
    assume "handle_preemption_timer M ?s = Inr st'"
    then show ?thesis
      by (auto simp: handle_preemption_timer_def)
  qed
  then have "cx st' = cx ?s \<and> vmx_vmread M VMCS_GUEST_RIP (hws st') = vmx_vmread M VMCS_GUEST_RIP (hws ?s) \<and>
      vm_entry_event M (hws st') = vm_entry_event M (hws ?s)"
    using vm_entry_event_cong [of M "hws st'" "hws ?s"] by (elim disjE conjE) (simp_all add: disable_preemption_timer_def)
  then show ?thesis
    using nb entered_no_event [OF platform_supported(2) [OF assms(1)]] by simp
qed

lemma window_outcome:
  assumes "platform_ok M" and "\<not> entry_failed M st" and "exit_reason M st = 8"
  shows "\<exists>st'. handler M st = Inr (False, st') \<and> vm_entry_event M (hws st') = Nmi_event \<and>
    vmx_vmread M VMCS_GUEST_RIP (hws st') = vmx_vmread M VMCS_GUEST_RIP (hws st) \<and> cx st' = cx st \<and>
    queued_nmi_count (vc st') = queued_nmi_count (vc st) - 1"
proof -
  let ?s = "entered M st"
  obtain st3 where s3: "handle_nmi_window M ?s = Inr st3"
    unfolding handle_nmi_window_def Let_def by blast
  let ?i = "inject_nmi M (hws ?s)"
  have h3: "hws st3 \<in> {?i, disable_nmi_window_exiting M ?i, enable_nmi_window_exiting M (disable_nmi_window_exiting M ?i)}"
    and c3: "cx st3 = cx ?s" "queued_nmi_count (vc st3) = queued_nmi_count (vc ?s) - 1"
    using s3 by (auto simp: handle_nmi_window_def Let_def split: if_splits)
  have "vm_entry_event M (hws st3) = vm_entry_event M ?i"
    by (rule vm_entry_event_cong) (use h3 in auto)
  moreover have "vmx_vmread M VMCS_GUEST_RIP (hws st3) = vmx_vmread M VMCS_GUEST_RIP (hws st)"
    using h3 by (auto simp: inject_nmi_def)
  moreover have "run_exit M (exit_reason M st) ?s = Inr (False, st3)"
    using s3 assms(3) by (simp add: run_exit_def Let_def)
  ultimately show ?thesis
    using handler_shown [OF assms(2)] c3 event_nmi [OF platform_supported(2) [OF assms(1)]] by (intro exI [of _ st3]) simp
qed

section \<open>Properties\<close>

text \<open>
  C19. What the guest gets after an exit. VMX instructions, GETSEC and a VMCALL with the wrong key raise
  an invalid opcode exception at the unmoved instruction, and registers and memory are untouched. A hypercall
  with the right key continues behind the instruction, with no event. After an EPT violation or the
  end of the preemption timer the guest goes on where it was, with no event at all: an event whose
  delivery the violation interrupted is not injected again. An NMI window delivers
  one of the queued NMIs.
\<close>

theorem exit_outcome:
  assumes p: "platform_ok M" and n: "\<not> entry_failed M st"
  defines "r \<equiv> exit_reason M st" and "rip \<equiv> vmx_vmread M VMCS_GUEST_RIP (hws st)"
  shows "(r \<in> set vmx_instruction_exits \<or> r = 11 \<or> r = 18 \<and> g_rax (cx st) \<noteq> HYPERCALL_KEY \<longrightarrow>
      (\<exists>st'. handler M st = Inr (False, st') \<and> vm_entry_event M (hws st') = Exception_event 6 None \<and>
         vmx_vmread M VMCS_GUEST_RIP (hws st') = rip \<and> cx st' = cx st \<and> mem st' = mem st)) \<and>
    (\<forall>b st'. r = 18 \<and> g_rax (cx st) = HYPERCALL_KEY \<and> handler M st = Inr (b, st') \<longrightarrow>
      \<not> b \<and> vm_entry_event M (hws st') = No_event \<and> vmx_vmread M VMCS_GUEST_RIP (hws st') = next_rip M (hws st)) \<and>
    (\<forall>b st'. (r = 48 \<or> r = 52) \<and> handler M st = Inr (b, st') \<longrightarrow>
      \<not> b \<and> vm_entry_event M (hws st') = No_event \<and> vmx_vmread M VMCS_GUEST_RIP (hws st') = rip \<and> cx st' = cx st) \<and>
    (r = 8 \<longrightarrow> (\<exists>st'. handler M st = Inr (False, st') \<and> vm_entry_event M (hws st') = Nmi_event \<and>
      vmx_vmread M VMCS_GUEST_RIP (hws st') = rip \<and> cx st' = cx st \<and> queued_nmi_count (vc st') = queued_nmi_count (vc st) - 1))"
  unfolding r_def rip_def
  by (rule conjI, rule impI, rule ud_outcome [OF p n], assumption,
      rule conjI, intro allI impI, elim conjE, rule vmcall_outcome [OF p n], assumption+,
      rule conjI, intro allI impI, elim conjE, rule reentry_outcome [OF p n], assumption+,
      rule impI, rule window_outcome [OF p n], assumption)

text \<open>
  After an exit whose time is hidden, the clock of the guest stands, when the stub corrects it, at
  the value it had at the exit plus the time the instruction takes, less the measured overheads of
  entering and leaving the guest: how long the handler ran does not show. The timer that
  ends the correction again is armed.
\<close>

theorem hidden_exit_costs_no_time:
  assumes "handler M st = Inr (True, st')" and "\<not> entry_failed M st" and "supported M VMCS_CTRL_TSC_OFFSET"
  defines "old \<equiv> tsc_data_of (stealth (vc st))"
    and "now \<equiv> tsc_value M (tsc_reads (hws st'))" and "tsc_at_exit \<equiv> msr_data (msr_entries (stealth (vc st)) ! 2)"
  shows "now + vmx_vmread M VMCS_CTRL_TSC_OFFSET (hws (update_tsc_offset M st')) =
      tsc_at_exit + tsc_offset old + instruction_overhead (tsc_data_of (stealth (vc st'))) - vmentry_overhead old - vmexit_to_store_overhead old \<and>
    tsc_offset (tsc_data_of (stealth (vc (update_tsc_offset M st')))) = vmx_vmread M VMCS_CTRL_TSC_OFFSET (hws (update_tsc_offset M st')) \<and>
    preemption_timer_enabled (vc st') \<and> bench_completed (stealth (vc st))"
proof -
  obtain st3 where r: "run_exit M (exit_reason M st) (entered M st) = Inr (True, st3)" and b: "bench_completed (stealth (vc st3))"
    and s: "stealth (vc st') = stealth (vc st3)" "preemption_timer_enabled (vc st')"
    using handler_result [OF assms(1,2)] by auto
  have "timing st' = timing (entered M st)"
    using hidden_timing [OF r] s(1) by (simp add: timing_def)
  note t = timingD [OF this]
  have e: "stealth (vc (entered M st)) = on_vmexit (stealth (vc st))"
    by (simp add: entered_def)
  show ?thesis
    using update_tsc_result [OF assms(3), of st'] t b s
    by (simp add: e on_vmexit_def max_msr_entries_def now_def tsc_at_exit_def old_def numeral_2_eq_2)
qed

text \<open>A core that left the guest at VMLAUNCH, and one at CPUID that has measured its overheads.\<close>

definition exit_core :: "u64 \<Rightarrow> core" where
  "exit_core r = demo_core\<lparr>vc := demo_vcpu\<lparr>stealth := (stealth demo_vcpu)\<lparr>bench_completed := True\<rparr>\<rparr>,
     hws := demo_hw\<lparr>vmcs := (\<lambda>_. 0)(VMCS_EXIT_REASON := r, VMCS_GUEST_RIP := 0x400)\<rparr>\<rparr>"

lemma exit_core_reason:
  "exit_reason sdm_machine (exit_core 20) = 20" "\<not> entry_failed sdm_machine (exit_core 20)"
  "exit_reason sdm_machine (exit_core 10) = 10" "\<not> entry_failed sdm_machine (exit_core 10)"
  by (simp_all add: exit_reason_def entry_failed_def exit_core_def demo_core_def demo_hw_def vmx_vmread_def sdm_machine_def
      sdm_exit_layout_def flag_def get_member_def bit_field_def bit_numeral_rec take_bit_eq_mod)

theorem exit_outcome_witness:
  "\<exists>st'. handler sdm_machine (exit_core 20) = Inr (False, st') \<and>
     vm_entry_event sdm_machine (hws st') = Exception_event 6 None \<and> cx st' = demo_context"
proof -
  have "cx (exit_core 20) = demo_context"
    by (simp add: exit_core_def demo_core_def)
  then show ?thesis
    using exit_outcome [OF sdm_platform_ok exit_core_reason(2)] by (auto simp: exit_core_reason vmx_instruction_exits_def)
qed

theorem hidden_exit_costs_no_time_witness:
  "\<exists>st'. handler sdm_machine (exit_core 10) = Inr (True, st') \<and> preemption_timer_enabled (vc st') \<and>
     tsc_value sdm_machine (tsc_reads (hws st')) + vmx_vmread sdm_machine VMCS_CTRL_TSC_OFFSET (hws (update_tsc_offset sdm_machine st')) =
       instruction_overhead (tsc_data_of (stealth (vc st')))"
proof -
  let ?st = "exit_core 10" and ?M = sdm_machine
  obtain st3 where c: "handle_cpuid ?M (entered ?M ?st) = Inr st3"
    using platform_supported(1) [OF sdm_platform_ok]
    by (auto simp: handle_cpuid_def Let_def read_tsc_def advance_result)
  then have r: "run_exit ?M (exit_reason ?M ?st) (entered ?M ?st) = Inr (True, st3)"
    by (simp add: run_exit_def exit_core_reason Let_def)
  have "timing st3 = timing (entered ?M ?st)"
    by (rule hidden_timing [OF r])
  then have "bench_completed (stealth (vc st3))"
    using timingD(5) [of st3 "entered ?M ?st"] by (simp add: entered_def exit_core_def on_vmexit_def)
  then have "\<exists>st'. handler ?M ?st = Inr (True, st')"
    using r exit_core_reason(4) by (simp add: handler_def entry_failed_def entered_def exit_reason_def Let_def tsc_hiding_enabled_def)
  then obtain st' where "handler ?M ?st = Inr (True, st')" by blast
  from this hidden_exit_costs_no_time [OF this exit_core_reason(4)] show ?thesis
    by (intro exI [of _ st']) (simp add: sdm_machine_def exit_core_def demo_vcpu_def)
qed

end
