(* ===== verification/Host_Tables.thy ===== *)
theory Host_Tables
  imports Exception
begin

text \<open>
  The descriptor tables of the host (\<open>revhv-km/gdt.cpp\<close>, \<open>idt.cpp\<close>) and reading the segments of the
  system (\<open>segment::base_address\<close> and \<open>access_rights\<close> of \<open>utils.inl\<close>). The positions of the members
  of descriptors, gates and selectors are declared in the ia32 headers and are an argument, like the
  other layouts; a 16-byte system descriptor has the members of an 8-byte one in its first half.
\<close>

section \<open>Layouts\<close>

record seg_layout =
  ss_index :: "nat \<times> nat"
  sd_limit_low :: "nat \<times> nat"
  sd_base_low :: "nat \<times> nat"
  sd_base_middle :: "nat \<times> nat"
  sd_type :: "nat \<times> nat"
  sd_descriptor_type :: "nat \<times> nat"
  sd_dpl :: "nat \<times> nat"
  sd_present :: "nat \<times> nat"
  sd_limit_high :: "nat \<times> nat"
  sd_system :: "nat \<times> nat"
  sd_long_mode :: "nat \<times> nat"
  sd_default_big :: "nat \<times> nat"
  sd_granularity :: "nat \<times> nat"
  sd_base_high :: "nat \<times> nat"
  sd_base_upper :: "nat \<times> nat"
  ar_type :: "nat \<times> nat"
  ar_descriptor_type :: "nat \<times> nat"
  ar_privilege_level :: "nat \<times> nat"
  ar_present :: "nat \<times> nat"
  ar_available_bit :: "nat \<times> nat"
  ar_long :: "nat \<times> nat"
  ar_default_big :: "nat \<times> nat"
  ar_granularity :: "nat \<times> nat"
  ar_unusable :: "nat \<times> nat"

text \<open>An interrupt gate is two quadwords; the last member is in the second one.\<close>

record gate_layout =
  ig_offset_low :: "nat \<times> nat"
  ig_selector :: "nat \<times> nat"
  ig_ist :: "nat \<times> nat"
  ig_type :: "nat \<times> nat"
  ig_dpl :: "nat \<times> nat"
  ig_present :: "nat \<times> nat"
  ig_offset_middle :: "nat \<times> nat"
  ig_offset_high :: "nat \<times> nat"

abbreviation (input) SEGMENT_DESCRIPTOR_TYPE_SYSTEM :: u64 where "SEGMENT_DESCRIPTOR_TYPE_SYSTEM \<equiv> 0"
abbreviation (input) SEGMENT_DESCRIPTOR_TYPE_CODE_OR_DATA :: u64 where "SEGMENT_DESCRIPTOR_TYPE_CODE_OR_DATA \<equiv> 1"
abbreviation (input) SEGMENT_DESCRIPTOR_TYPE_DATA_READ_WRITE :: u64 where "SEGMENT_DESCRIPTOR_TYPE_DATA_READ_WRITE \<equiv> 2"
abbreviation (input) SEGMENT_DESCRIPTOR_TYPE_TSS_AVAILABLE :: u64 where "SEGMENT_DESCRIPTOR_TYPE_TSS_AVAILABLE \<equiv> 9"
abbreviation (input) SEGMENT_DESCRIPTOR_TYPE_CODE_EXECUTE_READ_ACCESSED :: u64 where "SEGMENT_DESCRIPTOR_TYPE_CODE_EXECUTE_READ_ACCESSED \<equiv> 11"
abbreviation (input) SEGMENT_DESCRIPTOR_TYPE_INTERRUPT_GATE :: u64 where "SEGMENT_DESCRIPTOR_TYPE_INTERRUPT_GATE \<equiv> 14"
abbreviation (input) SEGMENT_DESCRIPTOR_TYPE_TRAP_GATE :: u64 where "SEGMENT_DESCRIPTOR_TYPE_TRAP_GATE \<equiv> 15"

section \<open>Segments of the system\<close>

definition selector_index :: "seg_layout \<Rightarrow> u16 \<Rightarrow> u64" where
  "selector_index L sel = get_member (ss_index L) (ucast sel)"

text \<open>The quadword of memory at an address is \<open>gm\<close>.\<close>

definition base_address :: "seg_layout \<Rightarrow> (u64 \<Rightarrow> u64) \<Rightarrow> u64 \<Rightarrow> u16 \<Rightarrow> u64" where
  "base_address L gm gdt_base sel =
     (if selector_index L sel = 0 then 0
      else let a = gdt_base + selector_index L sel * 8; d = gm a in
        if get_member (sd_descriptor_type L) d = SEGMENT_DESCRIPTOR_TYPE_SYSTEM
        then push_bit 32 (get_member (sd_base_upper L) (gm (a + 8))) OR push_bit 24 (get_member (sd_base_high L) d)
               OR push_bit 16 (get_member (sd_base_middle L) d) OR get_member (sd_base_low L) d
        else push_bit 24 (get_member (sd_base_high L) d) OR push_bit 16 (get_member (sd_base_middle L) d)
               OR get_member (sd_base_low L) d)"

definition access_rights :: "seg_layout \<Rightarrow> (u64 \<Rightarrow> u64) \<Rightarrow> u64 \<Rightarrow> u16 \<Rightarrow> u64" where
  "access_rights L gm gdt_base sel =
     (let d = gm (gdt_base + selector_index L sel * 8) in
      put_member (ar_unusable L) (if selector_index L sel = 0 then 1 else 0)
       (put_member (ar_granularity L) (get_member (sd_granularity L) d)
        (put_member (ar_default_big L) (get_member (sd_default_big L) d)
         (put_member (ar_long L) (get_member (sd_long_mode L) d)
          (put_member (ar_available_bit L) (get_member (sd_system L) d)
           (put_member (ar_present L) (get_member (sd_present L) d)
            (put_member (ar_privilege_level L) (get_member (sd_dpl L) d)
             (put_member (ar_descriptor_type L) (get_member (sd_descriptor_type L) d)
              (put_member (ar_type L) (get_member (sd_type L) d) 0)))))))))"

section \<open>GDT and TSS of the host\<close>

definition host_descriptor_count :: nat where "host_descriptor_count = 5"

text \<open>Selectors \<open>{0, 0, i}\<close> with indices 1, 2 and 3; the task descriptor takes two slots.\<close>

definition host_selector :: "seg_layout \<Rightarrow> u64 \<Rightarrow> u16" where
  "host_selector L i = ucast (put_member (ss_index L) i 0)"

definition host_cs :: "seg_layout \<Rightarrow> u16" where "host_cs L = host_selector L 1"
definition host_ss :: "seg_layout \<Rightarrow> u16" where "host_ss L = host_selector L 2"
definition host_tr :: "seg_layout \<Rightarrow> u16" where "host_tr L = host_selector L 3"

record task_state_segment =
  tss_ist1 :: u64
  tss_ist2 :: u64
  tss_ist3 :: u64
  tss_io_map_base :: u16

definition sizeof_tss :: u16 where "sizeof_tss = 0x68"

definition initialize_tss :: "u64 \<Rightarrow> u64 \<Rightarrow> u64 \<Rightarrow> u64 \<Rightarrow> task_state_segment" where
  "initialize_tss ist1 ist2 ist3 ist_size =
     \<lparr>tss_ist1 = ist1 + ist_size, tss_ist2 = ist2 + ist_size, tss_ist3 = ist3 + ist_size, tss_io_map_base = 0xFFFF\<rparr>"

definition host_cs_descriptor :: "seg_layout \<Rightarrow> u64" where
  "host_cs_descriptor L =
     put_member (sd_type L) SEGMENT_DESCRIPTOR_TYPE_CODE_EXECUTE_READ_ACCESSED
      (put_member (sd_descriptor_type L) SEGMENT_DESCRIPTOR_TYPE_CODE_OR_DATA
       (put_member (sd_present L) 1 (put_member (sd_long_mode L) 1 0)))"

definition host_ss_descriptor :: "seg_layout \<Rightarrow> u64" where
  "host_ss_descriptor L =
     put_member (sd_type L) SEGMENT_DESCRIPTOR_TYPE_DATA_READ_WRITE
      (put_member (sd_descriptor_type L) SEGMENT_DESCRIPTOR_TYPE_CODE_OR_DATA (put_member (sd_present L) 1 0))"

definition host_tr_descriptor :: "seg_layout \<Rightarrow> u64 \<Rightarrow> u64 \<times> u64" where
  "host_tr_descriptor L tss_base =
     (let tss_limit = sizeof_tss - 1 in
      (put_member (sd_limit_high L) (ucast (drop_bit 16 tss_limit AND 0xF))
        (put_member (sd_limit_low L) (ucast (tss_limit AND 0xFFFF))
         (put_member (sd_base_high L) (drop_bit 24 tss_base AND 0xFF)
          (put_member (sd_base_middle L) (drop_bit 16 tss_base AND 0xFF)
           (put_member (sd_base_low L) (tss_base AND 0xFFFF)
            (put_member (sd_type L) SEGMENT_DESCRIPTOR_TYPE_TSS_AVAILABLE
             (put_member (sd_descriptor_type L) SEGMENT_DESCRIPTOR_TYPE_SYSTEM
              (put_member (sd_present L) 1 0))))))),
       put_member (sd_base_upper L) (drop_bit 32 tss_base) 0))"

definition initialize_gdt :: "seg_layout \<Rightarrow> u64 \<Rightarrow> u64 list" where
  "initialize_gdt L tss =
     (replicate host_descriptor_count 0)
       [1 := host_cs_descriptor L, 2 := host_ss_descriptor L,
        3 := fst (host_tr_descriptor L tss), 4 := snd (host_tr_descriptor L tss)]"

section \<open>IDT of the host\<close>

definition idt_gate_count :: nat where "idt_gate_count = 256"
definition ist_index_nmi :: u64 where "ist_index_nmi = 1"
definition ist_index_df :: u64 where "ist_index_df = 2"
definition ist_index_mc :: u64 where "ist_index_mc = 3"
definition ist_size :: u64 where "ist_size = 0x4000"

definition define_gate :: "gate_layout \<Rightarrow> seg_layout \<Rightarrow> nat \<Rightarrow> u64 \<Rightarrow> u64 \<Rightarrow> bool \<Rightarrow> (u64 \<times> u64) list \<Rightarrow> (u64 \<times> u64) list" where
  "define_gate G L interrupt_number handler ist_index trap_gate idt =
     (let (lo, hi) = idt ! interrupt_number
      in idt[interrupt_number :=
          (put_member (ig_dpl G) 0
            (put_member (ig_selector G) (ucast (host_cs L))
             (put_member (ig_present G) 1
              (put_member (ig_type G) (if trap_gate then SEGMENT_DESCRIPTOR_TYPE_TRAP_GATE else SEGMENT_DESCRIPTOR_TYPE_INTERRUPT_GATE)
               (put_member (ig_ist G) ist_index
                (put_member (ig_offset_middle G) (drop_bit 16 handler AND 0xFFFF)
                 (put_member (ig_offset_low G) (handler AND 0xFFFF) lo)))))),
           put_member (ig_offset_high G) (drop_bit 32 handler) hi)])"

text \<open>Vector, interrupt stack and kind of every gate, in the order they are defined.\<close>

definition host_gates :: "(nat \<times> u64 \<times> bool) list" where
  "host_gates = [(0, 0, False), (1, 0, True), (2, ist_index_nmi, False), (3, 0, True), (4, 0, False), (5, 0, False),
     (6, 0, False), (7, 0, False), (8, ist_index_df, False), (10, 0, False), (11, 0, False), (12, 0, False),
     (13, 0, False), (14, 0, False), (16, 0, False), (17, 0, False), (18, ist_index_mc, False), (19, 0, False),
     (20, 0, False), (21, 0, False)]"

definition initialize_idt :: "gate_layout \<Rightarrow> seg_layout \<Rightarrow> (nat \<Rightarrow> u64) \<Rightarrow> (u64 \<times> u64) list" where
  "initialize_idt G L isr =
     fold (\<lambda>(n, ist_index, trap_gate). define_gate G L n (isr n) ist_index trap_gate) host_gates
       (replicate idt_gate_count (0, 0))"

section \<open>Well-formed layouts\<close>

definition apart :: "nat \<times> nat \<Rightarrow> nat \<times> nat \<Rightarrow> bool" where
  "apart s t \<longleftrightarrow> fst s + snd s \<le> fst t \<or> fst t + snd t \<le> fst s"

fun members_ok :: "(nat \<times> nat) list \<Rightarrow> bool" where
  "members_ok [] = True"
| "members_ok (s # ss) = (fst s + snd s \<le> 64 \<and> list_all (apart s) ss \<and> members_ok ss)"

lemma get_put_apart: "apart s t \<Longrightarrow> get_member s (put_member t v w) = get_member s w"
  by (simp add: apart_def)

lemma apart_sym: "apart s t = apart t s"
  by (auto simp: apart_def)

text \<open>The facts a well-formed layout gives about every pair of its members.\<close>

definition desc_layout_ok :: "seg_layout \<Rightarrow> bool" where
  "desc_layout_ok L \<longleftrightarrow>
     members_ok [sd_limit_low L, sd_base_low L, sd_base_middle L, sd_type L, sd_descriptor_type L, sd_dpl L, sd_present L,
       sd_limit_high L, sd_system L, sd_long_mode L, sd_default_big L, sd_granularity L, sd_base_high L] \<and>
     snd (sd_limit_low L) = 16 \<and> snd (sd_base_low L) = 16 \<and> snd (sd_base_middle L) = 8 \<and> snd (sd_base_high L) = 8 \<and>
     snd (sd_limit_high L) = 4 \<and> snd (sd_type L) = 4 \<and> snd (sd_descriptor_type L) = 1 \<and> snd (sd_present L) = 1 \<and>
     snd (sd_long_mode L) = 1 \<and> snd (sd_dpl L) = 2 \<and>
     snd (sd_base_upper L) = 32 \<and> fst (sd_base_upper L) \<le> 32 \<and>
     snd (ss_index L) = 13 \<and> fst (ss_index L) \<le> 3"

definition gate_layout_ok :: "gate_layout \<Rightarrow> bool" where
  "gate_layout_ok G \<longleftrightarrow>
     members_ok [ig_offset_low G, ig_selector G, ig_ist G, ig_type G, ig_dpl G, ig_present G, ig_offset_middle G] \<and>
     snd (ig_offset_low G) = 16 \<and> snd (ig_selector G) = 16 \<and> snd (ig_ist G) = 3 \<and> snd (ig_type G) = 4 \<and>
     snd (ig_present G) = 1 \<and> snd (ig_dpl G) = 2 \<and> snd (ig_offset_middle G) = 16 \<and>
     snd (ig_offset_high G) = 32 \<and> fst (ig_offset_high G) \<le> 32"

lemma get_member_0 [simp]: "get_member s 0 = 0"
  by (simp add: get_member_def bit_field_def)

lemma get_put_same: "fst s + snd s \<le> 64 \<Longrightarrow> get_member s (put_member s v w) = take_bit (snd s) v"
  by (rule get_put_member)

text \<open>An address put together from its pieces.\<close>

lemma three_pieces:
  "push_bit 24 (drop_bit 24 a AND 0xFF) OR push_bit 16 (drop_bit 16 a AND 0xFF) OR (a AND 0xFFFF) = take_bit 32 a"
  for a :: u64
proof -
  have m: "(0xFF :: u64) = mask 8" "(0xFFFF :: u64) = mask 16"
    by (simp_all add: mask_eq_exp_minus_1)
  show ?thesis
    unfolding m by (rule bit_eqI, rename_tac n, case_tac "24 \<le> n") (auto simp: bit_simps not_less)
qed

lemma four_pieces:
  "push_bit 32 (drop_bit 32 a) OR push_bit 24 (drop_bit 24 a AND 0xFF) OR push_bit 16 (drop_bit 16 a AND 0xFF)
     OR (a AND 0xFFFF) = a" for a :: u64
proof -
  have "push_bit 32 (drop_bit 32 a) OR take_bit 32 a = a"
    by (rule bit_eqI) (auto simp: bit_simps not_less)
  then show ?thesis
    by (simp only: or.assoc three_pieces [unfolded or.assoc])
qed

lemma gate_pieces:
  "push_bit 32 (drop_bit 32 a) OR push_bit 16 (drop_bit 16 a AND 0xFFFF) OR (a AND 0xFFFF) = a" for a :: u64
proof -
  have m: "(0xFFFF :: u64) = mask 16"
    by (simp add: mask_eq_exp_minus_1)
  show ?thesis
    unfolding m by (rule bit_eqI, rename_tac n, case_tac "32 \<le> n") (auto simp: bit_simps not_less)
qed

lemma take_bit_and_mask: "take_bit n (a AND mask n) = a AND mask n" for a :: u64
  by (rule bit_eqI) (auto simp: bit_simps)

lemma take_bit_pieces [simp]:
  "take_bit 8 a AND 0xFF = a AND 0xFF" "take_bit 16 a AND 0xFFFF = a AND 0xFFFF" for a :: u64
  using take_bit_and_mask [of 8 a] take_bit_and_mask [of 16 a] by (simp_all add: mask_eq_exp_minus_1)

lemma take_bit_upper [simp]: "take_bit 32 (drop_bit 32 a) = drop_bit 32 a" for a :: u64
  by (rule bit_eqI) (use bit_imp_le_length [of a] in \<open>force simp: bit_simps\<close>)

section \<open>The host's own descriptors\<close>

lemmas put_members = get_put_same get_put_apart apart_sym

lemma tr_descriptor_members:
  fixes tss
  assumes "desc_layout_ok L"
  defines "d \<equiv> fst (host_tr_descriptor L tss)"
  shows "get_member (sd_base_low L) d = tss AND 0xFFFF"
    and "get_member (sd_base_middle L) d = drop_bit 16 tss AND 0xFF"
    and "get_member (sd_base_high L) d = drop_bit 24 tss AND 0xFF"
    and "get_member (sd_descriptor_type L) d = SEGMENT_DESCRIPTOR_TYPE_SYSTEM"
    and "get_member (sd_type L) d = SEGMENT_DESCRIPTOR_TYPE_TSS_AVAILABLE"
    and "get_member (sd_present L) d = 1"
    and "get_member (sd_limit_low L) d = 103" and "get_member (sd_limit_high L) d = 0"
    and "get_member (sd_granularity L) d = 0"
    and "get_member (sd_base_upper L) (snd (host_tr_descriptor L tss)) = drop_bit 32 tss"
  using assms(1)
  by (simp_all add: d_def desc_layout_ok_def host_tr_descriptor_def put_members sizeof_tss_def)

lemma cs_descriptor_members:
  assumes "desc_layout_ok L"
  shows "get_member (sd_type L) (host_cs_descriptor L) = SEGMENT_DESCRIPTOR_TYPE_CODE_EXECUTE_READ_ACCESSED"
    and "get_member (sd_descriptor_type L) (host_cs_descriptor L) = SEGMENT_DESCRIPTOR_TYPE_CODE_OR_DATA"
    and "get_member (sd_present L) (host_cs_descriptor L) = 1"
    and "get_member (sd_long_mode L) (host_cs_descriptor L) = 1"
    and "get_member (sd_default_big L) (host_cs_descriptor L) = 0"
    and "get_member (sd_dpl L) (host_cs_descriptor L) = 0"
  using assms
  by (simp_all add: desc_layout_ok_def host_cs_descriptor_def put_members)

section \<open>Gates\<close>

definition gate_value :: "gate_layout \<Rightarrow> seg_layout \<Rightarrow> u64 \<Rightarrow> u64 \<Rightarrow> bool \<Rightarrow> u64 \<times> u64 \<Rightarrow> u64 \<times> u64" where
  "gate_value G L handler ist_index trap_gate g = define_gate G L 0 handler ist_index trap_gate [g] ! 0"

lemma define_gate_nth:
  "n < length idt \<Longrightarrow> define_gate G L n h i t idt = idt[n := gate_value G L h i t (idt ! n)]"
  by (simp add: define_gate_def gate_value_def split: prod.split)

lemma fold_gates:
  assumes "distinct (map fst gs)" and "\<forall>g \<in> set gs. fst g < length idt" and "k < length idt"
  shows "fold (\<lambda>(n, i, t). define_gate G L n (isr n) i t) gs idt ! k =
     (case map_of gs k of Some (i, t) \<Rightarrow> gate_value G L (isr k) i t (idt ! k) | None \<Rightarrow> idt ! k)"
  using assms
proof (induction gs arbitrary: idt)
  case (Cons g gs)
  obtain n i t where g: "g = (n, i, t)" by (cases g)
  have n: "n < length idt" "map_of gs n = None"
    using Cons.prems(1,2) by (simp_all add: g map_of_eq_None_iff)
  let ?e = "define_gate G L n (isr n) i t idt"
  have e: "?e = idt[n := gate_value G L (isr n) i t (idt ! n)]"
    by (rule define_gate_nth [OF n(1)])
  have "fold (\<lambda>(n, i, t). define_gate G L n (isr n) i t) gs ?e ! k =
     (case map_of gs k of Some (i, t) \<Rightarrow> gate_value G L (isr k) i t (?e ! k) | None \<Rightarrow> ?e ! k)"
    using Cons.prems by (intro Cons.IH) (simp_all add: e)
  moreover have "?e ! k = (if k = n then gate_value G L (isr n) i t (idt ! n) else idt ! k)"
    using n(1) by (simp add: e nth_list_update)
  ultimately show ?case
    using n(2) by (cases "k = n"; cases "map_of gs k") (simp_all add: g)
qed simp

lemma host_gates_ok:
  "distinct (map fst host_gates)" "\<forall>g \<in> set host_gates. fst g < length (replicate idt_gate_count (0 :: u64, 0 :: u64))"
  by (simp_all add: host_gates_def idt_gate_count_def)

lemma host_gates_lookup:
  assumes "n < 256"
  shows "map_of host_gates n =
     (if of_nat n \<in> generic_vectors \<union> {2, 6, 8, 13, 18}
      then Some (if n = 2 then 1 else if n = 8 then 2 else if n = 18 then 3 else 0, n \<in> {1, 3}) else None)"
proof (cases "n < 22")
  case True
  then have "n \<in> {0, 1, 2, 3, 4, 5, 6, 7, 8, 9, 10} \<or> n \<in> {11, 12, 13, 14, 15, 16, 17, 18, 19, 20, 21}"
    by (auto simp: numeral_eq_Suc less_Suc_eq)
  then show ?thesis
    by (elim disjE insertE emptyE)
      (simp_all add: host_gates_def generic_vectors_def ist_index_nmi_def ist_index_df_def ist_index_mc_def)
next
  case False
  have v: "of_nat n \<noteq> m" if "m < 22" for m :: u64
    using assms False that unat_of_nat_64 [of n] by (auto simp: word_less_nat_alt)
  have "of_nat n \<notin> generic_vectors \<union> {2, 6, 8, 13, 18}"
    unfolding generic_vectors_def by (simp add: v)
  moreover have "map_of host_gates n = None"
    using False by (simp add: host_gates_def)
  ultimately show ?thesis by simp
qed

lemma take_bit_selector: "take_bit 16 (ucast x :: u64) = ucast x" for x :: u16
  by (rule bit_eqI) (use bit_imp_le_length [of x] in \<open>auto simp: bit_simps\<close>)

text \<open>What the processor reads in a gate.\<close>

definition gate_handler :: "gate_layout \<Rightarrow> u64 \<times> u64 \<Rightarrow> u64" where
  "gate_handler G g = push_bit 32 (get_member (ig_offset_high G) (snd g)) OR
     push_bit 16 (get_member (ig_offset_middle G) (fst g)) OR get_member (ig_offset_low G) (fst g)"

lemma gate_value_members:
  fixes L h i t
  assumes "gate_layout_ok G"
  defines "g \<equiv> gate_value G L h i t (0, 0)"
  shows "gate_handler G g = h"
    and "get_member (ig_present G) (fst g) = 1" and "get_member (ig_dpl G) (fst g) = 0"
    and "get_member (ig_type G) (fst g) = (if t then SEGMENT_DESCRIPTOR_TYPE_TRAP_GATE else SEGMENT_DESCRIPTOR_TYPE_INTERRUPT_GATE)"
    and "get_member (ig_ist G) (fst g) = take_bit 3 i"
    and "get_member (ig_selector G) (fst g) = ucast (host_cs L)"
  using assms(1) gate_pieces [of h] take_bit_selector [of "host_cs L"]
  by (simp_all add: g_def gate_layout_ok_def gate_value_def define_gate_def gate_handler_def put_members)

section \<open>Properties\<close>

lemma host_selector_index:
  assumes "desc_layout_ok L" and "i < 8192"
  shows "selector_index L (host_selector L i) = i"
proof -
  have i: "take_bit 13 i = i"
    using assms(2) by (simp add: word_unat_eq_iff unsigned_take_bit_eq take_bit_nat_eq_self word_less_nat_alt)
  have m: "ucast (ucast (put_member (ss_index L) i 0) :: u16) = put_member (ss_index L) i 0"
  proof (rule bit_eqI)
    fix k
    have "bit i n \<Longrightarrow> n < 13" for n
    proof (rule ccontr)
      assume "bit i n" "\<not> n < 13"
      then show False using i by (metis bit_take_bit_iff)
    qed
    then show "bit (ucast (ucast (put_member (ss_index L) i 0) :: u16) :: u64) k = bit (put_member (ss_index L) i 0) k"
      using assms(1) by (auto simp: bit_ucast_iff bit_put_member desc_layout_ok_def)
  qed
  show ?thesis
    using assms(1) i unfolding selector_index_def host_selector_def m by (simp add: desc_layout_ok_def)
qed

lemma host_gdt:
  assumes "desc_layout_ok L" and "\<forall>i < 5. gm (base + of_nat i * 8) = initialize_gdt L tss ! i"
  shows "base_address L gm base (host_tr L) = tss \<and>
    (let d = gm (base + selector_index L (host_tr L) * 8) in
       get_member (sd_present L) d = 1 \<and> get_member (sd_type L) d = SEGMENT_DESCRIPTOR_TYPE_TSS_AVAILABLE \<and>
       push_bit 16 (get_member (sd_limit_high L) d) OR get_member (sd_limit_low L) d = 103) \<and>
    (let d = gm (base + selector_index L (host_cs L) * 8) in
       get_member (sd_present L) d = 1 \<and> get_member (sd_long_mode L) d = 1 \<and> get_member (sd_default_big L) d = 0 \<and>
       get_member (sd_dpl L) d = 0 \<and> get_member (sd_descriptor_type L) d = SEGMENT_DESCRIPTOR_TYPE_CODE_OR_DATA)"
proof -
  have i: "selector_index L (host_tr L) = 3" "selector_index L (host_cs L) = 1"
    using host_selector_index [OF assms(1)] by (simp_all add: host_tr_def host_cs_def)
  have g: "gm (base + 24) = fst (host_tr_descriptor L tss)" "gm (base + 32) = snd (host_tr_descriptor L tss)"
    "gm (base + 8) = host_cs_descriptor L"
    using assms(2) [rule_format, of 3] assms(2) [rule_format, of 4] assms(2) [rule_format, of 1]
    by (simp_all add: initialize_gdt_def host_descriptor_count_def)
  show ?thesis
    using tr_descriptor_members [OF assms(1), of tss] cs_descriptor_members [OF assms(1)] four_pieces [of tss]
    by (simp add: base_address_def i g Let_def add.assoc)
qed


text \<open>The layouts of the processor manual.\<close>

definition sdm_seg_layout :: seg_layout where
  "sdm_seg_layout = \<lparr>ss_index = (3, 13), sd_limit_low = (0, 16), sd_base_low = (16, 16), sd_base_middle = (32, 8),
     sd_type = (40, 4), sd_descriptor_type = (44, 1), sd_dpl = (45, 2), sd_present = (47, 1), sd_limit_high = (48, 4),
     sd_system = (52, 1), sd_long_mode = (53, 1), sd_default_big = (54, 1), sd_granularity = (55, 1), sd_base_high = (56, 8),
     sd_base_upper = (0, 32), ar_type = (0, 4), ar_descriptor_type = (4, 1), ar_privilege_level = (5, 2), ar_present = (7, 1),
     ar_available_bit = (12, 1), ar_long = (13, 1), ar_default_big = (14, 1), ar_granularity = (15, 1), ar_unusable = (16, 1)\<rparr>"

definition sdm_gate_layout :: gate_layout where
  "sdm_gate_layout = \<lparr>ig_offset_low = (0, 16), ig_selector = (16, 16), ig_ist = (32, 3), ig_type = (40, 4), ig_dpl = (45, 2),
     ig_present = (47, 1), ig_offset_middle = (48, 16), ig_offset_high = (0, 32)\<rparr>"

lemma sdm_layouts_ok [simp]: "desc_layout_ok sdm_seg_layout" "gate_layout_ok sdm_gate_layout"
  by (simp_all add: desc_layout_ok_def gate_layout_ok_def sdm_seg_layout_def sdm_gate_layout_def apart_def)


text \<open>
  The interrupt descriptor table covers exactly the exceptions the host handles. A gate is
  present for a vector if and only if the exception handler treats that vector; it leads to the
  service routine of its own vector, in ring 0 through the host's code segment; NMI, double fault and
  machine check switch to interrupt stacks of their own, and only debug and breakpoint are trap
  gates. Every other gate is zero. Hypotheses: the members of a gate do not overlap and have their
  documented widths.
\<close>

theorem host_idt_complete:
  assumes "gate_layout_ok G" and "n < 256"
  shows "let g = initialize_idt G L isr ! n in
    if of_nat n \<in> generic_vectors \<union> {2, 6, 8, 13, 18}
    then get_member (ig_present G) (fst g) = 1 \<and> gate_handler G g = isr n \<and>
      get_member (ig_selector G) (fst g) = ucast (host_cs L) \<and> get_member (ig_dpl G) (fst g) = 0 \<and>
      get_member (ig_ist G) (fst g) = (if n = 2 then 1 else if n = 8 then 2 else if n = 18 then 3 else 0) \<and>
      get_member (ig_type G) (fst g) =
        (if n \<in> {1, 3} then SEGMENT_DESCRIPTOR_TYPE_TRAP_GATE else SEGMENT_DESCRIPTOR_TYPE_INTERRUPT_GATE)
    else g = (0, 0)"
proof -
  let ?g = "initialize_idt G L isr ! n"
    and ?i = "if n = 2 then 1 else if n = 8 then 2 else if n = 18 then 3 else 0 :: u64"
  have z: "replicate idt_gate_count (0 :: u64, 0 :: u64) ! n = (0, 0)"
    using assms(2) by (simp add: idt_gate_count_def)
  have "?g = (if of_nat n \<in> generic_vectors \<union> {2, 6, 8, 13, 18}
      then gate_value G L (isr n) ?i (n \<in> {1, 3}) (0, 0) else (0, 0))"
    using fold_gates [OF host_gates_ok, of n G L isr] assms(2)
    unfolding host_gates_lookup [OF assms(2)] z initialize_idt_def
    by (simp only: idt_gate_count_def length_replicate if_True option.case prod.case split: if_split) simp
  moreover have "take_bit 3 ?i = ?i"
    by simp
  ultimately show ?thesis
    using gate_value_members [OF assms(1), of L "isr n" ?i "n \<in> {1, 3}"] by (simp add: Let_def split del: if_split) (simp split: if_split)
qed

theorem host_idt_complete_witness:
  "gate_handler sdm_gate_layout (initialize_idt sdm_gate_layout sdm_seg_layout (\<lambda>k. 0xFFFF800012340000 + of_nat k * 16) ! 8)
     = 0xFFFF800012340080 \<and>
   initialize_idt sdm_gate_layout sdm_seg_layout (\<lambda>k. 0xFFFF800012340000 + of_nat k * 16) ! 9 = (0, 0)"
  using host_idt_complete [OF sdm_layouts_ok(2), of 8 sdm_seg_layout "\<lambda>k. 0xFFFF800012340000 + of_nat k * 16"]
    host_idt_complete [OF sdm_layouts_ok(2), of 9 sdm_seg_layout "\<lambda>k. 0xFFFF800012340000 + of_nat k * 16"]
  by (simp add: Let_def generic_vectors_def)

end
