(* ===== verification/Vmcs.thy ===== *)
theory Vmcs
  imports Vmexit Host_Tables
begin

text \<open>
  Filling the VMCS of a core (\<open>revhv-km/vmcs.cpp\<close>): control fields, the state of the guest, which is
  the state of the running system, and the state of the host. A sequence of \<open>vmx_vmwrite\<close> calls, each
  followed by an early return on failure, is a list of fields and values. \<open>platform\<close> holds what
  the kernel, the linker and the rest of the ia32 headers answer: physical addresses, segment limits,
  memory, the addresses of the objects a virtual processor consists of and of the assembly entry points.
\<close>

section \<open>The platform\<close>

record platform =
  phys_of :: "u64 \<Rightarrow> u64"
  seg_limit :: "u16 \<Rightarrow> u64"
  kernel_mem :: "u64 \<Rightarrow> u64"
  sgl :: seg_layout
  gtl :: gate_layout
  cr3_pfn :: "nat \<times> nat"
  efer_bits :: "nat \<times> nat \<times> nat \<times> nat"
  pat_member :: "nat \<Rightarrow> nat \<times> nat"
  mtrr_variable_count :: nat
  a_vcpu :: u64
  a_host_stack :: u64
  a_host_tss :: u64
  a_host_gdt :: u64
  a_host_idt :: u64
  a_host_ist1_nmi :: u64
  a_host_ist2_df :: u64
  a_host_ist3_mc :: u64
  a_vmxon_region :: u64
  a_vmcs_region :: u64
  a_msr_bitmap :: u64
  a_msr_entries :: u64
  a_pml4_normal :: u64
  a_pml4_target :: u64
  a_host_pml4 :: u64
  a_vmexit_stub :: u64
  a_isr :: "nat \<Rightarrow> u64"

definition host_stack_size :: u64 where "host_stack_size = 0x8000"

abbreviation (input) page_fault :: u64 where "page_fault \<equiv> 14"
abbreviation (input) CR4_VMX_ENABLE_FLAG :: u64 where "CR4_VMX_ENABLE_FLAG \<equiv> 0x2000"
abbreviation (input) MEMORY_TYPE_UNCACHEABLE :: u64 where "MEMORY_TYPE_UNCACHEABLE \<equiv> 0"
abbreviation (input) MEMORY_TYPE_WRITE_THROUGH :: u64 where "MEMORY_TYPE_WRITE_THROUGH \<equiv> 4"
abbreviation (input) MEMORY_TYPE_WRITE_BACK :: u64 where "MEMORY_TYPE_WRITE_BACK \<equiv> 6"
abbreviation (input) MEMORY_TYPE_UNCACHEABLE_MINUS :: u64 where "MEMORY_TYPE_UNCACHEABLE_MINUS \<equiv> 7"

section \<open>Sequences of writes\<close>

fun write_fields :: "machine \<Rightarrow> (nat \<times> u64) list \<Rightarrow> hw \<Rightarrow> bool \<times> hw" where
  "write_fields M [] h = (True, h)"
| "write_fields M ((f, v) # ws) h =
     (case vmx_vmwrite M f v h of (ok, h') \<Rightarrow> if ok then write_fields M ws h' else (False, h'))"

definition if_ok :: "bool \<times> hw \<Rightarrow> (hw \<Rightarrow> bool \<times> hw) \<Rightarrow> bool \<times> hw" where
  "if_ok r k = (if fst r then k (snd r) else (False, snd r))"

text \<open>A control field with the named members set, in this order.\<close>

definition ctls :: "('c \<Rightarrow> nat) \<Rightarrow> ('c \<times> bool) list \<Rightarrow> u64" where
  "ctls pos cs = fold (\<lambda>(c, b). put_flag (pos c) b) cs 0"

section \<open>Control fields\<close>

definition write_pin_based_vm_execution_controls :: "machine \<Rightarrow> hw \<Rightarrow> bool \<times> hw" where
  "write_pin_based_vm_execution_controls M =
     write_control_field M
       (ctls (pin_bit (ctl M))
         ([(external_interrupt_exiting, False), (nmi_exiting, True), (virtual_nmi, True)] @
          (if tsc_hiding_enabled then [(activate_vmx_preemption_timer, True)] else []) @
          [(process_posted_interrupts, False)]))
       VMCS_CTRL_PIN_BASED_VM_EXECUTION_CONTROLS IA32_VMX_PINBASED_CTLS IA32_VMX_TRUE_PINBASED_CTLS"

definition write_processor_based_vm_execution_controls :: "machine \<Rightarrow> hw \<Rightarrow> bool \<times> hw" where
  "write_processor_based_vm_execution_controls M h =
     if_ok (write_control_field M
         (ctls (proc_bit (ctl M))
           ((if tsc_hiding_enabled then [(use_tsc_offsetting, True)] else []) @
            [(use_msr_bitmaps, True), (activate_secondary_controls, True)]))
         VMCS_CTRL_PROCESSOR_BASED_VM_EXECUTION_CONTROLS IA32_VMX_PROCBASED_CTLS IA32_VMX_TRUE_PROCBASED_CTLS h)
       (write_control_field M
         (ctls (proc2_bit (ctl M))
           [(enable_rdtscp, True), (enable_vpid, True), (enable_invpcid, True), (conceal_vmx_from_pt, True),
            (enable_xsaves, True), (enable_user_wait_pause, True), (enable_ept, True)])
         VMCS_CTRL_SECONDARY_PROCESSOR_BASED_VM_EXECUTION_CONTROLS IA32_VMX_PROCBASED_CTLS2 IA32_VMX_PROCBASED_CTLS2)"

definition write_vmexit_controls :: "machine \<Rightarrow> platform \<Rightarrow> vcpu \<Rightarrow> hw \<Rightarrow> bool \<times> hw" where
  "write_vmexit_controls M P v h =
     if_ok (write_control_field M
         (ctls (exit_bit (ctl M))
           [(save_debug_controls, True), (host_address_space_size, True), (save_ia32_pat, True), (load_ia32_pat, True),
            (save_ia32_efer, True), (load_ia32_efer, True), (save_ia32_perf_global_ctl, True),
            (load_ia32_perf_global_ctrl, True), (exit_conceal_vmx_from_pt, True)])
         VMCS_CTRL_PRIMARY_VMEXIT_CONTROLS IA32_VMX_EXIT_CTLS IA32_VMX_TRUE_EXIT_CTLS h)
       (write_fields M
         [(VMCS_CTRL_VMEXIT_MSR_STORE_COUNT, msr_store_count (stealth v)),
          (VMCS_CTRL_VMEXIT_MSR_STORE_ADDRESS, phys_of P (a_msr_entries P)),
          (VMCS_CTRL_VMEXIT_MSR_LOAD_COUNT, 0),
          (VMCS_CTRL_VMEXIT_MSR_LOAD_ADDRESS, 0)])"

definition write_vmentry_controls :: "machine \<Rightarrow> platform \<Rightarrow> vcpu \<Rightarrow> hw \<Rightarrow> bool \<times> hw" where
  "write_vmentry_controls M P v h =
     if_ok (write_control_field M
         (ctls (entry_bit (ctl M))
           [(load_debug_controls, True), (ia32e_mode_guest, True), (entry_load_ia32_efer, True),
            (entry_load_ia32_pat, True), (entry_load_ia32_perf_global_ctrl, True), (entry_conceal_vmx_from_pt, True)])
         VMCS_CTRL_VMENTRY_CONTROLS IA32_VMX_ENTRY_CTLS IA32_VMX_TRUE_ENTRY_CTLS h)
       (write_fields M
         [(VMCS_CTRL_VMENTRY_MSR_LOAD_COUNT, msr_load_count (stealth v)),
          (VMCS_CTRL_VMENTRY_MSR_LOAD_ADDRESS, phys_of P (a_msr_entries P))])"

text \<open>The writes of \<open>write_other_control_fields\<close> before and after the MSR bitmap is filled.\<close>

definition exit_control_writes :: "u64 \<Rightarrow> hw \<Rightarrow> (nat \<times> u64) list" where
  "exit_control_writes scr3 h =
     [(VMCS_CTRL_EXCEPTION_BITMAP, set_bit_u64 0 (unat page_fault)),
      (VMCS_CTRL_PAGEFAULT_ERROR_CODE_MASK, 0),
      (VMCS_CTRL_PAGEFAULT_ERROR_CODE_MATCH, MAXULONG_PTR)] @
     (if tsc_hiding_enabled then [(VMCS_CTRL_TSC_OFFSET, 0)] else []) @
     [(VMCS_CTRL_CR4_GUEST_HOST_MASK, msrs h IA32_VMX_CR4_FIXED0 OR NOT (msrs h IA32_VMX_CR4_FIXED1) OR CR4_VMX_ENABLE_FLAG),
      (VMCS_CTRL_CR0_GUEST_HOST_MASK, msrs h IA32_VMX_CR0_FIXED0 OR NOT (msrs h IA32_VMX_CR0_FIXED1)),
      (VMCS_CTRL_CR4_READ_SHADOW, h_cr4 h AND NOT CR4_VMX_ENABLE_FLAG),
      (VMCS_CTRL_CR0_READ_SHADOW, h_cr0 h),
      (VMCS_CTRL_CR3_TARGET_COUNT, 1),
      (VMCS_CTRL_CR3_TARGET_VALUE_0, scr3)]"

definition mtrr_exit_msrs :: "nat \<Rightarrow> u32 list" where
  "mtrr_exit_msrs n =
     [IA32_MTRR_DEF_TYPE, IA32_MTRR_FIX64K_00000] @ fix16k_msrs @ fix4k_msrs @
     concat (map (\<lambda>i. [IA32_MTRR_PHYSBASE0 + of_nat i * 2, IA32_MTRR_PHYSMASK0 + of_nat i * 2]) [0..<n])"

definition exit_on_mtrrs :: "nat \<Rightarrow> msr_bitmap \<Rightarrow> msr_bitmap" where
  "exit_on_mtrrs n bm = fold (\<lambda>m. set_wrmsr_exiting m True) (mtrr_exit_msrs n) bm"

definition bitmap_and_event_writes :: "platform \<Rightarrow> (nat \<times> u64) list" where
  "bitmap_and_event_writes P =
     [(VMCS_CTRL_MSR_BITMAP_ADDRESS, phys_of P (a_msr_bitmap P)),
      (VMCS_CTRL_VIRTUAL_PROCESSOR_IDENTIFIER, 1),
      (VMCS_CTRL_XSS_EXITING_BITMAP, 0),
      (VMCS_CTRL_VMENTRY_INTERRUPTION_INFORMATION_FIELD, 0),
      (VMCS_CTRL_VMENTRY_EXCEPTION_ERROR_CODE, 0),
      (VMCS_CTRL_VMENTRY_INSTRUCTION_LENGTH, 0)]"

text \<open>A pointer to four levels of write-back tables.\<close>

definition eptp_for :: "machine \<Rightarrow> u64 \<Rightarrow> u64" where
  "eptp_for M pml4 =
     put_member (eptp_pfn (ctl M)) (drop_bit 12 pml4)
      (put_member (eptp_memory_type (ctl M)) MEMORY_TYPE_WRITE_BACK (put_member (eptp_walk_length (ctl M)) (4 - 1) 0))"

text \<open>The result is \<open>Endless_loop\<close> if \<open>initialize_ept\<close> does not return, which \<open>initial_ept_is_identity\<close> excludes.\<close>

definition write_other_control_fields :: "machine \<Rightarrow> platform \<Rightarrow> u64 \<Rightarrow> vcpu \<Rightarrow> hw \<Rightarrow> stop + bool \<times> vcpu \<times> hw" where
  "write_other_control_fields M P scr3 v h =
     (case write_fields M (exit_control_writes scr3 h) h of (ok1, h1) \<Rightarrow>
        if \<not> ok1 then Inr (False, v, h1)
        else let v1 = v\<lparr>vc_msr_bitmap := exit_on_mtrrs (mtrr_variable_count P) (vc_msr_bitmap v)\<rparr> in
          case write_fields M (bitmap_and_event_writes P) h1 of (ok2, h2) \<Rightarrow>
            if \<not> ok2 then Inr (False, v1, h2)
            else case (initialize_ept (ph_normal M) (vc_mtrr_state v1), initialize_ept (ph_target M) (vc_mtrr_state v1)) of
                (Some en, Some et) \<Rightarrow>
                  let v2 = v1\<lparr>ept_pages_normal := en, ept_pages_target := et,
                      eptp_normal_execution := eptp_for M (phys_of P (a_pml4_normal P)),
                      eptp_target_execution := eptp_for M (phys_of P (a_pml4_target P)),
                      in_normal_execution := True\<rparr>;
                    (ok3, h3) = vmx_vmwrite M VMCS_CTRL_EPT_POINTER (eptp_normal_execution v2) h2
                  in Inr (ok3, v2, h3)
              | _ \<Rightarrow> Inl Endless_loop)"

section \<open>The state of the guest\<close>

definition guest_register_writes :: "hw \<Rightarrow> (nat \<times> u64) list" where
  "guest_register_writes h =
     [(VMCS_GUEST_CR0, h_cr0 h), (VMCS_GUEST_CR3, h_cr3 h), (VMCS_GUEST_CR4, h_cr4 h), (VMCS_GUEST_DR7, h_dr7 h),
      (VMCS_GUEST_RSP, 0), (VMCS_GUEST_RIP, 0), (VMCS_GUEST_RFLAGS, h_rflags h)]"

definition guest_selector_writes :: "hw \<Rightarrow> (nat \<times> u64) list" where
  "guest_selector_writes h =
     [(VMCS_GUEST_CS_SELECTOR, ucast (h_selector h seg_cs)), (VMCS_GUEST_SS_SELECTOR, ucast (h_selector h seg_ss)),
      (VMCS_GUEST_DS_SELECTOR, ucast (h_selector h seg_ds)), (VMCS_GUEST_ES_SELECTOR, ucast (h_selector h seg_es)),
      (VMCS_GUEST_FS_SELECTOR, ucast (h_selector h seg_fs)), (VMCS_GUEST_GS_SELECTOR, ucast (h_selector h seg_gs)),
      (VMCS_GUEST_LDTR_SELECTOR, ucast (h_selector h seg_ldtr)), (VMCS_GUEST_TR_SELECTOR, ucast (h_selector h seg_tr))]"

definition seg_base_of :: "platform \<Rightarrow> hw \<Rightarrow> segment \<Rightarrow> u64" where
  "seg_base_of P h s = base_address (sgl P) (kernel_mem P) (fst (h_gdtr h)) (h_selector h s)"

definition guest_base_writes :: "platform \<Rightarrow> hw \<Rightarrow> (nat \<times> u64) list" where
  "guest_base_writes P h =
     [(VMCS_GUEST_CS_BASE, seg_base_of P h seg_cs), (VMCS_GUEST_SS_BASE, seg_base_of P h seg_ss),
      (VMCS_GUEST_DS_BASE, seg_base_of P h seg_ds), (VMCS_GUEST_ES_BASE, seg_base_of P h seg_es),
      (VMCS_GUEST_FS_BASE, msrs h IA32_FS_BASE), (VMCS_GUEST_GS_BASE, msrs h IA32_GS_BASE),
      (VMCS_GUEST_LDTR_BASE, seg_base_of P h seg_ldtr), (VMCS_GUEST_TR_BASE, seg_base_of P h seg_tr)]"

definition guest_limit_writes :: "platform \<Rightarrow> hw \<Rightarrow> (nat \<times> u64) list" where
  "guest_limit_writes P h = (let limit = (\<lambda>s. seg_limit P (h_selector h s)) in
     [(VMCS_GUEST_CS_LIMIT, limit seg_cs), (VMCS_GUEST_SS_LIMIT, limit seg_ss), (VMCS_GUEST_DS_LIMIT, limit seg_ds),
      (VMCS_GUEST_ES_LIMIT, limit seg_es), (VMCS_GUEST_FS_LIMIT, limit seg_fs), (VMCS_GUEST_GS_LIMIT, limit seg_gs),
      (VMCS_GUEST_LDTR_LIMIT, limit seg_ldtr), (VMCS_GUEST_TR_LIMIT, limit seg_tr)])"

definition guest_access_rights_writes :: "platform \<Rightarrow> hw \<Rightarrow> (nat \<times> u64) list" where
  "guest_access_rights_writes P h =
     (let rights = (\<lambda>s. access_rights (sgl P) (kernel_mem P) (fst (h_gdtr h)) (h_selector h s)) in
     [(VMCS_GUEST_CS_ACCESS_RIGHTS, rights seg_cs), (VMCS_GUEST_SS_ACCESS_RIGHTS, rights seg_ss),
      (VMCS_GUEST_DS_ACCESS_RIGHTS, rights seg_ds), (VMCS_GUEST_ES_ACCESS_RIGHTS, rights seg_es),
      (VMCS_GUEST_FS_ACCESS_RIGHTS, rights seg_fs), (VMCS_GUEST_GS_ACCESS_RIGHTS, rights seg_gs),
      (VMCS_GUEST_LDTR_ACCESS_RIGHTS, rights seg_ldtr), (VMCS_GUEST_TR_ACCESS_RIGHTS, rights seg_tr)])"

definition guest_table_writes :: "hw \<Rightarrow> (nat \<times> u64) list" where
  "guest_table_writes h =
     [(VMCS_GUEST_GDTR_BASE, fst (h_gdtr h)), (VMCS_GUEST_GDTR_LIMIT, ucast (snd (h_gdtr h))),
      (VMCS_GUEST_IDTR_BASE, fst (h_idtr h)), (VMCS_GUEST_IDTR_LIMIT, ucast (snd (h_idtr h)))]"

definition guest_msr_writes :: "hw \<Rightarrow> (nat \<times> u64) list" where
  "guest_msr_writes h =
     [(VMCS_GUEST_DEBUGCTL, msrs h IA32_DEBUGCTL), (VMCS_GUEST_SYSENTER_CS, msrs h IA32_SYSENTER_CS),
      (VMCS_GUEST_SYSENTER_ESP, msrs h IA32_SYSENTER_ESP), (VMCS_GUEST_SYSENTER_EIP, msrs h IA32_SYSENTER_EIP),
      (VMCS_GUEST_PERF_GLOBAL_CTRL, msrs h IA32_PERF_GLOBAL_CTRL), (VMCS_GUEST_PAT, msrs h IA32_PAT),
      (VMCS_GUEST_EFER, msrs h IA32_EFER)]"

text \<open>The activity state is \<open>vmx_active\<close>.\<close>

definition guest_nonregister_writes :: "(nat \<times> u64) list" where
  "guest_nonregister_writes =
     [(VMCS_GUEST_ACTIVITY_STATE, 0), (VMCS_GUEST_INTERRUPTIBILITY_STATE, 0), (VMCS_GUEST_PENDING_DEBUG_EXCEPTIONS, 0),
      (VMCS_GUEST_VMCS_LINK_POINTER, MAXULONG_PTR)]"

definition write_preemption_timer :: "machine \<Rightarrow> hw \<Rightarrow> bool \<times> hw" where
  "write_preemption_timer M h =
     (if tsc_hiding_enabled
      then if flag (pin_bit (ctl M) activate_vmx_preemption_timer) (vmx_vmread M VMCS_CTRL_PIN_BASED_VM_EXECUTION_CONTROLS h)
           then write_fields M [(VMCS_GUEST_VMX_PREEMPTION_TIMER_VALUE, MAXULONG)] h
           else (False, h)
      else (True, h))"

definition guest_state_writes :: "platform \<Rightarrow> hw \<Rightarrow> (nat \<times> u64) list" where
  "guest_state_writes P h =
     guest_register_writes h @ guest_selector_writes h @ guest_base_writes P h @ guest_limit_writes P h @
     guest_access_rights_writes P h @ guest_table_writes h @ guest_msr_writes h @ guest_nonregister_writes"

definition write_guest_state_fields :: "machine \<Rightarrow> platform \<Rightarrow> hw \<Rightarrow> bool \<times> hw" where
  "write_guest_state_fields M P h = if_ok (write_fields M (guest_state_writes P h) h) (write_preemption_timer M)"

section \<open>The state of the host\<close>

definition host_register_writes :: "platform \<Rightarrow> hw \<Rightarrow> (nat \<times> u64) list" where
  "host_register_writes P h =
     [(VMCS_HOST_CR0, h_cr0 h),
      (VMCS_HOST_CR3, put_member (cr3_pfn P) (drop_bit 12 (phys_of P (a_host_pml4 P))) 0),
      (VMCS_HOST_CR4, h_cr4 h),
      (VMCS_HOST_RSP, (a_host_stack P + host_stack_size) AND NOT 0xF),
      (VMCS_HOST_RIP, a_vmexit_stub P)]"

definition host_segment_writes :: "platform \<Rightarrow> (nat \<times> u64) list" where
  "host_segment_writes P =
     [(VMCS_HOST_CS_SELECTOR, ucast (host_cs (sgl P))), (VMCS_HOST_SS_SELECTOR, ucast (host_ss (sgl P))),
      (VMCS_HOST_DS_SELECTOR, 0), (VMCS_HOST_ES_SELECTOR, 0), (VMCS_HOST_FS_SELECTOR, 0), (VMCS_HOST_GS_SELECTOR, 0),
      (VMCS_HOST_TR_SELECTOR, ucast (host_tr (sgl P))),
      (VMCS_HOST_FS_BASE, a_vcpu P), (VMCS_HOST_GS_BASE, 0), (VMCS_HOST_TR_BASE, a_host_tss P),
      (VMCS_HOST_GDTR_BASE, a_host_gdt P), (VMCS_HOST_IDTR_BASE, a_host_idt P)]"

definition host_efer :: "platform \<Rightarrow> u64" where
  "host_efer P = (case efer_bits P of (lme, lma, sce, nxe) \<Rightarrow>
     put_flag nxe True (put_flag sce True (put_flag lma True (put_flag lme True 0))))"

definition host_pat :: "platform \<Rightarrow> u64" where
  "host_pat P = fold (\<lambda>(i, t). put_member (pat_member P i) t)
     [(0, MEMORY_TYPE_WRITE_BACK), (1, MEMORY_TYPE_WRITE_THROUGH), (1, MEMORY_TYPE_WRITE_THROUGH),
      (2, MEMORY_TYPE_UNCACHEABLE_MINUS), (3, MEMORY_TYPE_UNCACHEABLE), (4, MEMORY_TYPE_WRITE_BACK),
      (5, MEMORY_TYPE_WRITE_THROUGH), (6, MEMORY_TYPE_UNCACHEABLE_MINUS), (7, MEMORY_TYPE_UNCACHEABLE)] 0"

definition host_msr_writes :: "platform \<Rightarrow> (nat \<times> u64) list" where
  "host_msr_writes P =
     [(VMCS_HOST_SYSENTER_CS, 0), (VMCS_HOST_SYSENTER_ESP, 0), (VMCS_HOST_SYSENTER_EIP, 0), (VMCS_HOST_PERF_GLOBAL_CTRL, 0),
      (VMCS_HOST_EFER, host_efer P), (VMCS_HOST_PAT, host_pat P), (VMCS_HOST_PERF_GLOBAL_CTRL, 0)]"

definition write_host_state_fields :: "machine \<Rightarrow> platform \<Rightarrow> hw \<Rightarrow> bool \<times> hw" where
  "write_host_state_fields M P h =
     write_fields M (host_register_writes P h @ host_segment_writes P @ host_msr_writes P) h"

section \<open>All fields\<close>

definition write_control_fields :: "machine \<Rightarrow> platform \<Rightarrow> u64 \<Rightarrow> vcpu \<Rightarrow> hw \<Rightarrow> stop + bool \<times> vcpu \<times> hw" where
  "write_control_fields M P scr3 v h =
     (case if_ok (if_ok (if_ok (write_pin_based_vm_execution_controls M h)
              (write_processor_based_vm_execution_controls M))
            (write_vmexit_controls M P v)) (write_vmentry_controls M P v) of
        (False, h1) \<Rightarrow> Inr (False, v, h1)
      | (True, h1) \<Rightarrow>
          and_then (write_other_control_fields M P scr3 v h1) (\<lambda>(ok, v2, h2).
            if \<not> ok then Inr (False, v2, h2)
            else case if_ok (write_guest_state_fields M P h2) (write_host_state_fields M P) of
                (ok, h3) \<Rightarrow> Inr (ok, v2, h3)))"

end
