(* ===== verification/Vmcs_State.thy ===== *)
theory Vmcs_State
  imports Vmcs
begin

text \<open>
  What the VMCS holds after it was filled: the guest is the running system, no exception of the guest
  exits, the guest does not see that VMX is enabled, and the registers whose writes exit are known.
\<close>

section \<open>Sequences of writes\<close>

text \<open>Everything of the processor but its current VMCS.\<close>

definition rest :: "hw \<Rightarrow> hw" where
  "rest h = h\<lparr>vmcs := (\<lambda>_. 0)\<rparr>"

lemma rest_vmwrite [simp]: "rest (vmwrite M f v h) = rest h"
  by (simp add: rest_def vmx_vmwrite_def)

lemma rest_fields:
  assumes "rest h' = rest h"
  shows "msrs h' = msrs h" "h_cr0 h' = h_cr0 h" "h_cr3 h' = h_cr3 h" "h_cr4 h' = h_cr4 h" "h_dr7 h' = h_dr7 h"
    "h_rflags h' = h_rflags h" "h_selector h' = h_selector h" "h_gdtr h' = h_gdtr h" "h_idtr h' = h_idtr h"
    "invepts h' = invepts h" "h_in_vmx h' = h_in_vmx h"
  using arg_cong [OF assms, of msrs] arg_cong [OF assms, of h_cr0] arg_cong [OF assms, of h_cr3]
    arg_cong [OF assms, of h_cr4] arg_cong [OF assms, of h_dr7] arg_cong [OF assms, of h_rflags]
    arg_cong [OF assms, of h_selector] arg_cong [OF assms, of h_gdtr] arg_cong [OF assms, of h_idtr]
    arg_cong [OF assms, of invepts] arg_cong [OF assms, of h_in_vmx]
  by (simp_all add: rest_def)

lemma write_fields_Cons:
  "supported M f \<Longrightarrow> write_fields M ((f, v) # ws) h = write_fields M ws (vmwrite M f v h)"
  "\<not> supported M f \<Longrightarrow> write_fields M ((f, v) # ws) h = (False, h)"
  by (simp_all add: vmx_vmwrite_def)

declare write_fields.simps(2) [simp del]

lemma write_fields_rest: "rest (snd (write_fields M ws h)) = rest h"
proof (induction ws arbitrary: h)
  case (Cons w ws)
  then show ?case
    by (cases w; cases "supported M (fst w)") (simp_all add: write_fields_Cons del: write_fields.simps)
qed simp

lemma write_fields_ok: "fst (write_fields M ws h) \<longleftrightarrow> (\<forall>w \<in> set ws. supported M (fst w))"
proof (induction ws arbitrary: h)
  case (Cons w ws)
  then show ?case
    by (cases w; cases "supported M (fst w)") (simp_all add: write_fields_Cons del: write_fields.simps(2))
qed simp

lemma write_fields_read:
  "fst (write_fields M ws h) \<Longrightarrow> vmx_vmread M g (snd (write_fields M ws h)) =
     (case map_of (rev ws) g of Some v \<Rightarrow> take_bit (vmcs_width g) v | None \<Rightarrow> vmx_vmread M g h)"
proof (induction ws arbitrary: h)
  case (Cons w ws)
  obtain f v where w: "w = (f, v)" by (cases w)
  have s: "supported M f"
    using Cons.prems unfolding w write_fields_ok by simp
  have r: "write_fields M (w # ws) h = write_fields M ws (vmwrite M f v h)"
    unfolding w by (rule write_fields_Cons(1) [OF s])
  have "fst (write_fields M ws (vmwrite M f v h))"
    using Cons.prems r by simp
  from Cons.IH [OF this] show ?case
    unfolding r using s by (cases "map_of (rev ws) g") (simp_all add: w map_add_def)
qed simp

lemma if_ok_fst: "fst (if_ok r k) \<longleftrightarrow> fst r \<and> fst (k (snd r))"
  by (simp add: if_ok_def)

lemma if_ok_snd: "fst (if_ok r k) \<Longrightarrow> snd (if_ok r k) = snd (k (snd r))"
  by (simp add: if_ok_def split: if_splits)

lemma if_ok_rest: "(\<And>h. rest (snd (k h)) = rest h) \<Longrightarrow> rest (snd r) = rest h0 \<Longrightarrow> rest (snd (if_ok r k)) = rest h0"
  by (simp add: if_ok_def)

lemma write_control_other:
  "g \<noteq> f \<Longrightarrow> vmx_vmread M g (snd (write_control_field M v f a b h)) = vmx_vmread M g h"
  by (simp add: write_control_field_def)

lemma write_control_rest [simp]: "rest (snd (write_control_field M v f a b h)) = rest h"
  by (simp add: write_control_field_def)

section \<open>The guest is the running system\<close>

definition selector_field :: "segment \<Rightarrow> nat" where
  "selector_field s = (case s of seg_es \<Rightarrow> 0x800 | seg_cs \<Rightarrow> 0x802 | seg_ss \<Rightarrow> 0x804 | seg_ds \<Rightarrow> 0x806
     | seg_fs \<Rightarrow> 0x808 | seg_gs \<Rightarrow> 0x80A | seg_ldtr \<Rightarrow> 0x80C | seg_tr \<Rightarrow> 0x80E)"

text \<open>Limit, access rights and base of a segment have encodings in the same order.\<close>

definition limit_field :: "segment \<Rightarrow> nat" where "limit_field s = selector_field s + 0x4000"
definition rights_field :: "segment \<Rightarrow> nat" where "rights_field s = selector_field s + 0x4014"
definition base_field :: "segment \<Rightarrow> nat" where "base_field s = selector_field s + 0x6006"

lemmas segment_fields = selector_field_def limit_field_def rights_field_def base_field_def

definition system_base :: "platform \<Rightarrow> hw \<Rightarrow> segment \<Rightarrow> u64" where
  "system_base P h s =
     (case s of seg_fs \<Rightarrow> msrs h IA32_FS_BASE | seg_gs \<Rightarrow> msrs h IA32_GS_BASE | _ \<Rightarrow> seg_base_of P h s)"

lemmas guest_write_defs = guest_state_writes_def guest_register_writes_def guest_selector_writes_def guest_base_writes_def
  guest_limit_writes_def guest_access_rights_writes_def guest_table_writes_def guest_msr_writes_def
  guest_nonregister_writes_def

lemma take_bit_16_ucast: "take_bit 16 (ucast x :: u64) = ucast x" for x :: u16
  by (rule take_bit_selector)

lemma take_bit_32_ucast: "take_bit 32 (ucast x :: u64) = ucast x" for x :: u16
  by (rule bit_eqI) (use bit_imp_le_length [of x] in \<open>force simp: bit_simps\<close>)

lemma write_preemption_timer_rest: "rest (snd (write_preemption_timer M h)) = rest h"
  using write_fields_rest [of M "[(VMCS_GUEST_VMX_PREEMPTION_TIMER_VALUE, MAXULONG)]" h]
  by (simp add: write_preemption_timer_def del: write_fields.simps(2))

lemma write_guest_state_rest: "rest (snd (write_guest_state_fields M P h)) = rest h"
  unfolding write_guest_state_fields_def
  by (rule if_ok_rest [OF write_preemption_timer_rest write_fields_rest])

lemma guest_read:
  assumes "fst (write_guest_state_fields M P h)" and "g \<noteq> VMCS_GUEST_VMX_PREEMPTION_TIMER_VALUE"
  shows "vmx_vmread M g (snd (write_guest_state_fields M P h)) =
    (case map_of (rev (guest_state_writes P h)) g of Some v \<Rightarrow> take_bit (vmcs_width g) v | None \<Rightarrow> vmx_vmread M g h)"
proof -
  let ?r = "write_fields M (guest_state_writes P h) h"
  have ok: "fst ?r" and r: "snd (write_guest_state_fields M P h) = snd (write_preemption_timer M (snd ?r))"
    using assms(1) unfolding write_guest_state_fields_def by (simp_all add: if_ok_fst if_ok_snd)
  have "vmx_vmread M g (snd (write_preemption_timer M h1)) = vmx_vmread M g h1" for h1
    using assms(2) by (cases "supported M VMCS_GUEST_VMX_PREEMPTION_TIMER_VALUE")
      (simp_all add: write_preemption_timer_def write_fields_Cons del: write_fields.simps(2))
  then show ?thesis
    unfolding r using write_fields_read [OF ok] by simp
qed

text \<open>
  C23. The guest that is launched is the system that was running. When all guest fields could be
  written, the VMCS holds the control registers, DR7, RFLAGS, the descriptor table registers and the
  model specific registers of the running processor, every segment register has its selector, the
  base, limit and access rights of the descriptor it names, where FS and GS have the bases of their
  MSRs; the guest is active, not blocked, with no pending exception and no linked VMCS. No other
  field is changed, except the preemption timer, and nothing but the VMCS.
\<close>

theorem guest_is_running_system:
  assumes "write_guest_state_fields M P h = (True, h')"
  shows "vmx_vmread M VMCS_GUEST_CR0 h' = h_cr0 h \<and> vmx_vmread M VMCS_GUEST_CR3 h' = h_cr3 h \<and>
    vmx_vmread M VMCS_GUEST_CR4 h' = h_cr4 h \<and> vmx_vmread M VMCS_GUEST_DR7 h' = h_dr7 h \<and>
    vmx_vmread M VMCS_GUEST_RFLAGS h' = h_rflags h \<and>
    (\<forall>s. vmx_vmread M (selector_field s) h' = ucast (h_selector h s) \<and>
         vmx_vmread M (base_field s) h' = system_base P h s \<and>
         vmx_vmread M (limit_field s) h' = take_bit 32 (seg_limit P (h_selector h s)) \<and>
         vmx_vmread M (rights_field s) h' =
           take_bit 32 (access_rights (sgl P) (kernel_mem P) (fst (h_gdtr h)) (h_selector h s))) \<and>
    vmx_vmread M VMCS_GUEST_GDTR_BASE h' = fst (h_gdtr h) \<and> vmx_vmread M VMCS_GUEST_GDTR_LIMIT h' = ucast (snd (h_gdtr h)) \<and>
    vmx_vmread M VMCS_GUEST_IDTR_BASE h' = fst (h_idtr h) \<and> vmx_vmread M VMCS_GUEST_IDTR_LIMIT h' = ucast (snd (h_idtr h)) \<and>
    vmx_vmread M VMCS_GUEST_EFER h' = msrs h IA32_EFER \<and> vmx_vmread M VMCS_GUEST_PAT h' = msrs h IA32_PAT \<and>
    vmx_vmread M VMCS_GUEST_PERF_GLOBAL_CTRL h' = msrs h IA32_PERF_GLOBAL_CTRL \<and>
    vmx_vmread M VMCS_GUEST_DEBUGCTL h' = msrs h IA32_DEBUGCTL \<and>
    vmx_vmread M VMCS_GUEST_SYSENTER_CS h' = take_bit 32 (msrs h IA32_SYSENTER_CS) \<and>
    vmx_vmread M VMCS_GUEST_SYSENTER_ESP h' = msrs h IA32_SYSENTER_ESP \<and>
    vmx_vmread M VMCS_GUEST_SYSENTER_EIP h' = msrs h IA32_SYSENTER_EIP \<and>
    vmx_vmread M VMCS_GUEST_ACTIVITY_STATE h' = 0 \<and> vmx_vmread M VMCS_GUEST_INTERRUPTIBILITY_STATE h' = 0 \<and>
    vmx_vmread M VMCS_GUEST_PENDING_DEBUG_EXCEPTIONS h' = 0 \<and> vmx_vmread M VMCS_GUEST_VMCS_LINK_POINTER h' = MAXULONG_PTR \<and>
    (\<forall>g. g \<notin> fst ` set (guest_state_writes P h) \<and> g \<noteq> VMCS_GUEST_VMX_PREEMPTION_TIMER_VALUE \<longrightarrow>
       vmx_vmread M g h' = vmx_vmread M g h) \<and>
    rest h' = rest h"
proof -
  have ok: "fst (write_guest_state_fields M P h)" and h': "snd (write_guest_state_fields M P h) = h'"
    using assms by simp_all
  note r = guest_read [OF ok, unfolded h']
  have seg: "vmx_vmread M (selector_field s) h' = ucast (h_selector h s) \<and>
         vmx_vmread M (base_field s) h' = system_base P h s \<and>
         vmx_vmread M (limit_field s) h' = take_bit 32 (seg_limit P (h_selector h s)) \<and>
         vmx_vmread M (rights_field s) h' =
           take_bit 32 (access_rights (sgl P) (kernel_mem P) (fst (h_gdtr h)) (h_selector h s))" for s
    by (cases s) (simp_all add: segment_fields r guest_write_defs Let_def system_base_def vmcs_width_def take_bit_16_ucast)
  have other: "vmx_vmread M g h' = vmx_vmread M g h"
    if "g \<notin> fst ` set (guest_state_writes P h) \<and> g \<noteq> VMCS_GUEST_VMX_PREEMPTION_TIMER_VALUE" for g
  proof -
    have "map_of (rev (guest_state_writes P h)) g = None"
      using that by (simp add: map_of_eq_None_iff)
    then show ?thesis using r that by simp
  qed
  show ?thesis
    using seg other write_guest_state_rest [of M P h]
    by (simp add: r guest_write_defs Let_def vmcs_width_def take_bit_16_ucast take_bit_32_ucast h')
qed

text \<open>A platform for the witnesses: memory is mapped to itself, the tables of the system are empty.\<close>

definition demo_platform :: platform where
  "demo_platform = \<lparr>phys_of = id, seg_limit = (\<lambda>_. 0xFFFFFFFF), kernel_mem = (\<lambda>_. 0), sgl = sdm_seg_layout,
     gtl = sdm_gate_layout, cr3_pfn = (12, 36), efer_bits = (8, 10, 0, 11), pat_member = (\<lambda>i. (8 * i, 3)),
     mtrr_variable_count = 10, a_vcpu = 0x10000000, a_host_stack = 0x10000000, a_host_tss = 0x10008000,
     a_host_gdt = 0x10009000, a_host_idt = 0x1000A000, a_host_ist1_nmi = 0x1000B000, a_host_ist2_df = 0x1000F000,
     a_host_ist3_mc = 0x10013000, a_vmxon_region = 0x10017000, a_vmcs_region = 0x10018000, a_msr_bitmap = 0x10019000,
     a_msr_entries = 0x1001A000, a_pml4_normal = 0x1001B000, a_pml4_target = 0x1001C000, a_host_pml4 = 0x2000000,
     a_vmexit_stub = 0x3000000, a_isr = (\<lambda>n. 0x3001000 + of_nat n * 16)\<rparr>"

definition timer_hw :: hw where
  "timer_hw = demo_hw\<lparr>vmcs := (\<lambda>_. 0)(VMCS_CTRL_PIN_BASED_VM_EXECUTION_CONTROLS := 0x40)\<rparr>"

lemma demo_supported [simp]: "supported sdm_machine f"
  by (simp add: sdm_machine_def)

lemma fields_supported: "\<forall>f. supported M f \<Longrightarrow> fst (write_fields M ws h)"
  by (simp add: write_fields_ok)

theorem guest_is_running_system_witness:
  "vmx_vmread sdm_machine VMCS_GUEST_CR3 (snd (write_guest_state_fields sdm_machine demo_platform timer_hw)) = 0x1AD000 \<and>
   vmx_vmread sdm_machine VMCS_GUEST_VMCS_LINK_POINTER (snd (write_guest_state_fields sdm_machine demo_platform timer_hw)) =
     0xFFFFFFFFFFFFFFFF"
proof -
  let ?h1 = "snd (write_fields sdm_machine (guest_state_writes demo_platform timer_hw) timer_hw)"
  have ok: "fst (write_fields sdm_machine (guest_state_writes demo_platform timer_hw) timer_hw)"
    by (rule fields_supported) simp
  have r: "vmx_vmread sdm_machine VMCS_CTRL_PIN_BASED_VM_EXECUTION_CONTROLS ?h1 = 0x40"
    unfolding write_fields_read [OF ok] by (simp add: guest_write_defs Let_def timer_hw_def vmx_vmread_def)
  have b: "flag (pin_bit (ctl sdm_machine) activate_vmx_preemption_timer) 0x40"
    by (simp add: flag_def sdm_machine_def sdm_ctl_layout_def bit_numeral_rec)
  have "fst (write_preemption_timer sdm_machine ?h1)"
    using r b by (simp add: write_preemption_timer_def write_fields_ok del: write_fields.simps(2))
  then have t: "write_guest_state_fields sdm_machine demo_platform timer_hw =
      (True, snd (write_guest_state_fields sdm_machine demo_platform timer_hw))"
    using ok by (simp add: prod_eq_iff write_guest_state_fields_def if_ok_fst)
  show ?thesis
    using guest_is_running_system [OF t]
    by (simp add: timer_hw_def demo_hw_def)
qed

section \<open>Control fields\<close>

lemma other_ok:
  assumes "write_other_control_fields M P scr3 v h = Inr (True, v', h')"
  obtains h1 h2 en et where
    "fst (write_fields M (exit_control_writes scr3 h) h)" "h1 = snd (write_fields M (exit_control_writes scr3 h) h)"
    "fst (write_fields M (bitmap_and_event_writes P) h1)" "h2 = snd (write_fields M (bitmap_and_event_writes P) h1)"
    "initialize_ept (ph_normal M) (vc_mtrr_state v) = Some en" "initialize_ept (ph_target M) (vc_mtrr_state v) = Some et"
    "v' = v\<lparr>vc_msr_bitmap := exit_on_mtrrs (mtrr_variable_count P) (vc_msr_bitmap v), ept_pages_normal := en,
       ept_pages_target := et, eptp_normal_execution := eptp_for M (phys_of P (a_pml4_normal P)),
       eptp_target_execution := eptp_for M (phys_of P (a_pml4_target P)), in_normal_execution := True\<rparr>"
    "supported M VMCS_CTRL_EPT_POINTER"
    "h' = vmwrite M VMCS_CTRL_EPT_POINTER (eptp_for M (phys_of P (a_pml4_normal P))) h2"
proof -
  let ?r1 = "write_fields M (exit_control_writes scr3 h) h"
  let ?r2 = "write_fields M (bitmap_and_event_writes P) (snd ?r1)"
  have 1: "fst ?r1"
    using assms unfolding write_other_control_fields_def by (auto simp: case_prod_unfold split: if_splits)
  then have 2: "fst ?r2"
    using assms unfolding write_other_control_fields_def by (auto simp: case_prod_unfold Let_def split: if_splits)
  obtain en et where e: "initialize_ept (ph_normal M) (vc_mtrr_state v) = Some en"
    "initialize_ept (ph_target M) (vc_mtrr_state v) = Some et"
    using assms 1 2 unfolding write_other_control_fields_def
    by (auto simp: case_prod_unfold Let_def split: option.splits)
  have r: "Inr (True, v', h') = write_other_control_fields M P scr3 v h"
    using assms by simp
  note r' = r [unfolded write_other_control_fields_def case_prod_unfold if_not_P [OF iffD2 [OF not_not 1]]
      Let_def if_not_P [OF iffD2 [OF not_not 2]]]
  show ?thesis
    by (rule that [OF 1 refl 2 refl e])
      (use r' e in \<open>simp_all add: vmx_vmwrite_def split: if_splits\<close>)
qed

text \<open>The first four groups, as one step.\<close>

definition write_four_controls :: "machine \<Rightarrow> platform \<Rightarrow> vcpu \<Rightarrow> hw \<Rightarrow> bool \<times> hw" where
  "write_four_controls M P v h =
     if_ok (if_ok (if_ok (write_pin_based_vm_execution_controls M h) (write_processor_based_vm_execution_controls M))
       (write_vmexit_controls M P v)) (write_vmentry_controls M P v)"

lemma write_four_rest: "rest (snd (write_four_controls M P v h)) = rest h"
proof -
  have p: "rest (snd (write_processor_based_vm_execution_controls M h)) = rest h" for h
    unfolding write_processor_based_vm_execution_controls_def by (rule if_ok_rest) simp_all
  have x: "rest (snd (write_vmexit_controls M P v h)) = rest h" for h
    unfolding write_vmexit_controls_def by (rule if_ok_rest [OF write_fields_rest]) simp
  have e: "rest (snd (write_vmentry_controls M P v h)) = rest h" for h
    unfolding write_vmentry_controls_def by (rule if_ok_rest [OF write_fields_rest]) simp
  show ?thesis
    unfolding write_four_controls_def
    by (intro if_ok_rest e x p) (simp add: write_pin_based_vm_execution_controls_def)
qed

lemma write_lists_rest:
  assumes "rest h' = rest h"
  shows "exit_control_writes scr3 h' = exit_control_writes scr3 h"
    and "guest_state_writes P h' = guest_state_writes P h"
    and "host_register_writes P h' = host_register_writes P h"
    and "system_base P h' = system_base P h"
  using rest_fields [OF assms]
  by (simp_all add: exit_control_writes_def guest_write_defs host_register_writes_def seg_base_of_def Let_def
      system_base_def fun_eq_iff split: segment.split)

lemma other_rest:
  assumes "write_other_control_fields M P scr3 v h = Inr (True, v', h')"
  shows "rest h' = rest h"
  by (rule other_ok [OF assms]) (simp add: write_fields_rest)

lemma other_read:
  assumes "write_other_control_fields M P scr3 v h = Inr (True, v', h')"
  shows "vmx_vmread M g h' =
    (if g = VMCS_CTRL_EPT_POINTER then eptp_for M (phys_of P (a_pml4_normal P))
     else case map_of (rev (exit_control_writes scr3 h @ bitmap_and_event_writes P)) g of
       Some v \<Rightarrow> take_bit (vmcs_width g) v | None \<Rightarrow> vmx_vmread M g h)"
proof (rule other_ok [OF assms])
  fix h1 h2 en et
  assume a: "fst (write_fields M (exit_control_writes scr3 h) h)" "h1 = snd (write_fields M (exit_control_writes scr3 h) h)"
    "fst (write_fields M (bitmap_and_event_writes P) h1)" "h2 = snd (write_fields M (bitmap_and_event_writes P) h1)"
    "supported M VMCS_CTRL_EPT_POINTER"
    "h' = vmwrite M VMCS_CTRL_EPT_POINTER (eptp_for M (phys_of P (a_pml4_normal P))) h2"
  have "vmx_vmread M g h2 = (case map_of (rev (exit_control_writes scr3 h @ bitmap_and_event_writes P)) g of
       Some v \<Rightarrow> take_bit (vmcs_width g) v | None \<Rightarrow> vmx_vmread M g h)"
    using write_fields_read [OF a(1), of g] write_fields_read [OF a(3), of g] a(2,4)
    by (cases "map_of (rev (bitmap_and_event_writes P)) g") (simp_all add: map_add_def)
  then show ?thesis
    using a(5,6) by (simp add: vmcs_width_def)
qed

lemma all_ok:
  assumes "write_control_fields M P scr3 v h = Inr (True, v', h')"
  obtains h1 h2 h3 where "fst (write_four_controls M P v h)" "h1 = snd (write_four_controls M P v h)"
    "write_other_control_fields M P scr3 v h1 = Inr (True, v', h2)"
    "write_guest_state_fields M P h2 = (True, h3)" "write_host_state_fields M P h3 = (True, h')"
proof -
  obtain h1 where 1: "write_four_controls M P v h = (True, h1)"
    using assms by (cases "write_four_controls M P v h")
      (auto simp: write_control_fields_def write_four_controls_def [symmetric] split: bool.splits)
  obtain ok h2 v2 where 2: "write_other_control_fields M P scr3 v h1 = Inr (ok, v2, h2)" ok
    "if_ok (write_guest_state_fields M P h2) (write_host_state_fields M P) = (True, h')" "v2 = v'"
    using assms 1 unfolding write_control_fields_def write_four_controls_def [symmetric]
    by (auto simp: and_then_Inr split: if_splits prod.splits)
  have g: "fst (write_guest_state_fields M P h2)"
    and k: "write_host_state_fields M P (snd (write_guest_state_fields M P h2)) = (True, h')"
    using 2(3) by (auto simp: if_ok_def split: if_splits)
  show ?thesis
    by (rule that [of h1 h2 "snd (write_guest_state_fields M P h2)"]) (use 1 2 g k in \<open>simp_all add: prod_eq_iff\<close>)
qed

definition all_host_writes :: "platform \<Rightarrow> hw \<Rightarrow> (nat \<times> u64) list" where
  "all_host_writes P h = host_register_writes P h @ host_segment_writes P @ host_msr_writes P"

text \<open>A field no later group writes has the value of the last group that does.\<close>

lemma all_read:
  assumes "write_control_fields M P scr3 v h = Inr (True, v', h')"
    and "g \<noteq> VMCS_GUEST_VMX_PREEMPTION_TIMER_VALUE" and "g \<noteq> VMCS_CTRL_EPT_POINTER"
  shows "vmx_vmread M g h' =
    (case map_of (rev (exit_control_writes scr3 h @ bitmap_and_event_writes P @ guest_state_writes P h @ all_host_writes P h)) g of
       Some v \<Rightarrow> take_bit (vmcs_width g) v | None \<Rightarrow> vmx_vmread M g (snd (write_four_controls M P v h)))"
proof (rule all_ok [OF assms(1)])
  fix h1 h2 h3
  assume a: "fst (write_four_controls M P v h)" "h1 = snd (write_four_controls M P v h)"
    "write_other_control_fields M P scr3 v h1 = Inr (True, v', h2)"
    "write_guest_state_fields M P h2 = (True, h3)" "write_host_state_fields M P h3 = (True, h')"
  have r1: "rest h1 = rest h" using write_four_rest a(2) by simp
  have r2: "rest h2 = rest h" using other_rest [OF a(3)] r1 by simp
  have r3: "rest h3 = rest h" using write_guest_state_rest [of M P h2] a(4) r2 by simp
  have w: "fst (write_fields M (all_host_writes P h) h3)" "h' = snd (write_fields M (all_host_writes P h) h3)"
    using a(5) write_lists_rest(3) [OF r3] by (simp_all add: write_host_state_fields_def all_host_writes_def)
  have g: "fst (write_guest_state_fields M P h2)" "h3 = snd (write_guest_state_fields M P h2)"
    using a(4) by simp_all
  show ?thesis
    using write_fields_read [OF w(1), of g] guest_read [OF g(1) assms(2)] other_read [OF a(3), of g] assms(3)
      w(2) g(2) write_lists_rest [OF r1] write_lists_rest [OF r2]
    unfolding a(2) [symmetric]
    by (cases "map_of (rev (all_host_writes P h)) g"; cases "map_of (rev (guest_state_writes P h)) g";
       simp add: map_add_def)
qed

lemma all_rest:
  assumes "write_control_fields M P scr3 v h = Inr (True, v', h')"
  shows "rest h' = rest h"
proof (rule all_ok [OF assms])
  fix h1 h2 h3
  assume a: "h1 = snd (write_four_controls M P v h)" "write_other_control_fields M P scr3 v h1 = Inr (True, v', h2)"
    "write_guest_state_fields M P h2 = (True, h3)" "write_host_state_fields M P h3 = (True, h')"
  have "rest h' = rest h3"
    using write_fields_rest [of M "all_host_writes P h3" h3] a(4)
    by (simp add: write_host_state_fields_def all_host_writes_def)
  then show ?thesis
    using write_guest_state_rest [of M P h2] other_rest [OF a(2)] write_four_rest [of M P v h] a by simp
qed

lemma all_eptp:
  assumes "write_control_fields M P scr3 v h = Inr (True, v', h')"
  shows "vmx_vmread M VMCS_CTRL_EPT_POINTER h' = eptp_normal_execution v' \<and> in_normal_execution v'"
proof (rule all_ok [OF assms])
  fix h1 h2 h3
  assume a: "write_other_control_fields M P scr3 v h1 = Inr (True, v', h2)"
    "write_guest_state_fields M P h2 = (True, h3)" "write_host_state_fields M P h3 = (True, h')"
  have w: "fst (write_fields M (all_host_writes P h3) h3)" "h' = snd (write_fields M (all_host_writes P h3) h3)"
    using a(3) by (simp_all add: write_host_state_fields_def all_host_writes_def)
  have g: "fst (write_guest_state_fields M P h2)" "h3 = snd (write_guest_state_fields M P h2)"
    using a(2) by simp_all
  have "map_of (rev (all_host_writes P h3)) VMCS_CTRL_EPT_POINTER = None"
    "map_of (rev (guest_state_writes P h2)) VMCS_CTRL_EPT_POINTER = None"
    by (simp_all add: all_host_writes_def host_register_writes_def host_segment_writes_def host_msr_writes_def
        guest_write_defs Let_def)
  then have "vmx_vmread M VMCS_CTRL_EPT_POINTER h' = vmx_vmread M VMCS_CTRL_EPT_POINTER h2"
    using write_fields_read [OF w(1), of VMCS_CTRL_EPT_POINTER] guest_read [OF g(1), of VMCS_CTRL_EPT_POINTER] w(2) g(2)
    by simp
  moreover obtain en et where "v' = v\<lparr>vc_msr_bitmap := exit_on_mtrrs (mtrr_variable_count P) (vc_msr_bitmap v), ept_pages_normal := en,
       ept_pages_target := et, eptp_normal_execution := eptp_for M (phys_of P (a_pml4_normal P)),
       eptp_target_execution := eptp_for M (phys_of P (a_pml4_target P)), in_normal_execution := True\<rparr>"
    by (rule other_ok [OF a(1)])
  ultimately show ?thesis
    using other_read [OF a(1), of VMCS_CTRL_EPT_POINTER] by simp
qed

lemma hidden_bits: "((w AND NOT v) AND (a OR v)) OR (w AND NOT (a OR v)) = w AND NOT v" for w :: u64
  by (rule bit_eqI) (auto simp: bit_simps)

lemma bit_0x4000: "bit (0x4000 :: u64) n \<longleftrightarrow> n = 14"
proof -
  have "(0x4000 :: u64) = push_bit 14 1" by simp
  then show ?thesis by (simp only: bit_push_bit_iff) (auto simp: bit_1_iff)
qed

lemmas all_write_defs = exit_control_writes_def bitmap_and_event_writes_def guest_write_defs all_host_writes_def
  host_register_writes_def host_segment_writes_def host_msr_writes_def

text \<open>
  How the processor uses the exception bitmap: a page fault is compared with the error code mask
  and match first; it exits if the comparison succeeds exactly when its bit is set.
\<close>

definition exception_exits :: "machine \<Rightarrow> hw \<Rightarrow> nat \<Rightarrow> u64 \<Rightarrow> bool" where
  "exception_exits M h vector pfec =
     (let b = bit (vmx_vmread M VMCS_CTRL_EXCEPTION_BITMAP h) vector in
      if vector = unat page_fault
      then b \<longleftrightarrow> pfec AND vmx_vmread M VMCS_CTRL_PAGEFAULT_ERROR_CODE_MASK h =
                 vmx_vmread M VMCS_CTRL_PAGEFAULT_ERROR_CODE_MATCH h
      else b)"

text \<open>
  C24. The hypervisor stays out of the way of the guest's exceptions and hides VMX. After the fields
  were written, no exception of the guest exits, page faults included, whatever their error code; the
  guest reads CR0 and CR4 as the running system left them, except that the VMX enable bit of CR4 reads
  as 0, while the real CR4 keeps it; the time stamp counter has no offset; the core is in normal mode
  and runs on the normal tables; no event is injected. Nothing but the VMCS of the processor changed.
\<close>

theorem control_setup_is_transparent:
  assumes "write_control_fields M P scr3 v h = Inr (True, v', h')"
  shows "\<not> exception_exits M h' vector pfec \<and>
    get_effective_guest_cr0 M h' = h_cr0 h \<and>
    get_effective_guest_cr4 M h' = h_cr4 h AND NOT CR4_VMX_ENABLE_FLAG \<and> vmx_vmread M VMCS_GUEST_CR4 h' = h_cr4 h \<and>
    vmx_vmread M VMCS_CTRL_TSC_OFFSET h' = 0 \<and>
    vmx_vmread M VMCS_CTRL_EPT_POINTER h' = eptp_normal_execution v' \<and> in_normal_execution v' \<and>
    vmx_vmread M VMCS_CTRL_VMENTRY_INTERRUPTION_INFORMATION_FIELD h' = 0 \<and>
    vmx_vmread M VMCS_CTRL_MSR_BITMAP_ADDRESS h' = phys_of P (a_msr_bitmap P) \<and> rest h' = rest h"
proof -
  let ?L = "exit_control_writes scr3 h @ bitmap_and_event_writes P @ guest_state_writes P h @ all_host_writes P h"
  have r: "map_of (rev ?L) g = Some w \<Longrightarrow> g \<noteq> VMCS_GUEST_VMX_PREEMPTION_TIMER_VALUE \<Longrightarrow> g \<noteq> VMCS_CTRL_EPT_POINTER \<Longrightarrow>
      vmx_vmread M g h' = take_bit (vmcs_width g) w" for g w
    using all_read [OF assms, of g] by auto
  note d = all_write_defs Let_def tsc_hiding_enabled_def vmcs_width_def
  have e: "vmx_vmread M VMCS_CTRL_EXCEPTION_BITMAP h' = 0x4000"
    "vmx_vmread M VMCS_CTRL_PAGEFAULT_ERROR_CODE_MASK h' = 0"
    "vmx_vmread M VMCS_CTRL_PAGEFAULT_ERROR_CODE_MATCH h' = 0xFFFFFFFF"
    by (rule r [THEN trans], simp add: d, simp, simp, simp add: d set_bit_u64_def)+
  have m: "vmx_vmread M VMCS_CTRL_CR4_GUEST_HOST_MASK h' = msrs h IA32_VMX_CR4_FIXED0 OR NOT (msrs h IA32_VMX_CR4_FIXED1) OR CR4_VMX_ENABLE_FLAG"
    "vmx_vmread M VMCS_CTRL_CR0_GUEST_HOST_MASK h' = msrs h IA32_VMX_CR0_FIXED0 OR NOT (msrs h IA32_VMX_CR0_FIXED1)"
    "vmx_vmread M VMCS_CTRL_CR0_READ_SHADOW h' = h_cr0 h"
    "vmx_vmread M VMCS_GUEST_CR0 h' = h_cr0 h" "vmx_vmread M VMCS_GUEST_CR4 h' = h_cr4 h"
    "vmx_vmread M VMCS_CTRL_TSC_OFFSET h' = 0" "vmx_vmread M VMCS_CTRL_VMENTRY_INTERRUPTION_INFORMATION_FIELD h' = 0"
    "vmx_vmread M VMCS_CTRL_MSR_BITMAP_ADDRESS h' = phys_of P (a_msr_bitmap P)"
    by (rule r [THEN trans], simp add: d, simp, simp, simp add: d)+
  have s4: "vmx_vmread M VMCS_CTRL_CR4_READ_SHADOW h' = h_cr4 h AND NOT CR4_VMX_ENABLE_FLAG"
  proof -
    have w: "vmcs_width VMCS_CTRL_CR4_READ_SHADOW = 64" by simp
    have "map_of (rev ?L) VMCS_CTRL_CR4_READ_SHADOW = Some (h_cr4 h AND NOT CR4_VMX_ENABLE_FLAG)"
      by (simp add: d)
    then have "vmx_vmread M VMCS_CTRL_CR4_READ_SHADOW h' =
        take_bit (vmcs_width VMCS_CTRL_CR4_READ_SHADOW) (h_cr4 h AND NOT CR4_VMX_ENABLE_FLAG)"
      by (rule r) simp_all
    then show ?thesis by (simp only: w take_bit_64)
  qed
  have c0: "get_effective_guest_cr0 M h' = h_cr0 h"
    unfolding get_effective_guest_cr0_def m effective_cr_def by (rule bit_eqI) (auto simp: bit_simps)
  have c4: "get_effective_guest_cr4 M h' = h_cr4 h AND NOT CR4_VMX_ENABLE_FLAG"
    unfolding get_effective_guest_cr4_def m s4 effective_cr_def or.assoc [symmetric] by (rule hidden_bits)
  have p: "vmx_vmread M VMCS_CTRL_EPT_POINTER h' = eptp_normal_execution v' \<and> in_normal_execution v'"
    by (rule all_eptp [OF assms])
  have x: "\<not> exception_exits M h' vector pfec"
    unfolding exception_exits_def e Let_def bit_0x4000 by simp
  show ?thesis
    using c0 c4 p x m all_rest [OF assms] by blast
qed

lemma control_setup_ok:
  assumes "\<forall>f. supported M f"
    and "inj_on (ph_split (ph_normal M)) {..<256}" and "inj_on (ph_split (ph_target M)) {..<256}"
    and "inj (pin_bit (ctl M))" and "\<forall>c. pin_bit (ctl M) c < 32"
  shows "\<exists>v' h'. write_control_fields M P scr3 v h =
    Inr (flag (pin_bit (ctl M) activate_vmx_preemption_timer) (may_be_1 M h IA32_VMX_PINBASED_CTLS IA32_VMX_TRUE_PINBASED_CTLS),
         v', h')"
proof -
  let ?t = "pin_bit (ctl M) activate_vmx_preemption_timer"
  let ?m = "may_be_1 M h IA32_VMX_PINBASED_CTLS IA32_VMX_TRUE_PINBASED_CTLS"
  obtain en where en: "initialize_ept (ph_normal M) (vc_mtrr_state v) = Some en"
    using initial_ept_is_identity [OF assms(2)] by blast
  obtain et where et: "initialize_ept (ph_target M) (vc_mtrr_state v) = Some et"
    using initial_ept_is_identity [OF assms(3)] by blast
  have wf: "fst (write_fields M ws h)" for ws h
    by (rule fields_supported [OF assms(1)])
  have wc: "fst (write_control_field M w f a b h)" for w f a b h
    using assms(1) by (simp add: write_control_field_def)
  note groups = write_pin_based_vm_execution_controls_def write_processor_based_vm_execution_controls_def
    write_vmexit_controls_def write_vmentry_controls_def
  have four: "fst (write_four_controls M P v h)"
    by (simp add: write_four_controls_def if_ok_fst groups wf wc)
  let ?h1 = "snd (write_four_controls M P v h)"
  obtain v2 h2 where o: "write_other_control_fields M P scr3 v ?h1 = Inr (True, v2, h2)"
    using wf assms(1) en et by (simp add: write_other_control_fields_def case_prod_unfold Let_def)
  have pin1: "flag ?t (vmx_vmread M VMCS_CTRL_PIN_BASED_VM_EXECUTION_CONTROLS ?h1) \<longleftrightarrow> flag ?t ?m"
  proof -
    let ?w = "ctls (pin_bit (ctl M)) ([(external_interrupt_exiting, False), (nmi_exiting, True), (virtual_nmi, True)] @
          (if tsc_hiding_enabled then [(activate_vmx_preemption_timer, True)] else []) @ [(process_posted_interrupts, False)])"
    have p: "vmx_vmread M VMCS_CTRL_PIN_BASED_VM_EXECUTION_CONTROLS ?h1 =
        take_bit 32 (adjusted_control M h ?w IA32_VMX_PINBASED_CTLS IA32_VMX_TRUE_PINBASED_CTLS)"
      using assms(1)
      by (simp add: write_four_controls_def if_ok_def groups wf wc write_fields_read write_control_other)
        (simp add: write_control_field_def vmcs_width_def)
    have "bit ?w ?t"
      using assms(4) assms(5) [rule_format, of activate_vmx_preemption_timer]
      by (simp add: ctls_def tsc_hiding_enabled_def flag_def [symmetric] inj_eq)
    then show ?thesis
      using assms(5) by (simp add: p flag_def bit_take_bit_iff bit_adjusted_control)
  qed
  let ?r = "write_fields M (guest_state_writes P h2) h2"
  have "map_of (rev (exit_control_writes scr3 ?h1 @ bitmap_and_event_writes P)) VMCS_CTRL_PIN_BASED_VM_EXECUTION_CONTROLS = None"
    "map_of (rev (guest_state_writes P h2)) VMCS_CTRL_PIN_BASED_VM_EXECUTION_CONTROLS = None"
    by (simp_all add: all_write_defs Let_def tsc_hiding_enabled_def)
  then have pin2: "vmx_vmread M VMCS_CTRL_PIN_BASED_VM_EXECUTION_CONTROLS (snd ?r) =
      vmx_vmread M VMCS_CTRL_PIN_BASED_VM_EXECUTION_CONTROLS ?h1"
    using write_fields_read [OF wf [of "guest_state_writes P h2" h2]] other_read [OF o] by (simp add: map_add_def)
  have timer: "fst (write_preemption_timer M (snd ?r)) \<longleftrightarrow> flag ?t ?m"
    using pin1 wf by (simp add: write_preemption_timer_def pin2 tsc_hiding_enabled_def del: write_fields.simps(2))
  have host: "fst (write_host_state_fields M P h3)" for h3
    by (simp add: write_host_state_fields_def wf)
  have g: "fst (if_ok (write_guest_state_fields M P h2) (write_host_state_fields M P)) \<longleftrightarrow> flag ?t ?m"
    using timer wf host by (simp add: if_ok_fst write_guest_state_fields_def)
  obtain h1 where h1: "write_four_controls M P v h = (True, h1)" "?h1 = h1"
    using four by (cases "write_four_controls M P v h") simp
  show ?thesis
    using o g h1 unfolding write_control_fields_def write_four_controls_def [symmetric]
    by (cases "if_ok (write_guest_state_fields M P h2) (write_host_state_fields M P)") simp
qed

text \<open>
  Filling the VMCS succeeds. On a processor that has all fields and allows the preemption timer, the
  extended page tables can be built and every field is written: the function returns success. Without the
  timer control it fails, after all guest fields have been written. Hypotheses: the frames of the
  page tables of a pool differ, and the pin-based controls have different positions below 32.
\<close>

theorem control_setup_succeeds:
  assumes "\<forall>f. supported M f"
    and "inj_on (ph_split (ph_normal M)) {..<256}" and "inj_on (ph_split (ph_target M)) {..<256}"
    and "inj (pin_bit (ctl M))" and "\<forall>c. pin_bit (ctl M) c < 32"
  shows "\<exists>v' h'. write_control_fields M P scr3 v h =
    Inr (flag (pin_bit (ctl M) activate_vmx_preemption_timer) (may_be_1 M h IA32_VMX_PINBASED_CTLS IA32_VMX_TRUE_PINBASED_CTLS),
         v', h')"
  using assms by (rule control_setup_ok)

text \<open>A processor that allows the timer.\<close>

definition launch_hw :: hw where
  "launch_hw = demo_hw\<lparr>msrs := (msrs demo_hw)(IA32_VMX_TRUE_PINBASED_CTLS := 0x000000FF00000016), h_cr4 := 0x3526F8\<rparr>"

lemma pool_frames: "inj_on (\<lambda>k. c + of_nat k :: u64) {..<256}"
proof (rule inj_onI)
  fix a b :: nat
  assume "a \<in> {..<256}" "b \<in> {..<256}" "c + of_nat a = c + of_nat b"
  then show "a = b"
    using inj_of_nat_256 by (simp add: inj_on_def)
qed

lemma sdm_pin: "inj (pin_bit (ctl sdm_machine))" "\<forall>c. pin_bit (ctl sdm_machine) c < 32"
proof -
  show "\<forall>c. pin_bit (ctl sdm_machine) c < 32"
    by (intro allI, case_tac c) (simp_all add: sdm_machine_def sdm_ctl_layout_def)
  show "inj (pin_bit (ctl sdm_machine))"
    by (rule injI, case_tac x; case_tac y) (simp_all add: sdm_machine_def sdm_ctl_layout_def)
qed

lemma sdm_frames: "inj_on (ph_split (ph_normal sdm_machine)) {..<256}" "inj_on (ph_split (ph_target sdm_machine)) {..<256}"
  using pool_frames by (simp_all add: sdm_machine_def)

lemma launch_timer:
  "flag (pin_bit (ctl sdm_machine) activate_vmx_preemption_timer)
     (may_be_1 sdm_machine launch_hw IA32_VMX_PINBASED_CTLS IA32_VMX_TRUE_PINBASED_CTLS)"
  by code_simp

theorem control_setup_succeeds_witness:
  "\<exists>v' h'. write_control_fields sdm_machine demo_platform 0x1AD000 demo_vcpu launch_hw = Inr (True, v', h')"
  using control_setup_succeeds [where M = sdm_machine and P = demo_platform and ?scr3.0 = "0x1AD000" and v = demo_vcpu and h = launch_hw,
      OF _ sdm_frames sdm_pin] launch_timer by simp

lemma launch_setup:
  obtains v' h' where "write_control_fields sdm_machine demo_platform 0x1AD000 demo_vcpu launch_hw = Inr (True, v', h')"
  using control_setup_ok [where M = sdm_machine and P = demo_platform and ?scr3.0 = "0x1AD000" and v = demo_vcpu and h = launch_hw,
      OF _ sdm_frames sdm_pin] launch_timer by auto

theorem control_setup_is_transparent_witness:
  "\<exists>v' h'. write_control_fields sdm_machine demo_platform 0x1AD000 demo_vcpu launch_hw = Inr (True, v', h') \<and>
     get_effective_guest_cr4 sdm_machine h' = 0x3506F8"
proof (rule launch_setup)
  fix v' h'
  assume a: "write_control_fields sdm_machine demo_platform 0x1AD000 demo_vcpu launch_hw = Inr (True, v', h')"
  then show ?thesis
    using control_setup_is_transparent [OF a, of 0 0] by (simp add: launch_hw_def demo_hw_def)
qed

section \<open>Registers whose writes exit\<close>

lemma fold_wrmsr_exiting:
  "wrmsr_exits (fold (\<lambda>m. set_wrmsr_exiting m True) ms bm) m \<longleftrightarrow> m \<in> set ms \<and> in_bitmap m \<or> wrmsr_exits bm m"
  by (induction ms arbitrary: bm) (auto simp: set_wrmsr_exiting_spec)

definition no_exits :: msr_bitmap where
  "no_exits = \<lparr>wrmsr_low = (\<lambda>_. 0), wrmsr_high = (\<lambda>_. 0)\<rparr>"

lemma no_exits [simp]: "wrmsr_exits no_exits m \<longleftrightarrow> \<not> in_bitmap m"
  by (simp add: wrmsr_exits_def no_exits_def in_bitmap_def)

lemma variable_range:
  fixes m :: u32
  assumes "n \<le> 256"
  shows "(\<exists>i < n. m = 0x200 + of_nat i * 2 \<or> m = 0x201 + of_nat i * 2) \<longleftrightarrow> 0x200 \<le> unat m \<and> unat m < 0x200 + 2 * n"
    (is "?l \<longleftrightarrow> ?r")
proof
  have u: "unat (0x200 + of_nat i * 2 :: u32) = 0x200 + 2 * i" "unat (0x201 + of_nat i * 2 :: u32) = 0x201 + 2 * i"
    if "i < n" for i
    using that assms by (simp_all add: unat_word_ariths unsigned_of_nat take_bit_eq_mod)
  show "?l \<Longrightarrow> ?r"
    using u by auto
  show ?l if r: ?r
  proof (intro exI conjI)
    let ?i = "(unat m - 0x200) div 2"
    show "?i < n" using r by linarith
    have "unat m = 0x200 + 2 * ?i \<or> unat m = 0x201 + 2 * ?i" using r by linarith
    then show "m = 0x200 + of_nat ?i * 2 \<or> m = 0x201 + of_nat ?i * 2"
      using u [OF \<open>?i < n\<close>] by (metis word_unat_eq_iff)
  qed
qed

text \<open>
  Writes of exactly the memory type registers exit. From an empty bitmap, a write of a register
  the bitmap covers exits if and only if it is the default type register, one of the eleven fixed range
  registers, or one of the first 2n registers from 0x200 on, where n is the number of variable ranges the
  headers declare. For the ten pairs the handler of WRMSR knows, the registers that exit are exactly
  the ones after which it follows the memory types. Hypothesis: the registers fit the block.
\<close>

theorem mtrr_writes_exit:
  assumes "n \<le> 256" and "in_bitmap m"
  shows "(wrmsr_exits (exit_on_mtrrs n no_exits) m \<longleftrightarrow>
      m = 0x2FF \<or> m = 0x250 \<or> m = 0x258 \<or> m = 0x259 \<or> 0x268 \<le> unat m \<and> unat m \<le> 0x26F \<or>
      0x200 \<le> unat m \<and> unat m < 0x200 + 2 * n) \<and>
    (n = 10 \<longrightarrow> wrmsr_exits (exit_on_mtrrs n no_exits) m = is_mtrr_msr m)"
proof -
  have f: "m \<in> set fix4k_msrs \<longleftrightarrow> 0x268 \<le> unat m \<and> unat m \<le> 0x26F"
    by (auto simp: fix4k_msrs_def word_unat_eq_iff)
  have e: "wrmsr_exits (exit_on_mtrrs n no_exits) m \<longleftrightarrow>
      m = 0x2FF \<or> m = 0x250 \<or> m = 0x258 \<or> m = 0x259 \<or> 0x268 \<le> unat m \<and> unat m \<le> 0x26F \<or>
      0x200 \<le> unat m \<and> unat m < 0x200 + 2 * n"
    using assms(2) unfolding exit_on_mtrrs_def fold_wrmsr_exiting no_exits
    by (auto simp: mtrr_exit_msrs_def f variable_range [OF assms(1), symmetric] fix16k_msrs_def IA32_MTRR_DEF_TYPE_def
        IA32_MTRR_FIX64K_00000_def IA32_MTRR_PHYSBASE0_def IA32_MTRR_PHYSMASK0_def)
  moreover have "is_mtrr_msr m \<longleftrightarrow>
      m = 0x2FF \<or> m = 0x250 \<or> m = 0x258 \<or> m = 0x259 \<or> 0x268 \<le> unat m \<and> unat m \<le> 0x26F \<or>
      0x200 \<le> unat m \<and> unat m < 0x200 + 2 * 10"
    by (simp add: is_mtrr_msr_def fix16k_msrs_def fix4k_msrs_def IA32_MTRR_DEF_TYPE_def IA32_MTRR_FIX64K_00000_def
        IA32_MTRR_PHYSBASE0_def word_le_nat_alt word_unat_eq_iff) linarith
  ultimately show ?thesis by blast
qed

text \<open>
  With the 255 pairs the headers declare, writes of IA32_PAT and IA32_PERF_GLOBAL_CTRL exit too, the
  handler writes the register of the host, and the guest's value in the VMCS, loaded at the next VM
  entry, stays what it was.
\<close>

theorem mtrr_writes_exit_witness:
  "wrmsr_exits (exit_on_mtrrs 255 no_exits) IA32_PAT \<and> wrmsr_exits (exit_on_mtrrs 255 no_exits) IA32_PERF_GLOBAL_CTRL \<and>
   \<not> wrmsr_exits (exit_on_mtrrs 10 no_exits) IA32_PAT"
  using mtrr_writes_exit [of 255 IA32_PAT] mtrr_writes_exit [of 255 IA32_PERF_GLOBAL_CTRL] mtrr_writes_exit [of 10 IA32_PAT]
  by (simp add: in_bitmap_def)

section \<open>The host\<close>

lemma host_read:
  assumes "write_host_state_fields M P h = (True, h')"
  shows "vmx_vmread M g h' = (case map_of (rev (all_host_writes P h)) g of
    Some v \<Rightarrow> take_bit (vmcs_width g) v | None \<Rightarrow> vmx_vmread M g h)"
  using assms write_fields_read [of M "all_host_writes P h" h g]
  by (simp add: write_host_state_fields_def all_host_writes_def)

lemma aligned_top:
  fixes s :: u64
  assumes "unat s \<le> 2 ^ 64 - 0x8001" and "s AND 0xF = 0"
  shows "(s + 0x8000) AND NOT 0xF = s + 0x8000"
proof -
  have m: "(0xF :: u64) = mask 4" by (simp add: mask_eq_exp_minus_1)
  have u: "unat (take_bit 4 w) = unat w mod 16" for w :: u64
    by (simp add: take_bit_eq_mod unat_mod)
  have "unat s mod 16 = 0"
    using assms(2) u [of s] by (simp add: m take_bit_eq_mask [symmetric])
  moreover have "unat (s + 0x8000) = unat s + 0x8000"
    using assms(1) by (simp add: unat_word_ariths)
  ultimately have "unat (take_bit 4 (s + 0x8000)) = 0"
    unfolding u by presburger
  then have "(s + 0x8000) AND mask 4 = 0"
    by (simp add: unat_eq_0 take_bit_eq_mask [symmetric])
  then have z: "\<not> (bit (s + 0x8000) n \<and> n < 4)" for n
    by (metis bit_0_eq bit_and_iff bit_imp_le_length bit_mask_iff bot_apply bot_bool_def possible_bit_word not_le)
  show ?thesis
    unfolding m by (rule bit_eqI) (use z in \<open>auto simp: bit_simps\<close>)
qed

text \<open>
  An exit enters the host where it should. After the host fields were written the processor will
  load at every exit: the stub as instruction pointer, the 16-byte aligned top of the core's own stack,
  the host's page tables, descriptor tables and task segment, whose base is the one the TR selector
  resolves to in that descriptor table, the address of the virtual processor as the base of FS, through which
  \<open>current_vcpu\<close> finds it, long mode with no-execute on, and write-back as the first memory type
  of the page attribute table, which the entries of the host's page tables use.
  Hypotheses: the layouts are as documented, the tables were built, the stack is aligned in memory.
\<close>

theorem host_state_is_own:
  assumes "write_host_state_fields M P h = (True, h')" and "desc_layout_ok (sgl P)"
    and "\<forall>i < 5. gm (a_host_gdt P + of_nat i * 8) = initialize_gdt (sgl P) (a_host_tss P) ! i"
    and "unat (a_host_stack P) \<le> 2 ^ 64 - 0x8001" and "a_host_stack P AND 0xF = 0"
    and "fst (cr3_pfn P) + snd (cr3_pfn P) \<le> 64" and "\<forall>i. pat_member P i = (8 * i, 3)"
    and "efer_bits P = (8, 10, 0, 11)"
  shows "vmx_vmread M VMCS_HOST_RIP h' = a_vmexit_stub P \<and>
    vmx_vmread M VMCS_HOST_RSP h' = a_host_stack P + host_stack_size \<and>
    get_member (cr3_pfn P) (vmx_vmread M VMCS_HOST_CR3 h') = take_bit (snd (cr3_pfn P)) (drop_bit 12 (phys_of P (a_host_pml4 P))) \<and>
    vmx_vmread M VMCS_HOST_FS_BASE h' = a_vcpu P \<and> vmx_vmread M VMCS_HOST_IDTR_BASE h' = a_host_idt P \<and>
    vmx_vmread M VMCS_HOST_TR_BASE h' =
      base_address (sgl P) gm (vmx_vmread M VMCS_HOST_GDTR_BASE h') (ucast (vmx_vmread M VMCS_HOST_TR_SELECTOR h')) \<and>
    vmx_vmread M VMCS_HOST_EFER h' = 0xD01 \<and> get_member (pat_member P 0) (vmx_vmread M VMCS_HOST_PAT h') = MEMORY_TYPE_WRITE_BACK"
proof -
  note r = host_read [OF assms(1)]
  note d = all_host_writes_def host_register_writes_def host_segment_writes_def host_msr_writes_def
  have e: "host_efer P = 0xD01"
    by (simp add: host_efer_def assms(8) put_flag_def set_bit_u64_def)
  have pat: "get_member (8 * 0, 3) (host_pat P) = MEMORY_TYPE_WRITE_BACK"
    unfolding host_pat_def assms(7) [rule_format] by (simp add: put_members apart_def take_bit_eq_mod)
  have tr: "ucast (ucast (host_tr (sgl P)) :: u64) = host_tr (sgl P)"
    by (rule bit_eqI) (auto simp: bit_ucast_iff dest: bit_imp_le_length)
  have base: "base_address (sgl P) gm (a_host_gdt P) (host_tr (sgl P)) = a_host_tss P"
    using host_gdt [OF assms(2,3)] by blast
  have rsp: "vmx_vmread M VMCS_HOST_RSP h' = a_host_stack P + host_stack_size"
    using aligned_top [OF assms(4,5)] by (simp add: r d vmcs_width_def host_stack_size_def)
  have sel: "vmx_vmread M VMCS_HOST_TR_SELECTOR h' = ucast (host_tr (sgl P))"
    by (simp add: r d vmcs_width_def take_bit_16_ucast)
  have "vmx_vmread M VMCS_HOST_TR_BASE h' = a_host_tss P" "vmx_vmread M VMCS_HOST_GDTR_BASE h' = a_host_gdt P"
    "vmx_vmread M VMCS_HOST_RIP h' = a_vmexit_stub P" "vmx_vmread M VMCS_HOST_FS_BASE h' = a_vcpu P"
    "vmx_vmread M VMCS_HOST_IDTR_BASE h' = a_host_idt P" "vmx_vmread M VMCS_HOST_EFER h' = host_efer P"
    "vmx_vmread M VMCS_HOST_PAT h' = host_pat P"
    "vmx_vmread M VMCS_HOST_CR3 h' = put_member (cr3_pfn P) (drop_bit 12 (phys_of P (a_host_pml4 P))) 0"
    by (simp_all add: r d vmcs_width_def)
  then show ?thesis
    using rsp sel base e pat assms(6,7) by (simp add: tr)
qed

definition demo_gdt_mem :: "u64 \<Rightarrow> u64" where
  "demo_gdt_mem a = initialize_gdt sdm_seg_layout 0x10008000 ! (unat (a - 0x10009000) div 8)"

theorem host_state_is_own_witness:
  "vmx_vmread sdm_machine VMCS_HOST_RSP (snd (write_host_state_fields sdm_machine demo_platform demo_hw)) = 0x10008000 \<and>
   vmx_vmread sdm_machine VMCS_HOST_FS_BASE (snd (write_host_state_fields sdm_machine demo_platform demo_hw)) = 0x10000000"
proof -
  have w: "write_host_state_fields sdm_machine demo_platform demo_hw =
      (True, snd (write_host_state_fields sdm_machine demo_platform demo_hw))"
    by (simp add: prod_eq_iff write_host_state_fields_def fields_supported)
  have g: "\<forall>i < 5. demo_gdt_mem (a_host_gdt demo_platform + of_nat i * 8) =
      initialize_gdt (sgl demo_platform) (a_host_tss demo_platform) ! i"
  proof (intro allI impI)
    fix i :: nat
    assume "i < 5"
    then have "unat (of_nat i * 8 :: u64) div 8 = i"
      using unat_of_nat_64 [of "i * 8"] by simp
    then show "demo_gdt_mem (a_host_gdt demo_platform + of_nat i * 8) =
        initialize_gdt (sgl demo_platform) (a_host_tss demo_platform) ! i"
      by (simp add: demo_gdt_mem_def demo_platform_def)
  qed
  show ?thesis
    using host_state_is_own [OF w _ g] by (simp add: demo_platform_def host_stack_size_def)
qed

end
