(* ===== verification/Launch.thy ===== *)
theory Launch
  imports Vmcs_State
begin

text \<open>
  Turning a running core into a guest and back: \<open>revhv-km/vmx.cpp\<close>, \<open>vcpu.cpp\<close>, \<open>stealth.cpp\<close>,
  \<open>vmlaunch_stub.asm\<close>, \<open>hv::start\<close> of \<open>hv.cpp\<close> and the thread of \<open>main.cpp\<close> that calls it. What the
  processor answers to VMXON, VMCLEAR, VMPTRLD and VMLAUNCH is a parameter, like the measurements of
  the time stamp counter. Log output is left out.
\<close>

section \<open>VMX operation\<close>

text \<open>
  A failed VMLAUNCH is the value of RFLAGS after it. The positions of the six status flags are
  given in the order CF, PF, AF, ZF, SF, OF; the address and the stack pointer are those the stub
  resumes with in the guest.
\<close>

record vmx_answers =
  vmxon_ok :: "hw \<Rightarrow> u64 \<Rightarrow> bool"
  vmclear_ok :: "hw \<Rightarrow> u64 \<Rightarrow> bool"
  vmptrld_ok :: "hw \<Rightarrow> u64 \<Rightarrow> bool"
  vmlaunch_fails :: "hw \<Rightarrow> u64 option"
  status_flags :: "nat \<times> nat \<times> nat \<times> nat \<times> nat \<times> nat"
  successful_launch :: u64
  launch_rsp :: u64

definition check_vmx_support :: "machine \<Rightarrow> hw \<Rightarrow> bool" where
  "check_vmx_support M h =
     (if \<not> flag (cpuid_vmx (ftl M)) (cpuid_1_ecx M) then False
      else let featureControl = msrs h IA32_FEATURE_CONTROL in
        if \<not> flag (fc_lock (ftl M)) featureControl then False
        else if \<not> flag (fc_vmx_outside_smx (ftl M)) featureControl then False
        else True)"

text \<open>Bit 9 of RFLAGS is the interrupt flag, which \<open>_enable\<close> sets.\<close>

definition sti :: "hw \<Rightarrow> hw" where
  "sti h = h\<lparr>h_rflags := set_bit_u64 (h_rflags h) 9\<rparr>"

definition enable_vmx :: "machine \<Rightarrow> hw \<Rightarrow> hw" where
  "enable_vmx M h =
     (let cr4 = put_flag (cr4_vmxe (crl M)) True (h_cr4 h);
          cr0 = (h_cr0 h OR msrs h IA32_VMX_CR0_FIXED0) AND msrs h IA32_VMX_CR0_FIXED1;
          cr4 = (cr4 OR msrs h IA32_VMX_CR4_FIXED0) AND msrs h IA32_VMX_CR4_FIXED1
      in sti (h\<lparr>h_cr4 := cr4, h_cr0 := cr0\<rparr>))"

definition enter_vmx_operation :: "machine \<Rightarrow> platform \<Rightarrow> vmx_answers \<Rightarrow> vcpu \<Rightarrow> hw \<Rightarrow> bool \<times> vcpu \<times> hw" where
  "enter_vmx_operation M P A v h =
     (let v1 = v\<lparr>vmxon_revision := get_member (basic_revision_id (ctl M)) (msrs h IA32_VMX_BASIC)\<rparr> in
      if \<not> vmxon_ok A h (phys_of P (a_vmxon_region P)) then (False, v1, h)
      else (True, v1\<lparr>tsc_preemption_relation_bit := ucast (get_member (misc_tsc_relationship (ctl M)) (msrs h IA32_VMX_MISC))\<rparr>,
            h\<lparr>h_in_vmx := True\<rparr>))"

definition load_vmcs :: "machine \<Rightarrow> platform \<Rightarrow> vmx_answers \<Rightarrow> vcpu \<Rightarrow> hw \<Rightarrow> bool \<times> vcpu \<times> hw" where
  "load_vmcs M P A v h =
     (let v1 = v\<lparr>vmcs_revision := get_member (basic_revision_id (ctl M)) (msrs h IA32_VMX_BASIC)\<rparr>;
          vmcsPhys = phys_of P (a_vmcs_region P) in
      if \<not> vmclear_ok A h vmcsPhys then (False, v1, h)
      else if \<not> vmptrld_ok A h vmcsPhys then (False, v1, h)
      else (True, v1, h))"

definition vmx_vmlaunch_stub :: "machine \<Rightarrow> vmx_answers \<Rightarrow> hw \<Rightarrow> u64 option \<times> hw" where
  "vmx_vmlaunch_stub M A h =
     (let h1 = vmwrite M VMCS_GUEST_RSP (launch_rsp A) (vmwrite M VMCS_GUEST_RIP (successful_launch A) h)
      in (vmlaunch_fails A h1, h1))"

text \<open>What \<open>launch_vm\<close> finds out about a failure, and then only logs.\<close>

datatype launch_failure = VMfailInvalid | VMfailValid u64 | Invalid_rflags

definition classify_failure :: "machine \<Rightarrow> vmx_answers \<Rightarrow> u64 \<Rightarrow> hw \<Rightarrow> launch_failure" where
  "classify_failure M A rf h =
     (case status_flags A of (c, p, a, z, s, ov) \<Rightarrow>
        let cf = flag c rf; pf = flag p rf; af = flag a rf; zf = flag z rf; sf = flag s rf; ovf = flag ov rf in
        if cf \<and> \<not> pf \<and> \<not> af \<and> \<not> zf \<and> \<not> sf \<and> \<not> ovf then VMfailInvalid
        else if \<not> cf \<and> \<not> pf \<and> \<not> af \<and> zf \<and> \<not> sf \<and> \<not> ovf
             then VMfailValid (vmx_vmread M VMCS_VM_INSTRUCTION_ERROR h)
        else Invalid_rflags)"

definition launch_vm :: "machine \<Rightarrow> vmx_answers \<Rightarrow> hw \<Rightarrow> launch_failure option \<times> hw" where
  "launch_vm M A h =
     (case vmx_vmlaunch_stub M A h of
        (Some rf, h1) \<Rightarrow> (Some (classify_failure M A rf h1), h1)
      | (None, h1) \<Rightarrow> (None, h1))"

definition exit_vmx_operation :: "hw \<Rightarrow> hw" where
  "exit_vmx_operation h = h\<lparr>h_in_vmx := False\<rparr>"

section \<open>Registers stored by the processor at an exit\<close>

text \<open>Three entries, the time stamp counter last.\<close>

definition add_msr_entry :: "hw \<Rightarrow> u32 \<Rightarrow> nat \<Rightarrow> stealth_data \<Rightarrow> stealth_data" where
  "add_msr_entry h msr i data =
     data\<lparr>msr_entries := (msr_entries data)[i := \<lparr>msr_index = msr, msr_reserved = 0, msr_data = msrs h msr\<rparr>]\<rparr>"

definition zeroed_stealth_data :: stealth_data where
  "zeroed_stealth_data = \<lparr>msr_entries = replicate max_msr_entries \<lparr>msr_index = 0, msr_reserved = 0, msr_data = 0\<rparr>,
     msr_store_count = 0, msr_load_count = 0,
     tsc_data_of = \<lparr>tsc_offset = 0, stored_tsc = 0, vmexit_to_store_overhead = 0, instruction_overhead = 0, vmentry_overhead = 0\<rparr>,
     bench_completed = False\<rparr>"

definition prepare_msr_entries :: "hw \<Rightarrow> stealth_data" where
  "prepare_msr_entries h =
     (add_msr_entry h IA32_TIME_STAMP_COUNTER 2 (add_msr_entry h IA32_APERF 1 (add_msr_entry h IA32_MPERF 0 zeroed_stealth_data)))
       \<lparr>msr_store_count := of_nat max_msr_entries, msr_load_count := of_nat (max_msr_entries - 1)\<rparr>"

text \<open>
  One run of \<open>stealth_vmexit_bench_one\<close>: the counter before the exit, what the processor stored in the
  entries at the exit, and the time the entry took.
\<close>

record bench_sample =
  pre_exit_tsc :: u64
  stored_msrs :: "u64 list"
  entry_time :: u64

definition bench_one :: "bench_sample \<Rightarrow> stealth_data \<Rightarrow> stealth_data" where
  "bench_one s data = data\<lparr>msr_entries := map2 (\<lambda>e x. e\<lparr>msr_data := x\<rparr>) (msr_entries data) (stored_msrs s)\<rparr>"

definition new_minimum :: "u64 \<Rightarrow> u64 \<Rightarrow> u64" where
  "new_minimum d m = (if d < m \<or> m = 0 then d else m)"

definition warmup_iterations :: nat where "warmup_iterations = 100"
definition bench_iterations :: nat where "bench_iterations = 10000"

definition bench_iteration :: "bench_sample \<Rightarrow> stealth_data \<times> u64 \<times> u64 \<Rightarrow> stealth_data \<times> u64 \<times> u64" where
  "bench_iteration s = (\<lambda>(data, min_exit, min_entry).
     let data' = bench_one s data; diff = msr_data (msr_entries data' ! 2) - pre_exit_tsc s
     in (data', new_minimum diff min_exit, new_minimum (entry_time s) min_entry))"

definition bench_tsc_overhead :: "(nat \<Rightarrow> bench_sample) \<Rightarrow> stealth_data \<Rightarrow> stealth_data" where
  "bench_tsc_overhead samples data =
     (let data1 = fold (\<lambda>i. bench_one (samples i)) [0..<warmup_iterations] data;
          (data2, min_exit, min_entry) =
            fold (\<lambda>i. bench_iteration (samples (warmup_iterations + i))) [0..<bench_iterations] (data1, 0, 0)
      in data2\<lparr>tsc_data_of := (tsc_data_of data2)\<lparr>vmexit_to_store_overhead := min_exit, vmentry_overhead := min_entry\<rparr>,
               bench_completed := True\<rparr>)"

section \<open>Capturing and restoring the system\<close>

definition capture_context :: "hw \<Rightarrow> restore_context" where
  "capture_context h =
     \<lparr>rc_gdtr = h_gdtr h, rc_idtr = h_idtr h, rc_cr3 = h_cr3 h, rc_cr4 = h_cr4 h, rc_cr0 = h_cr0 h,
      rc_selector = h_selector h, rc_fs_base = msrs h IA32_FS_BASE, rc_gs_base = msrs h IA32_GS_BASE,
      rc_kernel_gs_base = msrs h IA32_KERNEL_GS_BASE, rc_efer = msrs h IA32_EFER, rc_pat = msrs h IA32_PAT,
      rc_sysenter_cs = msrs h IA32_SYSENTER_CS, rc_sysenter_esp = msrs h IA32_SYSENTER_ESP,
      rc_sysenter_eip = msrs h IA32_SYSENTER_EIP\<rparr>"

definition wrmsr :: "u32 \<Rightarrow> u64 \<Rightarrow> hw \<Rightarrow> hw" where
  "wrmsr m v h = h\<lparr>msrs := (msrs h)(m := v)\<rparr>"

text \<open>
  Loading the task register faults unless the descriptor is inside the table and an available TSS. Loading
  FS or GS sets the base of the segment from its descriptor; the value is a parameter.
\<close>

definition load_tr :: "seg_layout \<Rightarrow> nat \<Rightarrow> (nat \<Rightarrow> u64) \<Rightarrow> u16 \<Rightarrow> hw \<Rightarrow> hw option" where
  "load_tr L limit table sel h =
     (let off = unat (selector_index L sel) * 8 in
      if off + 15 \<le> limit \<and> get_member (sd_type L) (table off) = SEGMENT_DESCRIPTOR_TYPE_TSS_AVAILABLE
      then Some (h\<lparr>h_selector := (h_selector h)(seg_tr := sel)\<rparr>) else None)"

definition load_selector :: "(u16 \<Rightarrow> u64) \<Rightarrow> segment \<Rightarrow> u16 \<Rightarrow> hw \<Rightarrow> hw" where
  "load_selector seg_base s sel h =
     (let h1 = h\<lparr>h_selector := (h_selector h)(s := sel)\<rparr> in
      if s = seg_fs then wrmsr IA32_FS_BASE (seg_base sel) h1
      else if s = seg_gs then wrmsr IA32_GS_BASE (seg_base sel) h1 else h1)"

definition dummy_gdt_size :: nat where "dummy_gdt_size = 0xFFFF"

definition gdt_copy_size :: "restore_context \<Rightarrow> nat" where
  "gdt_copy_size rc =
     (if unat (snd (rc_gdtr rc)) + 1 < dummy_gdt_size then unat (snd (rc_gdtr rc)) + 1 else dummy_gdt_size)"

text \<open>The copy of the descriptor table, by byte offset of a quadword, with the task descriptor made available.\<close>

definition dummy_gdt :: "platform \<Rightarrow> restore_context \<Rightarrow> nat \<Rightarrow> u64" where
  "dummy_gdt P rc off =
     (let d = kernel_mem P (fst (rc_gdtr rc) + of_nat off);
          tr_offset = unat (selector_index (sgl P) (rc_selector rc seg_tr)) * 8
      in if tr_offset + 16 \<le> gdt_copy_size rc \<and> off = tr_offset
         then put_member (sd_type (sgl P)) SEGMENT_DESCRIPTOR_TYPE_TSS_AVAILABLE d else d)"

text \<open>Write-back of the caches and toggling of the global page flag change no register.\<close>

definition devirtualize :: "platform \<Rightarrow> (u16 \<Rightarrow> u64) \<Rightarrow> u64 \<Rightarrow> restore_context \<Rightarrow> hw \<Rightarrow> hw option" where
  "devirtualize P seg_base dummy_addr rc h =
     (let h1 = wrmsr IA32_PAT (rc_pat rc) ((exit_vmx_operation h)\<lparr>h_cr3 := rc_cr3 rc\<rparr>);
          h2 = wrmsr IA32_SYSENTER_EIP (rc_sysenter_eip rc) (wrmsr IA32_SYSENTER_ESP (rc_sysenter_esp rc)
                 (wrmsr IA32_SYSENTER_CS (rc_sysenter_cs rc) (wrmsr IA32_EFER (rc_efer rc) h1)));
          h3 = h2\<lparr>h_idtr := rc_idtr rc\<rparr>;
          h4 = h3\<lparr>h_gdtr := (dummy_addr, of_nat (gdt_copy_size rc - 1))\<rparr>
      in case load_tr (sgl P) (gdt_copy_size rc - 1) (dummy_gdt P rc) (rc_selector rc seg_tr) h4 of
           None \<Rightarrow> None
         | Some h5 \<Rightarrow>
             let h6 = h5\<lparr>h_gdtr := rc_gdtr rc\<rparr>;
                 h7 = load_selector seg_base seg_gs (rc_selector rc seg_gs)
                       (load_selector seg_base seg_fs (rc_selector rc seg_fs)
                        (load_selector seg_base seg_es (rc_selector rc seg_es)
                         (load_selector seg_base seg_ds (rc_selector rc seg_ds) h6)))
             in Some (wrmsr IA32_KERNEL_GS_BASE (rc_kernel_gs_base rc)
                       (wrmsr IA32_GS_BASE (rc_gs_base rc) (wrmsr IA32_FS_BASE (rc_fs_base rc) h7))))"

section \<open>Virtualising a core\<close>

text \<open>The core, the tables built for its host side, and whether it runs as a guest.\<close>

record launch_state =
  ls_vcpu :: vcpu
  ls_hw :: hw
  ls_gdt :: "u64 list"
  ls_tss :: task_state_segment
  ls_idt :: "(u64 \<times> u64) list"

definition build_host_tables :: "platform \<Rightarrow> launch_state \<Rightarrow> launch_state" where
  "build_host_tables P ls =
     ls\<lparr>ls_gdt := initialize_gdt (sgl P) (a_host_tss P),
        ls_tss := initialize_tss (a_host_ist1_nmi P) (a_host_ist2_df P) (a_host_ist3_mc P) ist_size,
        ls_idt := initialize_idt (gtl P) (sgl P) (a_isr P)\<rparr>"

definition virtualize :: "machine \<Rightarrow> platform \<Rightarrow> vmx_answers \<Rightarrow> (nat \<Rightarrow> bench_sample) \<Rightarrow> u64 \<Rightarrow> launch_state \<Rightarrow> stop + bool \<times> launch_state" where
  "virtualize M P A samples scr3 ls =
     (if \<not> check_vmx_support M (ls_hw ls) then Inr (False, ls)
      else let ls1 = ls\<lparr>ls_vcpu := (ls_vcpu ls)\<lparr>restore_ctx := capture_context (ls_hw ls)\<rparr>, ls_hw := enable_vmx M (ls_hw ls)\<rparr> in
        case enter_vmx_operation M P A (ls_vcpu ls1) (ls_hw ls1) of (ok1, v1, h1) \<Rightarrow>
          let ls2 = ls1\<lparr>ls_vcpu := v1, ls_hw := h1\<rparr> in
          if \<not> ok1 then Inr (False, ls2)
          else
            let ls3 = build_host_tables P ls2;
                v2 = v1\<lparr>vc_mtrr_state := read_mtrrs (mtrrl M) (msrs h1), stealth := prepare_msr_entries h1\<rparr> in
            case load_vmcs M P A v2 h1 of (ok2, v3, h2) \<Rightarrow>
              if \<not> ok2 then Inr (False, ls3\<lparr>ls_vcpu := v3, ls_hw := h2\<rparr>)
              else and_then (write_control_fields M P scr3 v3 h2) (\<lambda>(ok3, v4, h3).
                if \<not> ok3 then Inr (False, ls3\<lparr>ls_vcpu := v4, ls_hw := h3\<rparr>)
                else case launch_vm M A h3 of
                    (Some f, h4) \<Rightarrow> Inr (False, ls3\<lparr>ls_vcpu := v4, ls_hw := h4\<rparr>)
                  | (None, h4) \<Rightarrow>
                      Inr (True, ls3\<lparr>ls_vcpu := v4\<lparr>stealth := bench_tsc_overhead samples (stealth v4)\<rparr>, ls_hw := sti h4\<rparr>)))"

section \<open>Starting the hypervisor\<close>

text \<open>All cores in turn; a failure does not stop the loop.\<close>

fun virtualize_all ::
  "(nat \<Rightarrow> launch_state \<Rightarrow> stop + bool \<times> launch_state) \<Rightarrow> nat list \<Rightarrow> (nat \<Rightarrow> launch_state) \<Rightarrow> bool \<Rightarrow>
     stop + bool \<times> (nat \<Rightarrow> launch_state)" where
  "virtualize_all virt [] cores success = Inr (success, cores)"
| "virtualize_all virt (i # is) cores success =
     and_then (virt i ((cores i)\<lparr>ls_vcpu := (ls_vcpu (cores i))\<lparr>core_id := of_nat i\<rparr>\<rparr>)) (\<lambda>(ok, ls).
       virtualize_all virt is (cores(i := ls)) (if ok then success else False))"

datatype ntstatus = STATUS_SUCCESS | STATUS_UNSUCCESSFUL

definition thread_entry :: "bool \<Rightarrow> ntstatus \<Rightarrow> ntstatus" where
  "thread_entry started status =
     (let status1 = (if \<not> started then STATUS_UNSUCCESSFUL else status); status2 = STATUS_SUCCESS in status2)"

end
