(* ===== verification/Launch_Inv.thy ===== *)
theory Launch_Inv
  imports Launch Vmexit_Inv
begin

text \<open>
  A launched core satisfies the invariant every exit keeps, a core given back to the system has the
  system's registers, and the measured overheads are minima.
\<close>

section \<open>Freshly built tables\<close>

lemma set_pt_types_fields:
  "set_pt_types st k ns ep = Some (u, ep') \<Longrightarrow> pfn_fields ep \<Longrightarrow> pfn_fields ep'"
proof (induction ns arbitrary: ep)
  case (Cons n ns)
  let ?p = "split_pte_pfns ep k"
  obtain t v where t: "get_mtrr_range_memory_type st (push_bit 12 (page_frame_number (pt_frames ep ?p n))) 0x1000 = Some (t, v)"
    using Cons.prems(1) by (auto simp: Let_def split: option.splits)
  let ?e = "ep\<lparr>pt_frames := (pt_frames ep)(?p := (pt_frames ep ?p)(n := (pt_frames ep ?p n)\<lparr>memory_type := t\<rparr>))\<rparr>"
  show ?case
  proof (cases v)
    case True
    moreover have "pfn_fields ?e"
      using Cons.prems(2) by (auto simp: pfn_fields_def)
    ultimately show ?thesis
      using Cons.IH [of ?e] Cons.prems(1) t by (simp add: Let_def)
  next
    case False
    then show ?thesis
      using Cons.prems t by (simp add: Let_def)
  qed
qed simp

lemma set_large_type_fields: "pfn_fields ep \<Longrightarrow> pfn_fields (set_large_type ep i j t)"
  by (auto simp: pfn_fields_def set_large_type_def split: ept_pd_slot.splits if_splits)

lemma split_pde_none: "split_pde ep i j = (ep', None) \<Longrightarrow> ep' = ep"
  by (auto simp: split_pde_def Let_def split: ept_pd_slot.splits if_splits)

lemma init_pde_fields:
  assumes "init_pde st i j ep0 = Some (u, ep')" and "pfn_fields ep0" and "i < 512" and "j < 512"
  shows "pfn_fields ep'"
proof -
  let ?ep = "ep0\<lparr>pde := (pde ep0)(i := (pde ep0 i)(j := Large (fresh_large i j)))\<rparr>"
  have f: "pfn_fields ?ep"
    using assms(2) unat_fresh_pfn [OF assms(3,4)] by (auto simp: pfn_fields_def)
  obtain t v where t: "get_mtrr_range_memory_type st (push_bit 21 (page_frame_number (fresh_large i j))) 0x200000 = Some (t, v)"
    using assms(1) by (auto simp: init_pde_def Let_def split: option.splits)
  obtain e q where s: "split_pde ?ep i j = (e, q)"
    by (cases "split_pde ?ep i j")
  consider "v" | "\<not> v" "q = None" | k where "\<not> v" "q = Some k"
    by (cases q) auto
  then show ?thesis
  proof cases
    case 1
    then show ?thesis
      using assms(1) t set_large_type_fields [OF f] by (auto simp: init_pde_def Let_def)
  next
    case 2
    then show ?thesis
      using assms(1) t s set_large_type_fields [OF f] split_pde_none [of ?ep i j e] by (auto simp: init_pde_def Let_def)
  next
    case (3 k)
    then have "set_pt_types st k [0..<512] e = Some (u, ep')"
      using assms(1) t s by (simp add: init_pde_def Let_def)
    moreover have "pfn_fields e"
      using split_pde_fields [OF f] s 3(2) by simp
    ultimately show ?thesis by (rule set_pt_types_fields)
  qed
qed

lemma init_pdes_fields:
  "init_pdes st i js ep = Some (u, ep') \<Longrightarrow> pfn_fields ep \<Longrightarrow> i < 512 \<Longrightarrow> \<forall>j \<in> set js. j < 512 \<Longrightarrow> pfn_fields ep'"
proof (induction js arbitrary: ep)
  case (Cons j js)
  obtain u1 e1 where e: "init_pde st i j ep = Some (u1, e1)"
    using Cons.prems(1) by (auto split: option.splits)
  have f: "pfn_fields e1"
    using init_pde_fields [OF e Cons.prems(2,3)] Cons.prems(4) by simp
  then show ?case
    using Cons.IH [of e1] Cons.prems e by (cases u1) simp_all
qed simp

lemma set_pdpte_fields [simp]: "pfn_fields (set_pdpte i p ep) = pfn_fields ep"
  by (simp add: set_pdpte_def pfn_fields_def)

lemma init_pdptes_fields:
  "init_pdptes st f is ep = Some (u, ep') \<Longrightarrow> pfn_fields ep \<Longrightarrow> \<forall>i \<in> set is. i < 512 \<Longrightarrow> pfn_fields ep'"
proof (induction "is" arbitrary: ep)
  case (Cons i "is")
  obtain u1 e1 where e: "init_pdes st i [0..<512] (set_pdpte i (f i) ep) = Some (u1, e1)"
    using Cons.prems(1) by (auto split: option.splits)
  have "pfn_fields e1"
    using init_pdes_fields [OF e] Cons.prems(2,3) by simp
  then show ?case
    using Cons.IH [of e1] Cons.prems e by (cases u1) simp_all
qed simp

lemma initial_tables_ok:
  assumes "initialize_ept ph st = Some ep" and "inj_on (ph_split ph) {..<256}"
  shows "tables_ok ep"
proof -
  have "ept_base ep"
    using initial_ept_is_identity [OF assms(2), of st] assms(1) by auto
  moreover have "pfn_fields ep"
  proof -
    let ?e = "(zeroed_ept ph)\<lparr>pml4e0 := zero_table\<lparr>t_read_access := True, t_write_access := True,
        t_execute_access := True, t_page_frame_number := ph_pdpt ph\<rparr>\<rparr>"
    obtain u where "init_pdptes st (ph_pd ph) [0..<ept_pd_count] ?e = Some (u, ep)"
      using assms(1) by (auto simp: initialize_ept_def)
    moreover have "pfn_fields ?e"
      by (simp add: pfn_fields_def zeroed_ept_def zero_leaf_def)
    ultimately show ?thesis
      using init_pdptes_fields by (auto simp: ept_pd_count_def)
  qed
  ultimately show ?thesis
    by (simp add: tables_ok_def ept_base_def)
qed

section \<open>A launched core\<close>

text \<open>The steps of a successful launch.\<close>

lemma virtualize_ok:
  assumes "virtualize M P A samples scr3 ls = Inr (True, ls')"
  obtains v3 h2 v4 h3 where
    "trace_buffer v3 = trace_buffer (ls_vcpu ls)" "vc_cfg_table v3 = vc_cfg_table (ls_vcpu ls)"
    "write_control_fields M P scr3 v3 h2 = Inr (True, v4, h3)"
    "ls_vcpu ls' = v4\<lparr>stealth := bench_tsc_overhead samples (stealth v4)\<rparr>"
    "vmlaunch_fails A (vmwrite M VMCS_GUEST_RSP (launch_rsp A) (vmwrite M VMCS_GUEST_RIP (successful_launch A) h3)) = None"
    "ls_hw ls' = sti (vmwrite M VMCS_GUEST_RSP (launch_rsp A) (vmwrite M VMCS_GUEST_RIP (successful_launch A) h3))"
    "h_in_vmx h2" "msrs h2 = msrs (ls_hw ls)" "restore_ctx v3 = capture_context (ls_hw ls)"
    "vc_mtrr_state v3 = read_mtrrs (mtrrl M) (msrs (ls_hw ls))" "stealth v3 = prepare_msr_entries (ls_hw ls)"
proof -
  let ?h = "ls_hw ls" and ?v0 = "(ls_vcpu ls)\<lparr>restore_ctx := capture_context (ls_hw ls)\<rparr>"
  have c: "check_vmx_support M ?h"
    by (rule ccontr) (use assms in \<open>simp add: virtualize_def\<close>)
  obtain ok1 v1 h1 where e: "enter_vmx_operation M P A ?v0 (enable_vmx M ?h) = (ok1, v1, h1)"
    by (rule prod_cases3)
  have k1: "ok1"
    by (rule ccontr) (use assms c e in \<open>simp add: virtualize_def Let_def\<close>)
  let ?v2 = "v1\<lparr>vc_mtrr_state := read_mtrrs (mtrrl M) (msrs h1), stealth := prepare_msr_entries h1\<rparr>"
  obtain ok2 v3 h2 where l: "load_vmcs M P A ?v2 h1 = (ok2, v3, h2)"
    by (rule prod_cases3)
  have k2: "ok2"
    by (rule ccontr) (use assms c e k1 l in \<open>simp add: virtualize_def Let_def\<close>)
  obtain v4 h3 where w: "write_control_fields M P scr3 v3 h2 = Inr (True, v4, h3)"
    using assms c e k1 l k2 by (auto simp: virtualize_def Let_def and_then_Inr split: if_splits)
  let ?h4 = "vmwrite M VMCS_GUEST_RSP (launch_rsp A) (vmwrite M VMCS_GUEST_RIP (successful_launch A) h3)"
  have f: "vmlaunch_fails A ?h4 = None"
    by (rule ccontr) (use assms c e k1 l k2 w in \<open>auto simp: virtualize_def launch_vm_def vmx_vmlaunch_stub_def Let_def\<close>)
  have r: "ls_vcpu ls' = v4\<lparr>stealth := bench_tsc_overhead samples (stealth v4)\<rparr>" "ls_hw ls' = sti ?h4"
    using assms c e k1 l k2 w f by (auto simp: virtualize_def launch_vm_def vmx_vmlaunch_stub_def Let_def build_host_tables_def)
  have h1: "h_in_vmx h1" "msrs h1 = msrs ?h" "restore_ctx v1 = capture_context ?h"
    "trace_buffer v1 = trace_buffer (ls_vcpu ls)" "vc_cfg_table v1 = vc_cfg_table (ls_vcpu ls)"
    using e k1 by (auto simp: enter_vmx_operation_def enable_vmx_def sti_def Let_def split: if_splits)
  have p: "prepare_msr_entries h1 = prepare_msr_entries ?h"
    by (simp add: prepare_msr_entries_def add_msr_entry_def h1(2))
  have l': "v3 = ?v2\<lparr>vmcs_revision := vmcs_revision v3\<rparr>" "h2 = h1"
    using l k2 by (auto simp: load_vmcs_def Let_def split: if_splits)
  have v3: "trace_buffer v3 = trace_buffer ?v2" "vc_cfg_table v3 = vc_cfg_table ?v2" "restore_ctx v3 = restore_ctx ?v2"
    "vc_mtrr_state v3 = vc_mtrr_state ?v2" "stealth v3 = stealth ?v2"
    by (subst l'(1), simp)+
  show ?thesis
    by (rule that [of v3 h2 v4 h3]) (use w r f h1 v3 p l'(2) in simp_all)
qed

lemma control_fields_vcpu:
  assumes "write_control_fields M P scr3 v h = Inr (True, v', h')"
  obtains en et where "initialize_ept (ph_normal M) (vc_mtrr_state v) = Some en"
    "initialize_ept (ph_target M) (vc_mtrr_state v) = Some et"
    "v' = v\<lparr>vc_msr_bitmap := exit_on_mtrrs (mtrr_variable_count P) (vc_msr_bitmap v), ept_pages_normal := en,
       ept_pages_target := et, eptp_normal_execution := eptp_for M (phys_of P (a_pml4_normal P)),
       eptp_target_execution := eptp_for M (phys_of P (a_pml4_target P)), in_normal_execution := True\<rparr>"
  by (rule all_ok [OF assms], erule other_ok) (rule that)

lemma vmread_sti: "vmx_vmread M f (sti h) = vmx_vmread M f h"
  by (simp add: sti_def vmx_vmread_def)

lemma launched_inv:
  assumes "virtualize M P A samples scr3 ls = Inr (True, ls')"
    and "ring_inv (trace_buffer (ls_vcpu ls))" and "table_inv (vc_cfg_table (ls_vcpu ls))"
    and "inj_on (ph_split (ph_normal M)) {..<256}" and "inj_on (ph_split (ph_target M)) {..<256}"
    and "vc st = ls_vcpu ls'" and "hws st = ls_hw ls'" and "\<forall>k. ring_inv (peer_rings st k)"
  shows "core_inv M st"
proof (rule virtualize_ok [OF assms(1)])
  fix v3 h2 v4 h3
  assume a: "trace_buffer v3 = trace_buffer (ls_vcpu ls)" "vc_cfg_table v3 = vc_cfg_table (ls_vcpu ls)"
    "write_control_fields M P scr3 v3 h2 = Inr (True, v4, h3)"
    "ls_vcpu ls' = v4\<lparr>stealth := bench_tsc_overhead samples (stealth v4)\<rparr>"
    "ls_hw ls' = sti (vmwrite M VMCS_GUEST_RSP (launch_rsp A) (vmwrite M VMCS_GUEST_RIP (successful_launch A) h3))"
  have p: "vmx_vmread M VMCS_CTRL_EPT_POINTER h3 = eptp_normal_execution v4 \<and> in_normal_execution v4"
    by (rule all_eptp [OF a(3)])
  then have e: "vmx_vmread M VMCS_CTRL_EPT_POINTER (ls_hw ls') = eptp_normal_execution v4"
    unfolding a(5) vmread_sti by simp
  show ?thesis
  proof (rule control_fields_vcpu [OF a(3)])
    fix en et
    assume t: "initialize_ept (ph_normal M) (vc_mtrr_state v3) = Some en"
      "initialize_ept (ph_target M) (vc_mtrr_state v3) = Some et"
      "v4 = v3\<lparr>vc_msr_bitmap := exit_on_mtrrs (mtrr_variable_count P) (vc_msr_bitmap v3), ept_pages_normal := en,
       ept_pages_target := et, eptp_normal_execution := eptp_for M (phys_of P (a_pml4_normal P)),
       eptp_target_execution := eptp_for M (phys_of P (a_pml4_target P)), in_normal_execution := True\<rparr>"
    have "tables_ok en" "tables_ok et"
      using initial_tables_ok [OF t(1) assms(4)] initial_tables_ok [OF t(2) assms(5)] .
    then show ?thesis
      using assms(2,3,6,7,8) a(1,2,4) e p by (simp add: core_inv_def eptp_matches_def current_eptp_def t(3))
  qed
qed

text \<open>
  C4. The invariant of a core holds from its launch on. When virtualising a core succeeds, starting from
  zeroed rings and configurations or any well-formed ones, the core is in normal mode on its own
  tables with the first exit still to come, and every state it reaches later, through VM exits, guest execution
  and the work of other cores, runs on the tables of its mode, and these map all memory below 512 GB.
  Hypotheses: the frames of the page tables of a pool differ, and the rings of the other cores are
  well-formed.
\<close>

theorem launched_core_stays_sound:
  assumes "virtualize M P A samples scr3 ls = Inr (True, ls')"
    and "ring_inv (trace_buffer (ls_vcpu ls))" and "table_inv (vc_cfg_table (ls_vcpu ls))"
    and "inj_on (ph_split (ph_normal M)) {..<256}" and "inj_on (ph_split (ph_target M)) {..<256}"
    and "vc st = ls_vcpu ls'" and "hws st = ls_hw ls'" and "\<forall>k. ring_inv (peer_rings st k)"
    and "supported M VMCS_CTRL_EPT_POINTER"
  shows "in_normal_execution (vc st) \<and>
    ((core_step M)\<^sup>*\<^sup>* st st' \<longrightarrow> core_inv M st' \<and>
       vmx_vmread M VMCS_CTRL_EPT_POINTER (hws st') =
         (if in_normal_execution (vc st') then eptp_normal_execution (vc st') else eptp_target_execution (vc st')) \<and>
       (\<forall>gpa < 0x8000000000. \<exists>a. ept_walk (current_ept_pages (vc st')) gpa = Some a))"
proof -
  have inv: "core_inv M st"
    by (rule launched_inv [OF assms(1-8)])
  have n: "in_normal_execution (vc st)"
  proof (rule virtualize_ok [OF assms(1)])
    fix v3 h2 v4 h3
    assume "write_control_fields M P scr3 v3 h2 = Inr (True, v4, h3)"
      "ls_vcpu ls' = v4\<lparr>stealth := bench_tsc_overhead samples (stealth v4)\<rparr>"
    then show ?thesis using all_eptp assms(6) by simp
  qed
  have "\<exists>a. ept_walk (current_ept_pages (vc s)) gpa = Some a" if "core_inv M s" "gpa < 0x8000000000" for s gpa
    using ept_walk_wf [OF _ mapped_gpa(1) [OF that(2)], of "current_ept_pages (vc s)"] that(1)
    by (auto simp: core_inv_def tables_ok_def Let_def current_ept_pages_def split: if_splits)
  then show ?thesis
    using n core_steps_inv [OF _ inv assms(9)] by (auto simp: core_inv_def eptp_matches_def current_eptp_def)
qed

lemma may_be_1_cong: "msrs h' = msrs h \<Longrightarrow> may_be_1 M h' a b = may_be_1 M h a b"
  by (simp add: may_be_1_def control_caps_def)

lemma virtualize_runs:
  assumes "check_vmx_support M (ls_hw ls)"
    and "\<forall>h pa. vmxon_ok A h pa \<and> vmclear_ok A h pa \<and> vmptrld_ok A h pa" and "\<forall>h. vmlaunch_fails A h = None"
    and "\<forall>f. supported M f"
    and "inj_on (ph_split (ph_normal M)) {..<256}" and "inj_on (ph_split (ph_target M)) {..<256}"
    and "inj (pin_bit (ctl M))" and "\<forall>c. pin_bit (ctl M) c < 32"
  shows "\<exists>ls'. virtualize M P A samples scr3 ls = Inr (flag (pin_bit (ctl M) activate_vmx_preemption_timer)
      (may_be_1 M (ls_hw ls) IA32_VMX_PINBASED_CTLS IA32_VMX_TRUE_PINBASED_CTLS), ls')"
proof -
  let ?h = "ls_hw ls" and ?v0 = "(ls_vcpu ls)\<lparr>restore_ctx := capture_context (ls_hw ls)\<rparr>"
  let ?t = "pin_bit (ctl M) activate_vmx_preemption_timer"
  obtain v1 h1 where e: "enter_vmx_operation M P A ?v0 (enable_vmx M ?h) = (True, v1, h1)" "msrs h1 = msrs ?h"
    using assms(2) by (simp add: enter_vmx_operation_def enable_vmx_def sti_def Let_def)
  let ?v2 = "v1\<lparr>vc_mtrr_state := read_mtrrs (mtrrl M) (msrs h1), stealth := prepare_msr_entries h1\<rparr>"
  obtain v3 where l: "load_vmcs M P A ?v2 h1 = (True, v3, h1)"
    using assms(2) by (simp add: load_vmcs_def Let_def)
  obtain v4 h3 where w: "write_control_fields M P scr3 v3 h1 =
      Inr (flag ?t (may_be_1 M ?h IA32_VMX_PINBASED_CTLS IA32_VMX_TRUE_PINBASED_CTLS), v4, h3)"
    using control_setup_ok [OF assms(4-8), where h = h1] may_be_1_cong [OF e(2)] by metis
  obtain h4 where f: "launch_vm M A h3 = (None, h4)"
    using assms(3) by (simp add: launch_vm_def vmx_vmlaunch_stub_def Let_def)
  show ?thesis
    using assms(1) e(1) l w f by (simp add: virtualize_def Let_def)
qed

text \<open>
  C5. Virtualising a core succeeds where it can. On a processor with VMX enabled by the firmware, on which
  VMXON, VMCLEAR, VMPTRLD and VMLAUNCH succeed and that has all VMCS fields, the core runs as a guest at the
  end if and only if the processor allows the preemption timer; in both cases the function returns.
  Hypotheses: the frames of the page tables of a pool differ, the pin-based controls have different
  positions below 32.
\<close>

theorem virtualize_succeeds:
  assumes "check_vmx_support M (ls_hw ls)"
    and "\<forall>h pa. vmxon_ok A h pa \<and> vmclear_ok A h pa \<and> vmptrld_ok A h pa" and "\<forall>h. vmlaunch_fails A h = None"
    and "\<forall>f. supported M f"
    and "inj_on (ph_split (ph_normal M)) {..<256}" and "inj_on (ph_split (ph_target M)) {..<256}"
    and "inj (pin_bit (ctl M))" and "\<forall>c. pin_bit (ctl M) c < 32"
  shows "\<exists>ls'. virtualize M P A samples scr3 ls = Inr (flag (pin_bit (ctl M) activate_vmx_preemption_timer)
      (may_be_1 M (ls_hw ls) IA32_VMX_PINBASED_CTLS IA32_VMX_TRUE_PINBASED_CTLS), ls')"
  using assms by (rule virtualize_runs)

definition demo_answers :: vmx_answers where
  "demo_answers = \<lparr>vmxon_ok = (\<lambda>_ _. True), vmclear_ok = (\<lambda>_ _. True), vmptrld_ok = (\<lambda>_ _. True),
     vmlaunch_fails = (\<lambda>_. None), status_flags = (0, 2, 4, 6, 7, 11), successful_launch = 0x3002000, launch_rsp = 0x4000000\<rparr>"

definition demo_samples :: "nat \<Rightarrow> bench_sample" where
  "demo_samples i = \<lparr>pre_exit_tsc = of_nat i * 10000, stored_msrs = [0, 0, of_nat i * 10000 + 600], entry_time = 500\<rparr>"

definition demo_launch :: launch_state where
  "demo_launch = \<lparr>ls_vcpu = demo_vcpu, ls_hw = launch_hw\<lparr>msrs := (msrs launch_hw)(IA32_FEATURE_CONTROL := 5)\<rparr>,
     ls_gdt = [], ls_tss = \<lparr>tss_ist1 = 0, tss_ist2 = 0, tss_ist3 = 0, tss_io_map_base = 0\<rparr>, ls_idt = []\<rparr>"

lemma demo_launch_ok:
  "check_vmx_support sdm_machine (ls_hw demo_launch)"
  "\<forall>h pa. vmxon_ok demo_answers h pa \<and> vmclear_ok demo_answers h pa \<and> vmptrld_ok demo_answers h pa"
  "\<forall>h. vmlaunch_fails demo_answers h = None" "\<forall>f. supported sdm_machine f"
  "flag (pin_bit (ctl sdm_machine) activate_vmx_preemption_timer)
     (may_be_1 sdm_machine (ls_hw demo_launch) IA32_VMX_PINBASED_CTLS IA32_VMX_TRUE_PINBASED_CTLS)"
proof -
  show "check_vmx_support sdm_machine (ls_hw demo_launch)"
    by code_simp
  show "flag (pin_bit (ctl sdm_machine) activate_vmx_preemption_timer)
     (may_be_1 sdm_machine (ls_hw demo_launch) IA32_VMX_PINBASED_CTLS IA32_VMX_TRUE_PINBASED_CTLS)"
    by code_simp
qed (simp_all add: demo_answers_def)

theorem virtualize_succeeds_witness:
  "\<exists>ls'. virtualize sdm_machine demo_platform demo_answers demo_samples 0x1AD000 demo_launch = Inr (True, ls')"
  using virtualize_succeeds [OF demo_launch_ok(1-4) sdm_frames sdm_pin, of demo_platform demo_samples "0x1AD000"]
    demo_launch_ok(5) by simp

lemma demo_launched:
  obtains ls' where "virtualize sdm_machine demo_platform demo_answers demo_samples 0x1AD000 demo_launch = Inr (True, ls')"
  using virtualize_runs [OF demo_launch_ok(1-4) sdm_frames sdm_pin, of demo_platform demo_samples "0x1AD000"]
    demo_launch_ok(5) by auto

theorem launched_core_stays_sound_witness:
  "\<exists>ls'. virtualize sdm_machine demo_platform demo_answers demo_samples 0x1AD000 demo_launch = Inr (True, ls') \<and>
     in_normal_execution (ls_vcpu ls')"
proof (rule demo_launched)
  fix ls'
  assume a: "virtualize sdm_machine demo_platform demo_answers demo_samples 0x1AD000 demo_launch = Inr (True, ls')"
  let ?st = "demo_core\<lparr>vc := ls_vcpu ls', hws := ls_hw ls'\<rparr>"
  have r: "ring_inv (trace_buffer demo_vcpu)" "table_inv (vc_cfg_table demo_vcpu)"
    using empty_cfg_table_inv(1) by (simp_all add: demo_vcpu_def ring_inv_def)
  have "in_normal_execution (vc ?st)"
    using launched_core_stays_sound [OF a _ _ sdm_frames, of ?st ?st] r
    by (simp add: demo_launch_def demo_core_def)
  then show ?thesis using a by auto
qed

section \<open>Giving a core back\<close>

lemma wrmsr_simps [simp]:
  "msrs (wrmsr m v h) = (msrs h)(m := v)" "h_cr0 (wrmsr m v h) = h_cr0 h" "h_cr3 (wrmsr m v h) = h_cr3 h"
  "h_cr4 (wrmsr m v h) = h_cr4 h" "h_selector (wrmsr m v h) = h_selector h" "h_gdtr (wrmsr m v h) = h_gdtr h"
  "h_idtr (wrmsr m v h) = h_idtr h" "h_in_vmx (wrmsr m v h) = h_in_vmx h"
  by (simp_all add: wrmsr_def)

text \<open>
  C25. A core that is given back to the system has the system's registers. If the task descriptor of the
  captured GDT lies inside the part that is copied, the task register can be loaded, although the
  descriptor in the real table is marked busy, and afterwards CR3, IDTR, GDTR, the task register, DS, ES, FS
  and GS with the bases of FS and GS, EFER, PAT and the SYSENTER registers are those captured before the
  launch, whatever the host did to them and whatever loading a selector does to a base; VMX is off.
  CR0, CR4, CS, SS and the local descriptor table are not restored. If the descriptor is outside, loading the task
  register faults.
\<close>

theorem devirtualize_restores:
  assumes "desc_layout_ok (sgl P)"
  shows "if unat (selector_index (sgl P) (h_selector h0 seg_tr)) * 8 + 16 \<le> gdt_copy_size (capture_context h0)
    then \<exists>h'. devirtualize P seg_base dummy_addr (capture_context h0) h = Some h' \<and>
      h_cr3 h' = h_cr3 h0 \<and> h_idtr h' = h_idtr h0 \<and> h_gdtr h' = h_gdtr h0 \<and>
      (\<forall>s \<in> {seg_tr, seg_ds, seg_es, seg_fs, seg_gs}. h_selector h' s = h_selector h0 s) \<and>
      (\<forall>m \<in> {IA32_FS_BASE, IA32_GS_BASE, IA32_KERNEL_GS_BASE, IA32_EFER, IA32_PAT, IA32_SYSENTER_CS, IA32_SYSENTER_ESP,
             IA32_SYSENTER_EIP}. msrs h' m = msrs h0 m) \<and>
      \<not> h_in_vmx h' \<and> h_cr0 h' = h_cr0 h \<and> h_cr4 h' = h_cr4 h \<and>
      (\<forall>s \<in> {seg_cs, seg_ss, seg_ldtr}. h_selector h' s = h_selector h s)
    else devirtualize P seg_base dummy_addr (capture_context h0) h = None"
proof -
  let ?rc = "capture_context h0" and ?L = "sgl P"
  let ?off = "unat (selector_index ?L (h_selector h0 seg_tr)) * 8"
  have g: "0 < gdt_copy_size ?rc"
    by (simp add: gdt_copy_size_def dummy_gdt_size_def)
  have ty: "fst (sd_type ?L) + snd (sd_type ?L) \<le> 64" "snd (sd_type ?L) = 4"
    using assms by (simp_all add: desc_layout_ok_def)
  show ?thesis
  proof (cases "?off + 16 \<le> gdt_copy_size ?rc")
    case True
    have t: "load_tr ?L (gdt_copy_size ?rc - 1) (dummy_gdt P ?rc) (h_selector h0 seg_tr) x =
        Some (x\<lparr>h_selector := (h_selector x)(seg_tr := h_selector h0 seg_tr)\<rparr>)" for x
      using True ty get_put_same [OF ty(1)]
      by (simp add: load_tr_def dummy_gdt_def capture_context_def Let_def gdt_copy_size_def)
    show ?thesis
      using True t by (simp add: devirtualize_def capture_context_def Let_def load_selector_def exit_vmx_operation_def)
  next
    case False
    then have "load_tr ?L (gdt_copy_size ?rc - 1) (dummy_gdt P ?rc) (h_selector h0 seg_tr) x = None" for x
      using g by (auto simp: load_tr_def Let_def)
    then show ?thesis
      using False by (simp add: devirtualize_def capture_context_def Let_def)
  qed
qed

theorem devirtualize_restores_witness:
  "\<exists>h'. devirtualize demo_platform (\<lambda>_. 0x77) 0x5000
      (capture_context (demo_hw\<lparr>h_gdtr := (0x6000, 0x7F), h_selector := (\<lambda>_. 0x40), h_idtr := (0x7000, 0xFFF)\<rparr>))
      (demo_hw\<lparr>h_in_vmx := True, h_cr3 := 0x999000\<rparr>) = Some h' \<and>
     h_cr3 h' = 0x1AD000 \<and> h_selector h' seg_tr = 0x40 \<and> \<not> h_in_vmx h'"
proof -
  let ?h0 = "demo_hw\<lparr>h_gdtr := (0x6000, 0x7F), h_selector := (\<lambda>_. 0x40), h_idtr := (0x7000, 0xFFF)\<rparr>"
  have l: "desc_layout_ok (sgl demo_platform)"
    by (simp add: demo_platform_def)
  have "selector_index (sgl demo_platform) 0x40 = 8"
    by (simp add: demo_platform_def sdm_seg_layout_def selector_index_def get_member_def bit_field_def drop_bit_eq_div take_bit_eq_mod)
  then have "unat (selector_index (sgl demo_platform) (h_selector ?h0 seg_tr)) * 8 + 16 \<le> gdt_copy_size (capture_context ?h0)"
    by (simp add: gdt_copy_size_def capture_context_def dummy_gdt_size_def)
  then show ?thesis
    using devirtualize_restores [OF l, of ?h0 "\<lambda>_. 0x77" "0x5000" "demo_hw\<lparr>h_in_vmx := True, h_cr3 := 0x999000\<rparr>"]
    by (auto simp: demo_hw_def)
qed

section \<open>Measured overheads\<close>

lemma fold_minimum:
  "m \<noteq> 0 \<Longrightarrow> \<forall>x \<in> set xs. x \<noteq> 0 \<Longrightarrow> fold new_minimum xs m = Min (insert m (set xs))"
proof (induction xs arbitrary: m)
  case (Cons x xs)
  have n: "new_minimum x m = min x m" "new_minimum x m \<noteq> 0"
    using Cons.prems by (auto simp: new_minimum_def min_def)
  have "fold new_minimum (x # xs) m = Min (insert (min x m) (set xs))"
    using Cons.IH [OF n(2)] Cons.prems(2) n(1) by simp
  also have "\<dots> = Min (insert m (set (x # xs)))"
    by (cases "xs = []") (simp_all add: min.commute min.left_commute min.assoc)
  finally show ?case .
qed simp

lemma fold_minimum_0:
  assumes "xs \<noteq> []" and "\<forall>x \<in> set xs. x \<noteq> (0 :: u64)"
  shows "fold new_minimum xs 0 = Min (set xs)"
proof (cases xs)
  case (Cons x ys)
  have "new_minimum x 0 = x"
    by (simp add: new_minimum_def)
  then show ?thesis
    using fold_minimum [of x ys] assms(2) Cons by simp
qed (use assms in simp)

lemma bench_one_entries:
  assumes "length (msr_entries d) = 3" and "length (stored_msrs s) = 3"
  shows "length (msr_entries (bench_one s d)) = 3" "msr_data (msr_entries (bench_one s d) ! 2) = stored_msrs s ! 2"
    "tsc_data_of (bench_one s d) = tsc_data_of d"
  using assms by (simp_all add: bench_one_def)

lemma bench_fold:
  assumes "length (msr_entries d) = 3" and "\<forall>s \<in> set ss. length (stored_msrs s) = 3"
  shows "\<exists>d'. fold bench_iteration ss (d, me, mn) =
      (d', fold new_minimum (map (\<lambda>s. stored_msrs s ! 2 - pre_exit_tsc s) ss) me, fold new_minimum (map entry_time ss) mn) \<and>
      tsc_data_of d' = tsc_data_of d"
  using assms
proof (induction ss arbitrary: d me mn)
  case (Cons s ss)
  note b = bench_one_entries [OF Cons.prems(1), of s]
  show ?case
    using Cons.IH [OF b(1)] Cons.prems(2) b by (simp add: bench_iteration_def Let_def)
qed simp

lemma warmup_fold:
  assumes "length (msr_entries d) = 3" and "\<forall>s \<in> set ss. length (stored_msrs s) = 3"
  shows "length (msr_entries (fold bench_one ss d)) = 3 \<and> tsc_data_of (fold bench_one ss d) = tsc_data_of d"
  using assms
proof (induction ss arbitrary: d)
  case (Cons s ss)
  note b = bench_one_entries [OF Cons.prems(1), of s]
  show ?case
    using Cons.IH [OF b(1)] Cons.prems(2) b(3) by simp
qed simp

lemma fold_runs_minimum:
  assumes "\<forall>i. f (samples i) \<noteq> (0 :: u64)" and "0 < n"
  shows "fold new_minimum (map f (map (\<lambda>i. samples (w + i)) [0..<n])) 0 = Min ((\<lambda>i. f (samples i)) ` {w..<w + n})"
proof -
  have "(\<lambda>i. w + i) ` {0..<n} = {w..<w + n}"
    by (simp add: image_add_atLeastLessThan add.commute)
  then have e: "set (map f (map (\<lambda>i. samples (w + i)) [0..<n])) = (\<lambda>i. f (samples i)) ` {w..<w + n}"
    by (simp only: set_map set_upt image_image) (simp only: image_image [of "\<lambda>i. f (samples i)" "\<lambda>i. w + i", symmetric])
  have ne: "map f (map (\<lambda>i. samples (w + i)) [0..<n]) \<noteq> []"
    using assms(2) by simp
  have "\<forall>x \<in> set (map f (map (\<lambda>i. samples (w + i)) [0..<n])). x \<noteq> 0"
    using assms(1) unfolding e by auto
  from fold_minimum_0 [OF ne this] show ?thesis
    unfolding e .
qed

lemma bench_fold_upt:
  "fold (\<lambda>i. bench_iteration (samples (w + i))) [0..<n] x = fold bench_iteration (map (\<lambda>i. samples (w + i)) [0..<n]) x"
  "fold (\<lambda>i. bench_one (samples i)) [0..<n] d = fold bench_one (map samples [0..<n]) d"
  by (simp_all add: fold_map comp_def)

text \<open>
  The benchmark takes the minimum. After the warm-up runs, which do not count, the overhead of an exit is the
  least difference between the counter the processor stored and the counter before the exit, over the ten
  thousand runs that follow, and the overhead of an entry the least measured time of an entry; the other time
  data is kept. Hypotheses: three registers are stored at an exit, and no measurement is 0, which the code
  takes for a missing minimum.
\<close>

theorem bench_takes_minimum:
  assumes "length (msr_entries data) = 3" and "\<forall>i. length (stored_msrs (samples i)) = 3"
    and "\<forall>i. stored_msrs (samples i) ! 2 \<noteq> pre_exit_tsc (samples i) \<and> entry_time (samples i) \<noteq> 0"
  shows "let t = tsc_data_of (bench_tsc_overhead samples data) in
    vmexit_to_store_overhead t = Min ((\<lambda>i. stored_msrs (samples i) ! 2 - pre_exit_tsc (samples i)) ` {100..<10100}) \<and>
    vmentry_overhead t = Min ((\<lambda>i. entry_time (samples i)) ` {100..<10100}) \<and>
    tsc_offset t = tsc_offset (tsc_data_of data) \<and> stored_tsc t = stored_tsc (tsc_data_of data)"
proof -
  let ?w = "map samples [0..<warmup_iterations]" and ?s = "map (\<lambda>i. samples (warmup_iterations + i)) [0..<bench_iterations]"
  let ?d1 = "fold bench_one ?w data"
  have d1: "length (msr_entries ?d1) = 3" "tsc_data_of ?d1 = tsc_data_of data"
    using warmup_fold [OF assms(1), of ?w] assms(2) by auto
  obtain d' where d': "fold bench_iteration ?s (?d1, 0, 0) =
      (d', fold new_minimum (map (\<lambda>s. stored_msrs s ! 2 - pre_exit_tsc s) ?s) 0, fold new_minimum (map entry_time ?s) 0)"
    "tsc_data_of d' = tsc_data_of ?d1"
    using bench_fold [OF d1(1), of ?s 0 0] assms(2) by auto
  have n: "0 < bench_iterations" "{warmup_iterations..<warmup_iterations + bench_iterations} = {100..<10100}"
    by (simp_all add: bench_iterations_def warmup_iterations_def)
  have "fold new_minimum (map (\<lambda>s. stored_msrs s ! 2 - pre_exit_tsc s) ?s) 0 =
      Min ((\<lambda>i. stored_msrs (samples i) ! 2 - pre_exit_tsc (samples i)) ` {100..<10100})"
    using fold_runs_minimum [of "\<lambda>s. stored_msrs s ! 2 - pre_exit_tsc s" samples bench_iterations warmup_iterations] n assms(3)
    by simp
  moreover have "fold new_minimum (map entry_time ?s) 0 = Min ((\<lambda>i. entry_time (samples i)) ` {100..<10100})"
    using fold_runs_minimum [of entry_time samples bench_iterations warmup_iterations] n assms(3) by simp
  ultimately show ?thesis
    unfolding bench_tsc_overhead_def bench_fold_upt Let_def d'(1) by (simp add: d'(2) d1(2))
qed

text \<open>Measurements that get shorter by one cycle each time.\<close>

definition falling_samples :: "nat \<Rightarrow> bench_sample" where
  "falling_samples i = \<lparr>pre_exit_tsc = of_nat i * 100000, stored_msrs = [0, 0, of_nat i * 100000 + 20000 - of_nat (min i 19999)],
     entry_time = 500\<rparr>"

lemma falling_ok:
  "length (msr_entries (stealth demo_vcpu)) = 3" "\<forall>i. length (stored_msrs (falling_samples i)) = 3"
  "\<forall>i. stored_msrs (falling_samples i) ! 2 \<noteq> pre_exit_tsc (falling_samples i) \<and> entry_time (falling_samples i) \<noteq> 0"
proof -
  have "of_nat (min i 19999) \<noteq> (20000 :: u64)" for i
    using unat_of_nat_64 [of "min i 19999"] by (auto simp: word_unat_eq_iff)
  then show "\<forall>i. stored_msrs (falling_samples i) ! 2 \<noteq> pre_exit_tsc (falling_samples i) \<and> entry_time (falling_samples i) \<noteq> 0"
    by (auto simp: falling_samples_def diff_eq_eq add_diff_eq [symmetric])
qed (simp_all add: demo_vcpu_def falling_samples_def)

theorem bench_takes_minimum_witness:
  "vmentry_overhead (tsc_data_of (bench_tsc_overhead falling_samples (stealth demo_vcpu))) = 500"
proof -
  have "(\<lambda>i. entry_time (falling_samples i)) ` {100..<10100} = {500}"
    by (simp add: falling_samples_def image_constant_conv)
  then show ?thesis
    using bench_takes_minimum [OF falling_ok] by (simp add: Let_def)
qed

section \<open>Registers stored and loaded at transitions\<close>

lemma prepared_entries:
  "map msr_index (msr_entries (prepare_msr_entries h)) = [IA32_MPERF, IA32_APERF, IA32_TIME_STAMP_COUNTER]"
  "map msr_data (msr_entries (prepare_msr_entries h)) = map (msrs h) [IA32_MPERF, IA32_APERF, IA32_TIME_STAMP_COUNTER]"
  "msr_store_count (prepare_msr_entries h) = 3" "msr_load_count (prepare_msr_entries h) = 2"
  by (simp_all add: prepare_msr_entries_def add_msr_entry_def zeroed_stealth_data_def max_msr_entries_def numeral_3_eq_3
      numeral_2_eq_2)

lemma if_okD:
  assumes "fst (if_ok r k)"
  shows "fst r" "fst (k (snd r))" "snd (if_ok r k) = snd (k (snd r))"
  using assms by (simp_all add: if_ok_def split: if_splits)

lemma four_read:
  assumes "fst (write_four_controls M P v h)"
    and "g \<in> {VMCS_CTRL_VMEXIT_MSR_STORE_COUNT, VMCS_CTRL_VMEXIT_MSR_STORE_ADDRESS, VMCS_CTRL_VMEXIT_MSR_LOAD_COUNT,
      VMCS_CTRL_VMENTRY_MSR_LOAD_COUNT, VMCS_CTRL_VMENTRY_MSR_LOAD_ADDRESS}"
  shows "vmx_vmread M g (snd (write_four_controls M P v h)) = take_bit (vmcs_width g)
    (if g = VMCS_CTRL_VMEXIT_MSR_STORE_COUNT then msr_store_count (stealth v)
     else if g = VMCS_CTRL_VMENTRY_MSR_LOAD_COUNT then msr_load_count (stealth v)
     else if g = VMCS_CTRL_VMEXIT_MSR_LOAD_COUNT then 0 else phys_of P (a_msr_entries P))"
proof -
  let ?q = "if_ok (write_pin_based_vm_execution_controls M h) (write_processor_based_vm_execution_controls M)"
  let ?r = "if_ok ?q (write_vmexit_controls M P v)"
  note k = if_okD [OF assms(1) [unfolded write_four_controls_def]]
  note k2 = if_okD [OF k(1)]
  have e: "snd (write_four_controls M P v h) = snd (write_vmentry_controls M P v (snd ?r))"
    unfolding write_four_controls_def by (rule k(3))
  have x: "vmx_vmread M g (snd ?r) = take_bit (vmcs_width g)
      (if g = VMCS_CTRL_VMEXIT_MSR_STORE_COUNT then msr_store_count (stealth v)
       else if g = VMCS_CTRL_VMEXIT_MSR_LOAD_COUNT then 0 else phys_of P (a_msr_entries P))"
    if "g \<noteq> VMCS_CTRL_VMENTRY_MSR_LOAD_COUNT" "g \<noteq> VMCS_CTRL_VMENTRY_MSR_LOAD_ADDRESS"
    using assms(2) that if_okD(2,3) [OF k2(2) [unfolded write_vmexit_controls_def]]
    unfolding k2(3) write_vmexit_controls_def
    by (elim insertE emptyE) (simp_all add: write_fields_read)
  show ?thesis
    using assms(2) if_okD(2,3) [OF k(2) [unfolded write_vmentry_controls_def]] x
    unfolding e write_vmentry_controls_def
    by (elim insertE emptyE) (simp_all add: write_fields_read write_control_other)
qed

text \<open>
  The counters that could show the exit are saved and restored by the processor. On a launched core every exit stores
  MPERF, APERF and the time stamp counter into the entries of the core, every entry loads the first two from the
  same place, so that the time spent in the host is not seen in them, and never the time stamp counter,
  which the offset corrects; an exit loads nothing.
\<close>

theorem counters_saved_and_loaded:
  assumes "write_control_fields M P scr3 v h = Inr (True, v', h')" and "stealth v = prepare_msr_entries h0"
  shows "map msr_index (take (unat (vmx_vmread M VMCS_CTRL_VMEXIT_MSR_STORE_COUNT h')) (msr_entries (stealth v'))) =
      [IA32_MPERF, IA32_APERF, IA32_TIME_STAMP_COUNTER] \<and>
    map msr_index (take (unat (vmx_vmread M VMCS_CTRL_VMENTRY_MSR_LOAD_COUNT h')) (msr_entries (stealth v'))) =
      [IA32_MPERF, IA32_APERF] \<and>
    vmx_vmread M VMCS_CTRL_VMEXIT_MSR_LOAD_COUNT h' = 0 \<and>
    vmx_vmread M VMCS_CTRL_VMEXIT_MSR_STORE_ADDRESS h' = phys_of P (a_msr_entries P) \<and>
    vmx_vmread M VMCS_CTRL_VMENTRY_MSR_LOAD_ADDRESS h' = phys_of P (a_msr_entries P)"
proof (rule all_ok [OF assms(1)])
  fix h1 h2 h3
  assume ok: "fst (write_four_controls M P v h)"
  have r: "vmx_vmread M g h' = vmx_vmread M g (snd (write_four_controls M P v h))"
    if "g \<in> {VMCS_CTRL_VMEXIT_MSR_STORE_COUNT, VMCS_CTRL_VMEXIT_MSR_STORE_ADDRESS, VMCS_CTRL_VMEXIT_MSR_LOAD_COUNT,
      VMCS_CTRL_VMENTRY_MSR_LOAD_COUNT, VMCS_CTRL_VMENTRY_MSR_LOAD_ADDRESS}" for g
  proof -
    have n: "map_of (rev (exit_control_writes scr3 h @ bitmap_and_event_writes P @ guest_state_writes P h @ all_host_writes P h)) g = None"
      using that by (elim insertE emptyE) (simp_all add: all_write_defs Let_def tsc_hiding_enabled_def)
    have "g \<noteq> VMCS_GUEST_VMX_PREEMPTION_TIMER_VALUE" "g \<noteq> VMCS_CTRL_EPT_POINTER"
      using that by auto
    from all_read [OF assms(1) this] show ?thesis
      unfolding n by simp
  qed
  have v': "stealth v' = stealth v"
    by (rule control_fields_vcpu [OF assms(1)]) simp
  have t: "map msr_index (take n (msr_entries (stealth v'))) = take n [IA32_MPERF, IA32_APERF, IA32_TIME_STAMP_COUNTER]" for n
    unfolding v' assms(2) take_map [symmetric] prepared_entries ..
  show ?thesis
    by (simp add: r four_read [OF ok] t) (simp add: assms(2) prepared_entries vmcs_width_def)
qed

theorem counters_saved_and_loaded_witness:
  "\<exists>v' h'. write_control_fields sdm_machine demo_platform 0x1AD000
      (demo_vcpu\<lparr>stealth := prepare_msr_entries launch_hw\<rparr>) launch_hw = Inr (True, v', h') \<and>
     map msr_index (take (unat (vmx_vmread sdm_machine VMCS_CTRL_VMENTRY_MSR_LOAD_COUNT h')) (msr_entries (stealth v'))) =
       [IA32_MPERF, IA32_APERF]"
proof -
  let ?v = "demo_vcpu\<lparr>stealth := prepare_msr_entries launch_hw\<rparr>"
  obtain v' h' where w: "write_control_fields sdm_machine demo_platform 0x1AD000 ?v launch_hw = Inr (True, v', h')"
    using control_setup_ok [where M = sdm_machine and P = demo_platform and ?scr3.0 = "0x1AD000" and v = ?v and h = launch_hw,
      OF _ sdm_frames sdm_pin] launch_timer by auto
  show ?thesis
    using counters_saved_and_loaded [OF w, of launch_hw] w by auto
qed

end
