(* ===== verification/Host_Map.thy ===== *)
theory Host_Map
  imports Machine
begin

text \<open>
  The page tables of the host (\<open>revhv-km/memory.cpp\<close>, \<open>memory.h\<close>): the window of 512 GB of physical
  memory and the ranges of the system that are mapped with the system's own entries. Page tables are
  frames of 512 entries; \<open>page_frames\<close> holds all of them, those of the system and those of the host,
  whose root and window table are part of the hypervisor's data. What the kernel answers is a
  parameter: whether it knows an address for a frame, and the frames it hands out.
\<close>

section \<open>Entries\<close>

record pte_layout =
  pe_present :: nat
  pe_write :: nat
  pe_large_page :: nat
  pe_page_frame_number :: "nat \<times> nat"
  pe_1gb_page_frame_number :: "nat \<times> nat"

type_synonym page_frames = "u64 \<Rightarrow> u64 \<Rightarrow> u64"

datatype page_table_level = L_pte | L_pde | L_pdpte

text \<open>
  \<open>virtual_for\<close> tells if \<open>MmGetVirtualForPhysical\<close> finds an address for a frame, \<open>alloc\<close> is the
  frame of the n-th allocation of a page, if it succeeds.
\<close>

record map_env =
  pe :: pte_layout
  virtual_for :: "u64 \<Rightarrow> bool"
  alloc :: "nat \<Rightarrow> u64 option"
  host_root :: u64
  window_frame :: u64
  pages_1gb_available :: bool

record map_state =
  frames :: page_frames
  allocs :: nat

definition present :: "map_env \<Rightarrow> u64 \<Rightarrow> bool" where "present V e = flag (pe_present (pe V)) e"
definition large_page :: "map_env \<Rightarrow> u64 \<Rightarrow> bool" where "large_page V e = flag (pe_large_page (pe V)) e"
definition pfn_of :: "map_env \<Rightarrow> u64 \<Rightarrow> u64" where "pfn_of V e = get_member (pe_page_frame_number (pe V)) e"

section \<open>The entry of the system for an address\<close>

definition get_system_pte_for_va :: "map_env \<Rightarrow> page_frames \<Rightarrow> u64 \<Rightarrow> u64 \<Rightarrow> (u64 \<times> page_table_level) option" where
  "get_system_pte_for_va V fr cr3_frame va =
     (if \<not> virtual_for V cr3_frame then None
      else let e4 = fr cr3_frame (pml4_idx va) in
      if \<not> present V e4 then None
      else let f3 = pfn_of V e4; e3 = fr f3 (pdpt_idx va) in
      if \<not> virtual_for V f3 \<or> \<not> present V e3 then None
      else if large_page V e3 then Some (e3, L_pdpte)
      else let f2 = pfn_of V e3; e2 = fr f2 (pd_idx va) in
      if \<not> virtual_for V f2 \<or> \<not> present V e2 then None
      else if large_page V e2 then Some (e2, L_pde)
      else let f1 = pfn_of V e2; e1 = fr f1 (pt_idx va) in
      if \<not> virtual_for V f1 \<or> \<not> present V e1 then None
      else Some (e1, L_pte))"

section \<open>Mapping a range\<close>

definition set_entry :: "u64 \<Rightarrow> u64 \<Rightarrow> u64 \<Rightarrow> map_state \<Rightarrow> map_state" where
  "set_entry f i e s = s\<lparr>frames := (frames s)(f := (frames s f)(i := e))\<rparr>"

text \<open>A new page, zeroed.\<close>

definition alloc_host_pt :: "map_env \<Rightarrow> map_state \<Rightarrow> u64 option \<times> map_state" where
  "alloc_host_pt V s =
     (case alloc V (allocs s) of
        None \<Rightarrow> (None, s\<lparr>allocs := allocs s + 1\<rparr>)
      | Some g \<Rightarrow> (Some g, s\<lparr>allocs := allocs s + 1, frames := (frames s)(g := (\<lambda>_. 0))\<rparr>))"

definition link_entry :: "map_env \<Rightarrow> u64 \<Rightarrow> u64 \<Rightarrow> u64" where
  "link_entry V e g =
     put_member (pe_page_frame_number (pe V)) g (put_flag (pe_write (pe V)) True (put_flag (pe_present (pe V)) True e))"

text \<open>The table entry \<open>i\<close> of frame \<open>f\<close> points to, allocated if there is none.\<close>

definition next_table :: "map_env \<Rightarrow> u64 \<Rightarrow> u64 \<Rightarrow> map_state \<Rightarrow> u64 option \<times> map_state" where
  "next_table V f i s =
     (let found = (\<lambda>s. let g = pfn_of V (frames s f i) in (if virtual_for V g then Some g else None, s)) in
      if present V (frames s f i) then found s
      else case alloc_host_pt V s of
             (None, s1) \<Rightarrow> (None, s1)
           | (Some g, s1) \<Rightarrow> found (set_entry f i (link_entry V (frames s1 f i) g) s1))"

definition then_table :: "u64 option \<times> map_state \<Rightarrow> (u64 \<Rightarrow> map_state \<Rightarrow> u64 option \<times> map_state) \<Rightarrow> u64 option \<times> map_state" where
  "then_table r k = (case r of (None, s) \<Rightarrow> (None, s) | (Some f, s) \<Rightarrow> k f s)"

definition map_page :: "map_env \<Rightarrow> u64 \<Rightarrow> u64 \<Rightarrow> page_table_level \<Rightarrow> map_state \<Rightarrow> bool \<times> map_state" where
  "map_page V va e level s =
     (let pdpt = next_table V (host_root V) (pml4_idx va) s;
          write = (\<lambda>i r. case r of (None, s) \<Rightarrow> (False, s) | (Some f, s) \<Rightarrow> (True, set_entry f i e s)) in
      case level of
        L_pdpte \<Rightarrow> write (pdpt_idx va) pdpt
      | L_pde \<Rightarrow> write (pd_idx va) (then_table pdpt (\<lambda>f. next_table V f (pdpt_idx va)))
      | L_pte \<Rightarrow> write (pt_idx va)
          (then_table (then_table pdpt (\<lambda>f. next_table V f (pdpt_idx va))) (\<lambda>f. next_table V f (pd_idx va))))"

definition advance_past :: "page_table_level \<Rightarrow> u64 \<Rightarrow> u64" where
  "advance_past level va =
     (case level of
        L_pdpte \<Rightarrow> (va AND NOT 0xFFFFFFFF) + 0x100000000
      | L_pde \<Rightarrow> (va AND NOT 0x1FFFFF) + 0x200000
      | L_pte \<Rightarrow> (va AND NOT 0xFFF) + 0x1000)"

partial_function (option) map_loop ::
  "map_env \<Rightarrow> u64 \<Rightarrow> u64 \<Rightarrow> u64 \<Rightarrow> map_state \<Rightarrow> (bool \<times> map_state) option" where
  "map_loop V cr3_frame end_address current_address s =
     (if current_address < end_address then
        (case get_system_pte_for_va V (frames s) cr3_frame current_address of
           None \<Rightarrow> Some (False, s)
         | Some (e, level) \<Rightarrow>
             (case map_page V current_address e level s of (ok, s1) \<Rightarrow>
                if ok then map_loop V cr3_frame end_address (advance_past level current_address) s1
                else Some (False, s1)))
      else Some (True, s))"

definition map_va_range_to_host :: "map_env \<Rightarrow> u64 \<Rightarrow> u64 \<Rightarrow> u64 \<Rightarrow> map_state \<Rightarrow> (bool \<times> map_state) option" where
  "map_va_range_to_host V va sz cr3_frame s = map_loop V cr3_frame (va + sz) va s"

section \<open>The window and the hypervisor's own memory\<close>

definition window_entry :: "map_env \<Rightarrow> nat \<Rightarrow> u64" where
  "window_entry V i =
     put_member (pe_1gb_page_frame_number (pe V)) (of_nat i)
      (put_flag (pe_large_page (pe V)) True (put_flag (pe_write (pe V)) True (put_flag (pe_present (pe V)) True 0)))"

definition map_window :: "map_env \<Rightarrow> map_state \<Rightarrow> map_state" where
  "map_window V s =
     fold (\<lambda>i. set_entry (window_frame V) (of_nat i) (window_entry V i)) [0..<512]
       (set_entry (host_root V) host_pml4_index (link_entry V 0 (window_frame V)) s)"

definition map_host_page_tables :: "map_env \<Rightarrow> u64 \<Rightarrow> u64 \<Rightarrow> u64 \<Rightarrow> map_state \<Rightarrow> (bool \<times> map_state) option" where
  "map_host_page_tables V image_base hv_size cr3_frame s =
     (if \<not> pages_1gb_available V then Some (False, s)
      else map_va_range_to_host V image_base hv_size cr3_frame (map_window V s))"

text \<open>Memory for the virtual processors: \<open>pool\<close> is what the kernel hands out, the result its address.\<close>

definition allocate_map_nx_pool :: "map_env \<Rightarrow> u64 option \<Rightarrow> u64 \<Rightarrow> u64 \<Rightarrow> map_state \<Rightarrow> (u64 option \<times> map_state) option" where
  "allocate_map_nx_pool V pool sz cr3_frame s =
     (case pool of
        None \<Rightarrow> Some (None, s)
      | Some memory \<Rightarrow>
          map_option (\<lambda>(ok, s1). (if ok then Some memory else None, s1)) (map_va_range_to_host V memory sz cr3_frame s))"


section \<open>What the processor makes of the tables\<close>

text \<open>The walk of the processor, from the root in frame \<open>root\<close>.\<close>

definition page_walk :: "map_env \<Rightarrow> page_frames \<Rightarrow> u64 \<Rightarrow> u64 \<Rightarrow> (u64 \<times> page_table_level) option" where
  "page_walk V fr root va =
     (let e4 = fr root (pml4_idx va) in
      if \<not> present V e4 then None
      else let e3 = fr (pfn_of V e4) (pdpt_idx va) in
      if \<not> present V e3 then None
      else if large_page V e3 then Some (e3, L_pdpte)
      else let e2 = fr (pfn_of V e3) (pd_idx va) in
      if \<not> present V e2 then None
      else if large_page V e2 then Some (e2, L_pde)
      else let e1 = fr (pfn_of V e2) (pt_idx va) in
      if \<not> present V e1 then None
      else Some (e1, L_pte))"

text \<open>
  An entry of a table of depth \<open>n\<close> (0 for the root) is a link to another table or the mapping of a page.
  A table is named by the path that leads to it, the last index first.
\<close>

definition is_link :: "map_env \<Rightarrow> nat \<Rightarrow> u64 \<Rightarrow> bool" where
  "is_link V n e \<longleftrightarrow> n < 3 \<and> present V e \<and> (n = 0 \<or> \<not> large_page V e)"

definition is_leaf :: "map_env \<Rightarrow> nat \<Rightarrow> u64 \<Rightarrow> bool" where
  "is_leaf V n e \<longleftrightarrow> present V e \<and> (n = 3 \<or> (n = 1 \<or> n = 2) \<and> large_page V e)"

fun tab :: "map_env \<Rightarrow> page_frames \<Rightarrow> u64 \<Rightarrow> u64 list \<Rightarrow> u64 option" where
  "tab V fr root [] = Some root"
| "tab V fr root (i # p) =
     (case tab V fr root p of None \<Rightarrow> None
      | Some f \<Rightarrow> if is_link V (length p) (fr f i) then Some (pfn_of V (fr f i)) else None)"

fun level_path :: "page_table_level \<Rightarrow> u64 \<Rightarrow> u64 list" where
  "level_path L_pdpte va = [pml4_idx va]"
| "level_path L_pde va = [pdpt_idx va, pml4_idx va]"
| "level_path L_pte va = [pd_idx va, pdpt_idx va, pml4_idx va]"

fun level_idx :: "page_table_level \<Rightarrow> u64 \<Rightarrow> u64" where
  "level_idx L_pdpte va = pdpt_idx va"
| "level_idx L_pde va = pd_idx va"
| "level_idx L_pte va = pt_idx va"

lemma leaf_not_link: "is_leaf V n e \<Longrightarrow> \<not> is_link V n e"
  by (auto simp: is_leaf_def is_link_def)

lemma walk_tab:
  "page_walk V fr root va = Some (e, l) \<longleftrightarrow>
     (\<exists>f. tab V fr root (level_path l va) = Some f \<and> is_leaf V (length (level_path l va)) e \<and> fr f (level_idx l va) = e)"
  by (cases l) (auto simp: page_walk_def is_link_def is_leaf_def Let_def split: if_splits option.splits)

lemma system_pte_walk:
  "get_system_pte_for_va V fr cr3_frame va = Some x \<Longrightarrow> page_walk V fr cr3_frame va = Some x"
  by (auto simp: get_system_pte_for_va_def page_walk_def Let_def split: if_splits)

lemma tab_links:
  "tab V fr root (i # p) = Some g \<longleftrightarrow>
     (\<exists>f. tab V fr root p = Some f \<and> is_link V (length p) (fr f i) \<and> pfn_of V (fr f i) = g)"
  by (auto split: option.splits)

section \<open>Agreement of the host's tables with those of the system\<close>

definition pte_layout_ok :: "pte_layout \<Rightarrow> bool" where
  "pte_layout_ok L \<longleftrightarrow> distinct [pe_present L, pe_write L, pe_large_page L] \<and>
     (\<forall>b \<in> {pe_present L, pe_write L, pe_large_page L}. b < 64 \<and>
       (\<forall>m \<in> {pe_page_frame_number L, pe_1gb_page_frame_number L}. b < fst m \<or> fst m + snd m \<le> b)) \<and>
     (\<forall>m \<in> {pe_page_frame_number L, pe_1gb_page_frame_number L}. fst m + snd m \<le> 64) \<and>
     9 \<le> snd (pe_1gb_page_frame_number L)"

definition system_tables :: "map_env \<Rightarrow> page_frames \<Rightarrow> u64 \<Rightarrow> u64 set" where
  "system_tables V F0 cr3_frame = {f. \<exists>p. tab V F0 cr3_frame p = Some f}"

text \<open>
  What the kernel guarantees: pages it hands out are distinct, and neither tables of the system nor the tables
  that are part of the hypervisor.
\<close>

definition kernel_ok :: "map_env \<Rightarrow> page_frames \<Rightarrow> u64 \<Rightarrow> bool" where
  "kernel_ok V F0 cr3_frame \<longleftrightarrow> pte_layout_ok (pe V) \<and> host_root V \<noteq> window_frame V \<and>
     {host_root V, window_frame V} \<inter> system_tables V F0 cr3_frame = {} \<and>
     take_bit (snd (pe_page_frame_number (pe V))) (window_frame V) = window_frame V \<and>
     (\<forall>n g. alloc V n = Some g \<longrightarrow> g \<notin> {host_root V, window_frame V} \<union> system_tables V F0 cr3_frame \<and>
        take_bit (snd (pe_page_frame_number (pe V))) g = g \<and> (\<forall>m. alloc V m = Some g \<longrightarrow> m = n))"

abbreviation host_tab :: "map_env \<Rightarrow> map_state \<Rightarrow> u64 list \<Rightarrow> u64 option" where
  "host_tab V s \<equiv> tab V (frames s) (host_root V)"

definition allocated :: "map_env \<Rightarrow> map_state \<Rightarrow> u64 set" where
  "allocated V s = {g. \<exists>n < allocs s. alloc V n = Some g}"

text \<open>
  An entry of the host is empty, a link where the system has one, or the system's entry for a page.
\<close>

definition entry_agrees :: "map_env \<Rightarrow> page_frames \<Rightarrow> u64 \<Rightarrow> u64 list \<Rightarrow> u64 \<Rightarrow> u64 \<Rightarrow> bool" where
  "entry_agrees V F0 cr3_frame p i e \<longleftrightarrow> e = 0 \<or>
     (\<exists>f. tab V F0 cr3_frame p = Some f \<and>
       (is_link V (length p) (F0 f i) \<and> is_link V (length p) e \<or> is_leaf V (length p) (F0 f i) \<and> e = F0 f i))"

definition tables_agree :: "map_env \<Rightarrow> page_frames \<Rightarrow> u64 \<Rightarrow> map_state \<Rightarrow> bool" where
  "tables_agree V F0 cr3_frame s \<longleftrightarrow>
     (\<forall>f \<in> system_tables V F0 cr3_frame. frames s f = F0 f) \<and>
     (\<forall>p q f. host_tab V s p = Some f \<and> host_tab V s q = Some f \<longrightarrow> p = q) \<and>
     (\<forall>p f. host_tab V s p = Some f \<longrightarrow> f = host_root V \<or> f = window_frame V \<and> p = [host_pml4_index] \<or>
       f \<in> allocated V s \<and> last p \<noteq> host_pml4_index) \<and>
     (\<forall>i. \<not> is_link V 1 (frames s (window_frame V) i)) \<and>
     (\<forall>p f i. host_tab V s p = Some f \<and> last (i # p) \<noteq> host_pml4_index \<longrightarrow> entry_agrees V F0 cr3_frame p i (frames s f i))"

definition walks_kept :: "map_env \<Rightarrow> map_state \<Rightarrow> map_state \<Rightarrow> bool" where
  "walks_kept V s s' \<longleftrightarrow>
     (\<forall>va x. page_walk V (frames s) (host_root V) va = Some x \<longrightarrow> page_walk V (frames s') (host_root V) va = Some x)"

lemma present_0 [simp]: "\<not> present V 0"
  by (simp add: present_def)

lemma link_leaf_0 [simp]: "\<not> is_link V n 0" "\<not> is_leaf V n 0"
  by (simp_all add: is_link_def is_leaf_def)

lemma walks_keptI:
  assumes "\<And>p f i. host_tab V s p = Some f \<Longrightarrow> is_leaf V (length p) (frames s f i) \<Longrightarrow>
      host_tab V s' p = Some f \<and> frames s' f i = frames s f i"
  shows "walks_kept V s s'"
  unfolding walks_kept_def
proof (intro allI impI)
  fix va and x :: "u64 \<times> page_table_level"
  assume w: "page_walk V (frames s) (host_root V) va = Some x"
  obtain e l where x: "x = (e, l)" by fastforce
  then show "page_walk V (frames s') (host_root V) va = Some x"
    using w assms by (auto simp: walk_tab)
qed

lemma walks_kept_refl [simp]: "walks_kept V s s"
  by (simp add: walks_kept_def)

lemma walks_kept_trans [trans]: "walks_kept V s s' \<Longrightarrow> walks_kept V s' s'' \<Longrightarrow> walks_kept V s s''"
  by (simp add: walks_kept_def)

lemma link_entry:
  assumes "kernel_ok V F0 c" and "take_bit (snd (pe_page_frame_number (pe V))) g = g" and "n < 3"
  shows "is_link V n (link_entry V 0 g)" and "pfn_of V (link_entry V 0 g) = g"
proof -
  have "pte_layout_ok (pe V)" using assms(1) by (simp add: kernel_ok_def)
  then show "is_link V n (link_entry V 0 g)" "pfn_of V (link_entry V 0 g) = g"
    using assms(2,3) by (auto simp: pte_layout_ok_def is_link_def link_entry_def present_def large_page_def pfn_of_def)
qed

lemma tables_agreeD:
  assumes "tables_agree V F0 c s"
  shows "f \<in> system_tables V F0 c \<Longrightarrow> frames s f = F0 f"
    and "host_tab V s p = Some f \<Longrightarrow> host_tab V s q = Some f \<Longrightarrow> p = q"
    and "host_tab V s p = Some f \<Longrightarrow> f = host_root V \<or> f = window_frame V \<and> p = [host_pml4_index] \<or> f \<in> allocated V s \<and> last p \<noteq> host_pml4_index"
    and "\<not> is_link V 1 (frames s (window_frame V) i)"
    and "host_tab V s p = Some f \<Longrightarrow> last (i # p) \<noteq> host_pml4_index \<Longrightarrow> entry_agrees V F0 c p i (frames s f i)"
  using assms unfolding tables_agree_def by blast+

lemma host_not_system:
  assumes "kernel_ok V F0 c" and "tables_agree V F0 c s" and "host_tab V s p = Some f"
  shows "f \<notin> system_tables V F0 c"
  using tables_agreeD(3) [OF assms(2,3)] assms(1) by (auto simp: kernel_ok_def allocated_def)

lemma new_frame:
  assumes "kernel_ok V F0 c" and "tables_agree V F0 c s" and "alloc V (allocs s) = Some g"
  shows "host_tab V s p \<noteq> Some g" and "g \<notin> system_tables V F0 c" and "g \<notin> allocated V s"
    and "take_bit (snd (pe_page_frame_number (pe V))) g = g" and "g \<noteq> host_root V" and "g \<noteq> window_frame V"
proof -
  show g: "g \<notin> system_tables V F0 c" "take_bit (snd (pe_page_frame_number (pe V))) g = g" "g \<noteq> host_root V" "g \<noteq> window_frame V"
    using assms(1,3) unfolding kernel_ok_def by blast+
  show a: "g \<notin> allocated V s"
    using assms(1,3) unfolding kernel_ok_def allocated_def by blast
  show "host_tab V s p \<noteq> Some g"
    using tables_agreeD(3) [OF assms(2), of p g] a g by blast
qed

text \<open>Storing a link to an empty table adds one table and changes no other.\<close>

lemma tab_add_table:
  assumes inj: "\<And>q. tab V fr root q = Some f \<Longrightarrow> q = p" and f: "tab V fr root p = Some f"
    and old: "fr f i = 0" and new: "\<And>q. tab V fr root q \<noteq> Some g" and e: "is_link V (length p) e" "pfn_of V e = g"
  defines "fr' \<equiv> (fr(g := (\<lambda>_. 0)))(f := (fr f)(i := e))"
  shows "tab V fr' root q = (if q = i # p then Some g else tab V fr root q)"
proof -
  have fg: "f \<noteq> g" using new f by blast
  have none: "tab V fr root (i # p) = None" using f old by simp
  have F: "fr' f = (fr f)(i := e)" "fr' g = (\<lambda>_. 0)" "\<And>h. h \<noteq> f \<Longrightarrow> h \<noteq> g \<Longrightarrow> fr' h = fr h"
    using fg by (simp_all add: fr'_def)
  show ?thesis
  proof (induction q)
    case (Cons j q)
    show ?case
    proof (cases "q = i # p")
      case True
      then have "tab V fr' root q = Some g" using Cons by simp
      then show ?thesis using True none F(2) by auto
    next
      case False
      then have t: "tab V fr' root q = tab V fr root q" using Cons by simp
      show ?thesis
      proof (cases "tab V fr root q")
        case None
        then have "q \<noteq> p" using f by auto
        then show ?thesis using t None by simp
      next
        case (Some h)
        have "h \<noteq> g" using new Some by blast
        show ?thesis
        proof (cases "h = f")
          case True
          then have "q = p" using inj Some by blast
          then show ?thesis using t Some True old e F(1) by auto
        next
          case False
          then have "q \<noteq> p" using Some f by auto
          then show ?thesis using t Some F(3) [OF False \<open>h \<noteq> g\<close>] by simp
        qed
      qed
    qed
  qed simp
qed

text \<open>Storing the mapping of a page over an entry that is no link changes no table.\<close>

lemma tab_set_leaf:
  assumes inj: "\<And>q. tab V fr root q = Some f \<Longrightarrow> q = p" and "\<not> is_link V (length p) (fr f i)" and "\<not> is_link V (length p) e"
  shows "tab V (fr(f := (fr f)(i := e))) root q = tab V fr root q"
proof (induction q)
  case (Cons j q)
  then show ?case using assms by (auto split: option.splits)
qed simp

declare tab.simps(2) [simp del]

lemma map_leaf:
  assumes k: "kernel_ok V F0 c" and a: "tables_agree V F0 c s" and f: "host_tab V s p = Some f"
    and i: "last (i # p) \<noteq> host_pml4_index" and sf: "tab V F0 c p = Some sf" and l: "is_leaf V (length p) (F0 sf i)"
  defines "s' \<equiv> set_entry f i (F0 sf i) s"
  shows "tables_agree V F0 c s'" and "walks_kept V s s'" and "host_tab V s' = host_tab V s" and "frames s' f i = F0 sf i"
proof -
  note A = tables_agreeD [OF a]
  have e: "entry_agrees V F0 c p i (frames s f i)" by (rule A(5) [OF f i])
  have nl: "\<not> is_link V (length p) (F0 sf i)" by (rule leaf_not_link [OF l])
  then have old: "frames s f i = 0 \<or> frames s f i = F0 sf i" using e sf by (auto simp: entry_agrees_def)
  have fr: "frames s' = (frames s)(f := (frames s f)(i := F0 sf i))" and al: "allocs s' = allocs s"
    by (simp_all add: s'_def set_entry_def)
  show t: "host_tab V s' = host_tab V s"
    unfolding fr by (rule ext, rule tab_set_leaf [of V "frames s" "host_root V" f p]) (use A(2) [OF _ f] old nl in auto)
  show "frames s' f i = F0 sf i" by (simp add: fr)
  have "entry_agrees V F0 c q j (frames s' g j)" if "host_tab V s q = Some g" "last (j # q) \<noteq> host_pml4_index" for q g j
  proof (cases "g = f \<and> j = i")
    case True
    then have "q = p" using A(2) that f by blast
    then show ?thesis using True sf l by (auto simp: entry_agrees_def fr)
  next
    case False
    then show ?thesis using A(5) [OF that] by (auto simp: fr)
  qed
  moreover have "frames s' g = F0 g" if "g \<in> system_tables V F0 c" for g
    using A(1) [OF that] host_not_system [OF k a f] that by (auto simp: fr)
  moreover have "\<not> is_link V 1 (frames s' (window_frame V) j)" for j
    using A(4) [of j] A(3) [OF f] f i k by (auto simp: fr kernel_ok_def allocated_def)
  ultimately show "tables_agree V F0 c s'"
    using A(2,3) unfolding tables_agree_def t allocated_def al by blast
  show "walks_kept V s s'"
  proof (rule walks_keptI)
    fix q g j
    assume "host_tab V s q = Some g" "is_leaf V (length q) (frames s g j)"
    then show "host_tab V s' q = Some g \<and> frames s' g j = frames s g j"
      using old unfolding t by (auto simp: fr)
  qed
qed

lemma found_table:
  assumes k: "kernel_ok V F0 c" and a: "tables_agree V F0 c s" and f: "host_tab V s p = Some f" and n: "length p < 3"
    and i: "last (i # p) \<noteq> host_pml4_index" and sf: "tab V F0 c p = Some sf" and l: "is_link V (length p) (F0 sf i)"
    and r: "next_table V f i s = (r, s')"
  shows "tables_agree V F0 c s' \<and> walks_kept V s s' \<and> (\<forall>g. r = Some g \<longrightarrow> host_tab V s' (i # p) = Some g)"
proof -
  note A = tables_agreeD [OF a]
  have e: "entry_agrees V F0 c p i (frames s f i)" by (rule A(5) [OF f i])
  then have old: "frames s f i = 0 \<or> is_link V (length p) (frames s f i)" 
    using sf l leaf_not_link by (auto simp: entry_agrees_def)
  show ?thesis
  proof (cases "present V (frames s f i)")
    case True
    then have "is_link V (length p) (frames s f i)" using old by auto
    then show ?thesis using r True a f by (auto simp: next_table_def tab_links Let_def split: if_splits)
  next
    case False
    then have z: "frames s f i = 0" using old by (auto simp: is_link_def)
    show ?thesis
    proof (cases "alloc V (allocs s)")
      case None
      then have "r = None" "s' = s\<lparr>allocs := allocs s + 1\<rparr>"
        using r False by (auto simp: next_table_def alloc_host_pt_def)
      moreover have "tables_agree V F0 c (s\<lparr>allocs := allocs s + 1\<rparr>)"
        using a unfolding tables_agree_def allocated_def by simp (metis less_Suc_eq)
      ultimately show ?thesis by (simp add: walks_kept_def)
    next
      case (Some g)
      note N = new_frame [OF k a Some]
      have fg: "f \<noteq> g" using N(1) f by blast
      let ?e = "link_entry V 0 g"
      note E = link_entry [OF k N(4) n]
      have s': "s' = set_entry f i ?e (s\<lparr>allocs := allocs s + 1, frames := (frames s)(g := (\<lambda>_. 0))\<rparr>)"
        and rg: "\<forall>x. r = Some x \<longrightarrow> x = g"
        using r False Some fg z E by (auto simp: next_table_def alloc_host_pt_def set_entry_def Let_def split: if_splits)
      have fr: "frames s' = ((frames s)(g := (\<lambda>_. 0)))(f := (frames s f)(i := ?e))" and al: "allocs s' = allocs s + 1"
        using fg by (simp_all add: s' set_entry_def)
      have t: "host_tab V s' q = (if q = i # p then Some g else host_tab V s q)" for q
        unfolding fr by (rule tab_add_table) (use A(2) f z N(1) E in auto)
      have al': "allocated V s' = insert g (allocated V s)"
        using Some by (auto simp: allocated_def al less_Suc_eq)
      have none: "host_tab V s (i # p) = None" using f z by (simp add: tab.simps)
      have "entry_agrees V F0 c q j (frames s' h j)" if h: "host_tab V s' q = Some h" "last (j # q) \<noteq> host_pml4_index" for q h j
      proof (cases "q = i # p")
        case True
        then have "h = g" using h(1) t [of q] by simp
        then show ?thesis using fg by (simp add: fr entry_agrees_def)
      next
        case False
        then have o: "host_tab V s q = Some h" using h t by simp
        then have "h \<noteq> g" using N(1) by blast
        show ?thesis
        proof (cases "h = f \<and> j = i")
          case True
          then have "q = p" using A(2) o f by blast
          then show ?thesis using True sf l E by (auto simp: entry_agrees_def fr)
        next
          case False
          then show ?thesis using A(5) [OF o h(2)] \<open>h \<noteq> g\<close> by (auto simp: fr)
        qed
      qed
      moreover have "frames s' h = F0 h" if "h \<in> system_tables V F0 c" for h
        using A(1) [OF that] host_not_system [OF k a f] that N(2) by (auto simp: fr)
      moreover have "q = q'" if "host_tab V s' q = Some h" "host_tab V s' q' = Some h" for q q' h
        using that t N(1) A(2) by (metis option.inject)
      moreover have "h = host_root V \<or> h = window_frame V \<and> q = [host_pml4_index] \<or> h \<in> allocated V s' \<and> last q \<noteq> host_pml4_index" if "host_tab V s' q = Some h" for q h
        by (cases "q = i # p") (use that t [of q] A(3) [of q h] al' i in auto)
      moreover have "\<not> is_link V 1 (frames s' (window_frame V) j)" for j
        using A(4) [of j] A(3) [OF f] f i k N(6) by (auto simp: fr kernel_ok_def allocated_def)
      ultimately have "tables_agree V F0 c s'"
        unfolding tables_agree_def by blast
      moreover have "walks_kept V s s'"
      proof (rule walks_keptI)
        fix q h j
        assume o: "host_tab V s q = Some h" "is_leaf V (length q) (frames s h j)"
        then have "h \<noteq> g" "q \<noteq> i # p" using N(1) none by auto
        then show "host_tab V s' q = Some h \<and> frames s' h j = frames s h j"
          using o z t by (auto simp: fr)
      qed
      ultimately show ?thesis using rg t by simp
    qed
  qed
qed

section \<open>Mapping a page\<close>

definition reaches :: "map_env \<Rightarrow> page_frames \<Rightarrow> u64 \<Rightarrow> map_state \<Rightarrow> u64 list \<Rightarrow> u64 option \<times> map_state \<Rightarrow> bool" where
  "reaches V F0 c s p r \<longleftrightarrow> tables_agree V F0 c (snd r) \<and> walks_kept V s (snd r) \<and>
     (\<forall>g. fst r = Some g \<longrightarrow> host_tab V (snd r) p = Some g)"

lemma reaches_then:
  assumes k: "kernel_ok V F0 c" and r: "reaches V F0 c s p r" and i: "last (i # p) \<noteq> host_pml4_index"
    and t: "tab V F0 c (i # p) = Some g"
  shows "reaches V F0 c s (i # p) (then_table r (\<lambda>f. next_table V f i))"
proof -
  obtain o1 s1 where r1: "r = (o1, s1)" by fastforce
  show ?thesis
  proof (cases o1)
    case None
    then show ?thesis using r r1 by (simp add: reaches_def then_table_def)
  next
    case (Some f)
    obtain o2 s2 where n: "next_table V f i s1 = (o2, s2)" by fastforce
    obtain sf where sf: "tab V F0 c p = Some sf" "is_link V (length p) (F0 sf i)"
      using t by (auto simp: tab_links)
    have a: "tables_agree V F0 c s1" "walks_kept V s s1" "host_tab V s1 p = Some f" "length p < 3"
      using r Some sf(2) by (auto simp: reaches_def r1 is_link_def)
    show ?thesis
      using found_table [OF k a(1,3,4) i sf n] walks_kept_trans [OF a(2)] by (auto simp: reaches_def then_table_def r1 Some n)
  qed
qed

lemma reaches_root:
  assumes "tables_agree V F0 c s"
  shows "reaches V F0 c s [] (Some (host_root V), s)"
  using assms by (simp add: reaches_def)

lemma next_table_then: "next_table V f i s = then_table (Some f, s) (\<lambda>f. next_table V f i)"
  by (simp add: then_table_def)

lemma write_leaf:
  assumes k: "kernel_ok V F0 c" and r: "reaches V F0 c s (level_path l va) r" and i: "pml4_idx va \<noteq> host_pml4_index"
    and w: "page_walk V F0 c va = Some (e, l)"
    and s': "(case r of (None, s) \<Rightarrow> (False, s) | (Some f, s) \<Rightarrow> (True, set_entry f (level_idx l va) e s)) = (ok, s')"
  shows "tables_agree V F0 c s' \<and> walks_kept V s s' \<and> (ok \<longrightarrow> page_walk V (frames s') (host_root V) va = Some (e, l))"
proof (cases "fst r")
  case None
  then show ?thesis using r s' by (auto simp: reaches_def split: prod.splits)
next
  case (Some f)
  obtain s1 where r1: "r = (Some f, s1)" using Some by (cases r) simp
  obtain sf where sf: "tab V F0 c (level_path l va) = Some sf" "is_leaf V (length (level_path l va)) (F0 sf (level_idx l va))"
    "F0 sf (level_idx l va) = e"
    using w by (auto simp: walk_tab)
  have q: "last (level_idx l va # level_path l va) \<noteq> host_pml4_index"
    using i by (cases l) auto
  have a: "tables_agree V F0 c s1" "walks_kept V s s1" "host_tab V s1 (level_path l va) = Some f"
    using r by (simp_all add: reaches_def r1)
  note L = map_leaf [OF k a(1,3) q sf(1,2)]
  have "s' = set_entry f (level_idx l va) (F0 sf (level_idx l va)) s1" "ok"
    using s' sf(3) by (simp_all add: r1)
  then show ?thesis
    using L a walks_kept_trans [OF a(2) L(2)] sf(2,3) by (auto simp: walk_tab)
qed

lemma map_page_agrees:
  assumes k: "kernel_ok V F0 c" and a: "tables_agree V F0 c s" and i: "pml4_idx va \<noteq> host_pml4_index"
    and w: "page_walk V F0 c va = Some (e, l)" and m: "map_page V va e l s = (ok, s')"
  shows "tables_agree V F0 c s' \<and> walks_kept V s s' \<and> (ok \<longrightarrow> page_walk V (frames s') (host_root V) va = Some (e, l))"
proof -
  obtain f where f: "tab V F0 c (level_path l va) = Some f"
    using w by (auto simp: walk_tab)
  have "reaches V F0 c s (level_path l va) (case l of
      L_pdpte \<Rightarrow> next_table V (host_root V) (pml4_idx va) s
    | L_pde \<Rightarrow> then_table (next_table V (host_root V) (pml4_idx va) s) (\<lambda>f. next_table V f (pdpt_idx va))
    | L_pte \<Rightarrow> then_table (then_table (next_table V (host_root V) (pml4_idx va) s) (\<lambda>f. next_table V f (pdpt_idx va)))
        (\<lambda>f. next_table V f (pd_idx va)))" (is "reaches V F0 c s _ ?r")
    using f i by (cases l) (auto simp: next_table_then [of V "host_root V"] tab_links
        intro!: reaches_then [OF k] reaches_root [OF a])
  moreover have "(case ?r of (None, s) \<Rightarrow> (False, s) | (Some f, s) \<Rightarrow> (True, set_entry f (level_idx l va) e s)) = (ok, s')"
    using m by (cases l) (simp_all add: map_page_def Let_def split: prod.splits option.splits)
  ultimately show ?thesis
    by (rule write_leaf [OF k _ i w])
qed

section \<open>Mapping a range\<close>

definition level_size :: "page_table_level \<Rightarrow> nat" where
  "level_size l = (case l of L_pte \<Rightarrow> 4096 | L_pde \<Rightarrow> 2097152 | L_pdpte \<Rightarrow> 1073741824)"

lemma unat_aligned: "unat (w AND NOT (mask k)) = unat w div 2 ^ k * 2 ^ k" for w :: u64
proof -
  have "w AND NOT (mask k) = push_bit k (drop_bit k w)"
    by (rule bit_eqI) (auto simp: bit_simps)
  moreover have u: "unat (drop_bit k w) = unat w div 2 ^ k"
    by (simp only: unat_drop_bit_eq) (simp add: drop_bit_eq_div)
  moreover have "unat w div 2 ^ k * 2 ^ k < 2 ^ 64"
    using le_less_trans [OF div_times_less_eq_dividend [of "unat w" "2 ^ k"] unat_less_64 [of w]] by simp
  ultimately show ?thesis
    using unat_push_bit [of "drop_bit k w" k] by (simp del: unat_drop_bit_eq)
qed

text \<open>A page of 1 GB is passed in steps of 4 GB.\<close>

definition advance_size :: "page_table_level \<Rightarrow> nat" where
  "advance_size l = (case l of L_pte \<Rightarrow> 4096 | L_pde \<Rightarrow> 2097152 | L_pdpte \<Rightarrow> 4294967296)"

lemma unat_advance_past:
  assumes "unat va < 2 ^ 64 - 2 ^ 32"
  shows "unat (advance_past l va) = unat va div advance_size l * advance_size l + advance_size l"
proof -
  have m: "(0xFFFFFFFF :: u64) = mask 32" "(0x1FFFFF :: u64) = mask 21" "(0xFFF :: u64) = mask 12"
    by (simp_all add: mask_eq_exp_minus_1)
  have d: "unat va div x * x \<le> unat va" for x
    by (rule div_times_less_eq_dividend)
  show ?thesis
    using assms d [of 4096] d [of 2097152] d [of 4294967296]
    by (cases l) (simp_all add: advance_past_def advance_size_def m unat_aligned unat_add_no_wrap)
qed

lemma advance_increases:
  assumes "unat va < 2 ^ 64 - 2 ^ 32"
  shows "unat va < unat (advance_past l va)"
proof -
  have "unat va < unat va div k * k + k" if "0 < k" for k
    using dividend_less_times_div [OF that, of "unat va"] by (simp add: mult.commute add.commute)
  then show ?thesis
    by (cases l) (simp_all add: unat_advance_past [OF assms] advance_size_def)
qed

lemma mod_div_small: "x div a = y div a \<Longrightarrow> b = a * k \<Longrightarrow> x div b = y div b" for x y a b k :: nat
  by (simp add: div_mult2_eq)

text \<open>The addresses of a page have the same indices, down to the level of the page.\<close>

lemma same_page_idx:
  assumes p: "unat x div level_size l = unat va div level_size l"
  shows "pml4_idx x = pml4_idx va" and "pdpt_idx x = pdpt_idx va"
    and "l \<noteq> L_pdpte \<Longrightarrow> pd_idx x = pd_idx va" and "l = L_pte \<Longrightarrow> pt_idx x = pt_idx va"
  using mod_div_small [OF p, of 549755813888 "549755813888 div level_size l"]
    mod_div_small [OF p, of 1073741824 "1073741824 div level_size l"]
    mod_div_small [OF p, of 2097152 "2097152 div level_size l"] p
  by (cases l; simp add: word_unat_eq_iff va_field_nat level_size_def)+

lemma same_page_walk:
  assumes w: "page_walk V fr root va = Some (e, l)" and p: "unat x div level_size l = unat va div level_size l"
  shows "page_walk V fr root x = Some (e, l)"
  using w same_page_idx [OF p] by (cases l) (simp_all add: walk_tab)

lemma in_first_page:
  assumes "unat va \<le> unat x" and "unat x < unat va div k * k + k" and "0 < k"
  shows "unat x div k = unat va div k"
  using assms by (metis add.commute div_le_mono le_antisym less_mult_imp_div_less less_Suc_eq_le mult_Suc)

lemma system_tab:
  assumes "tables_agree V F0 c s"
  shows "tab V (frames s) c p = tab V F0 c p"
proof (induction p)
  case (Cons i p)
  show ?case
  proof (cases "tab V F0 c p")
    case (Some f)
    then have "frames s f = F0 f"
      using tables_agreeD(1) [OF assms, of f] by (auto simp: system_tables_def)
    then show ?thesis using Cons Some by (simp add: tab.simps)
  qed (use Cons in \<open>simp add: tab.simps\<close>)
qed simp

lemma system_walk:
  assumes "tables_agree V F0 c s"
  shows "page_walk V (frames s) c va = page_walk V F0 c va"
proof -
  have "frames s f = F0 f" if "tab V F0 c p = Some f" for p f
    using tables_agreeD(1) [OF assms, of f] that by (auto simp: system_tables_def)
  then have "page_walk V (frames s) c va = Some x \<longleftrightarrow> page_walk V F0 c va = Some x" for x
    by (cases x) (auto simp: walk_tab system_tab [OF assms])
  then show ?thesis
    by (metis not_Some_eq)
qed

lemma map_loop_agrees:
  assumes "map_loop V c e cur s = Some r" and "kernel_ok V F0 c" and "tables_agree V F0 c s"
    and "\<forall>x. unat cur \<le> unat x \<and> unat x < unat e \<longrightarrow> pml4_idx x \<noteq> host_pml4_index" and "unat e \<le> 2 ^ 64 - 2 ^ 32"
  shows "tables_agree V F0 c (snd r) \<and> walks_kept V s (snd r) \<and>
    (fst r \<and> (\<forall>x e'. unat cur \<le> unat x \<and> unat x < unat e \<longrightarrow> page_walk V F0 c x \<noteq> Some (e', L_pdpte)) \<longrightarrow>
      (\<forall>x. unat cur \<le> unat x \<and> unat x < unat e \<longrightarrow>
         page_walk V F0 c x \<noteq> None \<and> page_walk V (frames (snd r)) (host_root V) x = page_walk V F0 c x))"
  using assms
proof (induction V c e cur s r rule: map_loop.raw_induct [rotated, consumes 1, case_names 1])
  case (1 loop V c e cur s r)
  show ?case
  proof (cases "cur < e")
    case False
    then show ?thesis using "1"(2-6) by (auto simp: word_less_nat_alt)
  next
    case True
    note lt = True [unfolded word_less_nat_alt]
    show ?thesis
    proof (cases "get_system_pte_for_va V (frames s) c cur")
      case None
      then show ?thesis using True "1"(2-6) by auto
    next
      case (Some el)
      obtain en l where el: "el = (en, l)" by fastforce
      obtain ok s1 where m: "map_page V cur en l s = (ok, s1)" by fastforce
      have w: "page_walk V F0 c cur = Some (en, l)"
        using system_pte_walk [OF Some] system_walk [OF "1"(4)] el by simp
      have M: "tables_agree V F0 c s1" "walks_kept V s s1" "ok \<Longrightarrow> page_walk V (frames s1) (host_root V) cur = Some (en, l)"
        using map_page_agrees [OF "1"(3,4) _ w m] "1"(5) lt by auto
      show ?thesis
      proof (cases ok)
        case False
        then show ?thesis using "1"(2) True Some el m M by auto
      next
        case ok: True
        let ?next = "advance_past l cur"
        have lim: "unat cur < 2 ^ 64 - 2 ^ 32" using lt "1"(6) by simp
        note n = unat_advance_past [OF lim, of l] and less = advance_increases [OF lim, of l]
        have l1: "loop V c e ?next s1 = Some r" using "1"(2) True Some el m ok by simp
        have R: "tables_agree V F0 c (snd r) \<and> walks_kept V s1 (snd r) \<and>
          (fst r \<and> (\<forall>x e'. unat ?next \<le> unat x \<and> unat x < unat e \<longrightarrow> page_walk V F0 c x \<noteq> Some (e', L_pdpte)) \<longrightarrow>
            (\<forall>x. unat ?next \<le> unat x \<and> unat x < unat e \<longrightarrow>
               page_walk V F0 c x \<noteq> None \<and> page_walk V (frames (snd r)) (host_root V) x = page_walk V F0 c x))"
          by (rule "1"(1) [OF l1 "1"(3) M(1) _ "1"(6)]) (use "1"(5) less in auto)
        have here: "page_walk V F0 c x = Some (en, l) \<and> page_walk V (frames (snd r)) (host_root V) x = Some (en, l)"
          if x: "unat cur \<le> unat x" "unat x < unat ?next" and "l \<noteq> L_pdpte" for x
        proof -
          have "unat x div level_size l = unat cur div level_size l"
            using in_first_page [OF x(1), of "level_size l"] x(2) that(3) unfolding n
            by (cases l) (auto simp: level_size_def advance_size_def)
          then show ?thesis
            using same_page_walk [OF w] same_page_walk [OF M(3) [OF ok]] R by (auto simp: walks_kept_def)
        qed
        have "page_walk V F0 c x \<noteq> None \<and> page_walk V (frames (snd r)) (host_root V) x = page_walk V F0 c x"
          if h: "fst r" "\<forall>x e'. unat cur \<le> unat x \<and> unat x < unat e \<longrightarrow> page_walk V F0 c x \<noteq> Some (e', L_pdpte)"
            "unat cur \<le> unat x" "unat x < unat e" for x
        proof (cases "unat x < unat ?next")
          case True
          have "l \<noteq> L_pdpte" using h(2) w lt by blast
          then show ?thesis using here [OF h(3) True] by simp
        next
          case False
          then show ?thesis using R h less by (meson less_imp_le not_less order_trans)
        qed
        then show ?thesis using R walks_kept_trans [OF M(2)] by blast
      qed
    qed
  qed
qed

lemma map_loop_returns:
  assumes "unat e \<le> 2 ^ 64 - 2 ^ 32"
  shows "\<exists>r. map_loop V c e cur s = Some r"
proof (induction "unat e - unat cur" arbitrary: cur s rule: less_induct)
  case less
  show ?case
  proof (cases "cur < e")
    case True
    then have u: "unat cur < unat e" "unat cur < 2 ^ 64 - 2 ^ 32"
      using assms by (simp_all add: word_less_nat_alt)
    have "\<exists>r. map_loop V c e (advance_past l cur) s1 = Some r" for l s1
      by (rule less) (use u advance_increases [OF u(2), of l] in linarith)
    then show ?thesis
      by (subst map_loop.simps) (auto split: option.split prod.split)
  next
    case False
    then show ?thesis by (subst map_loop.simps) auto
  qed
qed

section \<open>The window\<close>

lemma window_frames:
  assumes "n \<le> 2 ^ 64"
  shows "frames (fold (\<lambda>i. set_entry f (of_nat i) (e i)) [0..<n] s) =
     (frames s)(f := (\<lambda>k. if unat k < n then e (unat k) else frames s f k)) \<and>
    allocs (fold (\<lambda>i. set_entry f (of_nat i) (e i)) [0..<n] s) = allocs s"
  using assms
proof (induction n)
  case (Suc n)
  then have "n < 2 ^ 64" by simp
  then have "unat k = n \<longleftrightarrow> k = of_nat n" for k :: u64
    using unat_of_nat_64 [of n] by auto
  then have "unat k < Suc n \<longleftrightarrow> k = of_nat n \<or> unat k < n" and "unat (of_nat n :: u64) = n" for k :: u64
    using unat_of_nat_64 [OF \<open>n < 2 ^ 64\<close>] by (auto simp: less_Suc_eq)
  then show ?case
    using Suc by (auto simp: set_entry_def fun_eq_iff)
qed simp

lemma window_entry_flags:
  assumes "pte_layout_ok (pe V)" and "i < 512"
  shows "present V (window_entry V i)" and "large_page V (window_entry V i)"
    and "get_member (pe_1gb_page_frame_number (pe V)) (window_entry V i) = of_nat i"
proof -
  let ?m = "pe_1gb_page_frame_number (pe V)"
  have t: "take_bit (snd ?m) (of_nat i :: u64) = of_nat i"
  proof -
    have "i < 2 ^ 9" using assms(2) by simp
    also have "(2 :: nat) ^ 9 \<le> 2 ^ snd ?m"
      using assms(1) by (intro power_increasing) (simp_all add: pte_layout_ok_def)
    finally show ?thesis
      by (metis of_nat_take_bit take_bit_nat_eq_self)
  qed
  show "present V (window_entry V i)" "large_page V (window_entry V i)" "get_member ?m (window_entry V i) = of_nat i"
    using assms(1) t by (auto simp: pte_layout_ok_def window_entry_def present_def large_page_def)
qed

lemma map_window_frames:
  assumes "kernel_ok V F0 c"
  shows "frames (map_window V s) = (frames s)
      (host_root V := (frames s (host_root V))(host_pml4_index := link_entry V 0 (window_frame V)),
       window_frame V := (\<lambda>k. if unat k < 512 then window_entry V (unat k) else frames s (window_frame V) k)) \<and>
    allocs (map_window V s) = allocs s"
proof -
  have d: "host_root V \<noteq> window_frame V" using assms by (simp add: kernel_ok_def)
  have n: "(512 :: nat) \<le> 2 ^ 64" by simp
  show ?thesis
    using window_frames [OF n, of "window_frame V" "window_entry V"] d unfolding map_window_def
    by (auto simp: set_entry_def fun_eq_iff)
qed

lemma map_window_agrees:
  assumes k: "kernel_ok V F0 c" and a: "tables_agree V F0 c s"
  shows "tables_agree V F0 c (map_window V s)"
    and "pml4_idx x \<noteq> host_pml4_index \<Longrightarrow>
      page_walk V (frames (map_window V s)) (host_root V) x = page_walk V (frames s) (host_root V) x"
    and "unat pa < 0x8000000000 \<Longrightarrow> page_walk V (frames (map_window V s)) (host_root V) (host_physical_base + pa) =
      Some (window_entry V (unat pa div 0x40000000), L_pdpte)"
proof -
  note A = tables_agreeD [OF a]
  let ?s = "map_window V s" and ?w = "\<lambda>k. if unat k < 512 then window_entry V (unat k) else frames s (window_frame V) k"
  have lay: "pte_layout_ok (pe V)" and d: "host_root V \<noteq> window_frame V"
    and g: "take_bit (snd (pe_page_frame_number (pe V))) (window_frame V) = window_frame V"
    using k by (simp_all add: kernel_ok_def)
  note E = link_entry [OF k g, of 0]
  have fr: "frames ?s (host_root V) = (frames s (host_root V))(host_pml4_index := link_entry V 0 (window_frame V))"
    "frames ?s (window_frame V) = ?w" "\<And>h. h \<noteq> host_root V \<Longrightarrow> h \<noteq> window_frame V \<Longrightarrow> frames ?s h = frames s h"
    and al: "allocs ?s = allocs s"
    using map_window_frames [OF k, of s] d by auto
  have nl: "\<not> is_link V (Suc 0) (frames ?s (window_frame V) j)" for j
    using A(4) [of j] window_entry_flags [OF lay, of "unat j"] by (auto simp: fr(2) is_link_def)
  have root: "host_tab V s q = Some (host_root V) \<Longrightarrow> q = []" for q
    using A(2) [of q "host_root V" "[]"] by simp
  have win: "host_tab V s q = Some (window_frame V) \<Longrightarrow> q = [host_pml4_index]" for q
    using A(3) [of q "window_frame V"] d k by (auto simp: kernel_ok_def allocated_def)
  have under: "host_tab V s q = None" if "q \<noteq> []" "q \<noteq> [host_pml4_index]" "last q = host_pml4_index" for q
  proof (cases "host_tab V s q")
    case (Some h)
    then show ?thesis using A(3) [OF Some] root that by auto
  qed
  have t: "host_tab V ?s q = (if q = [host_pml4_index] then Some (window_frame V) else host_tab V s q)" for q
  proof (induction q)
    case (Cons j q)
    consider "q = []" | "q = [host_pml4_index]" | "q \<noteq> []" "q \<noteq> [host_pml4_index]" by blast
    then show ?case
    proof cases
      case 1
      then show ?thesis using E by (simp add: tab.simps fr(1))
    next
      case 2
      then show ?thesis using Cons nl [of j] under [of "[j, host_pml4_index]"] by (simp add: tab.simps(2) [of _ _ _ j])
    next
      case 3
      show ?thesis
      proof (cases "host_tab V s q")
        case None
        then show ?thesis using Cons 3 by (simp add: tab.simps(2) [of _ _ _ j])
      next
        case (Some h)
        then have "h \<noteq> host_root V" "h \<noteq> window_frame V" using root win 3 by blast+
        then show ?thesis using Cons 3 Some by (simp add: tab.simps(2) [of _ _ _ j] fr(3))
      qed
    qed
  qed simp
  have no: "host_tab V s q \<noteq> Some (window_frame V)" if "q \<noteq> [host_pml4_index]" for q
    using win that by blast
  show "tables_agree V F0 c ?s"
    unfolding tables_agree_def
  proof (intro conjI allI ballI impI)
    fix h assume h: "h \<in> system_tables V F0 c"
    then have "h \<noteq> host_root V" "h \<noteq> window_frame V" using k by (auto simp: kernel_ok_def)
    then show "frames ?s h = F0 h" using A(1) [OF h] fr(3) by simp
  next
    fix q q' h assume "host_tab V ?s q = Some h \<and> host_tab V ?s q' = Some h"
    then show "q = q'" using A(2) [of q h q'] no unfolding t by (auto split: if_splits)
  next
    fix q h assume "host_tab V ?s q = Some h"
    then show "h = host_root V \<or> h = window_frame V \<and> q = [host_pml4_index] \<or> h \<in> allocated V ?s \<and> last q \<noteq> host_pml4_index"
      using A(3) [of q h] unfolding t allocated_def al by (auto split: if_splits)
  next
    fix j show "\<not> is_link V 1 (frames ?s (window_frame V) j)" using nl by simp
  next
    fix q h j assume h: "host_tab V ?s q = Some h \<and> last (j # q) \<noteq> host_pml4_index"
    then have o: "host_tab V s q = Some h" "q \<noteq> [host_pml4_index]" unfolding t by (auto split: if_splits)
    have "frames ?s h j = frames s h j"
    proof (cases "h = host_root V")
      case True
      then show ?thesis using root o(1) h by (auto simp: fr(1))
    next
      case False
      moreover have "h \<noteq> window_frame V" using no o by blast
      ultimately show ?thesis by (simp add: fr(3))
    qed
    then show "entry_agrees V F0 c q j (frames ?s h j)" using A(5) [OF o(1), of j] h by simp
  qed
  show "page_walk V (frames ?s) (host_root V) x = page_walk V (frames s) (host_root V) x" if x: "pml4_idx x \<noteq> host_pml4_index"
  proof -
    have "page_walk V (frames ?s) (host_root V) x = Some (e, l) \<longleftrightarrow> page_walk V (frames s) (host_root V) x = Some (e, l)" for e l
    proof -
      have p: "level_path l x \<noteq> [host_pml4_index]" "level_path l x \<noteq> []" using x by (cases l; simp)+
      have "frames ?s h = frames s h" if "host_tab V s (level_path l x) = Some h" for h
        using fr(3) [of h] root no [OF p(1)] p(2) that by blast
      then show ?thesis using p(1) by (auto simp: walk_tab t)
    qed
    then have "page_walk V (frames ?s) (host_root V) x = Some y \<longleftrightarrow> page_walk V (frames s) (host_root V) x = Some y" for y
      by (cases y) auto
    then show ?thesis by (metis not_Some_eq)
  qed
  show "page_walk V (frames ?s) (host_root V) (host_physical_base + pa) = Some (window_entry V (unat pa div 0x40000000), L_pdpte)"
    if pa: "unat pa < 0x8000000000"
  proof -
    have u: "unat (host_physical_base + pa) = 0x7F8000000000 + unat pa"
      using pa by (simp add: host_physical_base_value unat_add_no_wrap)
    have b: "unat pa div 0x40000000 < 512" using pa by (simp add: less_mult_imp_div_less)
    have "(0x1FE00 * 0x40000000 + unat pa) div 0x40000000 = 0x1FE00 + unat pa div 0x40000000"
      by (rule div_mult_self3) simp
    then have i: "pml4_idx (host_physical_base + pa) = host_pml4_index"
      "unat (pdpt_idx (host_physical_base + pa)) = unat pa div 0x40000000"
      using pa b by (simp_all add: word_unat_eq_iff va_field_nat u host_pml4_index_def mod_add_eq [symmetric])
    show ?thesis
      using b window_entry_flags [OF lay b] i by (simp add: walk_tab t fr(2) is_leaf_def)
  qed
qed

section \<open>Properties\<close>

definition range_ok :: "map_env \<Rightarrow> page_frames \<Rightarrow> u64 \<Rightarrow> u64 \<Rightarrow> u64 \<Rightarrow> bool" where
  "range_ok V F0 c va sz \<longleftrightarrow> unat va + unat sz \<le> 2 ^ 64 - 2 ^ 32 \<and>
     (\<forall>x. unat va \<le> unat x \<and> unat x < unat va + unat sz \<longrightarrow>
        pml4_idx x \<noteq> host_pml4_index \<and> (\<forall>e. page_walk V F0 c x \<noteq> Some (e, L_pdpte)))"

definition mapped_like_system :: "map_env \<Rightarrow> page_frames \<Rightarrow> u64 \<Rightarrow> page_frames \<Rightarrow> u64 \<Rightarrow> bool" where
  "mapped_like_system V F0 c fr x \<longleftrightarrow> page_walk V F0 c x \<noteq> None \<and> page_walk V fr (host_root V) x = page_walk V F0 c x"

lemma map_range_agrees:
  assumes "map_va_range_to_host V va sz c s = Some (ok, s')" and "kernel_ok V F0 c" and "tables_agree V F0 c s"
    and "range_ok V F0 c va sz"
  shows "tables_agree V F0 c s'" and "walks_kept V s s'"
    and "ok \<Longrightarrow> unat va \<le> unat x \<Longrightarrow> unat x < unat va + unat sz \<Longrightarrow> mapped_like_system V F0 c (frames s') x"
proof -
  have u: "unat (va + sz) = unat va + unat sz"
    using assms(4) by (simp add: range_ok_def unat_add_no_wrap)
  show "tables_agree V F0 c s'" "walks_kept V s s'"
    "ok \<Longrightarrow> unat va \<le> unat x \<Longrightarrow> unat x < unat va + unat sz \<Longrightarrow> mapped_like_system V F0 c (frames s') x"
    using map_loop_agrees [OF assms(1) [unfolded map_va_range_to_host_def] assms(2,3)] assms(4)
    unfolding u range_ok_def mapped_like_system_def by auto
qed

lemma agree_sound:
  assumes "tables_agree V F0 c s" and "pml4_idx x \<noteq> host_pml4_index"
    and w: "page_walk V (frames s) (host_root V) x = Some (e, l)"
  shows "page_walk V F0 c x = Some (e, l)"
proof -
  obtain f where f: "host_tab V s (level_path l x) = Some f" "is_leaf V (length (level_path l x)) e" "frames s f (level_idx l x) = e"
    using w by (auto simp: walk_tab)
  have "last (level_idx l x # level_path l x) \<noteq> host_pml4_index"
    using assms(2) by (cases l) auto
  from tables_agreeD(5) [OF assms(1) f(1) this] show ?thesis
    using f leaf_not_link [OF f(2)] by (auto simp: walk_tab entry_agrees_def)
qed

lemma zeroed_agrees:
  assumes "frames s (host_root V) = (\<lambda>_. 0)" and "frames s (window_frame V) = (\<lambda>_. 0)"
  shows "tables_agree V (frames s) c s"
proof -
  have "host_tab V s p = Some f \<longleftrightarrow> p = [] \<and> f = host_root V" for p f
  proof (induction p arbitrary: f)
    case (Cons i p)
    then show ?case using assms(1) by (auto simp: tab_links)
  qed auto
  then show ?thesis
    unfolding tables_agree_def using assms by (auto simp: entry_agrees_def)
qed

lemma kept_mapped: "walks_kept V s s' \<Longrightarrow> mapped_like_system V F0 c (frames s) x \<Longrightarrow> mapped_like_system V F0 c (frames s') x"
  by (auto simp: walks_kept_def mapped_like_system_def)


text \<open>
  C34. Mapping a range ends. The loop over a range that ends at least 4 GB below the end of the address space returns,
  with the tables of the system and of the host in any state, however few pages the kernel has left.
\<close>

theorem mapping_returns:
  assumes "unat va + unat sz \<le> 2 ^ 64 - 2 ^ 32"
  shows "\<exists>ok s'. map_va_range_to_host V va sz c s = Some (ok, s')"
proof -
  have "unat (va + sz) \<le> 2 ^ 64 - 2 ^ 32"
    using assms by (simp add: unat_add_no_wrap)
  then show ?thesis
    using map_loop_returns [of "va + sz" V c va s] by (auto simp: map_va_range_to_host_def)
qed

theorem mapping_returns_witness:
  "\<forall>V c s. \<exists>ok s'. map_va_range_to_host V 0xFFFFF80000000000 0x10000 c s = Some (ok, s')"
  by (intro allI mapping_returns) simp

text \<open>A system with one page of 4 KB and one of 2 MB.\<close>

definition demo_frames :: page_frames where
  "demo_frames = (\<lambda>_ _. 0)(0x10 := (\<lambda>_. 0)(0x1F0 := 0x11003), 0x11 := (\<lambda>_. 0)(0 := 0x12003),
     0x12 := (\<lambda>_. 0)(0 := 0x13003, 1 := 0x40000083), 0x13 := (\<lambda>_. 0)(0 := 0x77003))"

definition demo_env :: map_env where
  "demo_env = \<lparr>pe = \<lparr>pe_present = 0, pe_write = 1, pe_large_page = 7, pe_page_frame_number = (12, 40),
     pe_1gb_page_frame_number = (30, 18)\<rparr>, virtual_for = (\<lambda>_. True),
     alloc = (\<lambda>n. if n < 16 then Some (0x1000 + of_nat n) else None), host_root = 0x500, window_frame = 0x501,
     pages_1gb_available = True\<rparr>"

lemma demo_system: "system_tables demo_env demo_frames 0x10 \<subseteq> {0x10, 0x11, 0x12, 0x13, 0x77, 0x40000}"
proof -
  have "f \<in> {0x10, 0x11, 0x12, 0x13, 0x77, 0x40000}" if "tab demo_env demo_frames 0x10 p = Some f" for p f
    using that
  proof (induction p arbitrary: f)
    case (Cons i p)
    then obtain g where g: "g \<in> {0x10, 0x11, 0x12, 0x13, 0x77, 0x40000}" "is_link demo_env (length p) (demo_frames g i)" "pfn_of demo_env (demo_frames g i) = f"
      unfolding tab_links by blast
    have "demo_frames g i \<in> {0, 0x11003, 0x12003, 0x13003, 0x40000083, 0x77003}"
      using g(1) by (auto simp: demo_frames_def)
    then show ?case
      using g(2,3) by (elim insertE emptyE)
        (simp_all add: pfn_of_def get_member_def bit_field_def demo_env_def)
  qed simp
  then show ?thesis by (auto simp: system_tables_def)
qed

lemma demo_kernel: "kernel_ok demo_env demo_frames 0x10"
proof -
  have "g \<notin> {0x500, 0x501, 0x10, 0x11, 0x12, 0x13, 0x77, 0x40000} \<and> take_bit 40 g = g \<and> (\<forall>m. alloc demo_env m = Some g \<longrightarrow> m = n)"
    if a: "alloc demo_env n = Some g" for n g
  proof -
    have al: "alloc demo_env m = Some g \<longleftrightarrow> m < 16 \<and> g = 0x1000 + of_nat m" for m
      by (auto simp: demo_env_def)
    have u: "unat (0x1000 + of_nat m :: u64) = 0x1000 + m" if "m < 16" for m
      using that unat_add_no_wrap [of "0x1000" "of_nat m"] unat_of_nat_64 [of m] by simp
    have n: "n < 16" "unat g = 0x1000 + n" using a al u by auto
    have "m = n" if "alloc demo_env m = Some g" for m
      using that al u n by auto
    moreover have "g \<notin> {0x500, 0x501, 0x10, 0x11, 0x12, 0x13, 0x77, 0x40000}"
      using n by auto
    moreover have "take_bit 40 g = g"
      using n by (simp add: word_unat_eq_iff unsigned_take_bit_eq take_bit_nat_eq_self)
    ultimately show ?thesis by blast
  qed
  moreover have "host_root demo_env = 0x500" "window_frame demo_env = 0x501" "snd (pe_page_frame_number (pe demo_env)) = 40"
    "pte_layout_ok (pe demo_env)" "take_bit 40 (0x501 :: u64) = 0x501"
    by (simp_all add: demo_env_def pte_layout_ok_def)
  ultimately show ?thesis
    using demo_system unfolding kernel_ok_def by (auto simp: subset_iff)
qed

definition demo_maps :: map_state where
  "demo_maps = \<lparr>frames = demo_frames, allocs = 0\<rparr>"

lemmas demo_eval = get_system_pte_for_va_def map_page_def next_table_def then_table_def alloc_host_pt_def set_entry_def
  link_entry_def present_def large_page_def pfn_of_def flag_def get_member_def put_member_def put_flag_def bit_field_def
  set_bit_u64_def clear_bit_u64_def pml4_idx_def pdpt_idx_def pd_idx_def pt_idx_def advance_past_def

lemma page_range_ok:
  assumes w: "page_walk V F0 c va = Some (e, l)" and l: "l \<noteq> L_pdpte" and i: "pml4_idx va \<noteq> host_pml4_index"
    and sz: "unat va mod level_size l + unat sz \<le> level_size l" and e: "unat va + unat sz \<le> 2 ^ 64 - 2 ^ 32"
  shows "range_ok V F0 c va sz"
proof -
  have "pml4_idx x \<noteq> host_pml4_index \<and> page_walk V F0 c x = Some (e, l)" if x: "unat va \<le> unat x" "unat x < unat va + unat sz" for x
  proof -
    have "unat x < unat va div level_size l * level_size l + level_size l"
      using x(2) sz div_mult_mod_eq [of "unat va" "level_size l"] by linarith
    then have "unat x div level_size l = unat va div level_size l"
      using in_first_page [OF x(1)] by (cases l) (simp_all add: level_size_def)
    then show ?thesis
      using same_page_walk [OF w] same_page_idx(1) i by metis
  qed
  then show ?thesis
    using e l by (auto simp: range_ok_def)
qed

lemma demo_ranges:
  "range_ok demo_env demo_frames 0x10 0xFFFFF80000000000 0x1000" "range_ok demo_env demo_frames 0x10 0xFFFFF80000200000 0x2000"
proof -
  have "page_walk demo_env demo_frames 0x10 0xFFFFF80000000000 = Some (0x77003, L_pte)"
    "page_walk demo_env demo_frames 0x10 0xFFFFF80000200000 = Some (0x40000083, L_pde)"
    by (simp_all add: page_walk_def demo_eval demo_env_def demo_frames_def Let_def)
  then show "range_ok demo_env demo_frames 0x10 0xFFFFF80000000000 0x1000" "range_ok demo_env demo_frames 0x10 0xFFFFF80000200000 0x2000"
    by - (rule page_range_ok, assumption, simp, simp_all add: level_size_def demo_eval host_pml4_index_def)+
qed

definition demo_pool_maps :: map_state where
  "demo_pool_maps = \<lparr>frames = demo_frames(0x500 := (\<lambda>_. 0)(0x1F0 := link_entry demo_env 0 0x1000),
     0x1000 := (\<lambda>_. 0)(0 := link_entry demo_env 0 0x1001), 0x1001 := (\<lambda>_. 0)(0 := link_entry demo_env 0 0x1002),
     0x1002 := (\<lambda>_. 0)(0 := 0x77003)), allocs = 3\<rparr>"

lemma demo_pool: "map_va_range_to_host demo_env 0xFFFFF80000000000 0x1000 0x10 demo_maps = Some (True, demo_pool_maps)"
  unfolding map_va_range_to_host_def
  apply (subst map_loop.simps)
  apply (simp add: demo_eval demo_env_def demo_frames_def demo_maps_def Let_def)
  apply (subst map_loop.simps)
  apply (simp add: demo_eval demo_env_def demo_frames_def demo_maps_def demo_pool_maps_def Let_def)
  done

lemma demo_image:
  assumes f: "frames t = demo_frames
      (0x500 := (\<lambda>_. 0)(0x1F0 := link_entry demo_env 0 0x1000, 255 := link_entry demo_env 0 0x501),
       0x501 := (\<lambda>k. if unat k < 512 then window_entry demo_env (unat k) else 0),
       0x1000 := (\<lambda>_. 0)(0 := link_entry demo_env 0 0x1001), 0x1001 := (\<lambda>_. 0)(0 := link_entry demo_env 0 0x1002),
       0x1002 := (\<lambda>_. 0)(0 := 0x77003))"
  shows "\<exists>s. map_va_range_to_host demo_env 0xFFFFF80000200000 0x2000 0x10 t = Some (True, s)"
proof -
  let ?va = "0xFFFFF80000200000 :: u64"
  have i: "pml4_idx ?va = 0x1F0" "pdpt_idx ?va = 0" "pd_idx ?va = 1"
    by (simp_all add: va_field_defs bit_field_def)
  have r: "frames t 0x500 0x1F0 = 0x1000003" "frames t 0x1000 0 = 0x1001003" "frames t 0x10 0x1F0 = 0x11003"
    "frames t 0x11 0 = 0x12003" "frames t 0x12 1 = 0x40000083"
    unfolding f by (simp_all add: demo_frames_def demo_env_def link_entry_def put_member_def put_flag_def set_bit_u64_def mask_eq_exp_minus_1)
  have w: "get_system_pte_for_va demo_env (frames t) 0x10 ?va = Some (0x40000083, L_pde)"
    by (simp add: get_system_pte_for_va_def i r demo_env_def present_def large_page_def pfn_of_def flag_def
        get_member_def bit_field_def)
  have n: "next_table demo_env 0x500 0x1F0 t = (Some 0x1000, t)" "next_table demo_env 0x1000 0 t = (Some 0x1001, t)"
    by (simp_all add: next_table_def r demo_env_def present_def pfn_of_def flag_def get_member_def bit_field_def)
  have m: "map_page demo_env ?va 0x40000083 L_pde t = (True, set_entry 0x1001 1 0x40000083 t)"
    using n by (simp add: map_page_def i then_table_def) (simp add: demo_env_def)
  show ?thesis
    unfolding map_va_range_to_host_def
    by (subst map_loop.simps, simp add: w m, subst map_loop.simps, simp add: advance_past_def)
qed

lemma demo_window:
  "frames (map_window demo_env demo_pool_maps) = demo_frames
      (0x500 := (\<lambda>_. 0)(0x1F0 := link_entry demo_env 0 0x1000, 255 := link_entry demo_env 0 0x501),
       0x501 := (\<lambda>k. if unat k < 512 then window_entry demo_env (unat k) else 0),
       0x1000 := (\<lambda>_. 0)(0 := link_entry demo_env 0 0x1001), 0x1001 := (\<lambda>_. 0)(0 := link_entry demo_env 0 0x1002),
       0x1002 := (\<lambda>_. 0)(0 := 0x77003))"
proof -
  have "host_root demo_env = 0x500" "window_frame demo_env = 0x501" "host_pml4_index = 255" "frames demo_pool_maps 0x501 = (\<lambda>_. 0)"
    by (simp_all add: demo_env_def host_pml4_index_def demo_pool_maps_def demo_frames_def)
  then show ?thesis
    using map_window_frames [OF demo_kernel, of demo_pool_maps]
    by (simp add: demo_pool_maps_def fun_eq_iff)
qed


end
