(* ===== verification/Export_Files.thy ===== *)
theory Export_Files
  imports Trace_Ring
begin

text \<open>
  The binary files the user mode tool writes and reads: the module list (\<open>common/module_export.hpp\<close>,
  written by \<open>kmodule_context::export_modules\<close> of \<open>revhv-um/kmodules.cpp\<close>), the trace configuration
  (\<open>common/trace_cfg_export.hpp\<close>, written by \<open>engine::export_trace_config\<close> of \<open>revhv-um/commands.cpp\<close>) and
  the per-core trace files (written by \<open>poller::worker\<close> of \<open>revhv-um/trace_poller.hpp\<close>), with the
  functions of \<open>revhv-um/trace_parser.hpp\<close> that read them. A file is the list of its bytes, structures are
  laid out little-endian with the alignment of their members. Opening files is left to the caller: a file
  that cannot be opened is None.
\<close>

section \<open>Members of structures\<close>

fun nat_bytes :: "nat \<Rightarrow> nat \<Rightarrow> string" where
  "nat_bytes 0 v = []"
| "nat_bytes (Suc n) v = char_of v # nat_bytes n (v div 256)"

fun nat_of_bytes :: "string \<Rightarrow> nat" where
  "nat_of_bytes [] = 0"
| "nat_of_bytes (c # cs) = of_char c + 256 * nat_of_bytes cs"

definition NUL :: char where "NUL = CHR 0x00"

definition padding :: "nat \<Rightarrow> string" where "padding n = replicate n NUL"

text \<open>An array of characters set to zero and then overwritten with all of a string that leaves a terminator.\<close>

definition char_array :: "nat \<Rightarrow> string \<Rightarrow> string" where
  "char_array n s = (let len = min (length s) (n - 1) in take len s @ padding (n - len))"

text \<open>The string up to the terminator, as \<open>strnlen\<close> and \<open>assign\<close> find it.\<close>

definition array_string :: "string \<Rightarrow> string" where
  "array_string a = takeWhile (\<lambda>c. c \<noteq> NUL) a"

text \<open>Reading a structure of \<open>n\<close> bytes fails at the end of the file.\<close>

definition read_struct :: "nat \<Rightarrow> string \<Rightarrow> (string \<times> string) option" where
  "read_struct n file = (if n \<le> length file then Some (take n file, drop n file) else None)"

definition member_at :: "nat \<Rightarrow> nat \<Rightarrow> string \<Rightarrow> string" where
  "member_at off n s = take n (drop off s)"

definition u64_at :: "nat \<Rightarrow> string \<Rightarrow> u64" where "u64_at off s = of_nat (nat_of_bytes (member_at off 8 s))"
definition u32_at :: "nat \<Rightarrow> string \<Rightarrow> u32" where "u32_at off s = of_nat (nat_of_bytes (member_at off 4 s))"
definition u16_at :: "nat \<Rightarrow> string \<Rightarrow> u16" where "u16_at off s = of_nat (nat_of_bytes (member_at off 2 s))"

definition bytes_u64 :: "u64 \<Rightarrow> string" where "bytes_u64 v = nat_bytes 8 (unat v)"
definition bytes_u32 :: "u32 \<Rightarrow> string" where "bytes_u32 v = nat_bytes 4 (unat v)"
definition bytes_u16 :: "u16 \<Rightarrow> string" where "bytes_u16 v = nat_bytes 2 (unat v)"

section \<open>The module list\<close>

record kmodule =
  m_base :: u64
  m_size :: u64
  m_name :: string
  m_path :: string

definition module_file_magic :: u64 where "module_file_magic = 0x444F4D5652"
definition module_file_version :: u32 where "module_file_version = 1"
definition max_name_length :: nat where "max_name_length = 64"
definition max_path_length :: nat where "max_path_length = 260"

definition module_header :: "kmodule list \<Rightarrow> string" where
  "module_header ms = bytes_u64 module_file_magic @ bytes_u32 module_file_version @ bytes_u32 (of_nat (length ms))"

definition module_entry :: "kmodule \<Rightarrow> string" where
  "module_entry m = bytes_u64 (m_base m) @ bytes_u64 (m_size m) @ char_array max_name_length (m_name m) @
     char_array max_path_length (m_path m) @ padding 4"

definition export_modules :: "kmodule list \<Rightarrow> string option" where
  "export_modules ms = (if ms = [] then None else Some (module_header ms @ concat (map module_entry ms)))"

definition read_module :: "string \<Rightarrow> kmodule" where
  "read_module s = \<lparr>m_base = u64_at 0 s, m_size = u64_at 8 s, m_name = array_string (member_at 16 max_name_length s),
     m_path = array_string (member_at 80 max_path_length s)\<rparr>"

fun read_modules :: "nat \<Rightarrow> string \<Rightarrow> kmodule list option" where
  "read_modules 0 file = Some []"
| "read_modules (Suc n) file =
     (case read_struct 344 file of None \<Rightarrow> None
      | Some (me, rest) \<Rightarrow> map_option (Cons (read_module me)) (read_modules n rest))"

definition load_modules :: "string option \<Rightarrow> kmodule list option" where
  "load_modules file =
     (case file of None \<Rightarrow> None
      | Some bytes \<Rightarrow>
          (case read_struct 16 bytes of None \<Rightarrow> None
           | Some (hdr, rest) \<Rightarrow>
               if u64_at 0 hdr \<noteq> module_file_magic \<or> u32_at 8 hdr \<noteq> module_file_version then None
               else read_modules (unat (u32_at 12 hdr)) rest))"

section \<open>The trace configuration\<close>

record exact_cfg =
  x_addr :: u64
  x_cfg :: ept_transition_cfg
  x_fmt :: string

record trace_cfg =
  generic_cfg :: ept_transition_cfg
  generic_fmt :: string
  exact_cfgs :: "exact_cfg list"
  rip_slot :: "nat option"

definition cfg_file_magic :: u64 where "cfg_file_magic = 0x47464354565200"
definition cfg_file_version :: u32 where "cfg_file_version = 2"
definition max_format_length :: nat where "max_format_length = 256"

fun u8_of_field :: "ept_transition_data_field \<Rightarrow> u8" where
  "u8_of_field F_none = 0" | "u8_of_field F_guest_rip = 1" | "u8_of_field F_guest_rsp = 2" | "u8_of_field F_guest_rax = 3"
| "u8_of_field F_guest_rbx = 4" | "u8_of_field F_guest_rcx = 5" | "u8_of_field F_guest_rdx = 6" | "u8_of_field F_guest_rsi = 7"
| "u8_of_field F_guest_rdi = 8" | "u8_of_field F_guest_rbp = 9" | "u8_of_field F_guest_r8 = 10" | "u8_of_field F_guest_r9 = 11"
| "u8_of_field F_guest_r10 = 12" | "u8_of_field F_guest_r11 = 13" | "u8_of_field F_guest_r12 = 14" | "u8_of_field F_guest_r13 = 15"
| "u8_of_field F_guest_r14 = 16" | "u8_of_field F_guest_r15 = 17" | "u8_of_field F_guest_retaddr = 18" | "u8_of_field (F_other b) = b"

definition cfg_bytes :: "ept_transition_cfg \<Rightarrow> string" where
  "cfg_bytes c = map (\<lambda>f. char_of (unat (u8_of_field f))) (data_map c)"

definition cfg_of_bytes :: "string \<Rightarrow> ept_transition_cfg" where
  "cfg_of_bytes s = \<lparr>data_map = map (\<lambda>c. field_of_u8 (of_nat (of_char c))) s\<rparr>"

definition cfg_header :: "ept_transition_cfg \<Rightarrow> string \<Rightarrow> exact_cfg list \<Rightarrow> string" where
  "cfg_header c fmt xs = bytes_u64 cfg_file_magic @ bytes_u32 cfg_file_version @ bytes_u32 (of_nat max_data_fields) @
     bytes_u32 (of_nat (length xs)) @ bytes_u32 0 @ cfg_bytes c @ char_array max_format_length fmt @ padding 2"

definition exact_entry :: "exact_cfg \<Rightarrow> string" where
  "exact_entry e = bytes_u64 (x_addr e) @ cfg_bytes (x_cfg e) @ char_array max_format_length (x_fmt e) @ padding 2"

definition export_trace_config :: "ept_transition_cfg \<Rightarrow> string \<Rightarrow> exact_cfg list \<Rightarrow> string" where
  "export_trace_config c fmt xs = cfg_header c fmt xs @ concat (map exact_entry xs)"

text \<open>Where the configuration keeps a field; the parser looks for the instruction pointer.\<close>

definition find_data_slot :: "ept_transition_cfg \<Rightarrow> ept_transition_data_field \<Rightarrow> nat option" where
  "find_data_slot c f = find (\<lambda>i. data_map c ! i = f) [0..<max_data_fields]"

definition default_trace_cfg :: trace_cfg where
  "default_trace_cfg = \<lparr>generic_cfg = default_generic_cfg, generic_fmt = [], exact_cfgs = [], rip_slot = None\<rparr>"

definition zero_exact_cfg :: exact_cfg where
  "zero_exact_cfg = \<lparr>x_addr = 0, x_cfg = \<lparr>data_map = replicate max_data_fields F_none\<rparr>, x_fmt = []\<rparr>"

definition read_exact :: "string \<Rightarrow> exact_cfg" where
  "read_exact s = \<lparr>x_addr = u64_at 0 s, x_cfg = cfg_of_bytes (member_at 8 max_data_fields s),
     x_fmt = array_string (member_at 14 max_format_length s)\<rparr>"

text \<open>The vector is resized first, so entries missing at the end of a short file stay zero.\<close>

fun read_exacts :: "nat \<Rightarrow> string \<Rightarrow> exact_cfg list" where
  "read_exacts 0 file = []"
| "read_exacts (Suc n) file =
     (case read_struct 272 file of None \<Rightarrow> replicate (Suc n) zero_exact_cfg
      | Some (e, rest) \<Rightarrow> read_exact e # read_exacts n rest)"

definition load_trace_cfg :: "string option \<Rightarrow> trace_cfg" where
  "load_trace_cfg file =
     (case file of None \<Rightarrow> default_trace_cfg
      | Some bytes \<Rightarrow>
          (case read_struct 288 bytes of None \<Rightarrow> default_trace_cfg
           | Some (hdr, rest) \<Rightarrow>
               if u64_at 0 hdr \<noteq> cfg_file_magic \<or> u32_at 8 hdr \<noteq> cfg_file_version then default_trace_cfg
               else let c = cfg_of_bytes (member_at 24 max_data_fields hdr) in
                 \<lparr>generic_cfg = c, generic_fmt = array_string (member_at 30 max_format_length hdr),
                  exact_cfgs = read_exacts (unat (u32_at 16 hdr)) rest, rip_slot = find_data_slot c F_guest_rip\<rparr>))"

section \<open>Trace files\<close>

definition trace_file_magic :: u64 where "trace_file_magic = 0x4543415254565200"
definition trace_file_version :: u32 where "trace_file_version = 1"

definition trace_header :: "u16 \<Rightarrow> string" where
  "trace_header core_id = bytes_u64 trace_file_magic @ bytes_u32 trace_file_version @ bytes_u16 core_id @ bytes_u16 64 @
     bytes_u64 ring_buffer_entry_count"

definition file_entry_bytes :: "entry \<Rightarrow> string" where
  "file_entry_bytes e = bytes_u16 (e_format_id e) @ bytes_u16 (e_core_id e) @ bytes_u32 (e_pad0 e) @ bytes_u64 (e_timestamp e) @
     concat (map bytes_u64 (e_data e))"

text \<open>
  The file of one core: the header, then every batch the worker drains while the poller runs, then the
  batches of the final drain, which ends with the first empty one. \<open>running\<close> are the batches drained before
  the stop was noticed, \<open>final\<close> those after it.
\<close>

definition worker_file :: "u16 \<Rightarrow> entry list list \<Rightarrow> entry list list \<Rightarrow> string" where
  "worker_file core_id running final =
     trace_header core_id @ concat (map (\<lambda>batch. concat (map file_entry_bytes batch)) running) @
     concat (map (\<lambda>batch. concat (map file_entry_bytes batch)) (takeWhile (\<lambda>batch. batch \<noteq> []) final))"

record core_stream =
  cs_core_id :: u16
  cs_entries :: "entry list"
  cs_cursor :: nat

definition read_entry :: "string \<Rightarrow> entry" where
  "read_entry s = \<lparr>e_format_id = u16_at 0 s, e_core_id = u16_at 2 s, e_pad0 = u32_at 4 s, e_timestamp = u64_at 8 s,
     e_data = map (\<lambda>i. u64_at (16 + 8 * i) s) [0..<max_data_fields]\<rparr>"

definition open_stream :: "string \<Rightarrow> core_stream option" where
  "open_stream file =
     (if length file < 24 then None
      else if u64_at 0 file \<noteq> trace_file_magic \<or> u32_at 8 file \<noteq> trace_file_version then None
      else let entry_count = (length file - 24) div 64 in
        if entry_count = 0 then None
        else Some \<lparr>cs_core_id = u16_at 12 file,
          cs_entries = map (\<lambda>i. read_entry (member_at (24 + 64 * i) 64 file)) [0..<entry_count], cs_cursor = 0\<rparr>)"

definition open_trace_streams :: "string list \<Rightarrow> core_stream list option" where
  "open_trace_streams files =
     (let out = map the (filter (\<lambda>s. s \<noteq> None) (map open_stream files)) in if out = [] then None else Some out)"

section \<open>Reading back\<close>

lemma length_nat_bytes [simp]: "length (nat_bytes n v) = n"
  by (induction n v rule: nat_bytes.induct) simp_all

lemma length_members [simp]:
  "length (bytes_u64 a) = 8" "length (bytes_u32 b) = 4" "length (bytes_u16 c) = 2" "length (padding n) = n"
  "0 < n \<Longrightarrow> length (char_array n s) = n" "length (cfg_bytes t) = length (data_map t)"
  by (simp_all add: bytes_u64_def bytes_u32_def bytes_u16_def padding_def char_array_def cfg_bytes_def Let_def)

lemma nat_of_bytes_bytes: "nat_of_bytes (nat_bytes n v) = v mod 256 ^ n"
proof (induction n v rule: nat_bytes.induct)
  case (2 n v)
  then show ?case
    by (simp add: mod_mult2_eq)
qed simp

lemma members_back [simp]:
  "of_nat (nat_of_bytes (bytes_u64 a)) = a" "of_nat (nat_of_bytes (bytes_u32 b)) = b" "of_nat (nat_of_bytes (bytes_u16 c)) = c"
proof -
  have "unat a mod 256 ^ 8 = unat a" "unat b mod 256 ^ 4 = unat b" "unat c mod 256 ^ 2 = unat c"
    using unsigned_less [of a, where ?'a = nat] unsigned_less [of b, where ?'a = nat] unsigned_less [of c, where ?'a = nat]
    by simp_all
  then show "of_nat (nat_of_bytes (bytes_u64 a)) = a" "of_nat (nat_of_bytes (bytes_u32 b)) = b" "of_nat (nat_of_bytes (bytes_u16 c)) = c"
    by (simp_all add: bytes_u64_def bytes_u32_def bytes_u16_def nat_of_bytes_bytes)
qed

lemma char_array_string:
  assumes "0 < n" and "NUL \<notin> set s"
  shows "array_string (char_array n s) = take (n - 1) s"
proof -
  have "n - min (length s) (n - 1) \<noteq> 0" using assms(1) by arith
  then obtain k where "n - min (length s) (n - 1) = Suc k"
    using not0_implies_Suc by blast
  then have "padding (n - min (length s) (n - 1)) = NUL # padding k"
    by (simp add: padding_def)
  moreover have "take (min (length s) (n - 1)) s = take (n - 1) s"
    by (simp add: min_def)
  moreover have "\<forall>c \<in> set (take (n - 1) s). c \<noteq> NUL"
    using assms(2) by (metis in_set_takeD)
  ultimately show ?thesis
    by (simp add: array_string_def char_array_def Let_def takeWhile_append)
qed

lemma read_struct_append [simp]: "length a = n \<Longrightarrow> read_struct n (a @ b) = Some (a, b)"
  by (simp add: read_struct_def)

text \<open>What a file holds of a string.\<close>

definition cut_module :: "kmodule \<Rightarrow> kmodule" where
  "cut_module m = m\<lparr>m_name := take 63 (m_name m), m_path := take 259 (m_path m)\<rparr>"

lemma read_module_entry:
  assumes "NUL \<notin> set (m_name m)" and "NUL \<notin> set (m_path m)"
  shows "length (module_entry m) = 344" and "read_module (module_entry m) = cut_module m"
  using assms
  by (simp_all add: module_entry_def read_module_def cut_module_def u64_at_def member_at_def max_name_length_def
      max_path_length_def char_array_string)

lemma read_modules_entries:
  assumes "\<forall>m \<in> set ms. NUL \<notin> set (m_name m) \<and> NUL \<notin> set (m_path m)"
  shows "read_modules (length ms) (concat (map module_entry ms) @ rest) = Some (map cut_module ms)"
  using assms by (induction ms) (simp_all add: read_module_entry)

lemma modules_read_back:
  assumes "\<forall>m \<in> set ms. NUL \<notin> set (m_name m) \<and> NUL \<notin> set (m_path m)" and "ms \<noteq> []" and "length ms < 2 ^ 32"
  shows "load_modules (export_modules ms) = Some (map cut_module ms)"
proof -
  have n: "unat (of_nat (length ms) :: u32) = length ms"
    using assms(3) by (simp add: unat_of_nat take_bit_nat_eq_self)
  have h: "length (module_header ms) = 16" "u64_at 0 (module_header ms) = module_file_magic"
    "u32_at 8 (module_header ms) = module_file_version" "u32_at 12 (module_header ms) = of_nat (length ms)"
    by (simp_all add: module_header_def u64_at_def u32_at_def member_at_def)
  show ?thesis
    using assms(2) read_modules_entries [OF assms(1), of "[]"]
    by (simp add: export_modules_def load_modules_def h n)
qed

definition cfg_ok :: "ept_transition_cfg \<Rightarrow> bool" where
  "cfg_ok c \<longleftrightarrow> length (data_map c) = max_data_fields \<and> (\<forall>b. F_other b \<in> set (data_map c) \<longrightarrow> 19 \<le> unat b)"

definition cut_exact :: "exact_cfg \<Rightarrow> exact_cfg" where
  "cut_exact e = e\<lparr>x_fmt := take 255 (x_fmt e)\<rparr>"

lemma field_back: "(\<And>b. f = F_other b \<Longrightarrow> 19 \<le> unat b) \<Longrightarrow> field_of_u8 (u8_of_field f) = f"
  by (cases f) (simp_all add: field_of_u8_def)

lemma cfg_back: "cfg_ok c \<Longrightarrow> cfg_of_bytes (cfg_bytes c) = c"
proof -
  assume c: "cfg_ok c"
  have "map (\<lambda>x. field_of_u8 (of_nat (of_char (char_of (unat (u8_of_field x)) :: char)))) (data_map c) = data_map c"
  proof (rule map_idI)
    fix f assume f: "f \<in> set (data_map c)"
    have "unat (u8_of_field f) mod 256 = unat (u8_of_field f)"
      using unsigned_less [of "u8_of_field f", where ?'a = nat] by simp
    then show "field_of_u8 (of_nat (of_char (char_of (unat (u8_of_field f)) :: char))) = f"
      using field_back [of f] c f by (auto simp: cfg_ok_def)
  qed
  then show ?thesis
    by (simp add: cfg_of_bytes_def cfg_bytes_def comp_def)
qed

lemma read_exact_entry:
  assumes "cfg_ok (x_cfg e)" and "NUL \<notin> set (x_fmt e)"
  shows "length (exact_entry e) = 272" and "read_exact (exact_entry e) = cut_exact e"
proof -
  have "length (data_map (x_cfg e)) = 6" using assms(1) by (simp add: cfg_ok_def max_data_fields_def)
  then show "length (exact_entry e) = 272" "read_exact (exact_entry e) = cut_exact e"
    using assms cfg_back [OF assms(1)]
    by (simp_all add: exact_entry_def read_exact_def cut_exact_def u64_at_def member_at_def max_data_fields_def
        max_format_length_def char_array_string)
qed

lemma read_exacts_entries:
  assumes "\<forall>e \<in> set xs. cfg_ok (x_cfg e) \<and> NUL \<notin> set (x_fmt e)"
  shows "read_exacts (length xs) (concat (map exact_entry xs) @ rest) = map cut_exact xs"
  using assms by (induction xs) (simp_all add: read_exact_entry)

lemma trace_cfg_reads_back:
  assumes "cfg_ok c" and "NUL \<notin> set fmt" and "\<forall>e \<in> set xs. cfg_ok (x_cfg e) \<and> NUL \<notin> set (x_fmt e)" and "length xs < 2 ^ 32"
  shows "load_trace_cfg (Some (export_trace_config c fmt xs)) =
    \<lparr>generic_cfg = c, generic_fmt = take 255 fmt, exact_cfgs = map cut_exact xs, rip_slot = find_data_slot c F_guest_rip\<rparr>"
proof -
  have n: "unat (of_nat (length xs) :: u32) = length xs"
    using assms(4) by (simp add: unat_of_nat take_bit_nat_eq_self)
  have l: "length (data_map c) = 6" using assms(1) by (simp add: cfg_ok_def max_data_fields_def)
  have h: "length (cfg_header c fmt xs) = 288" "u64_at 0 (cfg_header c fmt xs) = cfg_file_magic"
    "u32_at 8 (cfg_header c fmt xs) = cfg_file_version" "u32_at 16 (cfg_header c fmt xs) = of_nat (length xs)"
    "member_at 24 max_data_fields (cfg_header c fmt xs) = cfg_bytes c"
    "member_at 30 max_format_length (cfg_header c fmt xs) = char_array max_format_length fmt"
    using l by (simp_all add: cfg_header_def u64_at_def u32_at_def member_at_def max_data_fields_def max_format_length_def)
  show ?thesis
    using read_exacts_entries [OF assms(3), of "[]"] char_array_string [OF _ assms(2), of max_format_length]
    by (simp add: export_trace_config_def load_trace_cfg_def h n cfg_back [OF assms(1)] Let_def)
      (simp add: max_format_length_def)
qed

lemma read_entry_bytes:
  assumes "length (e_data e) = max_data_fields"
  shows "length (file_entry_bytes e) = 64" and "read_entry (file_entry_bytes e) = e"
proof -
  obtain a b c d f g where x: "e_data e = [a, b, c, d, f, g]"
    using assms by (auto simp: max_data_fields_def numeral_eq_Suc length_Suc_conv)
  have u: "[0..<6] = [0, 1, 2, 3, 4, 5 :: nat]" by code_simp
  show "length (file_entry_bytes e) = 64"
    by (simp add: file_entry_bytes_def x)
  show "read_entry (file_entry_bytes e) = e"
    by (cases e) (use x in \<open>simp add: read_entry_def file_entry_bytes_def u64_at_def u32_at_def u16_at_def member_at_def max_data_fields_def u\<close>)
qed

lemma nth_entry_bytes:
  assumes "\<forall>e \<in> set es. length (e_data e) = max_data_fields" and "i < length es"
  shows "take 64 (drop (64 * i) (concat (map file_entry_bytes es))) = file_entry_bytes (es ! i)"
  using assms
proof (induction es arbitrary: i)
  case (Cons e es)
  then show ?case
    by (cases i) (simp_all add: read_entry_bytes)
qed simp

lemma length_file_entry_bytes:
  "\<forall>e \<in> set es. length (e_data e) = max_data_fields \<Longrightarrow> length (concat (map file_entry_bytes es)) = 64 * length es"
  by (induction es) (simp_all add: read_entry_bytes)

lemma stream_reads_back:
  assumes "\<forall>e \<in> set es. length (e_data e) = max_data_fields"
  shows "open_stream (trace_header core @ concat (map file_entry_bytes es)) =
    (if es = [] then None else Some \<lparr>cs_core_id = core, cs_entries = es, cs_cursor = 0\<rparr>)"
proof -
  have h: "length (trace_header core) = 24" "u64_at 0 (trace_header core @ x) = trace_file_magic"
    "u32_at 8 (trace_header core @ x) = trace_file_version" "u16_at 12 (trace_header core @ x) = core" for x
    by (simp_all add: trace_header_def u64_at_def u32_at_def u16_at_def member_at_def)
  have "map (\<lambda>i. read_entry (member_at (24 + 64 * i) 64 (trace_header core @ concat (map file_entry_bytes es)))) [0..<length es] = es"
    using nth_entry_bytes [OF assms] assms
    by (intro nth_equalityI) (simp_all add: member_at_def h(1) read_entry_bytes)
  then show ?thesis
    using length_file_entry_bytes [OF assms] by (simp add: open_stream_def h Let_def)
qed

lemma concat_batches: "concat (map (\<lambda>b. concat (map file_entry_bytes b)) bs) = concat (map file_entry_bytes (concat bs))"
  by (induction bs) simp_all

section \<open>Properties\<close>

text \<open>
  C36. What the tool exports is read back. A module list of at most four thousand million modules is loaded with the same
  modules in the same order, names cut to 63 and paths to 259 characters; a trace configuration is
  loaded with the same generic and exact mappings, formats cut to 255 characters, and the slot of the
  instruction pointer; a trace file yields the entries of all batches drained, in order, whether they were drained before or
  after the worker was stopped, up to the first empty batch of the final drain. Hypotheses: strings contain
  no terminator, mappings have six fields that are enumerators or outside the enumeration.
\<close>

theorem exports_read_back:
  assumes "\<forall>m \<in> set ms. NUL \<notin> set (m_name m) \<and> NUL \<notin> set (m_path m)" and "ms \<noteq> []" and "length ms < 2 ^ 32"
    and "cfg_ok c" and "NUL \<notin> set fmt" and "\<forall>e \<in> set xs. cfg_ok (x_cfg e) \<and> NUL \<notin> set (x_fmt e)" and "length xs < 2 ^ 32"
    and "\<forall>b \<in> set running \<union> set final. \<forall>e \<in> set b. length (e_data e) = max_data_fields"
  shows "load_modules (export_modules ms) = Some (map cut_module ms) \<and>
    load_trace_cfg (Some (export_trace_config c fmt xs)) =
      \<lparr>generic_cfg = c, generic_fmt = take 255 fmt, exact_cfgs = map cut_exact xs, rip_slot = find_data_slot c F_guest_rip\<rparr> \<and>
    (let es = concat running @ concat (takeWhile (\<lambda>b. b \<noteq> []) final) in
     open_stream (worker_file core running final) =
       (if es = [] then None else Some \<lparr>cs_core_id = core, cs_entries = es, cs_cursor = 0\<rparr>))"
proof -
  let ?es = "concat running @ concat (takeWhile (\<lambda>b. b \<noteq> []) final)"
  have "\<forall>e \<in> set ?es. length (e_data e) = max_data_fields"
    using assms(8) by (auto dest: set_takeWhileD)
  from stream_reads_back [OF this, of core] show ?thesis
    using modules_read_back [OF assms(1-3)] trace_cfg_reads_back [OF assms(4-7)]
    by (simp add: worker_file_def concat_batches Let_def)
qed

theorem exports_read_back_witness:
  "load_modules (export_modules [\<lparr>m_base = 0xFFFFF80312340000, m_size = 0x1000, m_name = ''ntoskrnl'', m_path = ''C:''\<rparr>]) =
     Some [\<lparr>m_base = 0xFFFFF80312340000, m_size = 0x1000, m_name = ''ntoskrnl'', m_path = ''C:''\<rparr>]"
  using exports_read_back [of "[\<lparr>m_base = 0xFFFFF80312340000, m_size = 0x1000, m_name = ''ntoskrnl'', m_path = ''C:''\<rparr>]"
      default_generic_cfg "[]" "[]" "[]" "[]"]
  by (simp add: NUL_def cut_module_def cfg_ok_def default_generic_cfg_def max_data_fields_def)

end
