(* ===== verification/Pe_Image.thy ===== *)
theory Pe_Image
  imports Export_Files
begin

text \<open>
  Portable executables: the parser of the user mode tool (\<open>revhv-um/pe.cpp\<close>, \<open>pe.hpp\<close>), which reads an
  image in the kernel through hypercalls or a file on disk, and \<open>get_image_size\<close> of \<open>revhv-km/pe.cpp\<close>. The
  layout of the structures of the image is declared in the headers of the system, it is a parameter. A
  reader delivers the bytes at an address or fails; a failure of a typed read is an exception, which
  \<open>parse\<close> catches. Loading the symbols of a debug file and the file name of a path are parameters.
\<close>

section \<open>Structures of an image\<close>

record pe_layout =
  dos_size :: nat
  dos_magic :: nat
  dos_lfanew :: nat
  nt_size :: nat
  nt_signature :: nat
  nt_section_count :: nat
  nt_optional_size :: nat
  nt_headers_size :: nat
  nt_image_size :: nat
  nt_debug_dir :: nat
  file_header_size :: nat
  sh_size :: nat
  sh_name :: nat
  sh_virtual_size :: nat
  sh_virtual_address :: nat
  sh_raw_size :: nat
  sh_raw_pointer :: nat
  dbg_size :: nat
  dbg_type :: nat
  dbg_data_size :: nat
  dbg_data_rva :: nat

definition IMAGE_DOS_SIGNATURE :: u16 where "IMAGE_DOS_SIGNATURE = 0x5A4D"
definition IMAGE_NT_SIGNATURE :: u32 where "IMAGE_NT_SIGNATURE = 0x4550"
definition IMAGE_SIZEOF_SHORT_NAME :: nat where "IMAGE_SIZEOF_SHORT_NAME = 8"
definition IMAGE_DEBUG_TYPE_CODEVIEW :: u32 where "IMAGE_DEBUG_TYPE_CODEVIEW = 2"
definition codeview_rsds_signature :: u32 where "codeview_rsds_signature = 0x53445352"
definition codeview_header_size :: nat where "codeview_header_size = 24"

type_synonym reader = "u64 \<Rightarrow> u64 \<Rightarrow> string option"

datatype parse_error = Read_failed | Not_an_image | Bad_sections

section \<open>Headers\<close>

record parsed_headers =
  h_nt :: string
  section_table_offset :: u64

definition read_typed :: "reader \<Rightarrow> u64 \<Rightarrow> nat \<Rightarrow> parse_error + string" where
  "read_typed rd addr n = (case rd addr (of_nat n) of None \<Rightarrow> Inl Read_failed | Some s \<Rightarrow> Inr s)"

definition calculate_section_table_offset :: "pe_layout \<Rightarrow> u64 \<Rightarrow> string \<Rightarrow> u64 option" where
  "calculate_section_table_offset L nt_offset nt =
     (let fixed = of_nat (4 + file_header_size L); optional = ucast (u16_at (nt_optional_size L) nt) in
      if nt_offset > (-1) - fixed then None
      else if nt_offset + fixed > (-1) - optional then None
      else Some (nt_offset + fixed + optional))"

definition validate_and_read_headers :: "pe_layout \<Rightarrow> reader \<Rightarrow> u64 \<Rightarrow> u64 \<Rightarrow> parse_error + parsed_headers" where
  "validate_and_read_headers L rd base sz =
     (if base = 0 \<or> sz < of_nat (dos_size L) then Inl Not_an_image
      else case read_typed rd base (dos_size L) of Inl e \<Rightarrow> Inl e
      | Inr dos \<Rightarrow>
          let lfanew = u32_at (dos_lfanew L) dos; nt_offset = ucast lfanew in
          if u16_at (dos_magic L) dos \<noteq> IMAGE_DOS_SIGNATURE then Inl Not_an_image
          else if sint lfanew < 0 then Inl Not_an_image
          else if nt_offset > sz \<or> sz - nt_offset < of_nat (nt_size L) then Inl Not_an_image
          else case read_typed rd (base + nt_offset) (nt_size L) of Inl e \<Rightarrow> Inl e
          | Inr nt \<Rightarrow>
              if u32_at (nt_signature L) nt \<noteq> IMAGE_NT_SIGNATURE then Inl Not_an_image
              else case calculate_section_table_offset L nt_offset nt of None \<Rightarrow> Inl Not_an_image
              | Some off \<Rightarrow> Inr \<lparr>h_nt = nt, section_table_offset = off\<rparr>)"

section \<open>Sections\<close>

record pe_section =
  sect_name :: string
  sect_va :: u64
  sect_rva :: u64
  sect_size :: u64

definition parse_section :: "pe_layout \<Rightarrow> u64 \<Rightarrow> string \<Rightarrow> pe_section" where
  "parse_section L base h =
     (let rva = ucast (u32_at (sh_virtual_address L) h); vs = u32_at (sh_virtual_size L) h in
      \<lparr>sect_name = array_string (member_at (sh_name L) IMAGE_SIZEOF_SHORT_NAME h), sect_va = base + rva, sect_rva = rva,
       sect_size = (if vs \<noteq> 0 then ucast vs else ucast (u32_at (sh_raw_size L) h))\<rparr>)"

fun read_section_list :: "pe_layout \<Rightarrow> reader \<Rightarrow> u64 \<Rightarrow> u64 \<Rightarrow> nat list \<Rightarrow> parse_error + pe_section list" where
  "read_section_list L rd base table [] = Inr []"
| "read_section_list L rd base table (i # is) =
     (case read_typed rd (base + (table + of_nat i * of_nat (sh_size L))) (sh_size L) of Inl e \<Rightarrow> Inl e
      | Inr h \<Rightarrow>
          (case read_section_list L rd base table is of Inl e \<Rightarrow> Inl e
           | Inr rest \<Rightarrow> Inr (parse_section L base h # rest)))"

definition read_sections :: "pe_layout \<Rightarrow> reader \<Rightarrow> u64 \<Rightarrow> u64 \<Rightarrow> parsed_headers \<Rightarrow> parse_error + pe_section list" where
  "read_sections L rd base sz h =
     (let section_count = ucast (u16_at (nt_section_count L) (h_nt h)) :: u64;
          table_bytes = section_count * of_nat (sh_size L) in
      if section_table_offset h > sz then Inl Bad_sections
      else if section_count > 0 \<and> table_bytes div of_nat (sh_size L) \<noteq> section_count then Inl Bad_sections
      else if section_count > 0 \<and> table_bytes > sz - section_table_offset h then Inl Bad_sections
      else read_section_list L rd base (section_table_offset h) [0..<unat section_count])"

section \<open>Debug information\<close>

record codeview_info =
  cv_guid :: string
  cv_age :: u32
  cv_path :: string
  cv_file_name :: string

text \<open>What one entry of the debug directory leads to; None is the \<open>continue\<close> of the loop.\<close>

definition codeview_of_entry :: "pe_layout \<Rightarrow> reader \<Rightarrow> (string \<Rightarrow> string) \<Rightarrow> u64 \<Rightarrow> u64 \<Rightarrow> string \<Rightarrow> codeview_info option" where
  "codeview_of_entry L rd file_name base image_size d =
     (let rva = u32_at (dbg_data_rva L) d; sz = ucast (u32_at (dbg_data_size L) d); off = ucast rva in
      if u32_at (dbg_type L) d \<noteq> IMAGE_DEBUG_TYPE_CODEVIEW \<or> rva = 0 then None
      else if sz < of_nat codeview_header_size then None
      else if off > image_size \<or> sz > image_size - off then None
      else case rd (base + off) sz of None \<Rightarrow> None
      | Some cv \<Rightarrow>
          let buffer = drop codeview_header_size cv; path = array_string buffer in
          if u32_at 0 cv \<noteq> codeview_rsds_signature then None
          else if path = [] \<or> length path = length buffer then None
          else if file_name path = [] then None
          else Some \<lparr>cv_guid = member_at 4 16 cv, cv_age = u32_at 20 cv, cv_path = path, cv_file_name = file_name path\<rparr>)"

fun scan_debug :: "pe_layout \<Rightarrow> reader \<Rightarrow> (string \<Rightarrow> string) \<Rightarrow> u64 \<Rightarrow> u64 \<Rightarrow> u64 \<Rightarrow> nat list \<Rightarrow> parse_error + codeview_info option" where
  "scan_debug L rd file_name base image_size debug_rva [] = Inr None"
| "scan_debug L rd file_name base image_size debug_rva (i # is) =
     (case read_typed rd (base + (debug_rva + of_nat i * of_nat (dbg_size L))) (dbg_size L) of Inl e \<Rightarrow> Inl e
      | Inr d \<Rightarrow>
          (case codeview_of_entry L rd file_name base image_size d of
             Some cv \<Rightarrow> Inr (Some cv)
           | None \<Rightarrow> scan_debug L rd file_name base image_size debug_rva is))"

definition try_extract_codeview_info ::
  "pe_layout \<Rightarrow> reader \<Rightarrow> (string \<Rightarrow> string) \<Rightarrow> u64 \<Rightarrow> u64 \<Rightarrow> parsed_headers \<Rightarrow> parse_error + codeview_info option" where
  "try_extract_codeview_info L rd file_name base image_size h =
     (let rva = ucast (u32_at (nt_debug_dir L) (h_nt h)) :: u64; sz = ucast (u32_at (nt_debug_dir L + 4) (h_nt h)) :: u64 in
      if rva = 0 \<or> sz < of_nat (dbg_size L) then Inr None
      else if rva > image_size \<or> sz > image_size - rva then Inr None
      else scan_debug L rd file_name base image_size rva [0..<unat (sz div of_nat (dbg_size L))])"

section \<open>Parsing\<close>

record symbol_info =
  sym_name :: string
  sym_rva :: u64

record pe_state =
  pe_parsed :: bool
  pe_valid :: bool
  pe_sections :: "pe_section list"
  pe_symbols :: "symbol_info list"

definition unparsed :: pe_state where
  "unparsed = \<lparr>pe_parsed = False, pe_valid = False, pe_sections = [], pe_symbols = []\<rparr>"

text \<open>\<open>symbols_of\<close> is \<open>try_download_and_parse_symbols\<close>. An exception leaves the sections read so far.\<close>

definition parse_pe ::
  "pe_layout \<Rightarrow> reader \<Rightarrow> (string \<Rightarrow> string) \<Rightarrow> (codeview_info \<Rightarrow> symbol_info list option) \<Rightarrow> u64 \<Rightarrow> u64 \<Rightarrow> pe_state \<Rightarrow> pe_state" where
  "parse_pe L rd file_name symbols_of base sz p =
     (if pe_parsed p then p
      else let p1 = p\<lparr>pe_parsed := True, pe_sections := [], pe_symbols := []\<rparr>; bad = p1\<lparr>pe_valid := False\<rparr> in
        case validate_and_read_headers L rd base sz of Inl _ \<Rightarrow> bad
        | Inr h \<Rightarrow>
            case read_sections L rd base sz h of Inl _ \<Rightarrow> bad
            | Inr ss \<Rightarrow>
                case try_extract_codeview_info L rd file_name base sz h of
                  Inl _ \<Rightarrow> bad\<lparr>pe_sections := ss\<rparr>
                | Inr cv \<Rightarrow>
                    p1\<lparr>pe_valid := True, pe_sections := ss,
                       pe_symbols := (case cv of None \<Rightarrow> [] | Some c \<Rightarrow> (case symbols_of c of None \<Rightarrow> [] | Some sy \<Rightarrow> sy))\<rparr>)"

text \<open>\<open>std::upper_bound\<close> on a list in which the elements with a smaller or equal address come first.\<close>

definition get_closest_symbol :: "symbol_info list \<Rightarrow> u64 \<Rightarrow> symbol_info option" where
  "get_closest_symbol sy rva =
     (let n = length (takeWhile (\<lambda>s. \<not> rva < sym_rva s) sy) in
      if sy = [] then None else if n = 0 then None else Some (sy ! (n - 1)))"

section \<open>Files on disk\<close>

text \<open>
  The mapped view is the file; \<open>view_bytes\<close> is None where an access would leave the mapping. All sizes
  and sums are 64 bits wide, the end of a section 32 bits.
\<close>

definition view_bytes :: "string \<Rightarrow> u64 \<Rightarrow> nat \<Rightarrow> string option" where
  "view_bytes file off n = (if unat off + n \<le> length file then Some (take n (drop (unat off) file)) else None)"

record section_mapping =
  map_va :: u32
  map_vsize :: u32
  map_raw_offset :: u32
  map_raw_size :: u32

definition mapping_of :: "pe_layout \<Rightarrow> string \<Rightarrow> section_mapping" where
  "mapping_of L h = \<lparr>map_va = u32_at (sh_virtual_address L) h, map_vsize = u32_at (sh_virtual_size L) h,
     map_raw_offset = u32_at (sh_raw_pointer L) h, map_raw_size = u32_at (sh_raw_size L) h\<rparr>"

fun file_sections :: "pe_layout \<Rightarrow> string \<Rightarrow> u64 \<Rightarrow> nat list \<Rightarrow> section_mapping list option" where
  "file_sections L file table [] = Some []"
| "file_sections L file table (i # is) =
     (let entry_off = table + of_nat i * of_nat (sh_size L) in
      if entry_off + of_nat (sh_size L) > of_nat (length file) then Some []
      else case view_bytes file entry_off (sh_size L) of None \<Rightarrow> None
      | Some h \<Rightarrow> map_option (Cons (mapping_of L h)) (file_sections L file table is))"

text \<open>The header size and the sections found by the quick parse, None if it reads outside the mapping.\<close>

definition quick_parse :: "pe_layout \<Rightarrow> string \<Rightarrow> (u32 \<times> section_mapping list) option" where
  "quick_parse L file =
     (if length file < dos_size L then Some (0, [])
      else case view_bytes file 0 (dos_size L) of None \<Rightarrow> None
      | Some dos \<Rightarrow>
          if u16_at (dos_magic L) dos \<noteq> IMAGE_DOS_SIGNATURE then Some (0, [])
          else let nt_offset = scast (u32_at (dos_lfanew L) dos) :: u64 in
            if \<not> nt_offset + of_nat (nt_size L) \<le> of_nat (length file) then Some (0, [])
            else case view_bytes file nt_offset (nt_size L) of None \<Rightarrow> None
            | Some nt \<Rightarrow>
                if u32_at (nt_signature L) nt \<noteq> IMAGE_NT_SIGNATURE then Some (0, [])
                else map_option (Pair (u32_at (nt_headers_size L) nt))
                  (file_sections L file (nt_offset + of_nat (4 + file_header_size L) + ucast (u16_at (nt_optional_size L) nt))
                    [0..<unat (u16_at (nt_section_count L) nt)]))"

text \<open>The base, the size, the header size and the sections of the object for a file mapped at \<open>mapped_view\<close>.\<close>

definition from_file :: "pe_layout \<Rightarrow> string \<Rightarrow> u64 \<Rightarrow> u64 \<Rightarrow> (u64 \<times> u64 \<times> u32 \<times> section_mapping list) option" where
  "from_file L file mapped_view image_base =
     (case quick_parse L file of None \<Rightarrow> None
      | Some (hdr, ss) \<Rightarrow> Some (if image_base \<noteq> 0 then image_base else mapped_view, of_nat (length file), hdr, ss))"

definition in_section :: "u64 \<Rightarrow> section_mapping \<Rightarrow> bool" where
  "in_section rva s \<longleftrightarrow> rva \<ge> ucast (map_va s) \<and> rva < ucast (map_va s + max (map_vsize s) (map_raw_size s))"

text \<open>The reader of a file: None if it refuses, Some None if it would read outside the mapping.\<close>

definition local_read :: "string \<Rightarrow> u64 \<Rightarrow> u32 \<Rightarrow> section_mapping list \<Rightarrow> u64 \<Rightarrow> u64 \<Rightarrow> string option option" where
  "local_read file virtual_base hdr_size ss source sz =
     (let rva = source - virtual_base; file_size = of_nat (length file); copy = (\<lambda>off. Some (view_bytes file off (unat sz))) in
      if source = 0 \<or> sz = 0 then None
      else if rva < ucast hdr_size then (if rva + sz > file_size then None else copy rva)
      else case find (in_section rva) ss of
          Some s \<Rightarrow>
            let off = ucast (map_raw_offset s) + (rva - ucast (map_va s)) in
            if off + sz > file_size then None else copy off
        | None \<Rightarrow> if rva + sz \<le> file_size then copy rva else None)"

section \<open>The size of a loaded image\<close>

text \<open>Memory of the kernel, all of it readable; \<open>e_lfanew\<close> is signed.\<close>

definition get_image_size :: "pe_layout \<Rightarrow> (u64 \<Rightarrow> nat \<Rightarrow> string) \<Rightarrow> u64 \<Rightarrow> u64" where
  "get_image_size L mem image_base =
     (let dos = mem image_base (dos_size L) in
      if u16_at (dos_magic L) dos \<noteq> IMAGE_DOS_SIGNATURE then 0
      else let nt = mem (image_base + scast (u32_at (dos_lfanew L) dos)) (nt_size L) in
        if u32_at (nt_signature L) nt \<noteq> IMAGE_NT_SIGNATURE then 0 else ucast (u32_at (nt_image_size L) nt))"

end
