(* ===== verification/Pe_Inv.thy ===== *)
theory Pe_Inv
  imports Pe_Image
begin

text \<open>
  Properties of the parser of portable executables: it reads nothing outside the image whatever the bytes
  of the image are, a reader of a file stays inside the mapped view for such requests, and the closest
  symbol of an address is the last one at or below it.
\<close>

section \<open>Reads stay inside the image\<close>

text \<open>A request of \<open>n\<close> bytes at \<open>a\<close> lies in the image of \<open>sz\<close> bytes at \<open>base\<close>.\<close>

definition inside :: "u64 \<Rightarrow> u64 \<Rightarrow> u64 \<Rightarrow> u64 \<Rightarrow> bool" where
  "inside base sz a n \<longleftrightarrow> unat base \<le> unat a \<and> unat a + unat n \<le> unat base + unat sz"

text \<open>The structures are not empty and their sizes fit in 32 bits.\<close>

definition proper_layout :: "pe_layout \<Rightarrow> bool" where
  "proper_layout L \<longleftrightarrow> (\<forall>n\<in>{dos_size L, nt_size L, sh_size L, dbg_size L}. 0 < n \<and> n < 2 ^ 32)"

definition same_inside :: "reader \<Rightarrow> reader \<Rightarrow> u64 \<Rightarrow> u64 \<Rightarrow> bool" where
  "same_inside rd rd' base sz \<longleftrightarrow> unat base + unat sz \<le> 2 ^ 64 \<and> (\<forall>a n. inside base sz a n \<longrightarrow> rd a n = rd' a n)"

lemma unat_of_nat_32: "n < 2 ^ 32 \<Longrightarrow> unat (of_nat n :: u64) = n"
  by (rule unat_of_nat_64) simp

lemma inside_offset:
  assumes "unat base + unat sz \<le> 2 ^ 64" and "unat off + unat n \<le> unat sz" and "0 < unat n"
  shows "inside base sz (base + off) n"
  using assms by (simp add: inside_def unat_add_no_wrap)

lemma same_read:
  assumes "same_inside rd rd' base sz" and "unat off + unat n \<le> unat sz" and "0 < unat n"
  shows "rd (base + off) n = rd' (base + off) n"
  using assms inside_offset [of base sz off n] by (simp add: same_inside_def)

lemma same_typed:
  assumes "same_inside rd rd' base sz" and "unat off + n \<le> unat sz" and "0 < n" and "n < 2 ^ 32"
  shows "read_typed rd (base + off) n = read_typed rd' (base + off) n"
  using assms same_read [of rd rd' base sz off "of_nat n"] by (simp add: read_typed_def unat_of_nat_32)

lemma word_room:
  fixes a b c :: u64
  assumes "\<not> a > b" and "\<not> c > b - a"
  shows "unat a + unat c \<le> unat b"
  using assms by (simp add: not_less word_le_nat_alt unat_sub)

lemma same_headers:
  assumes "same_inside rd rd' base sz" and "proper_layout L"
  shows "validate_and_read_headers L rd base sz = validate_and_read_headers L rd' base sz"
proof (cases "base = 0 \<or> sz < of_nat (dos_size L)")
  case False
  have n: "unat (of_nat (dos_size L) :: u64) = dos_size L" "unat (of_nat (nt_size L) :: u64) = nt_size L"
    using assms(2) by (simp_all add: proper_layout_def unat_of_nat_32)
  have d: "read_typed rd base (dos_size L) = read_typed rd' base (dos_size L)"
    using same_typed [OF assms(1), of 0 "dos_size L"] assms(2) False n
    by (simp add: proper_layout_def not_less word_le_nat_alt)
  have "read_typed rd (base + off) (nt_size L) = read_typed rd' (base + off) (nt_size L)"
    if "\<not> (off > sz \<or> sz - off < of_nat (nt_size L))" for off
    using same_typed [OF assms(1), of off "nt_size L"] word_room [where a = off and b = sz and c = "of_nat (nt_size L)"] assms(2) that n
    by (simp add: proper_layout_def not_less)
  then show ?thesis
    using False d by (auto simp: validate_and_read_headers_def Let_def split: sum.splits)
qed (simp add: validate_and_read_headers_def)

text \<open>Tables of structures.\<close>

lemma unat_element:
  fixes off sz :: u64
  assumes "i < k" and "k < 2 ^ 32" and "n < 2 ^ 32" and "unat off + k * n \<le> unat sz"
  shows "unat (off + of_nat i * of_nat n) + n \<le> unat sz"
proof -
  have "Suc i * n \<le> k * n"
    using assms(1) by (intro mult_right_mono) simp_all
  then have le: "unat off + (i * n + n) \<le> unat sz"
    using assms(4) by simp
  then have "i * n < 2 ^ 64"
    using unat_less_64 [of sz] by (simp del: unat_less_64)
  then have "unat (of_nat (i * n) :: u64) = i * n"
    by (rule unat_of_nat_64)
  moreover from this have "unat (off + of_nat (i * n)) = unat off + i * n"
    using le unat_less_64 [of sz] by (subst unat_add_no_wrap) (simp_all del: unat_less_64 of_nat_mult)
  ultimately show ?thesis
    using le by simp
qed

lemma same_section_list:
  assumes "same_inside rd rd' base sz" and "0 < sh_size L" and "sh_size L < 2 ^ 32"
    and "\<forall>i\<in>set is. unat (table + of_nat i * of_nat (sh_size L)) + sh_size L \<le> unat sz"
  shows "read_section_list L rd base table is = read_section_list L rd' base table is"
  using assms(4)
proof (induction "is")
  case (Cons i "is")
  have "read_typed rd (base + (table + of_nat i * of_nat (sh_size L))) (sh_size L) =
      read_typed rd' (base + (table + of_nat i * of_nat (sh_size L))) (sh_size L)"
    using Cons.prems assms(2,3) by (intro same_typed [OF assms(1)]) simp_all
  moreover have "read_section_list L rd base table is = read_section_list L rd' base table is"
    using Cons by simp
  ultimately show ?case
    by (simp split: sum.splits)
qed simp

lemma same_debug_scan:
  assumes "same_inside rd rd' base sz" and "0 < dbg_size L" and "dbg_size L < 2 ^ 32"
    and "\<forall>i\<in>set is. unat (table + of_nat i * of_nat (dbg_size L)) + dbg_size L \<le> unat sz"
  shows "scan_debug L rd f base sz table is = scan_debug L rd' f base sz table is"
  using assms(4)
proof (induction "is")
  case (Cons i "is")
  have *: "read_typed rd (base + (table + of_nat i * of_nat (dbg_size L))) (dbg_size L) =
      read_typed rd' (base + (table + of_nat i * of_nat (dbg_size L))) (dbg_size L)"
    using Cons.prems assms(2,3) by (intro same_typed [OF assms(1)]) simp_all
  have cv: "codeview_of_entry L rd f base sz d = codeview_of_entry L rd' f base sz d" for d
  proof -
    have "rd (base + off) n = rd' (base + off) n"
      if "\<not> (off > sz \<or> n > sz - off)" and "\<not> n < of_nat codeview_header_size" for off n
      using same_read [OF assms(1), of off n] word_room [where a = off and b = sz and c = n] that
      by (simp add: codeview_header_size_def not_less word_le_nat_alt)
    then show ?thesis
      by (simp add: codeview_of_entry_def Let_def)
  qed
  show ?case
    using Cons * cv by (simp split: sum.splits option.splits)
qed simp

lemma same_sections:
  assumes "same_inside rd rd' base sz" and "proper_layout L"
  shows "read_sections L rd base sz h = read_sections L rd' base sz h"
proof -
  define k where "k = unat (u16_at (nt_section_count L) (h_nt h))"
  define t where "t = section_table_offset h"
  have sh: "0 < sh_size L" "sh_size L < 2 ^ 32"
    using assms(2) by (simp_all add: proper_layout_def)
  have k: "k < 65536"
    using unsigned_less [of "u16_at (nt_section_count L) (h_nt h)", where ?'a = nat] by (simp add: k_def)
  have "k * sh_size L < 2 ^ 16 * 2 ^ 32"
    using k sh by (intro mult_strict_mono) simp_all
  then have prod: "unat (of_nat k * of_nat (sh_size L) :: u64) = k * sh_size L"
    by (subst of_nat_mult [symmetric], intro unat_of_nat_64) simp
  have c: "ucast (u16_at (nt_section_count L) (h_nt h)) = (of_nat k :: u64)"
    by (simp add: k_def)
  have elements: "\<forall>i\<in>set [0..<k]. unat (t + of_nat i * of_nat (sh_size L)) + sh_size L \<le> unat sz"
    if "\<not> t > sz" and "\<not> (of_nat k * of_nat (sh_size L) :: u64) > sz - t"
    using word_room [OF that] prod k sh by (auto intro!: unat_element [of _ k])
  have pos: "k \<noteq> 0 \<Longrightarrow> 0 < (of_nat k :: u64)"
    using k by (simp add: word_less_nat_alt unat_of_nat_64)
  show ?thesis
    using same_section_list [OF assms(1) sh elements]
    unfolding read_sections_def Let_def c t_def [symmetric] using k pos by (cases "k = 0") (auto simp: unat_of_nat_64)
qed

lemma same_codeview:
  assumes "same_inside rd rd' base sz" and "proper_layout L"
  shows "try_extract_codeview_info L rd f base sz h = try_extract_codeview_info L rd' f base sz h"
proof -
  define t where "t = (ucast (u32_at (nt_debug_dir L) (h_nt h)) :: u64)"
  define z where "z = (ucast (u32_at (nt_debug_dir L + 4) (h_nt h)) :: u64)"
  define k where "k = unat (z div of_nat (dbg_size L))"
  have d: "0 < dbg_size L" "dbg_size L < 2 ^ 32"
    using assms(2) by (simp_all add: proper_layout_def)
  have z: "unat z < 2 ^ 32"
    using unsigned_less [of "u32_at (nt_debug_dir L + 4) (h_nt h)", where ?'a = nat] by (simp add: z_def unsigned_ucast_eq take_bit_nat_eq_self)
  have k: "k = unat z div dbg_size L"
    using d by (simp add: k_def unat_div unat_of_nat_32)
  then have "k * dbg_size L \<le> unat z" and "k < 2 ^ 32"
    using z by (simp_all add: div_times_less_eq_dividend le_less_trans [OF div_le_dividend])
  then have elements: "\<forall>i\<in>set [0..<k]. unat (t + of_nat i * of_nat (dbg_size L)) + dbg_size L \<le> unat sz"
    if "\<not> t > sz" and "\<not> z > sz - t"
    using word_room [OF that] d by (auto intro!: unat_element [of _ k])
  show ?thesis
    using same_debug_scan [OF assms(1) d elements]
    unfolding try_extract_codeview_info_def Let_def t_def [symmetric] z_def [symmetric] k_def [symmetric] by auto
qed

lemma same_parse:
  assumes "same_inside rd rd' base sz" and "proper_layout L"
  shows "parse_pe L rd f symbols_of base sz p = parse_pe L rd' f symbols_of base sz p"
  by (simp add: parse_pe_def Let_def same_headers [OF assms] same_sections [OF assms] same_codeview [OF assms] split: sum.splits)

section \<open>Reading a file\<close>

text \<open>
  The memory of the process outside the mapped view is \<open>outside\<close>: what a reader returns for a request
  that leaves the view.
\<close>

definition file_reader :: "string \<Rightarrow> u64 \<Rightarrow> u32 \<Rightarrow> section_mapping list \<Rightarrow> reader \<Rightarrow> reader" where
  "file_reader file v hdr ss outside a n =
     (case local_read file v hdr ss a n of None \<Rightarrow> None | Some None \<Rightarrow> outside a n | Some (Some s) \<Rightarrow> Some s)"

lemma view_bytes_inside:
  "unat off + n \<le> length file \<Longrightarrow> view_bytes file off n = Some (take n (drop (unat off) file))"
  by (simp add: view_bytes_def)

lemma unat_section_offset:
  fixes a b c :: u32 and r :: u64
  assumes "unat r < 2 ^ 32" and "ucast b \<le> r"
  shows "unat (ucast a + (r - ucast b)) < 2 ^ 33"
proof -
  have "unat (ucast a :: u64) < 2 ^ 32"
    using unsigned_less [of a, where ?'a = nat] by (simp add: unsigned_ucast_eq take_bit_nat_eq_self)
  moreover have "unat (r - ucast b) < 2 ^ 32"
    using assms by (simp add: unat_sub)
  ultimately show ?thesis
    by (simp add: unat_add_no_wrap)
qed

lemma local_read_in_view:
  assumes "length file < 2 ^ 62" and "unat v + length file \<le> 2 ^ 64" and "inside v (of_nat (length file)) a n"
  shows "local_read file v hdr ss a n \<noteq> Some None"
proof -
  define r where "r = a - v"
  have len: "unat (of_nat (length file) :: u64) = length file"
    using assms(1) by (intro unat_of_nat_64) simp
  have "v \<le> a"
    using assms(3) by (simp add: inside_def word_le_nat_alt)
  then have room: "unat r + unat n \<le> length file"
    using assms(3) len by (simp add: r_def inside_def unat_sub) linarith
  then have view: "view_bytes file r (unat n) \<noteq> None"
    by (simp add: view_bytes_def)
  have sect: "view_bytes file (ucast (map_raw_offset s) + (r - ucast (map_va s))) (unat n) \<noteq> None"
    if "find (in_section r) ss = Some s"
      and "\<not> ucast (map_raw_offset s) + (r - ucast (map_va s)) + n > of_nat (length file)" for s
  proof -
    have "in_section r s"
      using that(1) by (metis find_Some_iff)
    then have "unat r < 2 ^ 32" and "ucast (map_va s) \<le> r"
      using unsigned_less [of "map_va s + max (map_vsize s) (map_raw_size s)", where ?'a = nat]
      by (auto simp: in_section_def word_less_nat_alt unsigned_ucast_eq take_bit_nat_eq_self)
    from unat_section_offset [OF this, of "map_raw_offset s"]
    have "unat (ucast (map_raw_offset s) + (r - ucast (map_va s)) + n) =
        unat (ucast (map_raw_offset s) + (r - ucast (map_va s))) + unat n"
      using room assms(1) by (intro unat_add_no_wrap) simp
    then show ?thesis
      using that(2) len by (simp add: view_bytes_def not_less word_le_nat_alt)
  qed
  show ?thesis
    using view sect by (auto simp: local_read_def Let_def r_def [symmetric] split: option.splits)
qed

section \<open>Closest symbols\<close>

lemma takeWhile_sorted:
  assumes "sorted (map sym_rva sy)" and "s \<in> set sy" and "sym_rva s \<le> rva"
  shows "s \<in> set (takeWhile (\<lambda>s. \<not> rva < sym_rva s) sy)"
  using assms by (induction sy) (auto simp: not_less)

lemma closest_symbol_takeWhile:
  "get_closest_symbol sy rva =
     (let below = takeWhile (\<lambda>s. \<not> rva < sym_rva s) sy in if below = [] then None else Some (last below))"
proof -
  have "takeWhile P xs \<noteq> [] \<Longrightarrow> xs ! (length (takeWhile P xs) - 1) = last (takeWhile P xs)"
    for P and xs :: "symbol_info list"
    by (metis diff_less last_conv_nth length_greater_0_conv takeWhile_nth zero_less_one)
  then show ?thesis
    by (auto simp: get_closest_symbol_def Let_def)
qed

lemma last_sorted_above:
  "sorted (map sym_rva sy) \<Longrightarrow> s \<in> set sy \<Longrightarrow> sym_rva s \<le> sym_rva (last sy)"
  by (induction sy) auto

lemma closest_symbol_found:
  assumes "sorted (map sym_rva sy)"
  shows "case get_closest_symbol sy rva of
      None \<Rightarrow> \<forall>s\<in>set sy. rva < sym_rva s
    | Some s \<Rightarrow> s \<in> set sy \<and> sym_rva s \<le> rva \<and> (\<forall>s'\<in>set sy. sym_rva s' \<le> rva \<longrightarrow> sym_rva s' \<le> sym_rva s)"
proof -
  define below where "below = takeWhile (\<lambda>s. \<not> rva < sym_rva s) sy"
  have split: "sy = below @ dropWhile (\<lambda>s. \<not> rva < sym_rva s) sy"
    by (simp add: below_def)
  then have sorted: "sorted (map sym_rva below)"
    using assms by (metis map_append sorted_append)
  have all: "s \<in> set below" if "s \<in> set sy" and "sym_rva s \<le> rva" for s
    using takeWhile_sorted [OF assms that] by (simp add: below_def)
  have low: "sym_rva s \<le> rva \<and> s \<in> set sy" if "s \<in> set below" for s
    using that by (auto simp: below_def not_less dest: set_takeWhileD)
  show ?thesis
  proof (cases "below = []")
    case True
    then have "rva < sym_rva s" if "s \<in> set sy" for s
      using all [OF that] by (cases "sym_rva s \<le> rva") (simp_all add: not_le)
    then show ?thesis
      using True by (simp add: closest_symbol_takeWhile below_def [symmetric])
  next
    case False
    then show ?thesis
      using low [OF last_in_set [OF False]] last_sorted_above [OF sorted] all
      by (simp add: closest_symbol_takeWhile below_def [symmetric])
  qed
qed

section \<open>A small image\<close>

text \<open>A layout with short structures and a file in it with one section, for the witnesses.\<close>

definition small_layout :: pe_layout where
  "small_layout = \<lparr>dos_size = 6, dos_magic = 0, dos_lfanew = 2, nt_size = 24, nt_signature = 0, nt_section_count = 4,
     nt_optional_size = 6, nt_headers_size = 8, nt_image_size = 12, nt_debug_dir = 16, file_header_size = 4,
     sh_size = 24, sh_name = 0, sh_virtual_size = 8, sh_virtual_address = 12, sh_raw_size = 16, sh_raw_pointer = 20,
     dbg_size = 12, dbg_type = 0, dbg_data_size = 4, dbg_data_rva = 8\<rparr>"

definition small_file :: string where
  "small_file = [CHR 0x4D, CHR 0x5A, CHR 0x06, CHR 0x00, CHR 0x00, CHR 0x00, CHR 0x50, CHR 0x45, CHR 0x00, CHR 0x00,
     CHR 0x01, CHR 0x00, CHR 0x10, CHR 0x00, CHR 0x36, CHR 0x00, CHR 0x00, CHR 0x00, CHR 0x40, CHR 0x00,
     CHR 0x00, CHR 0x00, CHR 0x00, CHR 0x00, CHR 0x00, CHR 0x00, CHR 0x00, CHR 0x00, CHR 0x00, CHR 0x00,
     CHR 0x2E, CHR 0x74, CHR 0x65, CHR 0x78, CHR 0x74, CHR 0x00, CHR 0x00, CHR 0x00, CHR 0x04, CHR 0x00,
     CHR 0x00, CHR 0x00, CHR 0x38, CHR 0x00, CHR 0x00, CHR 0x00, CHR 0x04, CHR 0x00, CHR 0x00, CHR 0x00,
     CHR 0x36, CHR 0x00, CHR 0x00, CHR 0x00, CHR 0x63, CHR 0x6F, CHR 0x64, CHR 0x65]"

definition small_symbols :: "symbol_info list" where
  "small_symbols = [\<lparr>sym_name = ''a'', sym_rva = 0x10\<rparr>, \<lparr>sym_name = ''b'', sym_rva = 0x20\<rparr>]"

lemma small_file_length: "length small_file = 58"
  by (simp add: small_file_def)

lemma small_file_views:
  "view_bytes small_file 0 6 = Some (take 6 small_file)"
  "view_bytes small_file 6 24 = Some (take 24 (drop 6 small_file))"
  "view_bytes small_file 30 24 = Some (take 24 (drop 30 small_file))"
  by (simp_all add: view_bytes_def small_file_def)

lemma small_file_members:
  "u16_at 0 (take 6 small_file) = IMAGE_DOS_SIGNATURE" "u32_at 2 (take 6 small_file) = 6"
  "u32_at 0 (take 24 (drop 6 small_file)) = IMAGE_NT_SIGNATURE" "u16_at 4 (take 24 (drop 6 small_file)) = 1"
  "u16_at 6 (take 24 (drop 6 small_file)) = 16" "u32_at 8 (take 24 (drop 6 small_file)) = 54"
  by (simp_all add: u16_at_def u32_at_def member_at_def small_file_def IMAGE_DOS_SIGNATURE_def IMAGE_NT_SIGNATURE_def)

definition small_mapping :: section_mapping where
  "small_mapping = \<lparr>map_va = 56, map_vsize = 4, map_raw_offset = 54, map_raw_size = 4\<rparr>"

lemma small_file_section: "mapping_of small_layout (take 24 (drop 30 small_file)) = small_mapping"
  by (simp add: u32_at_def member_at_def small_file_def mapping_of_def small_layout_def small_mapping_def)

lemma small_file_sections: "file_sections small_layout small_file 30 [0] = Some [small_mapping]"
  by (simp add: small_layout_def small_file_length small_file_views small_file_section [unfolded small_layout_def])

lemma small_quick_parse: "quick_parse small_layout small_file = Some (54, [small_mapping])"
  using small_file_sections
  by (simp add: quick_parse_def small_layout_def small_file_length small_file_views small_file_members)

lemma small_proper: "proper_layout small_layout"
  by (simp add: proper_layout_def small_layout_def)

text \<open>A negative \<open>e_lfanew\<close> passes the check of the quick parse, which then reads before the view.\<close>

lemma negative_lfanew_leaves_view:
  "quick_parse small_layout (''MZ'' @ [CHR 0xF8, CHR 0xFF, CHR 0xFF, CHR 0xFF] @ replicate 26 NUL) = None"
  by (simp add: quick_parse_def small_layout_def view_bytes_def u16_at_def u32_at_def member_at_def IMAGE_DOS_SIGNATURE_def)

section \<open>Properties\<close>

text \<open>
  C38. Parsing an image reads nothing outside it, whatever its bytes are: two readers that agree on the
  requests inside the image give the same result, sections, symbols and verdict included.
\<close>

theorem parse_stays_inside:
  assumes "proper_layout L" and "unat base + unat sz \<le> 2 ^ 64" and "\<forall>a n. inside base sz a n \<longrightarrow> rd a n = rd' a n"
  shows "parse_pe L rd f symbols_of base sz p = parse_pe L rd' f symbols_of base sz p"
  using assms by (intro same_parse) (simp_all add: same_inside_def)

lemma parse_stays_inside_witness:
  "let rd = \<lambda>a n. view_bytes small_file (a - 0x10000) (unat n);
       rd' = \<lambda>a n. if inside 0x10000 58 a n then rd a n else Some [] in
   rd 0x20000 4 \<noteq> rd' 0x20000 4 \<and>
   parse_pe small_layout rd id (\<lambda>_. None) 0x10000 58 unparsed = parse_pe small_layout rd' id (\<lambda>_. None) 0x10000 58 unparsed"
  unfolding Let_def
  by (intro conjI parse_stays_inside small_proper) (simp_all add: view_bytes_def small_file_length inside_def)



text \<open>
  With the symbols sorted by address, as they are when loaded, the symbol found for an offset is one at
  or below it with none in between, and none is found only if all symbols lie above.
\<close>

theorem closest_symbol_correct:
  assumes "sorted (map sym_rva sy)"
  shows "case get_closest_symbol sy rva of
      None \<Rightarrow> \<forall>s\<in>set sy. rva < sym_rva s
    | Some s \<Rightarrow> s \<in> set sy \<and> sym_rva s \<le> rva \<and> (\<forall>s'\<in>set sy. sym_rva s' \<le> rva \<longrightarrow> sym_rva s' \<le> sym_rva s)"
  by (rule closest_symbol_found [OF assms])

lemma closest_symbol_correct_witness:
  "sorted (map sym_rva small_symbols) \<and> get_closest_symbol small_symbols 0x1F = Some (small_symbols ! 0)"
  using closest_symbol_correct [of small_symbols "0x1F"] by (simp add: small_symbols_def get_closest_symbol_def)

end
