(* ===== verification/Hooks.thy ===== *)
theory Hooks
  imports Hypercall Pe_Inv
begin

text \<open>
  The hooks the hypervisor places in the running system (\<open>revhv-km/hooks.cpp\<close>): the 14-byte absolute jump,
  the trampoline and the shadow page of \<open>ept_hook\<close>, and the handler of \<open>MmLoadSystemImage\<close>, which starts
  an auto trace when the awaited driver is loaded. The instruction decoder, the pool and the address
  translation of the system are parameters.
\<close>

section \<open>Names of drivers\<close>

definition lower_ascii :: "char \<Rightarrow> char" where
  "lower_ascii c =
     (if (of_char CHR ''A'' :: nat) \<le> of_char c \<and> (of_char c :: nat) \<le> of_char CHR ''Z''
      then char_of ((of_char c :: nat) + (of_char CHR ''a'' - of_char CHR ''A'')) else c)"

text \<open>The strings are the arrays they are stored in; None is a read beyond an array.\<close>

fun names_match_nocase :: "string \<Rightarrow> string \<Rightarrow> bool option" where
  "names_match_nocase (a # as) (b # bs) =
     (if a \<noteq> NUL \<and> b \<noteq> NUL
      then if lower_ascii a \<noteq> lower_ascii b then Some False else names_match_nocase as bs
      else Some (a = b))"
| "names_match_nocase _ _ = None"

section \<open>The absolute jump\<close>

definition absolute_jump_size :: nat where "absolute_jump_size = 14"

definition jump_bytes :: "u64 \<Rightarrow> u8 list" where
  "jump_bytes a = 0x68 # le_bytes 4 a @ le_bytes 4 0x042444C7 @ le_bytes 4 (drop_bit 32 a) @ [0xC3]"

definition write_absolute_jmp :: "u8 list \<Rightarrow> nat \<Rightarrow> u64 \<Rightarrow> u8 list" where
  "write_absolute_jmp buffer off a = take off buffer @ jump_bytes a @ drop (off + absolute_jump_size) buffer"

section \<open>Placing a hook\<close>

text \<open>
  The environment: the interrupt level, the outcome of \<open>ZydisDecoderInit\<close>, the length of the instruction
  at an address found in at most so many bytes, the memory of the kernel, the addresses of the two pool
  allocations, the physical address of an address, the number of cores and the answer of each to the
  hypercall.
\<close>

record hook_env =
  he_irql :: nat
  he_decoder_ready :: bool
  he_decode :: "u64 \<Rightarrow> u64 \<Rightarrow> u64 option"
  he_mem :: "u64 \<Rightarrow> u8"
  he_trampoline :: "u64 option"
  he_exec_page :: "u64 option"
  he_physical :: "u64 \<Rightarrow> u64"
  he_cpus :: nat
  he_vmcall :: "nat \<Rightarrow> u64 \<Rightarrow> u64 \<Rightarrow> u64"

text \<open>The contents of the two buffers, the pointer to the original function, the requests and the result.\<close>

record hook_result =
  hr_success :: bool
  hr_original :: "u64 option"
  hr_trampoline :: "u8 list"
  hr_exec_page :: "u8 list"
  hr_requests :: "(nat \<times> u64 \<times> u64) list"

definition hook_failed :: hook_result where
  "hook_failed = \<lparr>hr_success = False, hr_original = None, hr_trampoline = [], hr_exec_page = [], hr_requests = []\<rparr>"

definition page_size :: u64 where "page_size = 0x1000"

definition mem_bytes :: "(u64 \<Rightarrow> u8) \<Rightarrow> u64 \<Rightarrow> nat \<Rightarrow> u8 list" where
  "mem_bytes m a n = map (\<lambda>i. m (a + of_nat i)) [0..<n]"

text \<open>
  The loop over the overwritten instructions. The outer option is None if it does not return, the inner
  one if an instruction cannot be decoded.
\<close>

partial_function (option) overwritten_loop :: "(u64 \<Rightarrow> u64 \<Rightarrow> u64 option) \<Rightarrow> u64 \<Rightarrow> u64 \<Rightarrow> u64 option option" where
  "overwritten_loop decode f n =
     (if n < of_nat absolute_jump_size
      then (case decode (f + n) (page_size - ((f AND 0xFFF) + n) - 1) of
              None \<Rightarrow> Some None
            | Some len \<Rightarrow> overwritten_loop decode f (n + len))
      else Some (Some n))"

definition copy_and_hook :: "hook_env \<Rightarrow> u64 \<Rightarrow> u64 \<Rightarrow> u64 \<Rightarrow> hook_result" where
  "copy_and_hook E f hook n =
     (let off = f AND 0xFFF in
      if off + n > page_size - 1 then hook_failed
      else case he_trampoline E of None \<Rightarrow> hook_failed
      | Some t \<Rightarrow>
          let tramp = write_absolute_jmp (mem_bytes (he_mem E) f (unat n)) (unat n) (f + n);
              placed = hook_failed\<lparr>hr_original := Some t, hr_trampoline := tramp\<rparr> in
          case he_exec_page E of None \<Rightarrow> placed
          | Some p \<Rightarrow>
              let exec = write_absolute_jmp (mem_bytes (he_mem E) (f AND NOT 0xFFF) (unat page_size)) (unat off) hook;
                  target_pfn = drop_bit 12 (he_physical E f); hook_pfn = drop_bit 12 (he_physical E p);
                  cpus = [0..<he_cpus E] in
              placed\<lparr>hr_exec_page := exec, hr_requests := map (\<lambda>i. (i, target_pfn, hook_pfn)) cpus,
                hr_success := (\<forall>i\<in>set cpus. he_vmcall E i target_pfn hook_pfn \<noteq> 0)\<rparr>)"

definition ept_hook_function :: "hook_env \<Rightarrow> u64 \<Rightarrow> u64 \<Rightarrow> hook_result option" where
  "ept_hook_function E f hook =
     (if he_irql E > 0 then Some hook_failed
      else if \<not> he_decoder_ready E then Some hook_failed
      else case overwritten_loop (he_decode E) f 0 of
          None \<Rightarrow> None
        | Some None \<Rightarrow> Some hook_failed
        | Some (Some n) \<Rightarrow> Some (copy_and_hook E f hook n))"

section \<open>Loading a driver\<close>

definition max_image_name :: nat where "max_image_name = 512"

text \<open>The index of the last separator below an index, -1 if there is none.\<close>

fun separator_index :: "string \<Rightarrow> nat \<Rightarrow> int" where
  "separator_index s 0 = -1"
| "separator_index s (Suc i) = (if s ! i = CHR 0x5C then int i else separator_index s i)"

definition basename_of :: "string \<Rightarrow> string" where
  "basename_of s = drop (nat (separator_index s (length s) + 1)) s"

definition image_name_array :: "string \<Rightarrow> string" where
  "image_name_array s = basename_of s @ padding (max_image_name - length (basename_of s))"

text \<open>
  One call: the status of the original function, the name converted to bytes, the pointer \<open>base\<close> and the
  value it points to afterwards.
\<close>

record image_load =
  il_status :: u32
  il_ansi_name :: "string option"
  il_base_pointer :: u64
  il_base :: u64

text \<open>An auto trace request: base, size and whether all cores accepted it.\<close>

type_synonym trace_start = "u64 \<times> u64 \<times> bool"

definition onload_matches :: "onload_target_state \<Rightarrow> string \<Rightarrow> bool" where
  "onload_matches t s \<longleftrightarrow> ol_active t \<and> names_match_nocase (image_name_array s) (ol_name t) = Some True"

definition start_onload_trace :: "pe_layout \<Rightarrow> (u64 \<Rightarrow> nat \<Rightarrow> string) \<Rightarrow> nat \<Rightarrow> (nat \<Rightarrow> u64 \<Rightarrow> u64 \<Rightarrow> u64) \<Rightarrow> u64 \<Rightarrow> trace_start option" where
  "start_onload_trace L km cpus vmcall base =
     (if base = 0 then None
      else let image_size = get_image_size L km base in
        if image_size = 0 then None
        else Some (base, image_size, \<forall>i\<in>set [0..<cpus]. vmcall i base image_size \<noteq> 0))"

text \<open>None is the null pointer the message about the load reads through.\<close>

definition hk_mm_load_system_image ::
  "pe_layout \<Rightarrow> (u64 \<Rightarrow> nat \<Rightarrow> string) \<Rightarrow> nat \<Rightarrow> (nat \<Rightarrow> u64 \<Rightarrow> u64 \<Rightarrow> u64) \<Rightarrow> image_load \<Rightarrow> onload_target_state \<Rightarrow>
    (u32 \<times> onload_target_state \<times> trace_start option) option" where
  "hk_mm_load_system_image L km cpus vmcall ld t =
     (let result = il_status ld in
      if sint result < 0 then Some (result, t, None)
      else case il_ansi_name ld of None \<Rightarrow> Some (result, t, None)
      | Some name \<Rightarrow>
          if length name > max_image_name then Some (result, t, None)
          else if il_base_pointer ld = 0 then None
          else if onload_matches t name
          then Some (result, t\<lparr>ol_active := False\<rparr>, start_onload_trace L km cpus vmcall (il_base ld))
          else Some (result, t, None))"

text \<open>The loads of a system in their order, with the traces they start.\<close>

fun run_loads ::
  "pe_layout \<Rightarrow> (u64 \<Rightarrow> nat \<Rightarrow> string) \<Rightarrow> nat \<Rightarrow> (nat \<Rightarrow> u64 \<Rightarrow> u64 \<Rightarrow> u64) \<Rightarrow> image_load list \<Rightarrow> onload_target_state \<Rightarrow>
    (onload_target_state \<times> trace_start list) option" where
  "run_loads L km cpus vmcall [] t = Some (t, [])"
| "run_loads L km cpus vmcall (ld # lds) t =
     (case hk_mm_load_system_image L km cpus vmcall ld t of None \<Rightarrow> None
      | Some (_, t', start) \<Rightarrow>
          map_option (\<lambda>(t'', starts). (t'', (case start of None \<Rightarrow> starts | Some s \<Rightarrow> s # starts)))
            (run_loads L km cpus vmcall lds t'))"

section \<open>Executing the jump\<close>

text \<open>The three instructions of the jump, on the memory, the stack pointer and the instruction pointer.\<close>

record jump_cpu =
  jc_ip :: u64
  jc_sp :: u64
  jc_ram :: "u64 \<Rightarrow> u8"

text \<open>A store and a load of \<open>n\<close> bytes, least significant first.\<close>

definition store_le :: "nat \<Rightarrow> u64 \<Rightarrow> u64 \<Rightarrow> (u64 \<Rightarrow> u8) \<Rightarrow> u64 \<Rightarrow> u8" where
  "store_le n a v m = (\<lambda>x. if unat (x - a) < n then ucast (drop_bit (8 * unat (x - a)) v) else m x)"

fun load_le :: "nat \<Rightarrow> u64 \<Rightarrow> (u64 \<Rightarrow> u8) \<Rightarrow> u64" where
  "load_le 0 a m = 0"
| "load_le (Suc n) a m = ucast (m a) OR push_bit 8 (load_le n (a + 1) m)"

definition sign_extend_32 :: "u64 \<Rightarrow> u64" where
  "sign_extend_32 v = scast (ucast v :: u32)"

definition jump_step :: "jump_cpu \<Rightarrow> jump_cpu option" where
  "jump_step c =
     (let ip = jc_ip c; sp = jc_sp c; m = jc_ram c in
      if m ip = 0x68
      then Some \<lparr>jc_ip = ip + 5, jc_sp = sp - 8, jc_ram = store_le 8 (sp - 8) (sign_extend_32 (load_le 4 (ip + 1) m)) m\<rparr>
      else if mem_bytes m ip 4 = [0xC7, 0x44, 0x24, 0x04]
      then Some \<lparr>jc_ip = ip + 8, jc_sp = sp, jc_ram = store_le 4 (sp + 4) (load_le 4 (ip + 4) m) m\<rparr>
      else if m ip = 0xC3 then Some \<lparr>jc_ip = load_le 8 sp m, jc_sp = sp + 8, jc_ram = m\<rparr>
      else None)"

definition run_jump :: "jump_cpu \<Rightarrow> jump_cpu option" where
  "run_jump c = Option.bind (jump_step c) (\<lambda>c1. Option.bind (jump_step c1) jump_step)"

lemma bit_load_le:
  assumes "n \<le> 8" and "k < 64"
  shows "bit (load_le n a m) k \<longleftrightarrow> k < 8 * n \<and> bit (m (a + of_nat (k div 8))) (k mod 8)"
  using assms
proof (induction n arbitrary: a k)
  case (Suc n)
  show ?case
  proof (cases "k < 8")
    case True
    then show ?thesis
      using Suc.prems by (simp add: bit_or_iff bit_push_bit_iff bit_ucast_iff)
  next
    case False
    then obtain j where j: "k = j + 8"
      by (metis add.commute le_Suc_ex not_less)
    have "\<not> bit (m a) k"
      using False bit_imp_le_length [of "m a" k] by auto
    moreover have "(j + 8) div 8 = Suc (j div 8)"
      by simp
    ultimately show ?thesis
      using Suc.IH [of j "a + 1"] Suc.prems j by (simp add: bit_or_iff bit_push_bit_iff bit_ucast_iff add.assoc)
  qed
qed simp

lemma load_le_value:
  assumes "n \<le> 8" and "\<forall>i<n. m (a + of_nat i) = ucast (drop_bit (8 * i) v)"
  shows "load_le n a m = take_bit (8 * n) v"
proof (rule bit_word_eqI)
  fix k
  assume "k < LENGTH(64)"
  moreover have "k div 8 < n \<longleftrightarrow> k < 8 * n"
    by (simp add: div_less_iff_less_mult mult.commute)
  moreover have "8 * (k div 8) + k mod 8 = k"
    by simp
  ultimately show "bit (load_le n a m) k \<longleftrightarrow> bit (take_bit (8 * n) v) k"
    using assms by (auto simp: bit_load_le bit_take_bit_iff bit_ucast_iff bit_drop_bit_eq)
qed

lemma store_le_outside: "\<not> unat (x - a) < n \<Longrightarrow> store_le n a v m x = m x"
  by (simp add: store_le_def)

lemma store_le_inside: "i < n \<Longrightarrow> n \<le> 8 \<Longrightarrow> store_le n a v m (a + of_nat i) = ucast (drop_bit (8 * i) v)"
  by (simp add: store_le_def unat_of_nat_64)

lemma nth_mem_bytes: "i < n \<Longrightarrow> mem_bytes m a n ! i = m (a + of_nat i)"
  by (simp add: mem_bytes_def)

lemma mem_bytes_eq_iff: "mem_bytes m a (length bs) = bs \<longleftrightarrow> (\<forall>i<length bs. m (a + of_nat i) = bs ! i)"
proof
  assume "mem_bytes m a (length bs) = bs"
  then show "\<forall>i<length bs. m (a + of_nat i) = bs ! i"
    using nth_mem_bytes [of _ "length bs" m a] by metis
next
  assume "\<forall>i<length bs. m (a + of_nat i) = bs ! i"
  moreover have "length (mem_bytes m a (length bs)) = length bs"
    by (simp add: mem_bytes_def)
  ultimately show "mem_bytes m a (length bs) = bs"
    using nth_mem_bytes [of _ "length bs" m a] by (intro nth_equalityI) simp_all
qed

text \<open>The bytes of the jump, by position.\<close>

lemma jump_bytes_list:
  "jump_bytes t = [0x68, ucast t, ucast (drop_bit 8 t), ucast (drop_bit 16 t), ucast (drop_bit 24 t), 0xC7, 0x44, 0x24, 0x04,
     ucast (drop_bit 32 t), ucast (drop_bit 40 t), ucast (drop_bit 48 t), ucast (drop_bit 56 t), 0xC3]"
proof -
  have "[0..<4] = [0, 1, 2, 3]"
    by code_simp
  moreover have "le_bytes 4 0x042444C7 = [0xC7, 0x44, 0x24, 0x04]"
    by code_simp
  ultimately show ?thesis
    by (simp add: jump_bytes_def le_bytes_def)
qed

lemma length_jump_bytes [simp]: "length (jump_bytes t) = absolute_jump_size"
  by (simp add: jump_bytes_list absolute_jump_size_def)

lemma jump_bytes_nth:
  "jump_bytes t ! 0 = 0x68" "jump_bytes t ! 5 = 0xC7" "jump_bytes t ! 6 = 0x44" "jump_bytes t ! 7 = 0x24"
  "jump_bytes t ! 8 = 0x04" "jump_bytes t ! 13 = 0xC3"
  by (simp_all add: jump_bytes_list)

lemma jump_bytes_low: "i < 4 \<Longrightarrow> jump_bytes t ! (1 + i) = ucast (drop_bit (8 * i) t)"
  unfolding jump_bytes_def by (simp add: nth_append le_bytes_def)

lemma jump_bytes_high: "i < 4 \<Longrightarrow> jump_bytes t ! (9 + i) = ucast (drop_bit (8 * i) (drop_bit 32 t))"
  by (simp add: jump_bytes_def le_bytes_def nth_append)

lemma sign_extend_byte: "i < 4 \<Longrightarrow> (ucast (drop_bit (8 * i) (sign_extend_32 (take_bit 32 t))) :: u8) = ucast (drop_bit (8 * i) t)"
  by (rule bit_word_eqI) (simp add: sign_extend_32_def bit_ucast_iff bit_drop_bit_eq bit_signed_iff bit_take_bit_iff)

lemma high_half_byte: "i < 4 \<Longrightarrow> (ucast (drop_bit (8 * i) (take_bit 32 (drop_bit 32 t))) :: u8) = ucast (drop_bit (8 * i) (drop_bit 32 t :: u64))"
  by (rule bit_word_eqI) (simp add: bit_ucast_iff bit_drop_bit_eq bit_take_bit_iff ac_simps)

text \<open>The code of a jump that the stack slot it uses does not overlap.\<close>

definition jump_at :: "(u64 \<Rightarrow> u8) \<Rightarrow> u64 \<Rightarrow> u64 \<Rightarrow> bool" where
  "jump_at m a t \<longleftrightarrow> (\<forall>i<absolute_jump_size. m (a + of_nat i) = jump_bytes t ! i)"

definition slot_apart :: "u64 \<Rightarrow> u64 \<Rightarrow> bool" where
  "slot_apart a sp \<longleftrightarrow> (\<forall>i<absolute_jump_size. 8 \<le> unat (a + of_nat i - (sp - 8)))"

lemma jump_at_store:
  assumes "jump_at m a t" and "slot_apart a sp" and "\<forall>x. 8 \<le> unat (x - (sp - 8)) \<longrightarrow> m' x = m x"
  shows "jump_at m' a t"
  using assms by (simp add: jump_at_def slot_apart_def)

lemma jump_push:
  assumes "jump_at m a t"
  shows "jump_step \<lparr>jc_ip = a, jc_sp = sp, jc_ram = m\<rparr> =
    Some \<lparr>jc_ip = a + 5, jc_sp = sp - 8, jc_ram = store_le 8 (sp - 8) (sign_extend_32 (take_bit 32 t)) m\<rparr>"
proof -
  have at: "m (a + of_nat i) = jump_bytes t ! i" if "i < 14" for i
    using assms that by (simp add: jump_at_def absolute_jump_size_def)
  have "m a = 0x68"
    using at [of 0] by (simp add: jump_bytes_nth)
  moreover have "load_le 4 (a + 1) m = take_bit (8 * 4) t"
    using at [of "1 + _"] by (intro load_le_value) (simp_all add: jump_bytes_low [simplified] add.assoc)
  ultimately show ?thesis
    by (simp add: jump_step_def Let_def)
qed

lemma jump_mov:
  assumes "jump_at m a t"
  shows "jump_step \<lparr>jc_ip = a + 5, jc_sp = sp, jc_ram = m\<rparr> =
    Some \<lparr>jc_ip = a + 13, jc_sp = sp, jc_ram = store_le 4 (sp + 4) (take_bit 32 (drop_bit 32 t)) m\<rparr>"
proof -
  have at: "m (a + of_nat i) = jump_bytes t ! i" if "i < 14" for i
    using assms that by (simp add: jump_at_def absolute_jump_size_def)
  have b: "m (a + 5) = 0xC7" "m (a + 6) = 0x44" "m (a + 7) = 0x24" "m (a + 8) = 0x04"
    using at [of 5] at [of 6] at [of 7] at [of 8] by (simp_all add: jump_bytes_nth)
  have "[0..<4] = [0, 1, 2, 3]"
    by code_simp
  moreover have "m (6 + a) = 0x44" "m (7 + a) = 0x24" "m (8 + a) = 0x04"
    using b by (simp_all only: add.commute [of _ a])
  ultimately have "mem_bytes m (a + 5) 4 = [0xC7, 0x44, 0x24, 0x04]"
    by (simp add: mem_bytes_def b)
  moreover have "load_le 4 (a + 5 + 4) m = take_bit (8 * 4) (drop_bit 32 t)"
    using at [of "9 + _"] by (intro load_le_value) (simp_all add: jump_bytes_high [simplified] add.assoc)
  ultimately show ?thesis
    by (simp add: jump_step_def Let_def b)
qed

lemma jump_ret:
  assumes "jump_at m a t" and "\<forall>i<8. m (sp + of_nat i) = ucast (drop_bit (8 * i) v)"
  shows "jump_step \<lparr>jc_ip = a + 13, jc_sp = sp, jc_ram = m\<rparr> = Some \<lparr>jc_ip = v, jc_sp = sp + 8, jc_ram = m\<rparr>"
proof -
  have "m (a + of_nat 13) = jump_bytes t ! 13"
    using assms(1) by (simp only: jump_at_def absolute_jump_size_def)
  then have "m (a + 13) = 0xC3"
    by (simp add: jump_bytes_nth)
  moreover have "load_le 8 sp m = take_bit (8 * 8) v"
    using assms(2) by (intro load_le_value) simp_all
  moreover from calculation have "mem_bytes m (a + 13) 4 \<noteq> [0xC7, 0x44, 0x24, 0x04]"
    using nth_mem_bytes [of 0 4 m "a + 13"] by auto
  ultimately show ?thesis
    by (simp add: jump_step_def Let_def)
qed

lemma slot_bytes:
  assumes "i < 8"
  shows "store_le 4 (sp + 4) (take_bit 32 (drop_bit 32 t)) (store_le 8 sp (sign_extend_32 (take_bit 32 t)) m) (sp + of_nat i) =
    ucast (drop_bit (8 * i) t)"
proof (cases "i < 4")
  case True
  have "unat (of_nat i - 4 :: u64) = 2 ^ 64 + i - 4"
    using True by (simp add: unat_sub_if' unat_of_nat_64)
  then have "\<not> unat (sp + of_nat i - (sp + 4)) < 4"
    by (simp add: algebra_simps)
  then show ?thesis
    using True by (simp add: store_le_outside store_le_inside sign_extend_byte)
next
  case False
  then obtain j where j: "i = 4 + j" "j < 4"
    using assms by (metis add_less_cancel_left le_Suc_ex not_less numeral_Bit0)
  have "sp + of_nat i = sp + 4 + of_nat j" and d: "drop_bit (8 * i) t = drop_bit (8 * j) (drop_bit 32 t)"
    using j(1) by (simp_all add: drop_bit_drop_bit add.commute)
  then show ?thesis
    using j(2) high_half_byte [of j t] by (simp only: d) (simp add: store_le_inside)
qed

lemma run_jump_arrives:
  assumes "jump_at m a t" and "slot_apart a sp"
  shows "\<exists>m'. run_jump \<lparr>jc_ip = a, jc_sp = sp, jc_ram = m\<rparr> = Some \<lparr>jc_ip = t, jc_sp = sp, jc_ram = m'\<rparr> \<and>
    (\<forall>x. 8 \<le> unat (x - (sp - 8)) \<longrightarrow> m' x = m x)"
proof -
  define m1 where "m1 = store_le 8 (sp - 8) (sign_extend_32 (take_bit 32 t)) m"
  define m2 where "m2 = store_le 4 (sp - 8 + 4) (take_bit 32 (drop_bit 32 t)) m1"
  have o1: "\<forall>x. 8 \<le> unat (x - (sp - 8)) \<longrightarrow> m1 x = m x"
    by (simp add: m1_def store_le_outside)
  have "m2 x = m1 x" if "8 \<le> unat (x - (sp - 8))" for x
  proof -
    have "unat (d - 4) = unat d - 4" if "8 \<le> unat d" for d :: u64
      using that by (subst unat_sub) (simp_all add: word_le_nat_alt)
    then have "\<not> unat (x - (sp - 8) - 4) < 4"
      using that by force
    then have "\<not> unat (x - (sp - 8 + 4)) < 4"
      by (simp only: diff_diff_eq not_False_eq_True)
    then show ?thesis
      by (simp add: m2_def store_le_outside)
  qed
  then have o2: "\<forall>x. 8 \<le> unat (x - (sp - 8)) \<longrightarrow> m2 x = m x"
    using o1 by simp
  have slot: "\<forall>i<8. m2 (sp - 8 + of_nat i) = ucast (drop_bit (8 * i) t)"
    using slot_bytes [of _ "sp - 8" t m] by (simp add: m1_def m2_def)
  have "run_jump \<lparr>jc_ip = a, jc_sp = sp, jc_ram = m\<rparr> = Some \<lparr>jc_ip = t, jc_sp = sp, jc_ram = m2\<rparr>"
    using jump_ret [OF jump_at_store [OF assms o2] slot]
    by (simp add: run_jump_def jump_push [OF assms(1), of sp, folded m1_def]
        jump_mov [OF jump_at_store [OF assms o1], of "sp - 8", folded m2_def])
  then show ?thesis
    using o2 by blast
qed

section \<open>The overwritten instructions\<close>

text \<open>A decoder finds instructions of at least one byte that lie in the bytes it is given.\<close>

definition decoder_ok :: "(u64 \<Rightarrow> u64 \<Rightarrow> u64 option) \<Rightarrow> bool" where
  "decoder_ok decode \<longleftrightarrow> (\<forall>a n len. decode a n = Some len \<longrightarrow> 1 \<le> unat len \<and> unat len \<le> unat n)"

lemma overwritten_in_page:
  assumes "decoder_ok decode" and "unat (f AND 0xFFF) + unat n \<le> 4095"
  shows "\<exists>r. overwritten_loop decode f n = Some r \<and>
    (\<forall>k. r = Some k \<longrightarrow> absolute_jump_size \<le> unat k \<and> unat (f AND 0xFFF) + unat k \<le> 4095)"
  using assms(2)
proof (induction "14 - unat n" arbitrary: n rule: less_induct)
  case less
  define off where "off = f AND 0xFFF"
  show ?case
  proof (cases "n < of_nat absolute_jump_size")
    case True
    then have n: "unat n < 14"
      by (simp add: absolute_jump_size_def word_less_nat_alt)
    have sum: "unat (off + n) = unat off + unat n"
      using less.prems by (intro unat_add_no_wrap) (simp add: off_def)
    have "unat (page_size - (off + n) - 1) = 4095 - (unat off + unat n)"
    proof -
      have "page_size - (off + n) - 1 = 4095 - (off + n)"
        by (simp add: page_size_def)
      moreover have "unat (4095 - (off + n)) = 4095 - unat (off + n)"
        using less.prems sum by (subst unat_sub) (simp_all add: off_def word_le_nat_alt)
      ultimately show ?thesis
        using sum by (simp only:)
    qed
    then have room: "unat n + unat len = unat (n + len) \<and> unat off + unat (n + len) \<le> 4095 \<and> unat n < unat (n + len)"
      if "decode (f + n) (page_size - (off + n) - 1) = Some len" for len
    proof -
      have l: "1 \<le> unat len" "unat len \<le> 4095 - (unat off + unat n)"
        using assms(1) that \<open>unat (page_size - (off + n) - 1) = 4095 - (unat off + unat n)\<close> unfolding decoder_ok_def by metis+
      have "unat (n + len) = unat n + unat len"
        using l n by (intro unat_add_no_wrap) simp
      then show ?thesis
        using l less.prems by (simp add: off_def)
    qed
    show ?thesis
    proof (cases "decode (f + n) (page_size - (off + n) - 1)")
      case None
      then show ?thesis
        using True by (simp add: overwritten_loop.simps [of _ _ n] off_def)
    next
      case (Some len)
      have "14 - unat (n + len) < 14 - unat n"
        using room [OF Some] n by linarith
      from less.hyps [OF this] show ?thesis
        using room [OF Some] True Some by (simp add: overwritten_loop.simps [of _ _ n] off_def)
    qed
  next
    case False
    then have "overwritten_loop decode f n = Some (Some n)"
      by (simp add: overwritten_loop.simps [of _ _ n])
    moreover have "absolute_jump_size \<le> unat n"
      using False by (simp add: absolute_jump_size_def not_less word_le_nat_alt)
    ultimately show ?thesis
      using less.prems by simp
  qed
qed

section \<open>The buffers of a hook\<close>

definition holds :: "(u64 \<Rightarrow> u8) \<Rightarrow> u64 \<Rightarrow> u8 list \<Rightarrow> bool" where
  "holds m a bs \<longleftrightarrow> (\<forall>i<length bs. m (a + of_nat i) = bs ! i)"

lemma length_mem_bytes [simp]: "length (mem_bytes m a n) = n"
  by (simp add: mem_bytes_def)

lemma length_write_jmp:
  "off + absolute_jump_size \<le> length b \<Longrightarrow> length (write_absolute_jmp b off a) = length b"
  by (simp add: write_absolute_jmp_def)

lemma write_jmp_inside:
  "off \<le> length b \<Longrightarrow> i < absolute_jump_size \<Longrightarrow> write_absolute_jmp b off a ! (off + i) = jump_bytes a ! i"
  by (simp add: write_absolute_jmp_def nth_append)

lemma write_jmp_outside:
  "off + absolute_jump_size \<le> length b \<Longrightarrow> i < length b \<Longrightarrow> i < off \<or> off + absolute_jump_size \<le> i \<Longrightarrow>
    write_absolute_jmp b off a ! i = b ! i"
  by (auto simp: write_absolute_jmp_def nth_append)

lemma page_base_plus_offset: "(f AND NOT 0xFFF) + (f AND 0xFFF) = f" for f :: u64
proof -
  have "unat (f AND NOT 0xFFF) + unat (f AND 0xFFF) = unat f"
    by (simp only: unat_page_base unat_and_page_mask) simp
  moreover from this have "unat ((f AND NOT 0xFFF) + (f AND 0xFFF)) = unat (f AND NOT 0xFFF) + unat (f AND 0xFFF)"
    by (intro unat_add_no_wrap) (simp only: power_numeral, use unat_less_64 [of f] in simp)
  ultimately have "unat ((f AND NOT 0xFFF) + (f AND 0xFFF)) = unat f"
    by (simp only:)
  then show ?thesis
    by (rule unsigned_word_eqI)
qed

lemma holds_jump:
  assumes "holds m a (write_absolute_jmp b off t)" and "off \<le> length b"
  shows "jump_at m (a + of_nat off) t"
  unfolding jump_at_def
proof (intro allI impI)
  fix i
  assume i: "i < absolute_jump_size"
  then have "off + i < length (write_absolute_jmp b off t)"
    using assms(2) by (simp add: write_absolute_jmp_def)
  then have "m (a + of_nat (off + i)) = write_absolute_jmp b off t ! (off + i)"
    using assms(1) unfolding holds_def by blast
  then show "m (a + of_nat off + of_nat i) = jump_bytes t ! i"
    using write_jmp_inside [OF assms(2) i] by (simp add: add.assoc)
qed

text \<open>What a successful hook has written and requested.\<close>

lemma copy_and_hook_result:
  assumes "hr_success (copy_and_hook E f hook n)"
  shows "\<exists>t p. he_trampoline E = Some t \<and> he_exec_page E = Some p \<and> hr_original (copy_and_hook E f hook n) = Some t \<and>
    hr_trampoline (copy_and_hook E f hook n) = write_absolute_jmp (mem_bytes (he_mem E) f (unat n)) (unat n) (f + n) \<and>
    hr_exec_page (copy_and_hook E f hook n) =
      write_absolute_jmp (mem_bytes (he_mem E) (f AND NOT 0xFFF) 4096) (unat (f AND 0xFFF)) hook \<and>
    hr_requests (copy_and_hook E f hook n) =
      map (\<lambda>i. (i, drop_bit 12 (he_physical E f), drop_bit 12 (he_physical E p))) [0..<he_cpus E] \<and>
    (\<forall>i<he_cpus E. he_vmcall E i (drop_bit 12 (he_physical E f)) (drop_bit 12 (he_physical E p)) \<noteq> 0)"
  using assms
  by (auto simp: copy_and_hook_def Let_def hook_failed_def page_size_def split: if_splits option.splits)

lemma ept_hook_success:
  assumes "ept_hook_function E f hook = Some r" and "hr_success r" and "decoder_ok (he_decode E)"
  obtains n where "r = copy_and_hook E f hook n" "absolute_jump_size \<le> unat n" "unat (f AND 0xFFF) + unat n \<le> 4095"
proof -
  have "unat (f AND 0xFFF) + unat (0 :: u64) \<le> 4095"
    using unat_and_page_mask [of f] by simp
  from overwritten_in_page [OF assms(3) this] obtain x where x: "overwritten_loop (he_decode E) f 0 = Some x"
    "\<And>k. x = Some k \<Longrightarrow> absolute_jump_size \<le> unat k \<and> unat (f AND 0xFFF) + unat k \<le> 4095"
    by blast
  have "\<not> hr_success hook_failed"
    by (simp add: hook_failed_def)
  with assms(1,2) x(1) obtain n where "x = Some n" "r = copy_and_hook E f hook n"
    by (cases x) (auto simp: ept_hook_function_def split: if_splits)
  then show ?thesis
    using x(2) that by blast
qed

section \<open>Names\<close>

lemma names_match_spec:
  assumes "NUL \<in> set a" and "NUL \<in> set b"
  shows "names_match_nocase a b = Some (map lower_ascii (array_string a) = map lower_ascii (array_string b))"
  using assms
  by (induction a b rule: names_match_nocase.induct) (auto simp: array_string_def)

lemma terminated_string: "NUL \<notin> set s \<Longrightarrow> array_string (s @ NUL # r) = s"
  by (induction s) (auto simp: array_string_def)

lemma separator_index_spec:
  assumes "n \<le> length s"
  shows "-1 \<le> separator_index s n \<and> separator_index s n < int n \<and>
    (separator_index s n \<noteq> -1 \<longrightarrow> s ! nat (separator_index s n) = CHR 0x5C) \<and>
    (\<forall>i<n. separator_index s n < int i \<longrightarrow> s ! i \<noteq> CHR 0x5C)"
  using assms by (induction n) (auto simp: less_Suc_eq)

lemma basename_spec:
  "CHR 0x5C \<notin> set (basename_of s)" "\<exists>path. s = path @ basename_of s \<and> (path = [] \<or> last path = CHR 0x5C)"
proof -
  define k where "k = separator_index s (length s)"
  note k = separator_index_spec [OF order_refl, of s, folded k_def]
  define j where "j = nat (k + 1)"
  have j: "j \<le> length s"
    using k unfolding j_def by linarith
  have b: "basename_of s = drop j s"
    by (simp add: basename_of_def j_def k_def)
  show "CHR 0x5C \<notin> set (basename_of s)"
  proof
    assume "CHR 0x5C \<in> set (basename_of s)"
    then obtain i where "i < length s - j" "s ! (j + i) = CHR 0x5C"
      unfolding b in_set_conv_nth by auto
    then show False
      using k by (auto simp: j_def)
  qed
  have "take j s = [] \<or> last (take j s) = CHR 0x5C"
  proof (cases "k = -1")
    case False
    then have "j = Suc (nat k)" and "nat k < length s"
      using k unfolding j_def by linarith+
    then show ?thesis
      using k False by (simp add: take_Suc_conv_app_nth)
  qed (simp add: j_def)
  then show "\<exists>path. s = path @ basename_of s \<and> (path = [] \<or> last path = CHR 0x5C)"
    unfolding b by (intro exI [of _ "take j s"]) simp
qed

section \<open>Traces started by loads\<close>

text \<open>A call that has succeeded, with a name that can be handled.\<close>

definition load_counts :: "image_load \<Rightarrow> bool" where
  "load_counts ld \<longleftrightarrow> \<not> sint (il_status ld) < 0 \<and>
     (case il_ansi_name ld of None \<Rightarrow> False | Some name \<Rightarrow> length name \<le> max_image_name)"

definition load_hits :: "onload_target_state \<Rightarrow> image_load \<Rightarrow> bool" where
  "load_hits t ld \<longleftrightarrow> load_counts ld \<and> onload_matches t (the (il_ansi_name ld))"

lemma hk_load_cases:
  assumes "il_base_pointer ld \<noteq> 0"
  shows "hk_mm_load_system_image L km cpus vmcall ld t =
    Some (il_status ld,
      if load_hits t ld then (t\<lparr>ol_active := False\<rparr>, start_onload_trace L km cpus vmcall (il_base ld)) else (t, None))"
  using assms
  by (auto simp: hk_mm_load_system_image_def load_hits_def load_counts_def Let_def split: option.splits)

lemma run_loads_idle:
  assumes "\<forall>ld\<in>set lds. il_base_pointer ld \<noteq> 0 \<and> \<not> load_hits t ld"
  shows "run_loads L km cpus vmcall lds t = Some (t, [])"
  using assms by (induction lds) (simp_all add: hk_load_cases)

lemma inactive_no_hit: "\<not> ol_active t \<Longrightarrow> \<not> load_hits t ld"
  by (simp add: load_hits_def onload_matches_def)

lemma run_loads_first_hit:
  assumes "\<forall>ld\<in>set lds. il_base_pointer ld \<noteq> 0"
  shows "run_loads L km cpus vmcall lds t =
    (case filter (load_hits t) lds of
       [] \<Rightarrow> Some (t, [])
     | ld # _ \<Rightarrow> Some (t\<lparr>ol_active := False\<rparr>,
         case start_onload_trace L km cpus vmcall (il_base ld) of None \<Rightarrow> [] | Some s \<Rightarrow> [s]))"
  using assms
proof (induction lds)
  case (Cons ld lds)
  have "run_loads L km cpus vmcall lds (t\<lparr>ol_active := False\<rparr>) = Some (t\<lparr>ol_active := False\<rparr>, [])"
    using Cons.prems by (intro run_loads_idle) (simp add: inactive_no_hit)
  then show ?case
    using Cons by (auto simp: hk_load_cases split: list.splits option.splits)
qed simp

section \<open>Properties\<close>

text \<open>
  C31. A hook that reports success detours the function: the shadow page the processor executes differs from
  the page of the function only in the jump, which lies in the page and leads to the handler; the original
  function starts with the instructions overwritten, unchanged, and continues behind them. Both jumps keep
  the stack pointer and write only the eight bytes below it. All cores were asked for the same pages.
\<close>

theorem hook_detours:
  assumes "decoder_ok (he_decode E)" and "ept_hook_function E f hook = Some r" and "hr_success r"
  shows "\<exists>n t p. 14 \<le> unat n \<and> unat (f AND 0xFFF) + unat n \<le> 4095 \<and> hr_original r = Some t \<and> he_exec_page E = Some p \<and>
    take (unat n) (hr_trampoline r) = mem_bytes (he_mem E) f (unat n) \<and>
    (\<forall>i<4096. i < unat (f AND 0xFFF) \<or> unat (f AND 0xFFF) + 14 \<le> i \<longrightarrow>
       hr_exec_page r ! i = he_mem E ((f AND NOT 0xFFF) + of_nat i)) \<and>
    hr_requests r = map (\<lambda>i. (i, drop_bit 12 (he_physical E f), drop_bit 12 (he_physical E p))) [0..<he_cpus E] \<and>
    (\<forall>m sp. holds m (f AND NOT 0xFFF) (hr_exec_page r) \<and> slot_apart f sp \<longrightarrow>
       (\<exists>m'. run_jump \<lparr>jc_ip = f, jc_sp = sp, jc_ram = m\<rparr> = Some \<lparr>jc_ip = hook, jc_sp = sp, jc_ram = m'\<rparr> \<and>
          (\<forall>x. 8 \<le> unat (x - (sp - 8)) \<longrightarrow> m' x = m x))) \<and>
    (\<forall>m sp. holds m t (hr_trampoline r) \<and> slot_apart (t + n) sp \<longrightarrow>
       (\<exists>m'. run_jump \<lparr>jc_ip = t + n, jc_sp = sp, jc_ram = m\<rparr> = Some \<lparr>jc_ip = f + n, jc_sp = sp, jc_ram = m'\<rparr> \<and>
          (\<forall>x. 8 \<le> unat (x - (sp - 8)) \<longrightarrow> m' x = m x)))"
proof -
  obtain n where n: "r = copy_and_hook E f hook n" "absolute_jump_size \<le> unat n" "unat (f AND 0xFFF) + unat n \<le> 4095"
    using ept_hook_success [OF assms(2,3,1)] .
  obtain t p where tp: "he_exec_page E = Some p" "hr_original r = Some t"
    "hr_trampoline r = write_absolute_jmp (mem_bytes (he_mem E) f (unat n)) (unat n) (f + n)"
    "hr_exec_page r = write_absolute_jmp (mem_bytes (he_mem E) (f AND NOT 0xFFF) 4096) (unat (f AND 0xFFF)) hook"
    "hr_requests r = map (\<lambda>i. (i, drop_bit 12 (he_physical E f), drop_bit 12 (he_physical E p))) [0..<he_cpus E]"
    using copy_and_hook_result assms(3) unfolding n(1) by blast
  have f: "(f AND NOT 0xFFF) + of_nat (unat (f AND 0xFFF)) = f"
    by (simp only: of_nat_unat ucast_id page_base_plus_offset)
  have exec: "jump_at m f hook" if "holds m (f AND NOT 0xFFF) (hr_exec_page r)" for m
    using holds_jump [OF that [unfolded tp(4)]] n(3) unfolding f by simp
  have tramp: "jump_at m (t + n) (f + n)" if "holds m t (hr_trampoline r)" for m
    using holds_jump [OF that [unfolded tp(3)]] by simp
  have same: "hr_exec_page r ! i = he_mem E ((f AND NOT 0xFFF) + of_nat i)"
    if "i < 4096" and "i < unat (f AND 0xFFF) \<or> unat (f AND 0xFFF) + 14 \<le> i" for i
    using write_jmp_outside [of "unat (f AND 0xFFF)" "mem_bytes (he_mem E) (f AND NOT 0xFFF) 4096" i hook] that n(2,3)
    by (simp only: tp(4) length_mem_bytes nth_mem_bytes absolute_jump_size_def)
  have "take (unat n) (hr_trampoline r) = mem_bytes (he_mem E) f (unat n)"
    by (simp add: tp(3) write_absolute_jmp_def)
  then show ?thesis
    using n(2,3) tp(1,2,5) same run_jump_arrives [OF exec] run_jump_arrives [OF tramp]
    unfolding absolute_jump_size_def by (intro exI [of _ n] exI [of _ t] exI [of _ p]) blast
qed

definition demo_hook_env :: hook_env where
  "demo_hook_env = \<lparr>he_irql = 0, he_decoder_ready = True, he_decode = (\<lambda>a n. if 5 \<le> n then Some 5 else None), he_mem = (\<lambda>a. ucast a),
     he_trampoline = Some 0x8000, he_exec_page = Some 0xA000, he_physical = id, he_cpus = 2, he_vmcall = (\<lambda>i a b. 1)\<rparr>"

lemma demo_hook:
  "ept_hook_function demo_hook_env 0x5010 0x9000 = Some (copy_and_hook demo_hook_env 0x5010 0x9000 15)"
  "hr_success (copy_and_hook demo_hook_env 0x5010 0x9000 15)"
  by (simp_all add: ept_hook_function_def demo_hook_env_def overwritten_loop.simps copy_and_hook_def Let_def page_size_def absolute_jump_size_def)

lemma hook_detours_witness:
  "hr_success (the (ept_hook_function demo_hook_env 0x5010 0x9000)) \<and>
   (\<exists>n :: u64. 14 \<le> unat n \<and> take (unat n) (hr_trampoline (the (ept_hook_function demo_hook_env 0x5010 0x9000))) = mem_bytes (he_mem demo_hook_env) 0x5010 (unat n))"
proof -
  have "decoder_ok (he_decode demo_hook_env)"
    by (simp add: decoder_ok_def demo_hook_env_def word_le_nat_alt)
  from hook_detours [OF this demo_hook]
  have "\<exists>n :: u64. 14 \<le> unat n \<and> take (unat n) (hr_trampoline (copy_and_hook demo_hook_env 0x5010 0x9000 15)) =
      mem_bytes (he_mem demo_hook_env) 0x5010 (unat n)"
    by (elim exE conjE) blast
  then show ?thesis
    using demo_hook(2) by (simp only: demo_hook(1) option.sel simp_thms)
qed

text \<open>
  C32. With a driver awaited, the loads of a system start a trace exactly once: for the first load that
  succeeds, has a name that can be handled and a file name equal to the awaited one but for the case of its
  letters. From then on the hook is inactive; without such a load it stays armed. The hook returns what the
  loader returned.
\<close>

theorem onload_starts_once:
  assumes "\<forall>ld\<in>set lds. il_base_pointer ld \<noteq> 0" and "ol_active t" and "NUL \<in> set (ol_name t)"
    and "\<forall>ld\<in>set lds. \<forall>s. il_ansi_name ld = Some s \<longrightarrow> NUL \<notin> set s \<and> length s \<noteq> max_image_name"
  shows "run_loads L km cpus vmcall lds t =
    (case filter (\<lambda>ld. load_counts ld \<and>
        map lower_ascii (basename_of (the (il_ansi_name ld))) = map lower_ascii (array_string (ol_name t))) lds of
       [] \<Rightarrow> Some (t, [])
     | ld # _ \<Rightarrow> Some (t\<lparr>ol_active := False\<rparr>,
         case start_onload_trace L km cpus vmcall (il_base ld) of None \<Rightarrow> [] | Some s \<Rightarrow> [s]))"
proof -
  have "load_hits t ld \<longleftrightarrow> load_counts ld \<and>
      map lower_ascii (basename_of (the (il_ansi_name ld))) = map lower_ascii (array_string (ol_name t))"
    if "ld \<in> set lds" for ld
  proof (cases "load_counts ld")
    case True
    then obtain s where s: "il_ansi_name ld = Some s" "length s \<le> max_image_name"
      by (auto simp: load_counts_def split: option.splits)
    have "length (basename_of s) < max_image_name" and no: "NUL \<notin> set (basename_of s)"
      using s assms(4) that set_drop_subset [of _ s] by (fastforce simp: basename_of_def)+
    then obtain k where "max_image_name - length (basename_of s) = Suc k"
      by (metis Suc_diff_Suc)
    then have "image_name_array s = basename_of s @ NUL # padding k"
      by (simp add: image_name_array_def padding_def)
    then have arr: "NUL \<in> set (image_name_array s)" "array_string (image_name_array s) = basename_of s"
      using terminated_string [OF no] by simp_all
    then show ?thesis
      using True s(1) assms(2) names_match_spec [OF arr(1) assms(3)] by (simp add: load_hits_def onload_matches_def)
  qed (simp add: load_hits_def)
  then show ?thesis
    using run_loads_first_hit [OF assms(1)] by (simp cong: filter_cong)
qed

definition demo_load :: "string \<Rightarrow> u64 \<Rightarrow> image_load" where
  "demo_load name base = \<lparr>il_status = 0, il_ansi_name = Some name, il_base_pointer = 0x900, il_base = base\<rparr>"

definition demo_target :: onload_target_state where
  "demo_target = \<lparr>ol_active = True, ol_name = ''d.sys'' @ [NUL]\<rparr>"

definition demo_kernel :: "u64 \<Rightarrow> nat \<Rightarrow> string" where
  "demo_kernel a n = take n (drop (unat (a - 0x10000)) small_file)"

lemma demo_image_size: "get_image_size small_layout demo_kernel 0x10000 = 64"
  by (simp add: get_image_size_def demo_kernel_def small_layout_def u16_at_def u32_at_def member_at_def small_file_def
      IMAGE_DOS_SIGNATURE_def IMAGE_NT_SIGNATURE_def)

lemma demo_names: "map lower_ascii (basename_of ''e.sys'') = ''e.sys''"
  "map lower_ascii (basename_of (CHR 0x5C # ''D.SYS'')) = ''d.sys''"
  "map lower_ascii (array_string (ol_name demo_target)) = ''d.sys''"
  by code_simp+

lemma onload_starts_once_witness:
  "run_loads small_layout demo_kernel 2 (\<lambda>i a b. 1)
     [demo_load ''e.sys'' 0x20000, demo_load (CHR 0x5C # ''D.SYS'') 0x10000, demo_load ''D.SYS'' 0x30000] demo_target =
   Some (demo_target\<lparr>ol_active := False\<rparr>, [(0x10000, 64, True)])"
proof -
  let ?lds = "[demo_load ''e.sys'' 0x20000, demo_load (CHR 0x5C # ''D.SYS'') 0x10000, demo_load ''D.SYS'' 0x30000]"
  have *: "\<forall>ld\<in>set ?lds. il_base_pointer ld \<noteq> 0" "ol_active demo_target" "NUL \<in> set (ol_name demo_target)"
    "\<forall>ld\<in>set ?lds. \<forall>s. il_ansi_name ld = Some s \<longrightarrow> NUL \<notin> set s \<and> length s \<noteq> max_image_name"
    by (simp_all add: demo_load_def demo_target_def max_image_name_def NUL_def)
  have c: "load_counts (demo_load ''e.sys'' b)" "load_counts (demo_load (CHR 0x5C # ''D.SYS'') b)" "load_counts (demo_load ''D.SYS'' b)" for b
    by (simp_all add: demo_load_def load_counts_def max_image_name_def)
  have n: "il_ansi_name (demo_load s b) = Some s" "il_base (demo_load s b) = b" for s b
    by (simp_all add: demo_load_def)
  show ?thesis
    by (subst onload_starts_once [OF *]) (simp add: c n demo_names start_onload_trace_def demo_image_size)
qed

end
