(* ===== verification/Symbols.thy ===== *)
theory Symbols
  imports Pe_Inv
begin

text \<open>
  Names for addresses (\<open>revhv-um/kmodules.cpp\<close>, \<open>to_hexstr\<close> of \<open>utils.hpp\<close> and the resolver of
  \<open>trace_parser.hpp\<close>): the module list and the cache of parsed images, \<open>resolve_address\<close>, which turns an
  address into module, symbol and offset, and \<open>resolve_symbol\<close>, which reads such a name. The system call
  that lists the modules, opening files and the locks are left out.
\<close>

section \<open>Hexadecimal numbers\<close>

definition hex_digit :: "nat \<Rightarrow> char" where
  "hex_digit d = ''0123456789abcdef'' ! d"

fun hex_digits :: "nat \<Rightarrow> string" where
  "hex_digits n = (if n < 16 then [hex_digit n] else hex_digits (n div 16) @ [hex_digit (n mod 16)])"

declare hex_digits.simps [simp del]

definition to_hexstr :: "u64 \<Rightarrow> string" where "to_hexstr a = hex_digits (unat a)"

definition hex_value_of :: "char \<Rightarrow> nat option" where
  "hex_value_of c =
     (let n = of_char c :: nat in
      if 48 \<le> n \<and> n \<le> 57 then Some (n - 48) else if 97 \<le> n \<and> n \<le> 102 then Some (n - 87)
      else if 65 \<le> n \<and> n \<le> 70 then Some (n - 55) else None)"

definition is_hex :: "char \<Rightarrow> bool" where "is_hex c \<longleftrightarrow> hex_value_of c \<noteq> None"

definition hex_value :: "string \<Rightarrow> nat" where
  "hex_value s = foldl (\<lambda>v c. 16 * v + the (hex_value_of c)) 0 s"

definition is_space :: "char \<Rightarrow> bool" where
  "is_space c \<longleftrightarrow> c \<in> set [CHR '' '', CHR 0x09, CHR 0x0A, CHR 0x0B, CHR 0x0C, CHR 0x0D]"

text \<open>
  \<open>std::stoull\<close> with base 16: white space, a sign and a prefix are skipped, what follows the digits is
  ignored; None is one of its exceptions.
\<close>

definition strip_prefix :: "string \<Rightarrow> string" where
  "strip_prefix s = (case s of z # x # d # r \<Rightarrow> if z = CHR ''0'' \<and> (x = CHR ''x'' \<or> x = CHR ''X'') \<and> is_hex d then d # r else s | _ \<Rightarrow> s)"

definition strip_sign :: "string \<Rightarrow> bool \<times> string" where
  "strip_sign s = (case s of [] \<Rightarrow> (False, []) | c # r \<Rightarrow> if c = CHR ''-'' then (True, r) else if c = CHR ''+'' then (False, r) else (False, s))"

definition stoull_16 :: "string \<Rightarrow> u64 option" where
  "stoull_16 s =
     (let (negative, r) = strip_sign (dropWhile is_space s); digits = takeWhile is_hex (strip_prefix r); v = hex_value digits in
      if digits = [] then None else if v \<ge> 2 ^ 64 then None else Some (if negative then - of_nat v else of_nat v))"

definition parse_hex_offset :: "string \<Rightarrow> u64 option" where
  "parse_hex_offset s = (if s = [] then None else stoull_16 s)"

section \<open>The module list\<close>

text \<open>What the system reports of a module.\<close>

record system_module =
  sm_base :: u64
  sm_size :: u32
  sm_file_name :: string
  sm_full_path :: string

definition starts_with :: "string \<Rightarrow> string \<Rightarrow> bool" where
  "starts_with p s \<longleftrightarrow> take (length p) s = p"

definition real_path :: "string \<Rightarrow> string \<Rightarrow> string" where
  "real_path system_root p =
     (if starts_with (CHR 0x5C # ''SystemRoot'' @ [CHR 0x5C]) p then system_root @ drop 11 p else p)"

text \<open>Erasing from the last dot; a name without one is an exception.\<close>

definition strip_extension :: "string \<Rightarrow> string option" where
  "strip_extension s =
     (if CHR ''.'' \<in> set s then Some (rev (tl (dropWhile (\<lambda>c. c \<noteq> CHR ''.'') (rev s)))) else None)"

fun module_list :: "string \<Rightarrow> system_module list \<Rightarrow> kmodule list option" where
  "module_list system_root [] = Some []"
| "module_list system_root (m # ms) =
     (case strip_extension (sm_file_name m) of None \<Rightarrow> None
      | Some name \<Rightarrow>
          map_option (Cons \<lparr>m_base = sm_base m, m_size = ucast (sm_size m), m_name = name, m_path = real_path system_root (sm_full_path m)\<rparr>)
            (module_list system_root ms))"

record cached_pe =
  cp_base :: u64
  cp_size :: u64
  cp_state :: pe_state

type_synonym pe_cache = "string \<Rightarrow> cached_pe option"

record modules =
  mo_list :: "kmodule list"
  mo_cache :: pe_cache

definition get_module_by_name :: "kmodule list \<Rightarrow> string \<Rightarrow> kmodule option" where
  "get_module_by_name ms name = find (\<lambda>m. m_name m = name) ms"

text \<open>A cached image stays if the first module of its name has its base and size.\<close>

definition evict_stale :: "kmodule list \<Rightarrow> pe_cache \<Rightarrow> pe_cache" where
  "evict_stale ms c =
     (\<lambda>name. case c name of None \<Rightarrow> None
      | Some p \<Rightarrow> (case get_module_by_name ms name of None \<Rightarrow> None
          | Some m \<Rightarrow> if m_base m \<noteq> cp_base p \<or> m_size m \<noteq> cp_size p then None else Some p))"

text \<open>\<open>reported\<close> is None if the system call fails; the result is None for an exception.\<close>

definition refresh :: "string \<Rightarrow> system_module list option \<Rightarrow> modules \<Rightarrow> modules option" where
  "refresh system_root reported mo =
     (case reported of None \<Rightarrow> Some mo
      | Some ms \<Rightarrow> map_option (\<lambda>l. \<lparr>mo_list = l, mo_cache = evict_stale l (mo_cache mo)\<rparr>) (module_list system_root ms))"

section \<open>Parsed images\<close>

text \<open>
  Whether the hypervisor is present, the reader of live memory, opening a file (the address of the view and
  its bytes), the memory outside a view, what the quick parse yields if it leaves the view, and the
  parameters of the parser.
\<close>

record image_env =
  ie_present :: bool
  ie_layout :: pe_layout
  ie_live :: reader
  ie_open :: "string \<Rightarrow> (u64 \<times> string) option"
  ie_outside :: reader
  ie_stray :: "u32 \<times> section_mapping list"
  ie_file_name :: "string \<Rightarrow> string"
  ie_symbols_of :: "codeview_info \<Rightarrow> symbol_info list option"

definition parse_from_disk :: "image_env \<Rightarrow> string \<Rightarrow> u64 \<Rightarrow> cached_pe option" where
  "parse_from_disk E path image_base =
     (case ie_open E path of None \<Rightarrow> None
      | Some (view, file) \<Rightarrow>
          (let (v, sz, hdr, ss) = (case from_file (ie_layout E) file view image_base of
                 Some x \<Rightarrow> x
               | None \<Rightarrow> (if image_base \<noteq> 0 then image_base else view, of_nat (length file), ie_stray E));
               p = parse_pe (ie_layout E) (file_reader file v hdr ss (ie_outside E)) (ie_file_name E) (ie_symbols_of E) v sz unparsed
           in if pe_valid p then Some \<lparr>cp_base = v, cp_size = sz, cp_state = p\<rparr> else None))"

definition if_valid :: "pe_state \<Rightarrow> pe_state option" where
  "if_valid p = (if pe_valid p then Some p else None)"

definition ensure_parsed :: "image_env \<Rightarrow> pe_cache \<Rightarrow> kmodule \<Rightarrow> pe_state option \<times> pe_cache" where
  "ensure_parsed E c m =
     (case c (m_name m) of
        Some p \<Rightarrow> (if_valid (cp_state p), c)
      | None \<Rightarrow>
          if ie_present E
          then let p = parse_pe (ie_layout E) (ie_live E) (ie_file_name E) (ie_symbols_of E) (m_base m) (m_size m) unparsed
               in (if_valid p, c(m_name m \<mapsto> \<lparr>cp_base = m_base m, cp_size = m_size m, cp_state = p\<rparr>))
          else case parse_from_disk E (m_path m) (m_base m) of
              None \<Rightarrow> (None, c)
            | Some p \<Rightarrow> (Some (cp_state p), c(m_name m \<mapsto> p)))"

section \<open>From addresses to names\<close>

definition in_module :: "u64 \<Rightarrow> kmodule \<Rightarrow> bool" where
  "in_module a m \<longleftrightarrow> \<not> (a < m_base m \<or> a \<ge> m_base m + m_size m)"

definition section_of :: "pe_state \<Rightarrow> u64 \<Rightarrow> pe_section option" where
  "section_of p rva = find (\<lambda>s. rva \<ge> sect_rva s \<and> rva < sect_rva s + sect_size s) (pe_sections p)"

definition section_suffix :: "string \<Rightarrow> pe_state \<Rightarrow> u64 \<Rightarrow> string" where
  "section_suffix name p rva =
     (case section_of p rva of None \<Rightarrow> []
      | Some s \<Rightarrow> name @ '':'' @ sect_name s @ ''+'' @ to_hexstr (rva - sect_rva s))"

definition append_section :: "string \<Rightarrow> pe_state \<Rightarrow> u64 \<Rightarrow> string \<Rightarrow> string" where
  "append_section name p rva result =
     (let s = section_suffix name p rva in if s \<noteq> [] then result @ '' | '' @ s else result)"

definition resolve_in_module :: "string \<Rightarrow> pe_state option \<Rightarrow> u64 \<Rightarrow> string" where
  "resolve_in_module name parsed rva =
     (case parsed of None \<Rightarrow> name @ ''+'' @ to_hexstr rva
      | Some p \<Rightarrow>
          (case get_closest_symbol (pe_symbols p) rva of
             None \<Rightarrow> append_section name p rva (name @ ''+'' @ to_hexstr rva)
           | Some sy \<Rightarrow>
               let off = rva - sym_rva sy in
               if off = 0 then append_section name p rva (name @ ''!'' @ sym_name sy)
               else append_section name p rva (name @ ''!'' @ sym_name sy @ ''+'' @ to_hexstr off)))"

definition resolve_address :: "image_env \<Rightarrow> modules \<Rightarrow> u64 \<Rightarrow> string \<times> modules" where
  "resolve_address E mo a =
     (case find (in_module a) (mo_list mo) of None \<Rightarrow> (to_hexstr a, mo)
      | Some m \<Rightarrow>
          let rva = a - m_base m in
          if rva = 0 then (m_name m, mo)
          else let (parsed, c) = ensure_parsed E (mo_cache mo) m in (resolve_in_module (m_name m) parsed rva, mo\<lparr>mo_cache := c\<rparr>))"

section \<open>From names to addresses\<close>

definition tolower :: "char \<Rightarrow> char" where
  "tolower c = (let n = of_char c :: nat in if 65 \<le> n \<and> n \<le> 90 then char_of (n + 32) else c)"

definition known_exts :: "string list" where "known_exts = [''.sys'', ''.dll'', ''.exe'']"

definition strip_known_extension :: "string \<Rightarrow> string" where
  "strip_known_extension s =
     (case find (\<lambda>e. length s > length e \<and> map tolower (drop (length s - length e) s) = e) known_exts of
        None \<Rightarrow> s | Some e \<Rightarrow> take (length s - length e) s)"

definition module_alias :: "string \<Rightarrow> string" where
  "module_alias s = (if s = ''nt'' then ''ntoskrnl'' else s)"

definition is_separator :: "char \<Rightarrow> bool" where
  "is_separator c \<longleftrightarrow> c \<in> {CHR ''!'', CHR '':'', CHR ''+''}"

definition strip_dot :: "string \<Rightarrow> string" where
  "strip_dot s = (case s of [] \<Rightarrow> [] | c # r \<Rightarrow> if c = CHR ''.'' then r else s)"

text \<open>The name and the optional offset behind it, zero if there is none; None is an offset that is no number.\<close>

definition split_trailing_offset :: "string \<Rightarrow> (string \<times> u64) option" where
  "split_trailing_offset rest =
     (if CHR ''+'' \<in> set rest
      then map_option (Pair (takeWhile (\<lambda>c. c \<noteq> CHR ''+'') rest)) (parse_hex_offset (tl (dropWhile (\<lambda>c. c \<noteq> CHR ''+'') rest)))
      else Some (rest, 0))"

definition lookup_in_image :: "char \<Rightarrow> pe_state \<Rightarrow> string \<Rightarrow> u64 option" where
  "lookup_in_image sep p name_part =
     (if sep = CHR '':''
      then map_option sect_rva (find (\<lambda>s. strip_dot (sect_name s) = strip_dot name_part) (pe_sections p))
      else map_option sym_rva (find (\<lambda>sy. sym_name sy = name_part) (pe_symbols p)))"

definition resolve_symbol :: "image_env \<Rightarrow> modules \<Rightarrow> string \<Rightarrow> u64 option \<times> modules" where
  "resolve_symbol E mo s =
     (if s = [] then (None, mo)
      else case get_module_by_name (mo_list mo)
          (module_alias (strip_known_extension (takeWhile (\<lambda>c. \<not> is_separator c) s))) of None \<Rightarrow> (None, mo)
      | Some m \<Rightarrow>
          (case dropWhile (\<lambda>c. \<not> is_separator c) s of [] \<Rightarrow> (Some (m_base m), mo)
           | sep # rest \<Rightarrow>
               if sep = CHR ''+'' then (map_option (\<lambda>off. m_base m + off) (parse_hex_offset rest), mo)
               else (case split_trailing_offset rest of None \<Rightarrow> (None, mo)
                | Some (name_part, off) \<Rightarrow>
                    (let (parsed, c) = ensure_parsed E (mo_cache mo) m in
                     (case parsed of None \<Rightarrow> None
                      | Some p \<Rightarrow> map_option (\<lambda>rva. m_base m + rva + off) (lookup_in_image sep p name_part), mo\<lparr>mo_cache := c\<rparr>)))))"

section \<open>Numbers read back\<close>

lemma hex_digit_value: "d < 16 \<Longrightarrow> hex_value_of (hex_digit d) = Some d"
proof -
  assume "d < 16"
  moreover have "\<forall>d\<in>set [0..<16]. hex_value_of (hex_digit d) = Some d"
    by code_simp
  ultimately show ?thesis
    by simp
qed

lemma hex_digits_props:
  "hex_digits n \<noteq> [] \<and> (\<forall>c\<in>set (hex_digits n). is_hex c) \<and> hex_value (hex_digits n) = n"
proof (induction n rule: hex_digits.induct)
  case (1 n)
  then show ?case
    by (cases "n < 16") (auto simp: hex_digits.simps [of n] is_hex_def hex_digit_value hex_value_def)
qed

lemmas hex_digits_nonempty [simp] = hex_digits_props [THEN conjunct1]
lemmas hex_digits_hex = hex_digits_props [THEN conjunct2, THEN conjunct1]
lemmas hex_value_digits [simp] = hex_digits_props [THEN conjunct2, THEN conjunct2]

lemma not_hex [simp]:
  "\<not> is_hex CHR '' ''" "\<not> is_hex CHR ''+''" "\<not> is_hex CHR ''-''" "\<not> is_hex CHR ''x''" "\<not> is_hex CHR ''X''"
  "\<not> is_hex CHR 0x09" "\<not> is_hex CHR 0x0A" "\<not> is_hex CHR 0x0B" "\<not> is_hex CHR 0x0C" "\<not> is_hex CHR 0x0D"
  "\<not> is_hex CHR ''!''" "\<not> is_hex CHR '':''"
  by code_simp+

lemma hex_not_special:
  "is_hex c \<Longrightarrow> \<not> is_space c" "is_hex c \<Longrightarrow> c \<noteq> CHR ''+''" "is_hex c \<Longrightarrow> c \<noteq> CHR ''-''" "is_hex c \<Longrightarrow> c \<noteq> CHR ''x'' \<and> c \<noteq> CHR ''X''"
  "is_hex c \<Longrightarrow> \<not> is_separator c"
  by (auto simp: is_space_def is_separator_def)

text \<open>The digits are followed by the end or by a blank.\<close>

definition number_ends :: "string \<Rightarrow> bool" where
  "number_ends t \<longleftrightarrow> (case t of [] \<Rightarrow> True | c # _ \<Rightarrow> c = CHR '' '')"

lemma strip_prefix_digits:
  assumes "\<forall>c\<in>set ds. is_hex c" and "ds \<noteq> []" and "number_ends t"
  shows "strip_prefix (ds @ t) = ds @ t"
proof (cases ds)
  case (Cons z r)
  then have "\<forall>x r'. r @ t = x # r' \<longrightarrow> x \<noteq> CHR ''x'' \<and> x \<noteq> CHR ''X''"
    using assms hex_not_special(4) by (cases r) (auto simp: number_ends_def split: list.splits)
  then show ?thesis
    using Cons by (auto simp: strip_prefix_def split: list.splits)
qed (use assms in simp)

lemma stoull_digits:
  assumes "n < 2 ^ 64" and "number_ends t"
  shows "stoull_16 (hex_digits n @ t) = Some (of_nat n)"
proof -
  obtain z r where z: "hex_digits n = z # r" "is_hex z"
    using hex_digits_props [of n] by (cases "hex_digits n") auto
  have "strip_sign (dropWhile is_space (hex_digits n @ t)) = (False, hex_digits n @ t)"
    using z hex_not_special [of z] by (simp add: strip_sign_def)
  moreover have "strip_prefix (hex_digits n @ t) = hex_digits n @ t"
    using hex_digits_props [of n] assms(2) by (intro strip_prefix_digits) simp_all
  moreover have "takeWhile is_hex (hex_digits n @ t) = hex_digits n"
    using hex_digits_props [of n] assms(2) by (auto simp: takeWhile_append number_ends_def split: list.splits)
  ultimately show ?thesis
    using assms(1) by (simp add: stoull_16_def Let_def)
qed

lemma parse_hexstr: "number_ends t \<Longrightarrow> parse_hex_offset (to_hexstr a @ t) = Some a"
  using stoull_digits [of "unat a" t] by (simp add: parse_hex_offset_def to_hexstr_def)

section \<open>Names read back\<close>

text \<open>A module name that is read back as itself, an image whose names are read back.\<close>

definition plain_name :: "string \<Rightarrow> bool" where
  "plain_name n \<longleftrightarrow> n \<noteq> [] \<and> (\<forall>c\<in>set n. \<not> is_separator c) \<and> strip_known_extension n = n \<and> n \<noteq> ''nt''"

definition plain_image :: "pe_state \<Rightarrow> bool" where
  "plain_image p \<longleftrightarrow> distinct (map sym_name (pe_symbols p)) \<and>
     (\<forall>sy\<in>set (pe_symbols p). CHR ''+'' \<notin> set (sym_name sy) \<and> CHR '' '' \<notin> set (sym_name sy)) \<and>
     (\<forall>s\<in>set (pe_sections p). CHR ''+'' \<notin> set (sect_name s))"

definition exact_symbol :: "pe_state \<Rightarrow> u64 \<Rightarrow> bool" where
  "exact_symbol p rva \<longleftrightarrow> (case get_closest_symbol (pe_symbols p) rva of None \<Rightarrow> False | Some sy \<Rightarrow> sym_rva sy = rva)"

lemma ensure_parsed_again:
  "ensure_parsed E c m = (r, c') \<Longrightarrow> ensure_parsed E c' m = (r, c')"
  by (auto simp: ensure_parsed_def Let_def if_valid_def parse_from_disk_def split: option.splits if_splits prod.splits)

lemma span_separator:
  assumes "plain_name n" and "is_separator sep"
  shows "takeWhile (\<lambda>c. \<not> is_separator c) (n @ sep # t) = n" "dropWhile (\<lambda>c. \<not> is_separator c) (n @ sep # t) = sep # t"
  using assms by (simp_all add: plain_name_def)

lemma resolve_prefix:
  assumes "plain_name (m_name m)" and "is_separator sep" and "get_module_by_name (mo_list mo) (m_name m) = Some m"
  shows "resolve_symbol E mo (m_name m @ sep # rest) =
    (if sep = CHR ''+'' then (map_option (\<lambda>off. m_base m + off) (parse_hex_offset rest), mo)
     else (case split_trailing_offset rest of None \<Rightarrow> (None, mo)
      | Some (name_part, off) \<Rightarrow>
          (let (parsed, c) = ensure_parsed E (mo_cache mo) m in
           (case parsed of None \<Rightarrow> None
            | Some p \<Rightarrow> map_option (\<lambda>rva. m_base m + rva + off) (lookup_in_image sep p name_part), mo\<lparr>mo_cache := c\<rparr>))))"
proof -
  have "module_alias (strip_known_extension (m_name m)) = m_name m"
    using assms(1) by (simp add: plain_name_def module_alias_def)
  then show ?thesis
    using span_separator [OF assms(1,2), of rest] assms(3) by (simp add: resolve_symbol_def)
qed

lemma split_offset_digits:
  assumes "CHR ''+'' \<notin> set n" and "number_ends t"
  shows "split_trailing_offset (n @ CHR ''+'' # to_hexstr a @ t) = Some (n, a)"
  using assms by (simp add: split_trailing_offset_def parse_hexstr takeWhile_append dropWhile_append)

lemma closest_in_set: "get_closest_symbol sy rva = Some x \<Longrightarrow> x \<in> set sy"
proof -
  assume "get_closest_symbol sy rva = Some x"
  then have "takeWhile (\<lambda>s. \<not> rva < sym_rva s) sy \<noteq> []" "x = last (takeWhile (\<lambda>s. \<not> rva < sym_rva s) sy)"
    by (auto simp: closest_symbol_takeWhile Let_def split: if_splits)
  then show ?thesis
    using last_in_set set_takeWhileD by fastforce
qed

lemma lookup_symbol:
  assumes "distinct (map sym_name (pe_symbols p))" and "sy \<in> set (pe_symbols p)"
  shows "lookup_in_image CHR ''!'' p (sym_name sy) = Some (sym_rva sy)"
proof -
  have "find (\<lambda>s. sym_name s = sym_name sy) xs = Some sy" if "distinct (map sym_name xs)" "sy \<in> set xs" for xs
    using that by (induction xs) force+
  then show ?thesis
    using assms by (simp add: lookup_in_image_def)
qed

lemma suffix_shape:
  obtains "section_of p rva = None" "section_suffix n p rva = []"
  | s where "section_of p rva = Some s" "s \<in> set (pe_sections p)"
      "section_suffix n p rva = n @ '':'' @ sect_name s @ ''+'' @ to_hexstr (rva - sect_rva s)"
proof (cases "section_of p rva")
  case (Some s)
  then have "s \<in> set (pe_sections p)"
    by (auto simp: section_of_def find_Some_iff)
  then show ?thesis
    using Some that by (simp add: section_suffix_def)
qed (use that in \<open>simp add: section_suffix_def\<close>)

lemma append_section_blank:
  obtains t where "append_section n p rva result = result @ t" "number_ends t" "t = [] \<longleftrightarrow> section_of p rva = None"
  by (rule suffix_shape [of p rva n]) (auto simp: append_section_def Let_def number_ends_def)

lemma resolve_base:
  assumes "plain_name (m_name m)" and "get_module_by_name (mo_list mo) (m_name m) = Some m"
  shows "resolve_symbol E mo (m_name m) = (Some (m_base m), mo)"
proof -
  have e: "module_alias (strip_known_extension (m_name m)) = m_name m" "takeWhile (\<lambda>c. \<not> is_separator c) (m_name m) = m_name m"
    "dropWhile (\<lambda>c. \<not> is_separator c) (m_name m) = []" "(m_name m = []) = False"
    using assms(1) by (simp_all add: plain_name_def module_alias_def)
  show ?thesis
    by (simp only: resolve_symbol_def e assms(2) option.case list.case if_False)
qed

lemma resolve_offset:
  assumes "plain_name (m_name m)" and "get_module_by_name (mo_list mo) (m_name m) = Some m" and "number_ends t"
  shows "fst (resolve_symbol E mo (m_name m @ CHR ''+'' # to_hexstr (a - m_base m) @ t)) = Some a"
  using resolve_prefix [OF assms(1) _ assms(2), of "CHR ''+''"] by (simp add: is_separator_def parse_hexstr assms(3))

lemma resolve_symbol_offset:
  assumes "plain_name (m_name m)" and "get_module_by_name (mo_list mo) (m_name m) = Some m" and "number_ends t"
    and "ensure_parsed E (mo_cache mo) m = (Some p, c)" and "plain_image p" and "sy \<in> set (pe_symbols p)"
  shows "fst (resolve_symbol E mo (m_name m @ CHR ''!'' # sym_name sy @ CHR ''+'' # to_hexstr (a - m_base m - sym_rva sy) @ t)) = Some a"
proof -
  have "CHR ''+'' \<notin> set (sym_name sy)" "distinct (map sym_name (pe_symbols p))"
    using assms(5,6) by (simp_all add: plain_image_def)
  then show ?thesis
    using resolve_prefix [OF assms(1) _ assms(2), of "CHR ''!''"] assms(3,4,6)
    by (simp add: is_separator_def split_offset_digits lookup_symbol)
qed

lemma resolve_exact_symbol:
  assumes "plain_name (m_name m)" and "get_module_by_name (mo_list mo) (m_name m) = Some m"
    and "ensure_parsed E (mo_cache mo) m = (Some p, c)" and "plain_image p" and "sy \<in> set (pe_symbols p)" and "sym_rva sy = a - m_base m"
  shows "fst (resolve_symbol E mo (m_name m @ CHR ''!'' # sym_name sy)) = Some a"
proof -
  have "split_trailing_offset (sym_name sy) = Some (sym_name sy, 0)" "distinct (map sym_name (pe_symbols p))"
    using assms(4,5) by (simp_all add: plain_image_def split_trailing_offset_def)
  then show ?thesis
    using resolve_prefix [OF assms(1) _ assms(2), of "CHR ''!''"] assms(3,5,6) by (simp add: is_separator_def lookup_symbol)
qed

text \<open>The section appended to an exact symbol becomes part of the name looked up.\<close>

lemma resolve_exact_with_section:
  assumes "plain_name (m_name m)" and "get_module_by_name (mo_list mo) (m_name m) = Some m"
    and "ensure_parsed E (mo_cache mo) m = (Some p, c)" and "plain_image p" and "s \<in> set (pe_sections p)" and "sy \<in> set (pe_symbols p)"
  shows "fst (resolve_symbol E mo (m_name m @ CHR ''!'' # sym_name sy @ '' | '' @ m_name m @ '':'' @ sect_name s @ ''+'' @ to_hexstr x)) = None"
proof -
  define n where "n = sym_name sy @ '' | '' @ m_name m @ '':'' @ sect_name s"
  have "CHR ''+'' \<notin> set n"
    using assms(1,4,5,6) by (auto simp: n_def plain_image_def plain_name_def is_separator_def)
  then have "split_trailing_offset (n @ CHR ''+'' # to_hexstr x @ []) = Some (n, x)"
    by (rule split_offset_digits) (simp add: number_ends_def)
  moreover have "find (\<lambda>sy. sym_name sy = n) (pe_symbols p) = None"
    using assms(4) by (auto simp: find_None_iff plain_image_def n_def)
  ultimately show ?thesis
    using resolve_prefix [OF assms(1) _ assms(2), of "CHR ''!''" E "n @ CHR ''+'' # to_hexstr x"] assms(3)
    by (simp add: is_separator_def lookup_in_image_def n_def)
qed

lemma resolve_in_image_back:
  assumes "plain_name (m_name m)" and "get_module_by_name (mo_list mo) (m_name m) = Some m"
    and again: "ensure_parsed E (mo_cache mo) m = (Some p, c)" and "plain_image p" and "a \<noteq> m_base m"
  shows "fst (resolve_symbol E mo (resolve_in_module (m_name m) (Some p) (a - m_base m))) =
    (if exact_symbol p (a - m_base m) \<and> section_of p (a - m_base m) \<noteq> None then None else Some a)"
proof -
  define r where "r = a - m_base m"
  obtain t where t: "append_section (m_name m) p r res = res @ t" "number_ends t" for res
    by (rule suffix_shape [of p r "m_name m"]) (use that in \<open>force simp: append_section_def Let_def number_ends_def\<close>)+
  show ?thesis
  proof (cases "get_closest_symbol (pe_symbols p) r")
    case None
    then show ?thesis
      using resolve_offset [OF assms(1,2) t(2), of E a]
      by (simp add: resolve_in_module_def t(1) exact_symbol_def flip: r_def)
  next
    case (Some sy)
    note sy = closest_in_set [OF this]
    consider "sym_rva sy \<noteq> r" | "sym_rva sy = r" "section_of p r = None" | s where "sym_rva sy = r" "section_of p r = Some s"
      by blast
    then show ?thesis
    proof cases
      case 1
      then show ?thesis
        using Some resolve_symbol_offset [OF assms(1,2) t(2) again assms(4) sy, of a]
        by (simp add: resolve_in_module_def Let_def t(1) exact_symbol_def flip: r_def)
    next
      case 2
      then show ?thesis
        using Some resolve_exact_symbol [OF assms(1,2) again assms(4) sy, of a]
        by (simp add: resolve_in_module_def Let_def append_section_def section_suffix_def exact_symbol_def flip: r_def)
    next
      case 3
      then have "s \<in> set (pe_sections p)"
        by (auto simp: section_of_def find_Some_iff)
      then show ?thesis
        using Some 3 resolve_exact_with_section [OF assms(1,2) again assms(4) _ sy, of s "r - sect_rva s"]
        by (simp add: resolve_in_module_def Let_def append_section_def section_suffix_def exact_symbol_def flip: r_def)
    qed
  qed
qed

section \<open>Properties\<close>


definition demo_image_env :: image_env where
  "demo_image_env = \<lparr>ie_present = True, ie_layout = small_layout, ie_live = (\<lambda>a n. None), ie_open = (\<lambda>p. None),
     ie_outside = (\<lambda>a n. None), ie_stray = (0, []), ie_file_name = id, ie_symbols_of = (\<lambda>c. None)\<rparr>"

definition demo_module :: kmodule where
  "demo_module = \<lparr>m_base = 0x10000, m_size = 0x1000, m_name = ''disk'', m_path = []\<rparr>"

definition demo_pe :: pe_state where
  "demo_pe = \<lparr>pe_parsed = True, pe_valid = True,
     pe_sections = [\<lparr>sect_name = ''.text'', sect_va = 0x10100, sect_rva = 0x100, sect_size = 0x100\<rparr>],
     pe_symbols = [\<lparr>sym_name = ''read'', sym_rva = 0x120\<rparr>]\<rparr>"

definition demo_modules :: modules where
  "demo_modules = \<lparr>mo_list = [demo_module], mo_cache = (\<lambda>_. None)(''disk'' \<mapsto> \<lparr>cp_base = 0x10000, cp_size = 0x1000, cp_state = demo_pe\<rparr>)\<rparr>"

lemma demo_resolve:
  "find (in_module 0x1012F) (mo_list demo_modules) = Some demo_module"
  "get_module_by_name (mo_list demo_modules) (m_name demo_module) = Some demo_module"
  "ensure_parsed demo_image_env (mo_cache demo_modules) demo_module = (Some demo_pe, mo_cache demo_modules)"
  by (simp_all add: demo_modules_def demo_module_def in_module_def get_module_by_name_def ensure_parsed_def if_valid_def demo_pe_def)

lemma demo_plain: "plain_name (m_name demo_module)" "plain_image demo_pe"
  by (simp_all add: plain_name_def plain_image_def demo_module_def demo_pe_def is_separator_def strip_known_extension_def known_exts_def tolower_def)

lemma demo_hex: "to_hexstr 0xF = ''f''" "to_hexstr 0x2F = ''2f''"
  by code_simp+

lemma demo_text: "resolve_in_module ''disk'' (Some demo_pe) 0x12F = ''disk!read+f | disk:.text+2f''"
  by (simp add: resolve_in_module_def append_section_def section_suffix_def section_of_def get_closest_symbol_def demo_pe_def demo_hex)

lemma demo_name:
  "resolve_address demo_image_env demo_modules 0x1012F = (''disk!read+f | disk:.text+2f'', demo_modules)"
proof -
  have "m_name demo_module = ''disk''" "m_base demo_module = 0x10000"
    by (simp_all add: demo_module_def)
  then show ?thesis
    using demo_text by (simp add: resolve_address_def demo_resolve)
qed


end
