(* ===== verification/Trace_Merge.thy ===== *)
theory Trace_Merge
  imports Symbols "HOL-Library.Multiset"
begin

text \<open>
  The offline trace parser (\<open>revhv-um/trace_parser.hpp\<close>): the k-way merge of the streams of the cores, the
  text of an entry with custom formats, and the cache of images its resolver uses. The priority queue is
  the list of its elements with a parameter for the element on top; \<open>std::vformat\<close> of a value with a
  specification is a parameter, None for its exception. The progress report is left out.
\<close>

section \<open>Merging streams\<close>

text \<open>A time stamp and the index of the stream whose current entry has it.\<close>

type_synonym heap_elem = "u64 \<times> nat"

definition stream_done :: "core_stream \<Rightarrow> bool" where
  "stream_done s \<longleftrightarrow> cs_cursor s \<ge> length (cs_entries s)"

definition stream_current :: "core_stream \<Rightarrow> entry" where
  "stream_current s = cs_entries s ! cs_cursor s"

definition initial_heap :: "core_stream list \<Rightarrow> heap_elem list" where
  "initial_heap ss = map (\<lambda>i. (e_timestamp (stream_current (ss ! i)), i)) (filter (\<lambda>i. \<not> stream_done (ss ! i)) [0..<length ss])"

text \<open>The entries in the order they are written, each with the index of its stream; None if the loop does not end.\<close>

partial_function (option) merge_loop :: "(heap_elem list \<Rightarrow> heap_elem) \<Rightarrow> heap_elem list \<Rightarrow> core_stream list \<Rightarrow> (nat \<times> entry) list option" where
  "merge_loop pick h ss =
     (if h = [] then Some []
      else let (ts, i) = pick h; rest = remove1 (pick h) h; s = ss ! i; s' = s\<lparr>cs_cursor := cs_cursor s + 1\<rparr>;
               h' = (if \<not> stream_done s' then (e_timestamp (stream_current s'), i) # rest else rest) in
        Option.bind (merge_loop pick h' (ss[i := s'])) (\<lambda>out. Some ((i, stream_current s) # out)))"

definition merge_streams :: "(heap_elem list \<Rightarrow> heap_elem) \<Rightarrow> core_stream list \<Rightarrow> (nat \<times> entry) list option" where
  "merge_streams pick ss = merge_loop pick (initial_heap ss) ss"

section \<open>Fields of an entry\<close>

definition data_field_name :: "ept_transition_data_field \<Rightarrow> string" where
  "data_field_name f = (case f of
     F_guest_rip \<Rightarrow> ''rip'' | F_guest_rsp \<Rightarrow> ''rsp'' | F_guest_rax \<Rightarrow> ''rax'' | F_guest_rbx \<Rightarrow> ''rbx''
   | F_guest_rcx \<Rightarrow> ''rcx'' | F_guest_rdx \<Rightarrow> ''rdx'' | F_guest_rsi \<Rightarrow> ''rsi'' | F_guest_rdi \<Rightarrow> ''rdi''
   | F_guest_rbp \<Rightarrow> ''rbp'' | F_guest_r8 \<Rightarrow> ''r8'' | F_guest_r9 \<Rightarrow> ''r9'' | F_guest_r10 \<Rightarrow> ''r10''
   | F_guest_r11 \<Rightarrow> ''r11'' | F_guest_r12 \<Rightarrow> ''r12'' | F_guest_r13 \<Rightarrow> ''r13'' | F_guest_r14 \<Rightarrow> ''r14''
   | F_guest_r15 \<Rightarrow> ''r15'' | F_guest_retaddr \<Rightarrow> ''retaddr'' | _ \<Rightarrow> ''?'')"

definition parse_field_type :: "string \<Rightarrow> ept_transition_data_field" where
  "parse_field_type s =
     (if s = ''rip'' then F_guest_rip else if s = ''rsp'' then F_guest_rsp else if s = ''rax'' then F_guest_rax
      else if s = ''rbx'' then F_guest_rbx else if s = ''rcx'' then F_guest_rcx else if s = ''rdx'' then F_guest_rdx
      else if s = ''rsi'' then F_guest_rsi else if s = ''rdi'' then F_guest_rdi else if s = ''rbp'' then F_guest_rbp
      else if s = ''r8'' then F_guest_r8 else if s = ''r9'' then F_guest_r9 else if s = ''r10'' then F_guest_r10
      else if s = ''r11'' then F_guest_r11 else if s = ''r12'' then F_guest_r12 else if s = ''r13'' then F_guest_r13
      else if s = ''r14'' then F_guest_r14 else if s = ''r15'' then F_guest_r15 else if s = ''retaddr'' then F_guest_retaddr
      else F_none)"

section \<open>Resolving addresses\<close>

text \<open>The modules, the configuration, the images loaded and the names of the modules tried so far.\<close>

record trace_parser =
  tp_modules :: "kmodule list"
  tp_cfg :: trace_cfg
  tp_cache :: pe_cache
  tp_tried :: "string list"

definition get_or_load_pe :: "image_env \<Rightarrow> trace_parser \<Rightarrow> kmodule \<Rightarrow> pe_state option \<times> trace_parser" where
  "get_or_load_pe E tp m =
     (case tp_cache tp (m_name m) of Some p \<Rightarrow> (Some (cp_state p), tp)
      | None \<Rightarrow>
          if m_name m \<in> set (tp_tried tp) then (None, tp)
          else let tp1 = tp\<lparr>tp_tried := m_name m # tp_tried tp\<rparr> in
            if m_path m = [] then (None, tp1)
            else case parse_from_disk E (m_path m) (m_base m) of None \<Rightarrow> (None, tp1)
            | Some p \<Rightarrow> (Some (cp_state p), tp1\<lparr>tp_cache := (tp_cache tp1)(m_name m \<mapsto> p)\<rparr>))"

text \<open>Sixteen digits, padded with zeros.\<close>

definition hex16 :: "u64 \<Rightarrow> string" where
  "hex16 a = (let s = to_hexstr a in replicate (16 - length s) CHR ''0'' @ s)"

definition name_in_image :: "string \<Rightarrow> pe_state option \<Rightarrow> u64 \<Rightarrow> string" where
  "name_in_image name image_state rva =
     (case image_state of None \<Rightarrow> name @ ''+'' @ to_hexstr rva
      | Some p \<Rightarrow>
          if \<not> pe_valid p then name @ ''+'' @ to_hexstr rva
          else case get_closest_symbol (pe_symbols p) rva of
              None \<Rightarrow>
                (case section_of p rva of
                   Some s \<Rightarrow> name @ '':'' @ sect_name s @ ''+'' @ to_hexstr (rva - sect_rva s)
                 | None \<Rightarrow> name @ ''+'' @ to_hexstr rva)
            | Some sy \<Rightarrow>
                if rva - sym_rva sy = 0 then name @ ''!'' @ sym_name sy
                else name @ ''!'' @ sym_name sy @ ''+'' @ to_hexstr (rva - sym_rva sy))"

definition parser_resolve :: "image_env \<Rightarrow> trace_parser \<Rightarrow> u64 \<Rightarrow> string \<times> trace_parser" where
  "parser_resolve E tp a =
     (case find (in_module a) (tp_modules tp) of None \<Rightarrow> (hex16 a, tp)
      | Some m \<Rightarrow>
          if a - m_base m = 0 then (m_name m, tp)
          else let (p, tp') = get_or_load_pe E tp m in (name_in_image (m_name m) p (a - m_base m), tp'))"

section \<open>Custom formats\<close>

definition placeholder_value :: "ept_transition_cfg \<Rightarrow> entry \<Rightarrow> string \<Rightarrow> u64" where
  "placeholder_value c e field_name =
     (case find_data_slot c (parse_field_type field_name) of None \<Rightarrow> 0 | Some slot \<Rightarrow> e_data e ! slot)"

definition format_placeholder ::
  "image_env \<Rightarrow> (string \<Rightarrow> u64 \<Rightarrow> string option) \<Rightarrow> ept_transition_cfg \<Rightarrow> entry \<Rightarrow> string \<Rightarrow> trace_parser \<Rightarrow> string \<times> trace_parser" where
  "format_placeholder E vformat c e placeholder tp =
     (let field_name = takeWhile (\<lambda>x. x \<noteq> CHR '':'') placeholder; spec = tl (dropWhile (\<lambda>x. x \<noteq> CHR '':'') placeholder);
          v = placeholder_value c e field_name in
      if spec = [] then parser_resolve E tp v
      else ((case vformat spec v of Some t \<Rightarrow> t | None \<Rightarrow> ''?''), tp))"

function (sequential) apply_custom_format ::
  "image_env \<Rightarrow> (string \<Rightarrow> u64 \<Rightarrow> string option) \<Rightarrow> ept_transition_cfg \<Rightarrow> entry \<Rightarrow> string \<Rightarrow> trace_parser \<Rightarrow> string \<times> trace_parser" where
  "apply_custom_format E vformat c e [] tp = ([], tp)"
| "apply_custom_format E vformat c e (a # r) tp =
     (if r \<noteq> [] \<and> a = CHR ''{'' \<and> hd r = CHR ''{''
      then (let (t, tp') = apply_custom_format E vformat c e (tl r) tp in (CHR ''{'' # t, tp'))
      else if r \<noteq> [] \<and> a = CHR ''}'' \<and> hd r = CHR ''}''
      then (let (t, tp') = apply_custom_format E vformat c e (tl r) tp in (CHR ''}'' # t, tp'))
      else if a \<noteq> CHR ''{''
      then (let (t, tp') = apply_custom_format E vformat c e r tp in (a # t, tp'))
      else if CHR ''}'' \<notin> set r then (a # r, tp)
      else (let (u, tp1) = format_placeholder E vformat c e (takeWhile (\<lambda>x. x \<noteq> CHR ''}'') r) tp;
                (t, tp2) = apply_custom_format E vformat c e (tl (dropWhile (\<lambda>x. x \<noteq> CHR ''}'') r)) tp1
            in (u @ t, tp2)))"
  by pat_completeness auto
termination
proof (relation "measure (\<lambda>(E, vformat, c, e, s, tp). length s)", goal_cases)
  case (5 E vformat c e a r tp x u tp1)
  then show ?case
    using length_dropWhile_le [of "\<lambda>x. x \<noteq> CHR ''}''" r] by (simp add: le_imp_less_Suc)
qed auto

section \<open>Text of an entry\<close>

text \<open>Decimal digits, and the six values of an entry without a configuration.\<close>

fun dec_digits :: "nat \<Rightarrow> string" where
  "dec_digits n = (if n < 10 then [char_of (48 + n)] else dec_digits (n div 10) @ [char_of (48 + n mod 10)])"

declare dec_digits.simps [simp del]

definition raw_data :: "entry \<Rightarrow> string" where
  "raw_data e = ''data=['' @ to_hexstr (e_data e ! 0) @ '','' @ to_hexstr (e_data e ! 1) @ '','' @ to_hexstr (e_data e ! 2) @ '','' @
     to_hexstr (e_data e ! 3) @ '','' @ to_hexstr (e_data e ! 4) @ '','' @ to_hexstr (e_data e ! 5) @ '']''"

text \<open>The configuration and the format that apply: those of the exact address if there are any, else the generic ones.\<close>

definition select_cfg :: "trace_cfg \<Rightarrow> entry \<Rightarrow> ept_transition_cfg \<times> string" where
  "select_cfg tc e =
     (case rip_slot tc of None \<Rightarrow> (generic_cfg tc, generic_fmt tc)
      | Some slot \<Rightarrow>
          (case find (\<lambda>x. x_addr x = e_data e ! slot) (exact_cfgs tc) of
             None \<Rightarrow> (generic_cfg tc, generic_fmt tc)
           | Some x \<Rightarrow> (x_cfg x, if x_fmt x \<noteq> [] then x_fmt x else generic_fmt tc)))"

fun format_fields :: "image_env \<Rightarrow> ept_transition_cfg \<Rightarrow> entry \<Rightarrow> nat list \<Rightarrow> trace_parser \<Rightarrow> string \<times> trace_parser" where
  "format_fields E c e [] tp = ([], tp)"
| "format_fields E c e (i # is) tp =
     (let f = data_map c ! i; v = e_data e ! i in
      if f = F_none then format_fields E c e is tp
      else let (u, tp1) = (if f = F_guest_rip \<or> f = F_guest_retaddr then parser_resolve E tp v else (hex16 v, tp));
               (t, tp2) = format_fields E c e is tp1
           in (data_field_name f @ ''='' @ u @ '' '' @ t, tp2))"


definition format_entry :: "image_env \<Rightarrow> (string \<Rightarrow> u64 \<Rightarrow> string option) \<Rightarrow> trace_parser \<Rightarrow> entry \<Rightarrow> string \<times> trace_parser" where
  "format_entry E vformat tp e =
     (let core = dec_digits (unat (e_core_id e)) in
      if e_format_id e = fmt_ept_target_transition
      then let (c, fmt) = select_cfg (tp_cfg tp) e in
        let (t, tp') =
          (if fmt \<noteq> [] then apply_custom_format E vformat c e fmt tp
           else if \<exists>i\<in>set [0..<max_data_fields]. data_map c ! i \<noteq> F_none then format_fields E c e [0..<max_data_fields] tp
           else (raw_data e, tp))
        in (''[core '' @ core @ ''] '' @ t @ [CHR 0x0A], tp')
      else (''['' @ dec_digits (unat (e_timestamp e)) @ ''] core '' @ core @ '' unknown format_id='' @ dec_digits (unat (e_format_id e)) @
            '' '' @ raw_data e @ [CHR 0x0A], tp))"

fun format_all :: "image_env \<Rightarrow> (string \<Rightarrow> u64 \<Rightarrow> string option) \<Rightarrow> trace_parser \<Rightarrow> entry list \<Rightarrow> string" where
  "format_all E vformat tp [] = []"
| "format_all E vformat tp (e # es) = (let (t, tp') = format_entry E vformat tp e in t @ format_all E vformat tp' es)"

section \<open>The whole parser\<close>

text \<open>
  The module file, the configuration file and the trace files found in the directory; the outer result is
  None if the merge does not end, the inner one if the parser gives up.
\<close>

definition run_parser ::
  "image_env \<Rightarrow> (string \<Rightarrow> u64 \<Rightarrow> string option) \<Rightarrow> (heap_elem list \<Rightarrow> heap_elem) \<Rightarrow> string option \<Rightarrow> string option \<Rightarrow> string list \<Rightarrow>
    string option option" where
  "run_parser E vformat pick modules_file cfg_file trace_files =
     (case load_modules modules_file of None \<Rightarrow> Some None
      | Some ms \<Rightarrow>
          (case open_trace_streams trace_files of None \<Rightarrow> Some None
           | Some ss \<Rightarrow>
               (case merge_streams pick ss of None \<Rightarrow> None
                | Some out \<Rightarrow> Some (Some (format_all E vformat
                    \<lparr>tp_modules = ms, tp_cfg = load_trace_cfg cfg_file, tp_cache = (\<lambda>_. None), tp_tried = []\<rparr> (map snd out))))))"

section \<open>The merge\<close>

text \<open>A priority queue hands out one of its elements with the smallest time stamp.\<close>

definition pick_ok :: "(heap_elem list \<Rightarrow> heap_elem) \<Rightarrow> bool" where
  "pick_ok pick \<longleftrightarrow> (\<forall>h. h \<noteq> [] \<longrightarrow> pick h \<in> set h \<and> (\<forall>x\<in>set h. fst (pick h) \<le> fst x))"

definition remaining :: "core_stream \<Rightarrow> entry list" where
  "remaining s = drop (cs_cursor s) (cs_entries s)"

definition advance_stream :: "core_stream \<Rightarrow> core_stream" where
  "advance_stream s = s\<lparr>cs_cursor := cs_cursor s + 1\<rparr>"

definition heads :: "core_stream list \<Rightarrow> heap_elem set" where
  "heads ss = {(e_timestamp (stream_current (ss ! i)), i) | i. i < length ss \<and> \<not> stream_done (ss ! i)}"

definition heap_inv :: "heap_elem list \<Rightarrow> core_stream list \<Rightarrow> bool" where
  "heap_inv h ss \<longleftrightarrow> distinct h \<and> set h = heads ss"

definition pending_entries :: "core_stream list \<Rightarrow> nat" where
  "pending_entries ss = (\<Sum>s\<leftarrow>ss. length (remaining s))"

lemma remaining_current: "\<not> stream_done s \<Longrightarrow> remaining s = stream_current s # remaining (advance_stream s)"
  by (simp add: remaining_def stream_done_def stream_current_def advance_stream_def Cons_nth_drop_Suc)

lemma remaining_done: "stream_done s \<longleftrightarrow> remaining s = []"
  by (simp add: remaining_def stream_done_def)

lemma initial_heap_inv: "heap_inv (initial_heap ss) ss"
  by (auto simp: heap_inv_def initial_heap_def heads_def distinct_map inj_on_def)

lemma pending_advance:
  assumes "i < length ss" and "\<not> stream_done (ss ! i)"
  shows "pending_entries ss = Suc (pending_entries (ss[i := advance_stream (ss ! i)]))"
proof -
  have "ss = take i ss @ ss ! i # drop (Suc i) ss"
    using assms(1) by (rule id_take_nth_drop)
  then have "pending_entries ss = pending_entries (take i ss) + length (remaining (ss ! i)) + pending_entries (drop (Suc i) ss)"
    unfolding pending_entries_def by (metis (no_types, lifting) add.assoc list.simps(9) map_append sum_list.Cons sum_list.append)
  moreover have "ss[i := advance_stream (ss ! i)] = take i ss @ advance_stream (ss ! i) # drop (Suc i) ss"
    using assms(1) by (rule upd_conv_take_nth_drop)
  ultimately show ?thesis
    using remaining_current [OF assms(2)] by (simp add: pending_entries_def)
qed

text \<open>One round of the loop keeps the invariant.\<close>

lemma heap_inv_step:
  assumes "heap_inv h ss" and "(ts, i) \<in> set h" and "ss' = ss[i := advance_stream (ss ! i)]"
  shows "i < length ss" "\<not> stream_done (ss ! i)" "ts = e_timestamp (stream_current (ss ! i))"
    "heap_inv (if \<not> stream_done (advance_stream (ss ! i)) then (e_timestamp (stream_current (advance_stream (ss ! i))), i) # remove1 (ts, i) h
       else remove1 (ts, i) h) ss'"
proof -
  have i: "i < length ss" "\<not> stream_done (ss ! i)" "ts = e_timestamp (stream_current (ss ! i))"
    using assms(1,2) by (auto simp: heap_inv_def heads_def)
  then show "i < length ss" "\<not> stream_done (ss ! i)" "ts = e_timestamp (stream_current (ss ! i))" .
  have "heads ss' = (if \<not> stream_done (advance_stream (ss ! i)) then {(e_timestamp (stream_current (advance_stream (ss ! i))), i)} else {}) \<union>
      (heads ss - {(ts, i)})"
    using i by (auto simp: heads_def assms(3) nth_list_update)
  moreover have "(t, i) \<in> heads ss \<Longrightarrow> t = ts" for t
    using i by (auto simp: heads_def)
  ultimately show "heap_inv (if \<not> stream_done (advance_stream (ss ! i)) then (e_timestamp (stream_current (advance_stream (ss ! i))), i) # remove1 (ts, i) h
       else remove1 (ts, i) h) ss'"
    using assms(1) by (auto simp: heap_inv_def)
qed

definition merged :: "core_stream list \<Rightarrow> (nat \<times> entry) list \<Rightarrow> bool" where
  "merged ss out \<longleftrightarrow> (\<forall>x\<in>set out. fst x < length ss) \<and>
     (\<forall>i<length ss. map snd (filter (\<lambda>x. fst x = i) out) = remaining (ss ! i))"

definition sorted_stream :: "core_stream \<Rightarrow> bool" where
  "sorted_stream s \<longleftrightarrow> sorted (map e_timestamp (remaining s))"

lemma merged_member:
  assumes "merged ss out" and "(i, e) \<in> set out"
  shows "i < length ss" "e \<in> set (remaining (ss ! i))"
proof -
  show i: "i < length ss"
    using assms by (force simp: merged_def)
  have "e \<in> set (map snd (filter (\<lambda>x. fst x = i) out))"
    using assms(2) by force
  then show "e \<in> set (remaining (ss ! i))"
    using assms(1) i by (simp only: merged_def)
qed

lemma merged_step:
  assumes "merged (ss[i := advance_stream (ss ! i)]) out" and "i < length ss" and "\<not> stream_done (ss ! i)"
  shows "merged ss ((i, stream_current (ss ! i)) # out)"
  using assms by (auto simp: merged_def nth_list_update remaining_current)

lemma smallest_head:
  assumes "\<forall>s\<in>set ss. sorted_stream s" and "\<forall>x\<in>heads ss. ts \<le> fst x" and "j < length ss" and "e \<in> set (remaining (ss ! j))"
  shows "ts \<le> e_timestamp e"
proof -
  have nd: "\<not> stream_done (ss ! j)"
    using assms(4) by (auto simp: remaining_done)
  then have "ts \<le> e_timestamp (stream_current (ss ! j))"
    using assms(2,3) by (force simp: heads_def)
  moreover have "sorted (map e_timestamp (remaining (ss ! j)))"
    using assms(1,3) by (simp add: sorted_stream_def)
  then have "e_timestamp (stream_current (ss ! j)) \<le> e_timestamp e"
    using assms(4) by (auto simp: remaining_current [OF nd])
  ultimately show ?thesis
    by simp
qed

lemma sorted_advance: "sorted_stream s \<Longrightarrow> \<not> stream_done s \<Longrightarrow> sorted_stream (advance_stream s)"
  by (simp add: sorted_stream_def remaining_current)

lemma merge_loop_merges:
  assumes "pick_ok pick" and "heap_inv h ss"
  shows "\<exists>out. merge_loop pick h ss = Some out \<and> merged ss out \<and>
    ((\<forall>s\<in>set ss. sorted_stream s) \<longrightarrow> sorted (map (e_timestamp \<circ> snd) out))"
  using assms(2)
proof (induction "pending_entries ss" arbitrary: h ss)
  case (0 ss h)
  have "heads ss = {}"
  proof (rule ccontr)
    assume "heads ss \<noteq> {}"
    then obtain i where "i < length ss" "\<not> stream_done (ss ! i)"
      by (auto simp: heads_def)
    then show False
      using pending_advance 0(1) by fastforce
  qed
  then have "h = []"
    using 0(2) by (simp add: heap_inv_def)
  moreover have "\<forall>i<length ss. remaining (ss ! i) = []"
    using \<open>heads ss = {}\<close> by (auto simp: heads_def remaining_done)
  ultimately show ?case
    by (simp add: merge_loop.simps merged_def)
next
  case (Suc n ss h)
  show ?case
  proof (cases "h = []")
    case True
    then have "\<forall>i<length ss. remaining (ss ! i) = []"
      using Suc.prems by (auto simp: heap_inv_def heads_def remaining_done)
    then show ?thesis
      using True by (simp add: merge_loop.simps merged_def)
  next
    case False
    obtain ts i where p: "pick h = (ts, i)"
      by force
    have top: "(ts, i) \<in> set h" "\<forall>x\<in>set h. ts \<le> fst x"
      using assms(1) False p unfolding pick_ok_def by force+
    define ss' where "ss' = ss[i := advance_stream (ss ! i)]"
    note step = heap_inv_step [OF Suc.prems top(1) ss'_def]
    have "n = pending_entries ss'"
      using Suc.hyps(2) pending_advance [OF step(1,2)] by (simp add: ss'_def)
    from Suc.hyps(1) [OF this step(4)] obtain out where out:
      "merge_loop pick (if \<not> stream_done (advance_stream (ss ! i)) then (e_timestamp (stream_current (advance_stream (ss ! i))), i) # remove1 (ts, i) h
        else remove1 (ts, i) h) ss' = Some out" "merged ss' out"
      "(\<forall>s\<in>set ss'. sorted_stream s) \<longrightarrow> sorted (map (e_timestamp \<circ> snd) out)"
      by blast
    have "merge_loop pick h ss = Some ((i, stream_current (ss ! i)) # out)"
      using False out(1) by (subst merge_loop.simps) (simp add: p Let_def ss'_def advance_stream_def split: if_splits)
    moreover have all: "merged ss ((i, stream_current (ss ! i)) # out)"
      using merged_step out(2) step(1,2) by (simp add: ss'_def)
    moreover have "sorted (map (e_timestamp \<circ> snd) ((i, stream_current (ss ! i)) # out))" if s: "\<forall>s\<in>set ss. sorted_stream s"
    proof -
      have "\<forall>s\<in>set ss'. sorted_stream s"
        using s step(1,2) sorted_advance set_update_subset_insert [of ss i "advance_stream (ss ! i)"] by (auto simp: ss'_def)
      moreover have "ts \<le> e_timestamp (snd x)" if "x \<in> set out" for x
        using smallest_head [OF s, of ts "fst x" "snd x"] Suc.prems top(2) merged_member [OF all, of "fst x" "snd x"] that
        by (simp add: heap_inv_def)
      ultimately show ?thesis
        using out(3) step(3) by simp
    qed
    ultimately show ?thesis
      by blast
  qed
qed

section \<open>From the files to the log\<close>

text \<open>What the worker of a core has drained: the core, the batches before and after the stop.\<close>

type_synonym drained_core = "u16 \<times> entry list list \<times> entry list list"

definition drained_entries :: "drained_core \<Rightarrow> entry list" where
  "drained_entries d = (case d of (core, running, final) \<Rightarrow> concat running @ concat (takeWhile (\<lambda>b. b \<noteq> []) final))"

definition drained_file :: "drained_core \<Rightarrow> string" where
  "drained_file d = (case d of (core, running, final) \<Rightarrow> worker_file core running final)"

lemma shuffle_mset:
  fixes n :: nat
  assumes "\<forall>x\<in>set out. fst x < n"
  shows "mset (map snd out) = (\<Sum>i<n. mset (map snd (filter (\<lambda>x. fst x = i) out)))"
  using assms
proof (induction out)
  case (Cons x out)
  have "(\<Sum>i<n. if fst x = i then {#snd x#} else {#}) = {#snd x#}"
    using Cons.prems by simp
  moreover have "(\<Sum>i<n. mset (map snd (filter (\<lambda>y. fst y = i) (x # out)))) =
      (\<Sum>i<n. (if fst x = i then {#snd x#} else {#}) + mset (map snd (filter (\<lambda>y. fst y = i) out)))"
    by (intro sum.cong) simp_all
  ultimately show ?case
    using Cons by (simp add: sum.distrib)
qed simp

lemma sum_nth_mset: "(\<Sum>i<length xs. mset (f (xs ! i))) = mset (concat (map f xs))"
proof (induction xs)
  case (Cons x xs)
  then show ?case
    by (simp del: sum.lessThan_Suc add: sum.lessThan_Suc_shift)
qed simp

lemma open_drained:
  assumes "\<forall>e\<in>set (drained_entries d). length (e_data e) = max_data_fields"
  shows "open_stream (drained_file d) =
    (if drained_entries d = [] then None else Some \<lparr>cs_core_id = fst d, cs_entries = drained_entries d, cs_cursor = 0\<rparr>)"
proof -
  obtain core running final where d: "d = (core, running, final)"
    by (cases d) auto
  have "drained_file d = trace_header core @ concat (map file_entry_bytes (drained_entries d))"
    by (simp add: d drained_file_def drained_entries_def worker_file_def concat_batches)
  then show ?thesis
    using stream_reads_back [OF assms, of core] d by simp
qed

lemma open_all_drained:
  assumes "\<forall>d\<in>set ds. \<forall>e\<in>set (drained_entries d). length (e_data e) = max_data_fields"
    and "\<exists>d\<in>set ds. drained_entries d \<noteq> []"
  shows "open_trace_streams (map drained_file ds) =
    Some (map (\<lambda>d. \<lparr>cs_core_id = fst d, cs_entries = drained_entries d, cs_cursor = 0\<rparr>) (filter (\<lambda>d. drained_entries d \<noteq> []) ds))"
proof -
  have "map the (filter (\<lambda>s. s \<noteq> None) (map open_stream (map drained_file ds))) =
      map (\<lambda>d. \<lparr>cs_core_id = fst d, cs_entries = drained_entries d, cs_cursor = 0\<rparr>) (filter (\<lambda>d. drained_entries d \<noteq> []) ds)"
    using assms(1) by (induction ds) (simp_all add: open_drained)
  moreover have "filter (\<lambda>d. drained_entries d \<noteq> []) ds \<noteq> []"
    using assms(2) by (simp add: filter_empty_conv)
  ultimately show ?thesis
    by (simp add: open_trace_streams_def Let_def)
qed

lemma concat_drained: "concat (map drained_entries (filter (\<lambda>d. drained_entries d \<noteq> []) ds)) = concat (map drained_entries ds)"
  by (induction ds) simp_all

lemma merge_drained:
  assumes "pick_ok pick" and "\<forall>s\<in>set ss. cs_cursor s = 0"
  shows "\<exists>out. merge_streams pick ss = Some out \<and> mset (map snd out) = mset (concat (map cs_entries ss)) \<and>
    ((\<forall>s\<in>set ss. sorted (map e_timestamp (cs_entries s))) \<longrightarrow> sorted (map (e_timestamp \<circ> snd) out))"
proof -
  obtain out where out: "merge_streams pick ss = Some out" "merged ss out"
    "(\<forall>s\<in>set ss. sorted_stream s) \<longrightarrow> sorted (map (e_timestamp \<circ> snd) out)"
    using merge_loop_merges [OF assms(1) initial_heap_inv, of ss] unfolding merge_streams_def by blast
  have "remaining s = cs_entries s" if "s \<in> set ss" for s
    using assms(2) that by (simp add: remaining_def)
  moreover from this have "mset (map snd out) = (\<Sum>i<length ss. mset (cs_entries (ss ! i)))"
    using out(2) by (subst shuffle_mset [of _ "length ss"]) (auto simp: merged_def intro!: sum.cong)
  ultimately show ?thesis
    using out(1,3) by (simp add: sum_nth_mset sorted_stream_def)
qed

section \<open>Properties\<close>

text \<open>
  Merging the streams of the cores ends and writes every entry exactly once: the entries of each stream
  come in their order, and if each stream is ordered by time, as one core emits it, so is the whole log,
  whatever element the queue prefers among equal time stamps.
\<close>

theorem merge_is_ordered_shuffle:
  assumes "pick_ok pick"
  shows "\<exists>out. merge_streams pick ss = Some out \<and> (\<forall>x\<in>set out. fst x < length ss) \<and>
    (\<forall>i<length ss. map snd (filter (\<lambda>x. fst x = i) out) = drop (cs_cursor (ss ! i)) (cs_entries (ss ! i))) \<and>
    ((\<forall>s\<in>set ss. sorted (map e_timestamp (drop (cs_cursor s) (cs_entries s)))) \<longrightarrow> sorted (map (e_timestamp \<circ> snd) out))"
  using merge_loop_merges [OF assms initial_heap_inv, of ss]
  by (simp add: merge_streams_def merged_def sorted_stream_def remaining_def)

definition demo_entry :: "u64 \<Rightarrow> entry" where
  "demo_entry t = \<lparr>e_format_id = 1, e_core_id = 0, e_pad0 = 0, e_timestamp = t, e_data = replicate 6 0\<rparr>"

definition demo_stream :: "u64 list \<Rightarrow> core_stream" where
  "demo_stream ts = \<lparr>cs_core_id = 0, cs_entries = map demo_entry ts, cs_cursor = 0\<rparr>"

text \<open>A queue that prefers the first of the smallest elements.\<close>

definition first_smallest :: "heap_elem list \<Rightarrow> heap_elem" where
  "first_smallest h = (case find (\<lambda>x. list_all (\<lambda>y. fst x \<le> fst y) h) h of Some x \<Rightarrow> x | None \<Rightarrow> (0, 0))"

lemma first_smallest_ok: "pick_ok first_smallest"
  unfolding pick_ok_def
proof (intro allI impI)
  fix h :: "heap_elem list"
  assume "h \<noteq> []"
  then obtain x where "x \<in> set h" "\<forall>y\<in>set h. fst x \<le> fst y"
    using ex_min_if_finite [of "fst ` set h"] by (fastforce simp: not_less)
  then have "find (\<lambda>x. list_all (\<lambda>y. fst x \<le> fst y) h) h \<noteq> None"
    unfolding find_None_iff list_all_iff by blast
  then obtain z where z: "find (\<lambda>x. list_all (\<lambda>y. fst x \<le> fst y) h) h = Some z"
    by blast
  then have "first_smallest h = z"
    by (simp only: first_smallest_def option.case)
  moreover have "z \<in> set h \<and> (\<forall>x\<in>set h. fst z \<le> fst x)"
    using z unfolding find_Some_iff list_all_iff by auto
  ultimately show "first_smallest h \<in> set h \<and> (\<forall>x\<in>set h. fst (first_smallest h) \<le> fst x)"
    by simp
qed

lemma merge_is_ordered_shuffle_witness:
  "\<exists>out. merge_streams first_smallest [demo_stream [1, 5], demo_stream [2, 3]] = Some out \<and> sorted (map (e_timestamp \<circ> snd) out) \<and>
     map snd (filter (\<lambda>x. fst x = 1) out) = [demo_entry 2, demo_entry 3]"
proof -
  let ?ss = "[demo_stream [1, 5], demo_stream [2, 3]]"
  obtain out where out: "merge_streams first_smallest ?ss = Some out"
    "\<forall>i<length ?ss. map snd (filter (\<lambda>x. fst x = i) out) = drop (cs_cursor (?ss ! i)) (cs_entries (?ss ! i))"
    "(\<forall>s\<in>set ?ss. sorted (map e_timestamp (drop (cs_cursor s) (cs_entries s)))) \<longrightarrow> sorted (map (e_timestamp \<circ> snd) out)"
    using merge_is_ordered_shuffle [OF first_smallest_ok, of ?ss] by blast
  have "1 < length ?ss"
    by simp
  from out(2) [rule_format, OF this] have "map snd (filter (\<lambda>x. fst x = 1) out) = [demo_entry 2, demo_entry 3]"
    by (simp add: demo_stream_def)
  moreover have "\<forall>s\<in>set ?ss. sorted (map e_timestamp (drop (cs_cursor s) (cs_entries s)))"
    by (simp add: demo_stream_def demo_entry_def)
  ultimately show ?thesis
    using out(1) out(3) [THEN mp] by (intro exI [of _ out] conjI)
qed

text \<open>
  C35. From the entries drained by the workers to the log: with a module list written by the tool, parsing
  the files of all cores writes the text of every drained entry exactly once, and in the order of time if
  each core delivered its entries in order. The batches drained after the stop are included.
\<close>

theorem trace_log_is_complete:
  assumes "pick_ok pick" and "ms \<noteq> []" and "length ms < 2 ^ 32" and "\<forall>m\<in>set ms. NUL \<notin> set (m_name m) \<and> NUL \<notin> set (m_path m)"
    and "\<forall>d\<in>set ds. \<forall>e\<in>set (drained_entries d). length (e_data e) = max_data_fields"
    and "\<exists>d\<in>set ds. drained_entries d \<noteq> []"
  shows "\<exists>es tp. run_parser E vformat pick (export_modules ms) cfg_file (map drained_file ds) = Some (Some (format_all E vformat tp es)) \<and>
    tp_modules tp = map cut_module ms \<and> mset es = mset (concat (map drained_entries ds)) \<and>
    ((\<forall>d\<in>set ds. sorted (map e_timestamp (drained_entries d))) \<longrightarrow> sorted (map e_timestamp es))"
proof -
  define ss where "ss = map (\<lambda>d. \<lparr>cs_core_id = fst d, cs_entries = drained_entries d, cs_cursor = 0\<rparr>) (filter (\<lambda>d. drained_entries d \<noteq> []) ds)"
  have op: "open_trace_streams (map drained_file ds) = Some ss"
    using open_all_drained [OF assms(5,6)] by (simp add: ss_def)
  have "\<forall>s\<in>set ss. cs_cursor s = 0"
    by (simp add: ss_def)
  from merge_drained [OF assms(1) this] obtain out where out: "merge_streams pick ss = Some out"
    "mset (map snd out) = mset (concat (map cs_entries ss))"
    "(\<forall>s\<in>set ss. sorted (map e_timestamp (cs_entries s))) \<longrightarrow> sorted (map (e_timestamp \<circ> snd) out)"
    by blast
  have "map cs_entries ss = map drained_entries (filter (\<lambda>d. drained_entries d \<noteq> []) ds)"
    by (simp add: ss_def)
  then have "mset (map snd out) = mset (concat (map drained_entries ds))"
    using out(2) concat_drained [of ds] by simp
  moreover have "sorted (map e_timestamp (map snd out))" if "\<forall>d\<in>set ds. sorted (map e_timestamp (drained_entries d))"
    using out(3) that by (simp add: ss_def)
  moreover have "run_parser E vformat pick (export_modules ms) cfg_file (map drained_file ds) =
      Some (Some (format_all E vformat
        \<lparr>tp_modules = map cut_module ms, tp_cfg = load_trace_cfg cfg_file, tp_cache = (\<lambda>_. None), tp_tried = []\<rparr> (map snd out)))"
    using modules_read_back [OF assms(4,2,3)] by (simp add: run_parser_def op out(1))
  ultimately show ?thesis
    by (metis trace_parser.select_convs(1))
qed

lemma trace_log_is_complete_witness:
  "\<exists>es tp. run_parser demo_image_env (\<lambda>s v. None) first_smallest (export_modules [demo_module]) None
       (map drained_file [(0, [[demo_entry 1], []], [[demo_entry 5], []]), (1, [[demo_entry 2]], [[]])]) =
     Some (Some (format_all demo_image_env (\<lambda>s v. None) tp es)) \<and> mset es = {#demo_entry 1, demo_entry 5, demo_entry 2#} \<and> sorted (map e_timestamp es)"
proof -
  let ?ds = "[(0, [[demo_entry 1], []], [[demo_entry 5], []]), (1, [[demo_entry 2]], [[]])] :: drained_core list"
  have d: "map drained_entries ?ds = [[demo_entry 1, demo_entry 5], [demo_entry 2]]"
    by (simp add: drained_entries_def)
  have data: "length (e_data (demo_entry t)) = max_data_fields" for t
    by (simp add: demo_entry_def max_data_fields_def)
  have 1: "\<forall>d\<in>set ?ds. \<forall>e\<in>set (drained_entries d). length (e_data e) = max_data_fields" "\<exists>d\<in>set ?ds. drained_entries d \<noteq> []"
    "\<forall>d\<in>set ?ds. sorted (map e_timestamp (drained_entries d))"
    by (simp_all add: drained_entries_def data) (simp_all add: demo_entry_def)
  have 2: "\<forall>m\<in>set [demo_module]. NUL \<notin> set (m_name m) \<and> NUL \<notin> set (m_path m)"
    by (simp add: demo_module_def NUL_def)
  show ?thesis
    using trace_log_is_complete [OF first_smallest_ok _ _ 2 1(1,2), of demo_image_env "\<lambda>s v. None" None] 1(3)
    unfolding d by (auto simp: add_mset_commute)
qed

end
