(* ===== verification/Um_Hypercall.thy ===== *)
theory Um_Hypercall
  imports Hypercall
begin

text \<open>
  The hypercalls as user mode makes them (\<open>revhv-um/hypercall.cpp\<close>): memory transfers in chunks of a page,
  and the calls made on every core in turn. \<open>'w\<close> is the state of the world; a hypercall takes the core it is
  made on, its number and three arguments and yields RAX, or None for an exception, which every wrapper
  catches. A request in memory is passed as the record the pointer leads to.
\<close>

section \<open>Memory transfers\<close>

type_synonym 'w vmem_call = "'w \<Rightarrow> vmem_request \<Rightarrow> u64 option \<times> 'w"

text \<open>The loop both directions share, which ends early at an exception, at zero and at a short transfer.\<close>

partial_function (option) transfer_loop :: "'w vmem_call \<Rightarrow> u64 \<Rightarrow> u64 \<Rightarrow> u64 \<Rightarrow> u64 \<Rightarrow> u64 \<Rightarrow> 'w \<Rightarrow> (u64 \<times> 'w) option" where
  "transfer_loop call buffer target_va sz target_cr3 total_bytes w =
     (if total_bytes < sz
      then let chunk_size = min (sz - total_bytes) MAX_VMEM_CHUNK_SIZE;
               (r, w') = call w \<lparr>rq_guest_buffer = buffer + total_bytes, rq_target_va = target_va + total_bytes,
                 rq_size = chunk_size, rq_target_cr3 = target_cr3\<rparr> in
        (case r of None \<Rightarrow> Some (total_bytes, w')
         | Some n \<Rightarrow>
             if n = 0 then Some (total_bytes, w')
             else if n < chunk_size then Some (total_bytes + n, w')
             else transfer_loop call buffer target_va sz target_cr3 (total_bytes + n) w')
      else Some (total_bytes, w))"

definition read_vmemory :: "'w vmem_call \<Rightarrow> u64 \<Rightarrow> u64 \<Rightarrow> u64 \<Rightarrow> u64 \<Rightarrow> 'w \<Rightarrow> (u64 \<times> 'w) option" where
  "read_vmemory read_vmem target_va out_buffer sz target_cr3 w =
     (if out_buffer = 0 \<or> sz = 0 then Some (0, w) else transfer_loop read_vmem out_buffer target_va sz target_cr3 0 w)"

definition write_vmemory :: "'w vmem_call \<Rightarrow> u64 \<Rightarrow> u64 \<Rightarrow> u64 \<Rightarrow> u64 \<Rightarrow> 'w \<Rightarrow> (u64 \<times> 'w) option" where
  "write_vmemory write_vmem target_va in_buffer sz target_cr3 w =
     (if in_buffer = 0 \<or> sz = 0 then Some (0, w) else transfer_loop write_vmem in_buffer target_va sz target_cr3 0 w)"

section \<open>Calls on all cores\<close>

text \<open>A hypercall on a core with its number and arguments.\<close>

type_synonym 'w um_vmcall = "nat \<Rightarrow> u64 \<Rightarrow> u64 \<Rightarrow> u64 \<Rightarrow> 'w \<Rightarrow> u64 option \<times> 'w"

text \<open>\<open>accepted\<close> says which answers count as success; a failure does not keep the other cores from being asked.\<close>

fun for_each_cpu :: "(u64 option \<Rightarrow> bool) \<Rightarrow> (nat \<Rightarrow> 'w \<Rightarrow> u64 option \<times> 'w) \<Rightarrow> nat list \<Rightarrow> bool \<Rightarrow> 'w \<Rightarrow> bool \<times> 'w" where
  "for_each_cpu accepted call [] success w = (success, w)"
| "for_each_cpu accepted call (i # is) success w =
     (let (r, w') = call i w in for_each_cpu accepted call is (success \<and> accepted r) w')"

definition nonzero_answer :: "u64 option \<Rightarrow> bool" where
  "nonzero_answer r \<longleftrightarrow> (case r of None \<Rightarrow> False | Some v \<Rightarrow> v \<noteq> 0)"

definition auto_trace_enable :: "'w um_vmcall \<Rightarrow> nat \<Rightarrow> u64 \<Rightarrow> u64 \<Rightarrow> 'w \<Rightarrow> bool \<times> 'w" where
  "auto_trace_enable vmcall cpus target_va range_size w =
     for_each_cpu nonzero_answer (\<lambda>i. vmcall i 6 target_va range_size) [0..<cpus] True w"

definition config_ept_transition :: "'w um_vmcall \<Rightarrow> nat \<Rightarrow> u64 \<Rightarrow> u64 \<Rightarrow> 'w \<Rightarrow> bool \<times> 'w" where
  "config_ept_transition vmcall cpus scope request w =
     for_each_cpu nonzero_answer (\<lambda>i. vmcall i 11 scope request) [0..<cpus] True w"

definition auto_trace_disable :: "'w um_vmcall \<Rightarrow> nat \<Rightarrow> 'w \<Rightarrow> bool \<times> 'w" where
  "auto_trace_disable vmcall cpus w =
     for_each_cpu (\<lambda>r. r \<noteq> None) (\<lambda>i. vmcall i 7 0 0) [0..<cpus] True w"

section \<open>Calls on the current core\<close>

definition ping_hv :: "(u64 \<Rightarrow> 'w \<Rightarrow> u64 option \<times> 'w) \<Rightarrow> 'w \<Rightarrow> bool \<times> 'w" where
  "ping_hv vmcall w = (let (r, w') = vmcall 1 w in (r = Some 1, w'))"

text \<open>The messages the caller gets: the vector is cut to the number flushed; None is a failure.\<close>

definition flush_std_logs :: "('w \<Rightarrow> u64 option \<times> 'm list \<times> 'w) \<Rightarrow> 'w \<Rightarrow> 'm list option \<times> 'w" where
  "flush_std_logs call w =
     (let (r, buffer, w') = call w in (case r of None \<Rightarrow> None | Some flushed \<Rightarrow> Some (take (unat flushed) buffer), w'))"

definition drain_trace_logs :: "('w \<Rightarrow> u64 option \<times> 'w) \<Rightarrow> 'w \<Rightarrow> u64 \<times> 'w" where
  "drain_trace_logs call w = (let (r, w') = call w in (case r of None \<Rightarrow> 0 | Some n \<Rightarrow> n, w'))"

text \<open>The structure is zero before the call; the call returns RAX and what it wrote.\<close>

definition retrieve_apic_info :: "('w \<Rightarrow> u64 option \<times> (u64 \<times> bool) \<times> 'w) \<Rightarrow> 'w \<Rightarrow> (u64 \<times> bool) option \<times> 'w" where
  "retrieve_apic_info call w =
     (let (r, info, w') = call w in (case r of None \<Rightarrow> None | Some v \<Rightarrow> if v = 0 then None else Some info, w'))"

definition onload_request :: "string \<Rightarrow> string" where
  "onload_request driver_name =
     (let len = min (length driver_name) (max_onload_name_length - 1) in
      take len driver_name @ replicate (max_onload_name_length - len) CHR 0x00)"

text \<open>\<open>driver_name\<close> is None for a null pointer.\<close>

definition onload_target_set :: "(string \<Rightarrow> 'w \<Rightarrow> u64 option \<times> 'w) \<Rightarrow> string option \<Rightarrow> 'w \<Rightarrow> bool \<times> 'w" where
  "onload_target_set call driver_name w =
     (case driver_name of None \<Rightarrow> (False, w)
      | Some s \<Rightarrow> if s = [] then (False, w) else let (r, w') = call (onload_request s) w in (nonzero_answer r, w'))"

definition onload_target_clear :: "('w \<Rightarrow> u64 option \<times> 'w) \<Rightarrow> 'w \<Rightarrow> bool \<times> 'w" where
  "onload_target_clear call w = (let (r, w') = call w in (nonzero_answer r, w'))"

section \<open>A transfer without chunks\<close>

text \<open>
  What the hypercall does with a chunk when its own buffer is mapped: with \<open>avail\<close> the addresses of the
  target that can be accessed, it copies the bytes up to the first that cannot.
\<close>

definition prefix_length :: "(u64 \<Rightarrow> bool) \<Rightarrow> u64 \<Rightarrow> nat \<Rightarrow> nat" where
  "prefix_length avail va n = length (takeWhile (\<lambda>i. avail (va + of_nat i)) [0..<n])"

text \<open>The buffer after \<open>n\<close> bytes of the target were copied to it.\<close>

definition copy_in :: "(u64 \<Rightarrow> u8) \<Rightarrow> u64 \<Rightarrow> u64 \<Rightarrow> nat \<Rightarrow> (u64 \<Rightarrow> u8) \<Rightarrow> u64 \<Rightarrow> u8" where
  "copy_in target va buffer n m = (\<lambda>x. if unat (x - buffer) < n then target (va + (x - buffer)) else m x)"

definition reads_prefix :: "(u64 \<Rightarrow> bool) \<Rightarrow> (u64 \<Rightarrow> u8) \<Rightarrow> (u64 \<Rightarrow> u8) vmem_call \<Rightarrow> bool" where
  "reads_prefix avail target call \<longleftrightarrow>
     (\<forall>m rq. rq_size rq \<le> MAX_VMEM_CHUNK_SIZE \<longrightarrow>
       (let n = prefix_length avail (rq_target_va rq) (unat (rq_size rq)) in
        call m rq = (Some (of_nat n), copy_in target (rq_target_va rq) (rq_guest_buffer rq) n m)))"

lemma reads_prefixD:
  "reads_prefix avail target call \<Longrightarrow> c \<le> MAX_VMEM_CHUNK_SIZE \<Longrightarrow>
    call m \<lparr>rq_guest_buffer = b, rq_target_va = va, rq_size = c, rq_target_cr3 = cr3\<rparr> =
      (Some (of_nat (prefix_length avail va (unat c))), copy_in target va b (prefix_length avail va (unat c)) m)"
  by (simp add: reads_prefix_def Let_def)

lemma prefix_le: "prefix_length avail va n \<le> n"
  unfolding prefix_length_def by (metis diff_zero length_takeWhile_le length_upt)

lemma prefix_all: "prefix_length avail va k = k \<longleftrightarrow> (\<forall>i<k. avail (va + of_nat i))"
proof -
  have "prefix_length avail va k = k \<longleftrightarrow> takeWhile (\<lambda>i. avail (va + of_nat i)) [0..<k] = [0..<k]"
    unfolding prefix_length_def by (metis diff_zero length_upt takeWhile_eq_take take_all order_refl)
  also have "\<dots> \<longleftrightarrow> (\<forall>i<k. avail (va + of_nat i))"
    by (auto simp: takeWhile_eq_all_conv)
  finally show ?thesis .
qed

lemma prefix_split:
  "prefix_length avail va (k + n) =
    (if prefix_length avail va k = k then k + prefix_length avail (va + of_nat k) n else prefix_length avail va k)"
proof -
  have "[0..<k + n] = [0..<k] @ [k..<k + n]"
    by (rule upt_add_eq_append) simp
  moreover have "map (\<lambda>i. i + k) [0..<n] = [k..<n + k]"
    by (rule map_add_upt)
  ultimately have s: "[0..<k + n] = [0..<k] @ map (\<lambda>i. i + k) [0..<n]"
    by (simp only: add.commute)
  show ?thesis
  proof (cases "prefix_length avail va k = k")
    case True
    then have "\<forall>i\<in>set [0..<k]. avail (va + of_nat i)"
      by (simp add: prefix_all)
    then have "takeWhile (\<lambda>i. avail (va + of_nat i)) [0..<k + n] =
        [0..<k] @ takeWhile (\<lambda>i. avail (va + of_nat i)) (map (\<lambda>i. i + k) [0..<n])"
      unfolding s by (intro takeWhile_append2) blast
    moreover have "(\<lambda>i. avail (va + of_nat i)) \<circ> (\<lambda>i. i + k) = (\<lambda>i. avail (va + of_nat k + of_nat i))"
      by (simp add: fun_eq_iff add.assoc add.commute [of "of_nat k"])
    ultimately have "length (takeWhile (\<lambda>i. avail (va + of_nat i)) [0..<k + n]) =
        k + length (takeWhile (\<lambda>i. avail (va + of_nat k + of_nat i)) [0..<n])"
      by (simp only: takeWhile_map length_append length_map length_upt minus_nat.diff_0)
    then show ?thesis
      using True unfolding prefix_length_def by simp
  next
    case False
    then obtain i where "i < k" "\<not> avail (va + of_nat i)"
      by (auto simp: prefix_all)
    then have "takeWhile (\<lambda>i. avail (va + of_nat i)) [0..<k + n] = takeWhile (\<lambda>i. avail (va + of_nat i)) [0..<k]"
      unfolding s by (intro takeWhile_append1 [of i]) simp_all
    then show ?thesis
      using False by (simp add: prefix_length_def)
  qed
qed

lemma copy_in_more:
  assumes "k + n < 2 ^ 64"
  shows "copy_in target (va + of_nat k) (buffer + of_nat k) n (copy_in target va buffer k m) = copy_in target va buffer (k + n) m"
proof
  fix x
  define d where "d = x - buffer"
  have x: "x - (buffer + of_nat k) = d - of_nat k"
    by (simp add: d_def)
  have k: "unat (of_nat k :: u64) = k"
    using assms by (intro unat_of_nat_64) simp
  show "copy_in target (va + of_nat k) (buffer + of_nat k) n (copy_in target va buffer k m) x = copy_in target va buffer (k + n) m x"
  proof (cases "unat d < k")
    case True
    then have "unat (d - of_nat k) = 2 ^ 64 + unat d - k"
      using k by (simp add: unat_sub_if')
    then have "\<not> unat (d - of_nat k) < n"
      using assms by simp
    then show ?thesis
      using True by (simp add: copy_in_def x flip: d_def)
  next
    case False
    then have "unat (d - of_nat k) = unat d - k"
      using k by (simp add: unat_sub word_le_nat_alt)
    then show ?thesis
      using False by (simp add: copy_in_def x flip: d_def) linarith
  qed
qed

lemma prefix_chunk:
  assumes "prefix_length avail va k = k" and "c \<le> n" and "m = prefix_length avail (va + of_nat k) c" and "m < c"
  shows "prefix_length avail va (k + n) = k + m"
proof -
  have "prefix_length avail (va + of_nat k) (c + (n - c)) = m"
    using assms(3,4) by (simp only: prefix_split [of _ _ c]) simp
  then show ?thesis
    using assms(1,2) by (simp add: prefix_split [of _ _ k])
qed

lemma transfer_loop_prefix:
  assumes "reads_prefix avail target call" and "total_bytes \<le> sz" and "prefix_length avail va (unat total_bytes) = unat total_bytes"
  shows "transfer_loop call buffer va sz cr3 total_bytes (copy_in target va buffer (unat total_bytes) m) =
    Some (of_nat (prefix_length avail va (unat sz)), copy_in target va buffer (prefix_length avail va (unat sz)) m)"
  using assms(2,3)
proof (induction "unat sz - unat total_bytes" arbitrary: total_bytes rule: less_induct)
  case less
  define k where "k = unat total_bytes"
  have tb: "total_bytes = of_nat k"
    by (simp add: k_def)
  show ?case
  proof (cases "total_bytes < sz")
    case False
    then have "total_bytes = sz"
      using less.prems(1) by simp
    then show ?thesis
      using less.prems(2) by (simp add: transfer_loop.simps)
  next
    case True
    define chunk where "chunk = min (sz - total_bytes) MAX_VMEM_CHUNK_SIZE"
    define c where "c = unat chunk"
    define n where "n = prefix_length avail (va + total_bytes) c"
    have "unat (sz - total_bytes) = unat sz - k"
      unfolding k_def by (rule unat_sub) (use less.prems(1) in simp)
    moreover have "k < unat sz" "unat sz < 2 ^ 64"
      using True by (simp_all add: k_def word_less_nat_alt)
    ultimately have room: "unat (sz - total_bytes) = unat sz - k" "k < unat sz" "unat sz < 2 ^ 64" .
    have "0 < sz - total_bytes"
      using room(1,2) by (simp add: word_less_nat_alt)
    then have "chunk \<le> sz - total_bytes" "0 < chunk"
      by (simp_all add: chunk_def MAX_VMEM_CHUNK_SIZE_def)
    then have c: "0 < c" "c \<le> unat sz - k"
      using room(1) by (simp_all add: c_def word_le_nat_alt word_less_nat_alt)
    have nc: "n \<le> c"
      unfolding n_def by (rule prefix_le)
    then have "n < 2 ^ 64"
      using c(2) room(3) by linarith
    with nc have n: "n \<le> c" "unat (of_nat n :: u64) = n"
      by (simp_all only: unat_of_nat_64)
    let ?m = "copy_in target va buffer k m"
    let ?rq = "\<lparr>rq_guest_buffer = buffer + total_bytes, rq_target_va = va + total_bytes, rq_size = chunk, rq_target_cr3 = cr3\<rparr>"
    have "k + n < 2 ^ 64"
      using n(1) c(2) room by linarith
    then have call: "call ?m ?rq = (Some (of_nat n), copy_in target va buffer (k + n) m)"
    proof -
      have "chunk \<le> MAX_VMEM_CHUNK_SIZE"
        by (simp add: chunk_def)
      from reads_prefixD [OF assms(1) this] have "call ?m ?rq = (Some (of_nat n), copy_in target (va + total_bytes) (buffer + total_bytes) n ?m)"
        unfolding n_def c_def .
      then show ?thesis
        unfolding tb copy_in_more [OF \<open>k + n < 2 ^ 64\<close>] .
    qed
    show ?thesis
    proof (cases "n < c")
      case True
      have "prefix_length avail va (k + (unat sz - k)) = k + n"
        by (rule prefix_chunk [OF less.prems(2) [folded k_def] c(2) _ True]) (unfold n_def tb, rule refl)
      then have "prefix_length avail va (unat sz) = k + n"
        using room(2) by simp
      moreover have "of_nat n < chunk"
        using True n(2) by (simp add: word_less_nat_alt c_def)
      ultimately show ?thesis
        using \<open>total_bytes < sz\<close> call n(2)
        by (subst transfer_loop.simps) (auto simp: Let_def chunk_def [symmetric] k_def [symmetric] intro!: tb)
    next
      case False
      then have nc: "n = c"
        using n(1) by simp
      have sum: "unat (total_bytes + of_nat n) = k + n"
        using \<open>k + n < 2 ^ 64\<close> n(2) by (simp add: unat_add_no_wrap k_def)
      have "prefix_length avail va (k + n) = k + n"
        using less.prems(2) nc by (simp add: prefix_split k_def) (simp add: n_def k_def)
      moreover have "total_bytes + of_nat n \<le> sz"
        using sum c(2) nc room(2) by (simp add: word_le_nat_alt)
      moreover have "unat sz - unat (total_bytes + of_nat n) < unat sz - unat total_bytes"
        using sum c(1) nc room(2) by (simp add: k_def)
      ultimately have "transfer_loop call buffer va sz cr3 (total_bytes + of_nat n) (copy_in target va buffer (k + n) m) =
          Some (of_nat (prefix_length avail va (unat sz)), copy_in target va buffer (prefix_length avail va (unat sz)) m)"
        using less.hyps [of "total_bytes + of_nat n"] sum by simp
      moreover have "(of_nat n :: u64) \<noteq> 0" "\<not> of_nat n < chunk"
        using nc c(1) n(2) by (auto simp: word_less_nat_alt c_def)
      ultimately show ?thesis
        using \<open>total_bytes < sz\<close> call
        by (subst transfer_loop.simps) (simp add: Let_def chunk_def [symmetric] k_def [symmetric])
    qed
  qed
qed

section \<open>Properties\<close>


definition demo_call :: "(u64 \<Rightarrow> u8) vmem_call" where
  "demo_call m rq =
     (let n = prefix_length (\<lambda>a. a < 0x5000) (rq_target_va rq) (unat (rq_size rq)) in
      (Some (of_nat n), copy_in ucast (rq_target_va rq) (rq_guest_buffer rq) n m))"

lemma demo_prefix: "prefix_length (\<lambda>a. a < 0x5000) 0x4000 0x1800 = 0x1000"
proof -
  have "unat (0x4000 + of_nat i :: u64) = 0x4000 + i" if "i < 0x1000" for i
    using that by (subst unat_add_no_wrap) (simp_all add: unat_of_nat_64)
  then have "prefix_length (\<lambda>a. a < 0x5000) 0x4000 0x1000 = 0x1000"
    unfolding prefix_all by (simp add: word_less_nat_alt)
  moreover have "prefix_length (\<lambda>a. a < 0x5000) 0x5000 0x800 = 0"
  proof -
    have "[0..<0x800] = 0 # [Suc 0..<0x800]"
      by (rule upt_conv_Cons) simp
    then show ?thesis
      by (simp only: prefix_length_def takeWhile.simps semiring_1_class.of_nat_0 add_0_right less_irrefl if_False list.size)
  qed
  ultimately show ?thesis
    using prefix_split [of "\<lambda>a. a < 0x5000" "0x4000" "0x1000" "0x800"] by simp
qed


end
