(* ===== verification/Cmd_Text.thy ===== *)
theory Cmd_Text
  imports Trace_Merge
begin

text \<open>
  The text side of the command line (\<open>revhv-um/commands.cpp\<close>): splitting a line into tokens, numbers, names
  of data fields, and the rows of a memory dump. A byte of memory is a character, as in the exported files.
\<close>

section \<open>Tokens\<close>

definition to_lower :: "string \<Rightarrow> string" where "to_lower s = map tolower s"

definition join_tokens :: "string list \<Rightarrow> nat \<Rightarrow> string" where
  "join_tokens tokens start = foldl (\<lambda>r t. (if r \<noteq> [] then r @ '' '' else r) @ t) [] (drop start tokens)"

definition quote :: char where "quote = CHR 0x22"

text \<open>A token in quotes ends at the next quote or with the line, any other one at white space.\<close>

function tokenize :: "string \<Rightarrow> string list" where
  "tokenize line =
     (case dropWhile is_space line of [] \<Rightarrow> []
      | c # r \<Rightarrow>
          if c = quote then takeWhile (\<lambda>x. x \<noteq> quote) r # tokenize (tl (dropWhile (\<lambda>x. x \<noteq> quote) r))
          else takeWhile (\<lambda>x. \<not> is_space x) (c # r) # tokenize (dropWhile (\<lambda>x. \<not> is_space x) (c # r)))"
  by pat_completeness auto

lemma dropWhile_shorter: "dropWhile P s = c # r \<Longrightarrow> length r < length s"
  by (metis length_Cons length_dropWhile_le less_eq_Suc_le)

termination tokenize
proof (relation "measure length")
  fix line c r
  assume d: "dropWhile is_space line = c # r"
  then have s: "length r < length line"
    by (rule dropWhile_shorter)
  show "(tl (dropWhile (\<lambda>x. x \<noteq> quote) r), line) \<in> measure length" if "c = quote"
    using s length_dropWhile_le [of "\<lambda>x. x \<noteq> quote" r] by simp
  have "\<not> is_space c"
    using d by (metis hd_dropWhile list.discI list.sel(1))
  then show "(dropWhile (\<lambda>x. \<not> is_space x) (c # r), line) \<in> measure length" if "c \<noteq> quote"
    using s length_dropWhile_le [of "\<lambda>x. \<not> is_space x" r] by simp
qed simp

declare tokenize.simps [simp del]

section \<open>Numbers\<close>

text \<open>\<open>std::from_chars\<close> in base 16, of the whole text.\<close>

definition from_chars_16 :: "string \<Rightarrow> u64 option" where
  "from_chars_16 s =
     (if s \<noteq> [] \<and> (\<forall>c\<in>set s. is_hex c) \<and> hex_value s < 2 ^ 64 then Some (of_nat (hex_value s)) else None)"

definition is_digit_separator :: "char \<Rightarrow> bool" where
  "is_digit_separator c \<longleftrightarrow> c = CHR 0x60 \<or> c = CHR 0x27 \<or> c = CHR ''_''"

text \<open>The base is 16 on every path.\<close>

definition parse_u64_token :: "string \<Rightarrow> u64 option" where
  "parse_u64_token token =
     (let sanitized = filter (\<lambda>c. \<not> is_digit_separator c) token in
      if sanitized = [] then None
      else if 2 < length sanitized \<and> sanitized ! 0 = CHR ''0'' \<and> sanitized ! 1 \<in> {CHR ''x'', CHR ''X''}
      then from_chars_16 (drop 2 sanitized)
      else if last sanitized \<in> {CHR ''h'', CHR ''H''} then from_chars_16 (butlast sanitized)
      else from_chars_16 sanitized)"

section \<open>Data fields\<close>

definition parse_data_field_name :: "string \<Rightarrow> ept_transition_data_field" where
  "parse_data_field_name name =
     (if name = ''rip'' then F_guest_rip else if name = ''rsp'' then F_guest_rsp else if name = ''rax'' then F_guest_rax
      else if name = ''rbx'' then F_guest_rbx else if name = ''rcx'' then F_guest_rcx else if name = ''rdx'' then F_guest_rdx
      else if name = ''rsi'' then F_guest_rsi else if name = ''rdi'' then F_guest_rdi else if name = ''rbp'' then F_guest_rbp
      else if name = ''r8'' then F_guest_r8 else if name = ''r9'' then F_guest_r9 else if name = ''r10'' then F_guest_r10
      else if name = ''r11'' then F_guest_r11 else if name = ''r12'' then F_guest_r12 else if name = ''r13'' then F_guest_r13
      else if name = ''r14'' then F_guest_r14 else if name = ''r15'' then F_guest_r15 else if name = ''retaddr'' then F_guest_retaddr
      else F_none)"

text \<open>The fields named from argument \<open>start\<close> on, at most six, the rest empty.\<close>

definition parse_data_map :: "string list \<Rightarrow> nat \<Rightarrow> ept_transition_cfg" where
  "parse_data_map args start =
     \<lparr>data_map = map (\<lambda>i. if start + i < length args then parse_data_field_name (to_lower (args ! (start + i))) else F_none)
       [0..<max_data_fields]\<rparr>"

section \<open>Rows of a dump\<close>

datatype dump_kind = Bytes | Words | Dwords | Qwords | Pointers

fun unit_size_for :: "dump_kind \<Rightarrow> nat" where
  "unit_size_for Bytes = 1" | "unit_size_for Words = 2" | "unit_size_for Dwords = 4"
| "unit_size_for Qwords = 8" | "unit_size_for Pointers = 8"

fun default_count :: "dump_kind \<Rightarrow> u64" where
  "default_count Bytes = 0x40" | "default_count Words = 0x20" | "default_count Dwords = 0x10"
| "default_count Qwords = 8" | "default_count Pointers = 8"

definition bytes_per_line :: nat where "bytes_per_line = 16"

text \<open>A number in at least \<open>w\<close> digits.\<close>

definition hex_padded :: "nat \<Rightarrow> nat \<Rightarrow> string" where
  "hex_padded w n = (let s = hex_digits n in replicate (w - length s) CHR ''0'' @ s)"

definition is_print :: "char \<Rightarrow> bool" where
  "is_print c \<longleftrightarrow> (let n = of_char c :: nat in 0x20 \<le> n \<and> n \<le> 0x7E)"

text \<open>A cell that is not completely read is blank.\<close>

definition dump_cell :: "nat \<Rightarrow> string \<Rightarrow> nat \<Rightarrow> nat \<Rightarrow> string" where
  "dump_cell unit_size buffer line_end at =
     (if at + unit_size \<le> line_end then hex_padded (2 * unit_size) (nat_of_bytes (member_at at unit_size buffer)) @ '' ''
      else replicate (2 * unit_size) CHR '' '' @ '' '')"

definition dump_line :: "dump_kind \<Rightarrow> u64 \<Rightarrow> string \<Rightarrow> nat \<Rightarrow> nat \<Rightarrow> string" where
  "dump_line kind start_address buffer bytes_read offset =
     (let line_bytes = min bytes_per_line (bytes_read - offset); unit_size = unit_size_for kind in
      hex16 (start_address + of_nat offset) @ ''  '' @
      concat (map (\<lambda>j. dump_cell unit_size buffer (offset + line_bytes) (offset + j * unit_size)) [0..<bytes_per_line div unit_size]) @
      (if kind = Bytes
       then '' |'' @ map (\<lambda>c. if is_print c then c else CHR ''.'') (member_at offset line_bytes buffer) @ ''|'' else []) @
      [CHR 0x0A])"

definition dump_lines :: "dump_kind \<Rightarrow> u64 \<Rightarrow> string \<Rightarrow> nat \<Rightarrow> string list" where
  "dump_lines kind start_address buffer bytes_read =
     map (\<lambda>i. dump_line kind start_address buffer bytes_read (i * bytes_per_line))
       [0..<(bytes_read + bytes_per_line - 1) div bytes_per_line]"

section \<open>Tokens read back\<close>

definition quoted :: "string \<Rightarrow> string" where "quoted t = quote # t @ [quote]"

definition command_text :: "string list \<Rightarrow> string" where
  "command_text ts = concat (map (\<lambda>t. quoted t @ '' '') ts)"

lemma quote_not_space [simp]: "\<not> is_space quote"
  by code_simp

lemma takeWhile_quoted:
  assumes "quote \<notin> set t"
  shows "takeWhile (\<lambda>x. x \<noteq> quote) (t @ quote # r) = t" and "dropWhile (\<lambda>x. x \<noteq> quote) (t @ quote # r) = quote # r"
  using assms by (induction t) auto

lemma tokenize_space: "is_space c \<Longrightarrow> tokenize (c # s) = tokenize s"
  by (simp add: tokenize.simps [of "c # s"] tokenize.simps [of s])

lemma tokenize_quoted:
  assumes "quote \<notin> set t"
  shows "tokenize (quoted t @ r) = t # tokenize r"
  using takeWhile_quoted [OF assms, of r] by (simp add: quoted_def tokenize.simps [of "quote # t @ quote # r"])

lemma tokenize_blank [simp]: "tokenize [] = []"
  by (simp add: tokenize.simps)

lemma tokenize_command_text:
  "\<forall>t\<in>set ts. quote \<notin> set t \<Longrightarrow> tokenize (command_text ts) = ts"
proof (induction ts)
  case (Cons t ts)
  have "is_space CHR '' ''"
    by (simp add: is_space_def)
  then show ?case
    using Cons tokenize_quoted [of t "'' '' @ command_text ts"] by (simp add: command_text_def tokenize_space)
qed (simp add: command_text_def)

section \<open>Numbers read back\<close>

lemma hex_value_zeros: "hex_value (replicate n CHR ''0'' @ s) = hex_value s"
proof (induction n)
  case (Suc n)
  have "hex_value_of CHR ''0'' = Some 0"
    by code_simp
  then show ?case
    using Suc by (simp add: hex_value_def)
qed simp

lemma hex_padded_props:
  "hex_padded w n \<noteq> []" "\<forall>c\<in>set (hex_padded w n). is_hex c" "hex_value (hex_padded w n) = n"
proof -
  have "is_hex CHR ''0''"
    by code_simp
  then show "\<forall>c\<in>set (hex_padded w n). is_hex c"
    using hex_digits_hex by (auto simp: hex_padded_def Let_def)
qed (simp_all add: hex_padded_def Let_def hex_value_zeros)

lemma hex16_padded: "hex16 a = hex_padded 16 (unat a)"
  by (simp add: hex16_def hex_padded_def to_hexstr_def)

lemma hexstr_padded: "to_hexstr a = hex_padded 0 (unat a)"
  by (simp add: hex_padded_def to_hexstr_def)

lemma from_chars_padded: "from_chars_16 (hex_padded w (unat a)) = Some a"
  using hex_padded_props [of w "unat a"] by (simp add: from_chars_16_def)

text \<open>The spellings of a number: with the prefix, with the suffix, or plain.\<close>

definition spellings :: "string \<Rightarrow> string set" where
  "spellings s = {s, ''0x'' @ s, ''0X'' @ s, s @ ''h'', s @ ''H''}"

lemma hex_not_h: "is_hex c \<Longrightarrow> c \<noteq> CHR ''h'' \<and> c \<noteq> CHR ''H'' \<and> \<not> is_digit_separator c"
proof -
  have "\<forall>c\<in>{CHR ''h'', CHR ''H'', CHR 0x60, CHR 0x27, CHR ''_''}. \<not> is_hex c"
    by code_simp
  then show "is_hex c \<Longrightarrow> ?thesis"
    by (auto simp: is_digit_separator_def)
qed

lemma parse_spelling:
  assumes s: "s \<noteq> []" "\<forall>c\<in>set s. is_hex c" and t: "filter (\<lambda>c. \<not> is_digit_separator c) t \<in> spellings s"
  shows "parse_u64_token t = from_chars_16 s"
proof -
  define u where "u = filter (\<lambda>c. \<not> is_digit_separator c) t"
  have l: "last s \<noteq> CHR ''h''" "last s \<noteq> CHR ''H''"
    using s hex_not_h [of "last s"] by simp_all
  have n: "\<not> (2 < length v \<and> v ! 0 = CHR ''0'' \<and> v ! 1 \<in> {CHR ''x'', CHR ''X''})"
    if "v = s @ w" "length w \<le> 1" for v w
  proof
    assume v: "2 < length v \<and> v ! 0 = CHR ''0'' \<and> v ! 1 \<in> {CHR ''x'', CHR ''X''}"
    then have "1 < length s"
      using that by simp
    then have "is_hex (v ! 1)"
      using s(2) that(1) by (simp add: nth_append)
    then show False
      using v hex_not_special(4) [of "v ! 1"] by auto
  qed
  consider "u = s" | x where "u = CHR ''0'' # x # s" "x \<in> {CHR ''x'', CHR ''X''}" | x where "u = s @ [x]" "x \<in> {CHR ''h'', CHR ''H''}"
    using t by (auto simp: spellings_def u_def)
  then show ?thesis
  proof cases
    case 1
    then show ?thesis
      using n [of u "[]"] s(1) l by (auto simp: parse_u64_token_def Let_def simp flip: u_def)
  next
    case 2
    then show ?thesis
      using s(1) by (simp add: parse_u64_token_def Let_def flip: u_def)
  next
    case 3
    then show ?thesis
      using n [of u "[x]"] by (auto simp: parse_u64_token_def Let_def simp flip: u_def)
  qed
qed

section \<open>Dumps read back\<close>

lemma tokenize_word:
  assumes "w \<noteq> []" "\<forall>c\<in>set w. \<not> is_space c" "hd w \<noteq> quote" "is_space c"
  shows "tokenize (w @ c # s) = w # tokenize s"
proof -
  obtain x r where w: "w = x # r"
    using assms(1) by (cases w) auto
  then have "takeWhile (\<lambda>x. \<not> is_space x) (r @ c # s) = r" "dropWhile (\<lambda>x. \<not> is_space x) (r @ c # s) = c # s"
    using assms(2,4) by (simp_all add: takeWhile_append dropWhile_append)
  then show ?thesis
    using w assms(2,3,4) by (simp add: tokenize.simps [of "x # r @ c # s"] tokenize_space)
qed

lemma tokenize_hex:
  assumes "is_space c"
  shows "tokenize (hex_padded w n @ c # s) = hex_padded w n # tokenize s"
proof -
  have "\<not> is_hex quote"
    by code_simp
  moreover have "is_hex (hd (hex_padded w n))"
    using hex_padded_props(2) [of w n] hd_in_set [OF hex_padded_props(1) [of w n]] by blast
  moreover have "\<forall>c\<in>set (hex_padded w n). \<not> is_space c"
    using hex_padded_props(2) [of w n] hex_not_special(1) by blast
  ultimately show ?thesis
    using hex_padded_props(1) [of w n] assms by (intro tokenize_word) auto
qed

lemma tokenize_blanks: "tokenize (replicate n CHR '' '' @ s) = tokenize s"
  by (induction n) (simp_all add: tokenize_space is_space_def)

definition cell_value :: "nat \<Rightarrow> string \<Rightarrow> nat \<Rightarrow> u64" where
  "cell_value unit_size buffer at = of_nat (nat_of_bytes (member_at at unit_size buffer))"

text \<open>The numbers of a line but the first, which is the address.\<close>

definition read_dump_line :: "string \<Rightarrow> u64 option list" where
  "read_dump_line line = map parse_u64_token (tl (tokenize line))"

lemma nat_of_bytes_bound: "nat_of_bytes s < 256 ^ length s"
proof (induction s)
  case (Cons c s)
  have "(of_char c :: nat) < 256"
    using of_char_mod_256 [of c] by (metis mod_less_divisor zero_less_numeral)
  then show ?case
    using Cons by (simp only: nat_of_bytes.simps length_Cons power_Suc)
qed simp

lemma parse_hex: "parse_u64_token (hex_padded w (unat a)) = Some a"
proof -
  have "filter (\<lambda>c. \<not> is_digit_separator c) (hex_padded w (unat a)) = hex_padded w (unat a)"
    using hex_padded_props(2) hex_not_h by (simp add: filter_id_conv)
  then show ?thesis
    using parse_spelling [OF hex_padded_props(1,2), of "hex_padded w (unat a)" w "unat a"] from_chars_padded
    by (simp add: spellings_def)
qed

lemma parse_cell:
  assumes "u \<le> 8"
  shows "parse_u64_token (hex_padded w (nat_of_bytes (member_at a u buffer))) = Some (cell_value u buffer a)"
proof -
  have "nat_of_bytes (member_at a u buffer) < 256 ^ u"
    by (rule less_le_trans [OF nat_of_bytes_bound power_increasing]) (simp_all add: member_at_def)
  also have "\<dots> \<le> 256 ^ 8"
    using assms by (intro power_increasing) simp_all
  finally have "unat (cell_value u buffer a) = nat_of_bytes (member_at a u buffer)"
    by (simp add: cell_value_def unat_of_nat_64)
  then show ?thesis
    using parse_hex [of w "cell_value u buffer a"] by simp
qed

lemma tokenize_cells:
  "tokenize (concat (map (\<lambda>j. dump_cell u buffer e (f j)) js) @ s) =
    map (\<lambda>j. hex_padded (2 * u) (nat_of_bytes (member_at (f j) u buffer))) (filter (\<lambda>j. f j + u \<le> e) js) @ tokenize s"
proof (induction js)
  case (Cons j js)
  have "is_space CHR '' ''"
    by (simp add: is_space_def)
  then show ?case
    using Cons by (simp add: dump_cell_def tokenize_hex tokenize_blanks tokenize_space)
qed simp

lemma read_line:
  assumes "kind \<in> {Words, Dwords, Qwords}" and u: "u = unit_size_for kind"
  shows "read_dump_line (dump_line kind a buffer n k) =
    map (\<lambda>j. Some (cell_value u buffer (k + j * u)))
      (filter (\<lambda>j. k + j * u + u \<le> k + min 16 (n - k)) [0..<16 div u])"
proof -
  have sp: "is_space CHR '' ''" "is_space CHR 0x0A" and u8: "u \<le> 8"
    using assms by (auto simp: is_space_def)
  have "tokenize [CHR 0x0A] = []"
    using sp by (simp add: tokenize_space)
  then have "tl (tokenize (dump_line kind a buffer n k)) =
      map (\<lambda>j. hex_padded (2 * u) (nat_of_bytes (member_at (k + j * u) u buffer)))
        (filter (\<lambda>j. k + j * u + u \<le> k + min 16 (n - k)) [0..<16 div u])"
    using assms(1) sp
    by (auto simp: dump_line_def Let_def hex16_padded tokenize_hex tokenize_space tokenize_cells bytes_per_line_def simp flip: u)
  then show ?thesis
    using parse_cell [OF u8] by (simp add: read_dump_line_def)
qed

lemma concat_rows: "concat (map (\<lambda>i. map (\<lambda>j. i * p + j) [0..<p]) [0..<m]) = [0..<m * p]"
proof (induction m)
  case (Suc m)
  have "[0..<m * p + p] = [0..<m * p] @ [m * p..<m * p + p]"
    by (rule upt_add_eq_append) simp
  moreover have "map (\<lambda>j. m * p + j) [0..<p] = [m * p..<m * p + p]"
    using map_add_upt [of "m * p" p] by (simp add: add.commute)
  ultimately show ?case
    using Suc by (simp add: add.commute [of p])
qed simp

lemma filter_upt_less: "k \<le> m \<Longrightarrow> filter (\<lambda>i. i < k) [0..<m] = [0..<k]"
proof -
  assume k: "k \<le> m"
  then have "[0..<m] = [0..<k] @ [k..<m]"
    using upt_add_eq_append [of 0 k "m - k"] by simp
  then show ?thesis
    by (simp add: filter_id_conv filter_empty_conv)
qed

text \<open>
  A dump is read back: from the lines printed for 2, 4 and 8 byte units, splitting each line and reading its
  numbers behind the address gives the little endian values of all units that were read completely, in order.
\<close>

theorem dump_reads_back:
  assumes "kind \<in> {Words, Dwords, Qwords}"
  shows "concat (map read_dump_line (dump_lines kind start_address buffer bytes_read)) =
    map (\<lambda>i. Some (cell_value (unit_size_for kind) buffer (i * unit_size_for kind))) [0..<bytes_read div unit_size_for kind]"
proof -
  define u where "u = unit_size_for kind"
  define p where "p = 16 div u"
  define m where "m = (bytes_read + 15) div 16"
  let ?v = "\<lambda>i. Some (cell_value u buffer (i * u))"
  have p: "p * u = 16" "0 < u"
    using assms by (auto simp: p_def u_def)
  have row: "read_dump_line (dump_line kind start_address buffer bytes_read (i * 16)) =
      map ?v (filter (\<lambda>k. k < bytes_read div u) (map (\<lambda>j. i * p + j) [0..<p]))" if "i < m" for i
  proof -
    have a: "i * 16 + j * u = (i * p + j) * u" for j
      using p(1) by (metis add_mult_distrib mult.assoc)
    have "i * 16 + j * u + u \<le> i * 16 + min 16 (bytes_read - i * 16) \<longleftrightarrow> i * p + j < bytes_read div u" if "j < p" for j
    proof -
      have "j * u + u \<le> 16"
        using that p(1) mult_le_mono1 [of "Suc j" p u] by simp
      moreover have "i * 16 \<le> bytes_read"
        using \<open>i < m\<close> unfolding m_def by linarith
      moreover have "i * p + j < bytes_read div u \<longleftrightarrow> (i * p + j) * u + u \<le> bytes_read"
        using p(2) by (simp add: less_eq_div_iff_mult_less_eq Suc_le_eq [symmetric] add.commute)
      ultimately show ?thesis
        using a [of j] by linarith
    qed
    then have "filter (\<lambda>j. i * 16 + j * u + u \<le> i * 16 + min 16 (bytes_read - i * 16)) [0..<p] =
        filter (\<lambda>j. i * p + j < bytes_read div u) [0..<p]"
      by (intro filter_cong) simp_all
    then show ?thesis
      using read_line [OF assms u_def, of start_address buffer bytes_read "i * 16"]
      by (simp only: p_def [symmetric] filter_map comp_def map_map a)
  qed
  have "map read_dump_line (dump_lines kind start_address buffer bytes_read) =
      map (\<lambda>i. map ?v (filter (\<lambda>k. k < bytes_read div u) (map (\<lambda>j. i * p + j) [0..<p]))) [0..<m]"
  proof -
    have "dump_lines kind start_address buffer bytes_read =
        map (\<lambda>i. dump_line kind start_address buffer bytes_read (i * 16)) [0..<m]"
      by (simp add: dump_lines_def bytes_per_line_def m_def add.commute)
    then show ?thesis
      using row by (auto simp only: map_map comp_def set_upt atLeastLessThan_iff intro!: map_cong)
  qed
  then have "concat (map read_dump_line (dump_lines kind start_address buffer bytes_read)) =
      map ?v (filter (\<lambda>k. k < bytes_read div u) (concat (map (\<lambda>i. map (\<lambda>j. i * p + j) [0..<p]) [0..<m])))"
    by (simp add: map_concat filter_concat comp_def)
  moreover have "bytes_read div u \<le> m * p"
  proof -
    have "bytes_read \<le> m * 16"
      unfolding m_def by linarith
    then have "bytes_read div u \<le> (m * p * u) div u"
      using p(1) by (intro div_le_mono) (simp add: mult.assoc)
    then show ?thesis
      using p(2) by simp
  qed
  ultimately show ?thesis
    by (simp only: concat_rows filter_upt_less u_def)
qed

lemma dump_reads_back_witness:
  "concat (map read_dump_line (dump_lines Dwords 0xFFFFF80000001000 (map char_of [0x78 :: nat, 0x56, 0x34, 0x12, 1, 0, 0, 0, 5, 6]) 10)) =
    [Some 0x12345678, Some 1]"
proof -
  have "[0..<10 div 4] = [0, 1 :: nat]"
    by code_simp
  then show ?thesis
    using dump_reads_back [of Dwords "0xFFFFF80000001000" "map char_of [0x78 :: nat, 0x56, 0x34, 0x12, 1, 0, 0, 0, 5, 6]" 10]
    by (simp add: cell_value_def member_at_def)
qed

text \<open>
  What is typed is what is understood: a line of quoted tokens without quotes inside is split into just these
  tokens, and every spelling of a number - plain, with prefix or suffix, with separators anywhere - of its digits with any number of leading zeros is read
  as the number.
\<close>

theorem input_is_understood:
  assumes "\<forall>t\<in>set ts. quote \<notin> set t" and "filter (\<lambda>c. \<not> is_digit_separator c) t \<in> spellings (hex_padded w (unat a))"
  shows "tokenize (command_text ts) = ts \<and> parse_u64_token t = Some a"
  using tokenize_command_text [OF assms(1)] parse_spelling [OF hex_padded_props(1,2) assms(2)] from_chars_padded by simp

lemma input_is_understood_witness:
  "tokenize (command_text [''at'', ''config'', ''a b'']) = [''at'', ''config'', ''a b''] \<and>
   parse_u64_token ''0xfffff80`0000_1000'' = Some 0xFFFFF8000001000"
proof -
  have "hex_padded 0 (unat (0xFFFFF8000001000 :: u64)) = ''fffff8000001000''"
    by (simp add: hex_padded_def hex_digits.simps hex_digit_def)
  then have "filter (\<lambda>c. \<not> is_digit_separator c) ''0xfffff80`0000_1000'' \<in> spellings (hex_padded 0 (unat (0xFFFFF8000001000 :: u64)))"
    by (simp add: spellings_def is_digit_separator_def)
  then show ?thesis
    using input_is_understood [of "[''at'', ''config'', ''a b'']" "''0xfffff80`0000_1000''" 0 "0xFFFFF8000001000"]
    by (simp add: quote_def)
qed

end
