(* ===== verification/Commands.thy ===== *)
theory Commands
  imports Cmd_Text Um_Hypercall
begin

text \<open>
  The command engine of the user mode tool (\<open>revhv-um/commands.cpp\<close>, the poller's start and stop of
  \<open>trace_poller.hpp\<close>): its state, one function per command, and \<open>execute_line\<close>. \<open>'w\<close> is the state of the
  world. Hypercalls, files, the console's input, the offline parser and the worker threads are operations on
  it; an exception that leaves a command is \<open>Inl\<close> with the state it leaves. The texts printed are
  kept where they are results; of the others (help, log messages) only that they appear.
\<close>

section \<open>State\<close>

datatype at_cfg_scope = Generic_scope | Exact_scope

record snapshot_job =
  sj_lookup_name :: string
  sj_path :: string

record engine =
  m_modules :: modules
  m_poller_running :: bool
  m_poller_workers :: nat
  m_output_dir :: string
  m_snapshot :: "snapshot_job option"
  m_snapshot_triggered :: bool
  m_generic_cfg :: ept_transition_cfg
  m_generic_fmt :: string
  m_exact_cfgs :: "exact_cfg list"

datatype message = Line string | Note | Caution | Failure | Help_shown

record 'w session =
  eng :: engine
  wld :: 'w
  said :: "message list"

type_synonym 'w run = "'w session + 'w session"

text \<open>
  What the engine calls. \<open>ce_read\<close> takes address, size and CR3 and yields the number of bytes read and the
  buffer; \<open>ce_allocate\<close> says which sizes a buffer can have; \<open>ce_write\<close> replaces a file and \<open>ce_parse\<close> runs the
  offline parser, None for an exception; \<open>ce_start_workers\<close> and \<open>ce_join_workers\<close> are the effects of the
  threads of the poller.
\<close>

record 'w cmd_env =
  ce_present :: bool
  ce_image :: "'w \<Rightarrow> image_env"
  ce_system_root :: string
  ce_reported :: "'w \<Rightarrow> system_module list option"
  ce_allocate :: "u64 \<Rightarrow> bool"
  ce_path :: "string \<Rightarrow> string \<Rightarrow> string"
  ce_create_directories :: "string \<Rightarrow> 'w \<Rightarrow> bool \<times> 'w"
  ce_write :: "string \<Rightarrow> string \<Rightarrow> 'w \<Rightarrow> bool \<times> 'w"
  ce_answer :: "'w \<Rightarrow> string \<times> 'w"
  ce_parse :: "string \<Rightarrow> string \<Rightarrow> string \<Rightarrow> 'w \<Rightarrow> bool option \<times> 'w"
  ce_cores :: nat
  ce_start_workers :: "string \<Rightarrow> 'w \<Rightarrow> 'w"
  ce_join_workers :: "'w \<Rightarrow> 'w"
  ce_read :: "u64 \<Rightarrow> u64 \<Rightarrow> u64 \<Rightarrow> 'w \<Rightarrow> (u64 \<times> string) \<times> 'w"
  ce_config :: "at_cfg_scope \<Rightarrow> u64 \<Rightarrow> ept_transition_cfg \<Rightarrow> 'w \<Rightarrow> bool \<times> 'w"
  ce_trace_enable :: "u64 \<Rightarrow> u64 \<Rightarrow> 'w \<Rightarrow> bool \<times> 'w"
  ce_trace_disable :: "'w \<Rightarrow> bool \<times> 'w"
  ce_onload_set :: "string \<Rightarrow> 'w \<Rightarrow> bool \<times> 'w"
  ce_onload_clear :: "'w \<Rightarrow> bool \<times> 'w"
  ce_apic :: "'w \<Rightarrow> (u64 \<times> bool) option \<times> 'w"
  ce_double_fault :: "'w \<Rightarrow> 'w"

definition then_run :: "'w run \<Rightarrow> ('w session \<Rightarrow> 'w run) \<Rightarrow> 'w run" where
  "then_run r f = (case r of Inl s \<Rightarrow> Inl s | Inr s \<Rightarrow> f s)"

definition say :: "message \<Rightarrow> 'w session \<Rightarrow> 'w session" where
  "say m s = s\<lparr>said := said s @ [m]\<rparr>"

definition tell :: "message list \<Rightarrow> 'w session \<Rightarrow> 'w run" where
  "tell ms s = Inr (s\<lparr>said := said s @ ms\<rparr>)"

definition on_engine :: "(engine \<Rightarrow> engine) \<Rightarrow> 'w session \<Rightarrow> 'w session" where
  "on_engine f s = s\<lparr>eng := f (eng s)\<rparr>"

definition call :: "('w \<Rightarrow> 'a \<times> 'w) \<Rightarrow> 'w session \<Rightarrow> 'a \<times> 'w session" where
  "call f s = (let (r, w) = f (wld s) in (r, s\<lparr>wld := w\<rparr>))"

section \<open>Modules and expressions\<close>

definition refresh_modules :: "'w cmd_env \<Rightarrow> 'w session \<Rightarrow> 'w run" where
  "refresh_modules E s =
     (case refresh (ce_system_root E) (ce_reported E (wld s)) (m_modules (eng s)) of None \<Rightarrow> Inl s
      | Some mo \<Rightarrow> Inr (on_engine (\<lambda>e. e\<lparr>m_modules := mo\<rparr>) s))"

definition parse_expression :: "'w cmd_env \<Rightarrow> string \<Rightarrow> 'w session \<Rightarrow> u64 option \<times> 'w session" where
  "parse_expression E token s =
     (case parse_u64_token token of Some v \<Rightarrow> (Some v, s)
      | None \<Rightarrow> (let (r, mo) = resolve_symbol (ce_image E (wld s)) (m_modules (eng s)) token
                 in (r, on_engine (\<lambda>e. e\<lparr>m_modules := mo\<rparr>) s)))"

definition address_name :: "'w cmd_env \<Rightarrow> u64 \<Rightarrow> 'w session \<Rightarrow> string \<times> 'w session" where
  "address_name E a s =
     (let (t, mo) = resolve_address (ce_image E (wld s)) (m_modules (eng s)) a in (t, on_engine (\<lambda>e. e\<lparr>m_modules := mo\<rparr>) s))"

text \<open>The line that \<open>ln\<close> and a bare expression print.\<close>

definition print_address :: "'w cmd_env \<Rightarrow> u64 \<Rightarrow> 'w session \<Rightarrow> 'w run" where
  "print_address E a s = (let (t, s1) = address_name E a s in tell [Line (hex16 a @ ''  '' @ t @ [CHR 0x0A])] s1)"

definition export_modules_to :: "'w cmd_env \<Rightarrow> string \<Rightarrow> 'w session \<Rightarrow> bool \<times> 'w session" where
  "export_modules_to E path s =
     (case export_modules (mo_list (m_modules (eng s))) of None \<Rightarrow> (False, s) | Some b \<Rightarrow> call (ce_write E path b) s)"

definition export_config_to :: "'w cmd_env \<Rightarrow> string \<Rightarrow> 'w session \<Rightarrow> bool \<times> 'w session" where
  "export_config_to E path s =
     (let e = eng s in call (ce_write E path (export_trace_config (m_generic_cfg e) (m_generic_fmt e) (m_exact_cfgs e))) s)"

definition wants_help :: "string list \<Rightarrow> bool" where
  "wants_help args \<longleftrightarrow> length args \<ge> 2 \<and> to_lower (args ! 1) = ''help''"

section \<open>The trace poller\<close>

text \<open>The flag is set before the directories are created, which can be an exception.\<close>

definition poller_start :: "'w cmd_env \<Rightarrow> string \<Rightarrow> 'w session \<Rightarrow> 'w run" where
  "poller_start E dir s =
     (if m_poller_running (eng s) then Inr s
      else let s1 = on_engine (\<lambda>e. e\<lparr>m_poller_running := True, m_output_dir := dir\<rparr>) s;
               (ok, s2) = call (ce_create_directories E dir) s1
        in if \<not> ok then Inl s2
           else tell [Note] (on_engine (\<lambda>e. e\<lparr>m_poller_workers := ce_cores E\<rparr>) (s2\<lparr>wld := ce_start_workers E dir (wld s2)\<rparr>)))"

definition poller_stop :: "'w cmd_env \<Rightarrow> 'w session \<Rightarrow> 'w session" where
  "poller_stop E s =
     (if \<not> m_poller_running (eng s) then s
      else say Note (on_engine (\<lambda>e. e\<lparr>m_poller_running := False, m_poller_workers := 0\<rparr>) (s\<lparr>wld := ce_join_workers E (wld s)\<rparr>)))"

definition stop_trace_poller :: "'w cmd_env \<Rightarrow> 'w session \<Rightarrow> 'w session" where
  "stop_trace_poller E s = on_engine (\<lambda>e. e\<lparr>m_snapshot := None\<rparr>) (poller_stop E s)"

section \<open>Dumping memory\<close>

fun pointer_lines :: "'w cmd_env \<Rightarrow> u64 \<Rightarrow> string \<Rightarrow> nat list \<Rightarrow> 'w session \<Rightarrow> 'w session" where
  "pointer_lines E start buffer [] s = s"
| "pointer_lines E start buffer (i # is) s =
     (let v = of_nat (nat_of_bytes (member_at (i * 8) 8 buffer)) :: u64; (t, s1) = address_name E v s
      in pointer_lines E start buffer is
           (say (Line (hex16 (start + of_nat (i * 8)) @ ''  '' @ hex16 v @ ''  '' @ t @ [CHR 0x0A])) s1))"

definition show_dump :: "'w cmd_env \<Rightarrow> dump_kind \<Rightarrow> u64 \<Rightarrow> u64 \<Rightarrow> u64 \<Rightarrow> string \<Rightarrow> 'w session \<Rightarrow> 'w run" where
  "show_dump E kind start byte_count bytes_read buffer s =
     (let short = (if bytes_read < byte_count then [Caution] else []) in
      if kind = Pointers
      then let pointer_count = unat bytes_read div 8
           in tell ((if pointer_count = 0 then [Caution] else []) @ short) (pointer_lines E start buffer [0..<pointer_count] s)
      else tell (map Line (dump_lines kind start buffer (unat bytes_read)) @ short) s)"

definition dump_memory :: "'w cmd_env \<Rightarrow> dump_kind \<Rightarrow> u64 \<Rightarrow> u64 \<Rightarrow> u64 \<Rightarrow> 'w session \<Rightarrow> 'w run" where
  "dump_memory E kind start n target_cr3 s =
     (let unit_size = of_nat (unit_size_for kind) :: u64; byte_count = n * unit_size in
      if n > (- 1) div unit_size then tell [Failure] s
      else if \<not> ce_allocate E byte_count then Inl s
      else let ((bytes_read, buffer), s1) = call (ce_read E start byte_count target_cr3) s
        in if bytes_read = 0 then tell [Failure] s1 else show_dump E kind start byte_count bytes_read buffer s1)"

definition handle_dump :: "'w cmd_env \<Rightarrow> dump_kind \<Rightarrow> string list \<Rightarrow> 'w session \<Rightarrow> 'w run" where
  "handle_dump E kind args s =
     (if wants_help args then tell [Help_shown] s
      else if \<not> ce_present E then tell [Failure] s
      else if length args < 2 then tell [Caution, Help_shown] s
      else then_run (refresh_modules E s) (\<lambda>s1.
        case parse_expression E (args ! 1) s1 of
          (None, s2) \<Rightarrow> tell [Caution, Help_shown] s2
        | (Some start, s2) \<Rightarrow>
            (case if length args \<ge> 3 then parse_u64_token (args ! 2) else Some (default_count kind) of
               None \<Rightarrow> tell [Caution, Help_shown] s2
             | Some n \<Rightarrow>
                 if n = 0 then tell [Caution, Help_shown] s2
                 else (case if length args \<ge> 4 then parse_u64_token (args ! 3) else Some 0 of
                     None \<Rightarrow> tell [Caution, Help_shown] s2
                   | Some target_cr3 \<Rightarrow>
                       if length args > 4 then tell [Caution, Help_shown] s2
                       else dump_memory E kind start n target_cr3 s2))))"

section \<open>Names and modules\<close>

definition handle_ln :: "'w cmd_env \<Rightarrow> string list \<Rightarrow> 'w session \<Rightarrow> 'w run" where
  "handle_ln E args s =
     (if wants_help args then tell [Help_shown] s
      else if length args \<noteq> 2 then tell [Caution, Help_shown] s
      else then_run (refresh_modules E s) (\<lambda>s1.
        case parse_expression E (args ! 1) s1 of
          (None, s2) \<Rightarrow> tell [Caution, Help_shown] s2
        | (Some a, s2) \<Rightarrow> print_address E a s2))"

definition contains_text :: "string \<Rightarrow> string \<Rightarrow> bool" where
  "contains_text p s \<longleftrightarrow> (\<exists>i\<in>set [0..<Suc (length s)]. starts_with p (drop i s))"

definition module_matches :: "string \<Rightarrow> kmodule \<Rightarrow> bool" where
  "module_matches key m \<longleftrightarrow> key = [] \<or> contains_text key (to_lower (m_name m)) \<or> contains_text key (to_lower (m_path m))"

definition module_line :: "kmodule \<Rightarrow> string" where
  "module_line m = hex16 (m_base m) @ '' '' @ hex16 (m_base m + m_size m) @ '' '' @
     m_name m @ replicate (24 - length (m_name m)) CHR '' '' @ '' '' @ m_path m @ [CHR 0x0A]"

definition handle_lm :: "'w cmd_env \<Rightarrow> string list \<Rightarrow> 'w session \<Rightarrow> 'w run" where
  "handle_lm E args s =
     (if wants_help args then tell [Help_shown] s
      else then_run (refresh_modules E s) (\<lambda>s1.
        if length args \<ge> 2 \<and> to_lower (args ! 1) = ''export''
        then if length args \<noteq> 3 then tell [Caution, Help_shown] s1
             else let (ok, s2) = export_modules_to E (args ! 2) s1
               in tell [if ok then Line (''Modules exported to '' @ args ! 2 @ [CHR 0x0A]) else Failure] s2
        else let key = (if length args > 1 then to_lower (join_tokens args 1) else []);
                 found = filter (module_matches key) (mo_list (m_modules (eng s1)))
          in tell (map (\<lambda>m. Line (module_line m)) found @ (if found = [] then [Caution] else [])) s1))"

section \<open>Transition configurations\<close>

text \<open>The first entry of an address changed; None if there is none.\<close>

fun change_exact :: "u64 \<Rightarrow> (exact_cfg \<Rightarrow> exact_cfg) \<Rightarrow> exact_cfg list \<Rightarrow> exact_cfg list option" where
  "change_exact a f [] = None"
| "change_exact a f (x # xs) = (if x_addr x = a then Some (f x # xs) else map_option (Cons x) (change_exact a f xs))"

definition change_format :: "'w cmd_env \<Rightarrow> string \<Rightarrow> string \<Rightarrow> 'w session \<Rightarrow> 'w run" where
  "change_format E expression fmt s =
     (case parse_expression E expression s of (None, s1) \<Rightarrow> tell [Caution] s1
      | (Some a, s1) \<Rightarrow>
          (case change_exact a (\<lambda>x. x\<lparr>x_fmt := fmt\<rparr>) (m_exact_cfgs (eng s1)) of None \<Rightarrow> tell [Caution] s1
           | Some xs \<Rightarrow> tell [Note] (on_engine (\<lambda>e. e\<lparr>m_exact_cfgs := xs\<rparr>) s1)))"

definition handle_at_config_fmt :: "'w cmd_env \<Rightarrow> string list \<Rightarrow> 'w session \<Rightarrow> 'w run" where
  "handle_at_config_fmt E args s =
     (if length args < 4 then tell [Help_shown] s
      else let fmt_target = to_lower (args ! 3) in
        if fmt_target = ''clear''
        then if length args < 5 then tell [Caution] s
             else let clear_scope = to_lower (args ! 4) in
               if clear_scope = ''generic'' then tell [Note] (on_engine (\<lambda>e. e\<lparr>m_generic_fmt := []\<rparr>) s)
               else if clear_scope = ''exact'' then if length args < 6 then tell [Caution] s else change_format E (args ! 5) [] s
               else tell [Caution] s
        else if fmt_target = ''generic''
        then if length args \<noteq> 5 then tell [Caution] s else tell [Note] (on_engine (\<lambda>e. e\<lparr>m_generic_fmt := args ! 4\<rparr>) s)
        else if fmt_target = ''exact''
        then if length args \<noteq> 6 then tell [Caution] s else change_format E (args ! 4) (args ! 5) s
        else tell [Caution] s)"

definition mirror_exact :: "u64 \<Rightarrow> ept_transition_cfg \<Rightarrow> exact_cfg list \<Rightarrow> exact_cfg list" where
  "mirror_exact a c xs =
     (case change_exact a (\<lambda>x. x\<lparr>x_cfg := c\<rparr>) xs of Some ys \<Rightarrow> ys
      | None \<Rightarrow> xs @ [\<lparr>x_addr = a, x_cfg = c, x_fmt = []\<rparr>])"

definition apply_config :: "'w cmd_env \<Rightarrow> at_cfg_scope \<Rightarrow> u64 \<Rightarrow> ept_transition_cfg \<Rightarrow> 'w session \<Rightarrow> 'w run" where
  "apply_config E scope exact_addr config s =
     (let (ok, s1) = call (ce_config E scope exact_addr config) s in
      if \<not> ok then tell [Failure] s1
      else tell [Note] (on_engine (\<lambda>e. case scope of
          Generic_scope \<Rightarrow> e\<lparr>m_generic_cfg := config\<rparr>
        | Exact_scope \<Rightarrow> e\<lparr>m_exact_cfgs := mirror_exact exact_addr config (m_exact_cfgs e)\<rparr>) s1))"

definition handle_at_config :: "'w cmd_env \<Rightarrow> string list \<Rightarrow> 'w session \<Rightarrow> 'w run" where
  "handle_at_config E args s =
     (if length args < 3 then tell [Help_shown] s
      else let scope_str = to_lower (args ! 2) in
        if scope_str = ''export''
        then if length args \<noteq> 4 then tell [Caution, Help_shown] s
             else let (ok, s1) = export_config_to E (args ! 3) s in tell [if ok then Note else Failure] s1
        else if scope_str = ''fmt'' then handle_at_config_fmt E args s
        else if \<not> ce_present E then tell [Failure] s
        else if scope_str = ''generic'' then apply_config E Generic_scope 0 (parse_data_map args 3) s
        else if scope_str = ''exact''
        then if length args < 4 then tell [Caution] s
             else (case parse_expression E (args ! 3) s of (None, s1) \<Rightarrow> tell [Caution] s1
               | (Some a, s1) \<Rightarrow> apply_config E Exact_scope a (parse_data_map args 4) s1)
        else tell [Caution] s)"

section \<open>Tracing\<close>

definition erase_from_last_dot :: "string \<Rightarrow> string" where
  "erase_from_last_dot s = (case strip_extension s of None \<Rightarrow> s | Some t \<Rightarrow> t)"

definition save_config :: "'w cmd_env \<Rightarrow> 'w session \<Rightarrow> 'w session" where
  "save_config E s =
     (let (ok, s1) = export_config_to E (ce_path E (m_output_dir (eng s)) ''trace_cfg.bin'') s
      in say (if ok then Note else Caution) s1)"

definition save_modules :: "'w cmd_env \<Rightarrow> 'w session \<Rightarrow> 'w session" where
  "save_modules E s =
     (let (ok, s1) = export_modules_to E (ce_path E (m_output_dir (eng s)) ''modules.bin'') s
      in say (if ok then Note else Caution) s1)"

definition arm_onload :: "'w cmd_env \<Rightarrow> string \<Rightarrow> string \<Rightarrow> 'w session \<Rightarrow> 'w run" where
  "arm_onload E sub output_dir s =
     (let s1 = (if m_poller_running (eng s) \<or> m_snapshot (eng s) \<noteq> None then stop_trace_poller E (say Note s) else s);
          (ok, s2) = call (ce_onload_set E sub) s1
      in if \<not> ok then tell [Failure] s2
         else then_run (poller_start E output_dir s2) (\<lambda>s3. tell [Note] (on_engine (\<lambda>e. e\<lparr>m_snapshot_triggered := False,
             m_snapshot := Some \<lparr>sj_lookup_name = erase_from_last_dot sub, sj_path = ce_path E (m_output_dir e) ''modules.bin''\<rparr>\<rparr>)
           (save_config E s3))))"

definition handle_at_onload :: "'w cmd_env \<Rightarrow> string list \<Rightarrow> 'w session \<Rightarrow> 'w run" where
  "handle_at_onload E args s =
     (if length args < 3 then tell [Help_shown] s
      else let sub = to_lower (args ! 2) in
        if sub = ''clear''
        then if length args \<noteq> 3 then tell [Caution] s
             else let (ok, s1) = call (ce_onload_clear E) (stop_trace_poller E s) in tell [if ok then Note else Failure] s1
        else if sub = [] then tell [Caution, Help_shown] s
        else if length sub \<ge> max_onload_name_length then tell [Caution] s
        else if length args > 4 then tell [Caution, Help_shown] s
        else arm_onload E sub (if length args = 4 then args ! 3 else ''.'') s)"

text \<open>
  One round of the thread that waits for the driver; None if it ends. It runs beside the
  commands; \<open>trigger_snapshot\<close> is the callback of the first worker that drains entries.
\<close>

definition trigger_snapshot :: "'w session \<Rightarrow> 'w session" where
  "trigger_snapshot s = on_engine (\<lambda>e. e\<lparr>m_snapshot_triggered := True\<rparr>) s"

datatype snapshot_phase = Waiting | Looking

definition snapshot_round :: "'w cmd_env \<Rightarrow> snapshot_job \<Rightarrow> snapshot_phase \<Rightarrow> 'w session \<Rightarrow> snapshot_phase option \<times> 'w run" where
  "snapshot_round E job phase s =
     (case phase of
        Waiting \<Rightarrow> (if \<not> m_poller_running (eng s) then None else if m_snapshot_triggered (eng s) then Some Looking else Some Waiting, Inr s)
      | Looking \<Rightarrow>
          if \<not> m_poller_running (eng s) then (None, tell [Caution] s)
          else (case refresh_modules E s of Inl s1 \<Rightarrow> (None, Inl s1)
          | Inr s1 \<Rightarrow>
              if \<exists>m\<in>set (mo_list (m_modules (eng s1))). to_lower (m_name m) = sj_lookup_name job
              then let (ok, s2) = export_modules_to E (sj_path job) s1 in (None, tell [if ok then Note else Caution] s2)
              else (Some Looking, Inr s1)))"

definition enable_trace :: "'w cmd_env \<Rightarrow> u64 \<Rightarrow> u64 \<Rightarrow> string \<Rightarrow> 'w session \<Rightarrow> 'w run" where
  "enable_trace E a sz output_dir s =
     (let (ok, s1) = call (ce_trace_enable E a sz) s in
      if \<not> ok then tell [Failure] s1
      else then_run (poller_start E output_dir s1) (\<lambda>s2. then_run (refresh_modules E s2) (\<lambda>s3.
        tell [Note] (save_config E (save_modules E s3)))))"

definition handle_at_enable :: "'w cmd_env \<Rightarrow> string list \<Rightarrow> 'w session \<Rightarrow> 'w run" where
  "handle_at_enable E args s =
     (if length args < 4 \<or> length args > 5 then tell [Caution, Help_shown] s
      else then_run (refresh_modules E s) (\<lambda>s1.
        case parse_expression E (args ! 2) s1 of (None, s2) \<Rightarrow> tell [Caution] s2
        | (Some a, s2) \<Rightarrow>
            (case parse_u64_token (args ! 3) of None \<Rightarrow> tell [Caution] s2
             | Some sz \<Rightarrow>
                 if sz = 0 then tell [Caution] s2
                 else enable_trace E a sz (if length args = 5 then args ! 4 else ''.'') s2)))"

definition handle_at :: "'w cmd_env \<Rightarrow> string list \<Rightarrow> 'w session \<Rightarrow> 'w run" where
  "handle_at E args s =
     (if wants_help args then tell [Help_shown] s
      else if \<not> ce_present E then tell [Failure] s
      else if length args < 2 then tell [Caution, Help_shown] s
      else let subcommand = to_lower (args ! 1) in
        if subcommand = ''config'' then handle_at_config E args s
        else if subcommand = ''onload'' then handle_at_onload E args s
        else if subcommand = ''disable''
        then if length args \<noteq> 2 then tell [Caution, Help_shown] s
             else let (ok, s1) = call (ce_trace_disable E) (stop_trace_poller E s) in tell [if ok then Note else Failure] s1
        else if subcommand \<noteq> ''enable'' then tell [Caution, Help_shown] s
        else handle_at_enable E args s)"

section \<open>The other commands\<close>

definition handle_trace_parse :: "'w cmd_env \<Rightarrow> string list \<Rightarrow> 'w session \<Rightarrow> 'w run" where
  "handle_trace_parse E args s =
     (if wants_help args then tell [Help_shown] s
      else if length args < 2 \<or> to_lower (args ! 1) \<noteq> ''parse'' then tell [Caution, Help_shown] s
      else if length args < 4 \<or> length args > 5 then tell [Caution, Help_shown] s
      else let out = (if length args = 5 then args ! 4 else ce_path E (args ! 3) ''trace_formatted.log'');
               (r, s1) = call (ce_parse E (args ! 2) (args ! 3) out) (say Note s)
        in case r of None \<Rightarrow> Inl s1
           | Some ok \<Rightarrow> tell [if ok then Line (''Trace parsing complete: '' @ out @ [CHR 0x0A]) else Failure] s1)"

definition apic_lines :: "u64 \<times> bool \<Rightarrow> string" where
  "apic_lines info = ''APIC Information:'' @ [CHR 0x0A] @
     ''  x2APIC enabled             : '' @ (if snd info then ''Yes'' else ''No'') @ [CHR 0x0A] @
     ''  LAPIC MMIO physical base   : 0x'' @ hex16 (fst info) @ [CHR 0x0A]"

definition handle_apic_info :: "'w cmd_env \<Rightarrow> string list \<Rightarrow> 'w session \<Rightarrow> 'w run" where
  "handle_apic_info E args s =
     (if wants_help args then tell [Help_shown] s
      else if \<not> ce_present E then tell [Failure] s
      else let (r, s1) = call (ce_apic E) s in tell [case r of None \<Rightarrow> Failure | Some info \<Rightarrow> Line (apic_lines info)] s1)"

definition handle_test_df :: "'w cmd_env \<Rightarrow> string list \<Rightarrow> 'w session \<Rightarrow> 'w run" where
  "handle_test_df E args s =
     (if wants_help args then tell [Help_shown] s
      else if \<not> ce_present E then tell [Failure] s
      else let (response, s1) = call (ce_answer E) (say Caution s) in
        if to_lower response \<in> {''y'', ''yes''} then tell [Note] (s1\<lparr>wld := ce_double_fault E (wld s1)\<rparr>)
        else tell [Note] s1)"

section \<open>Executing a line\<close>

definition evaluate_expression :: "'w cmd_env \<Rightarrow> string list \<Rightarrow> 'w session \<Rightarrow> 'w run" where
  "evaluate_expression E tokens s =
     then_run (refresh_modules E s) (\<lambda>s1.
       case parse_expression E (join_tokens tokens 0) s1 of
         (None, s2) \<Rightarrow> tell [Caution, Help_shown] s2
       | (Some a, s2) \<Rightarrow> print_address E a s2)"

definition dump_kind_of :: "string \<Rightarrow> dump_kind option" where
  "dump_kind_of cmd =
     (if cmd \<in> {''d'', ''db'', ''hex''} then Some Bytes else if cmd = ''dw'' then Some Words else if cmd = ''dd'' then Some Dwords
      else if cmd = ''dq'' then Some Qwords else if cmd = ''dp'' then Some Pointers else None)"

definition quits :: "string \<Rightarrow> bool" where "quits cmd \<longleftrightarrow> cmd \<in> {''q'', ''quit'', ''exit''}"

definition dispatch :: "'w cmd_env \<Rightarrow> string \<Rightarrow> string list \<Rightarrow> 'w session \<Rightarrow> 'w run" where
  "dispatch E cmd tokens s =
     (case dump_kind_of cmd of Some kind \<Rightarrow> handle_dump E kind tokens s
      | None \<Rightarrow>
          if cmd = ''ln'' then handle_ln E tokens s
          else if cmd = ''lm'' then handle_lm E tokens s
          else if cmd = ''at'' then handle_at E tokens s
          else if cmd = ''trace'' then handle_trace_parse E tokens s
          else if cmd = ''apic'' then handle_apic_info E tokens s
          else if cmd = ''df'' then handle_test_df E tokens s
          else evaluate_expression E tokens s)"

text \<open>False ends the session.\<close>

definition execute_line :: "'w cmd_env \<Rightarrow> string \<Rightarrow> 'w session \<Rightarrow> bool \<times> 'w session" where
  "execute_line E line s =
     (case tokenize line of [] \<Rightarrow> (True, s)
      | t # ts \<Rightarrow>
          let cmd = to_lower t in
          if cmd \<in> {''help'', ''?''} then (True, say Help_shown s)
          else if quits cmd then (False, s)
          else case dispatch E cmd (t # ts) s of Inl s1 \<Rightarrow> (True, say Failure s1) | Inr s1 \<Rightarrow> (True, s1))"

text \<open>The constructor pushes the default configuration to all cores; the answer is ignored.\<close>

definition start_engine :: "'w cmd_env \<Rightarrow> modules \<Rightarrow> 'w \<Rightarrow> 'w session" where
  "start_engine E mo w =
     \<lparr>eng = \<lparr>m_modules = mo, m_poller_running = False, m_poller_workers = 0, m_output_dir = [], m_snapshot = None,
        m_snapshot_triggered = False, m_generic_cfg = default_generic_cfg, m_generic_fmt = [], m_exact_cfgs = []\<rparr>,
      wld = (if ce_present E then snd (ce_config E Generic_scope 0 default_generic_cfg w) else w), said = []\<rparr>"

text \<open>The loop of \<open>main\<close> over the lines typed; at the end of the input or of the session the poller is stopped.\<close>

fun command_loop :: "'w cmd_env \<Rightarrow> string list \<Rightarrow> 'w session \<Rightarrow> 'w session" where
  "command_loop E [] s = stop_trace_poller E s"
| "command_loop E (line # lines) s =
     (let (more, s1) = execute_line E line s in if more then command_loop E lines s1 else stop_trace_poller E s1)"

end
