(* ===== verification/Commands_Inv.thy ===== *)
theory Commands_Inv
  imports Commands Transition_Cfg
begin

text \<open>
  What the command engine guarantees: without a hypervisor no hypercall is made, and what the engine
  remembers of the transition configurations is what the hypervisor uses, whatever is typed and whatever the
  threads beside it do, so the file it exports makes the offline parser read an entry as it was recorded.
\<close>

section \<open>Without a hypervisor\<close>

text \<open>The environment with its hypercalls exchanged.\<close>

definition other_hypercalls :: "'w cmd_env \<Rightarrow> 'w cmd_env \<Rightarrow> 'w cmd_env" where
  "other_hypercalls X E = E\<lparr>ce_read := ce_read X, ce_config := ce_config X, ce_trace_enable := ce_trace_enable X,
     ce_trace_disable := ce_trace_disable X, ce_onload_set := ce_onload_set X, ce_onload_clear := ce_onload_clear X,
     ce_apic := ce_apic X, ce_double_fault := ce_double_fault X\<rparr>"

lemma same_fields [simp]:
  "ce_present (other_hypercalls X E) = ce_present E" "ce_image (other_hypercalls X E) = ce_image E"
  "ce_system_root (other_hypercalls X E) = ce_system_root E" "ce_reported (other_hypercalls X E) = ce_reported E"
  "ce_path (other_hypercalls X E) = ce_path E" "ce_parse (other_hypercalls X E) = ce_parse E"
  "ce_write (other_hypercalls X E) = ce_write E"
  by (simp_all add: other_hypercalls_def)

lemma same_operations [simp]:
  "refresh_modules (other_hypercalls X E) = refresh_modules E" "parse_expression (other_hypercalls X E) = parse_expression E"
  "print_address (other_hypercalls X E) = print_address E" "export_modules_to (other_hypercalls X E) = export_modules_to E"
  by (unfold refresh_modules_def parse_expression_def print_address_def address_name_def export_modules_to_def same_fields) (rule refl)+

lemma handlers_without_hypervisor:
  assumes "\<not> ce_present E"
  shows "handle_dump E kind args s = tell [if wants_help args then Help_shown else Failure] s"
    and "handle_at E args s = tell [if wants_help args then Help_shown else Failure] s"
    and "handle_apic_info E args s = tell [if wants_help args then Help_shown else Failure] s"
    and "handle_test_df E args s = tell [if wants_help args then Help_shown else Failure] s"
  using assms by (simp_all add: handle_dump_def handle_at_def handle_apic_info_def handle_test_df_def)

lemma other_handlers:
  "handle_ln (other_hypercalls X E) = handle_ln E" "handle_lm (other_hypercalls X E) = handle_lm E"
  "handle_trace_parse (other_hypercalls X E) = handle_trace_parse E"
  "evaluate_expression (other_hypercalls X E) = evaluate_expression E"
  by (unfold handle_ln_def handle_lm_def handle_trace_parse_def evaluate_expression_def same_fields same_operations) (rule refl)+

definition needs_hypervisor :: "string \<Rightarrow> bool" where
  "needs_hypervisor cmd \<longleftrightarrow> dump_kind_of cmd \<noteq> None \<or> cmd \<in> {''at'', ''apic'', ''df''}"

lemma keyword_cases:
  "needs_hypervisor cmd \<longleftrightarrow> dump_kind_of cmd \<noteq> None \<or> cmd = ''at'' \<or> cmd = ''apic'' \<or> cmd = ''df''"
  by (simp add: needs_hypervisor_def)

lemma dump_commands: "dump_kind_of cmd \<noteq> None \<longleftrightarrow> cmd \<in> {''d'', ''db'', ''hex'', ''dw'', ''dd'', ''dq'', ''dp''}"
  by (simp add: dump_kind_of_def)

lemma needing_commands:
  assumes "\<not> ce_present E" and "needs_hypervisor cmd"
  shows "dispatch E cmd args s = tell [if wants_help args then Help_shown else Failure] s"
  using assms(2) unfolding keyword_cases dispatch_def
  by (cases "dump_kind_of cmd") (elim disjE, simp_all add: handlers_without_hypervisor [OF assms(1)])

lemma other_commands: "\<not> needs_hypervisor cmd \<Longrightarrow> dispatch (other_hypercalls X E) cmd args s = dispatch E cmd args s"
  by (simp add: dispatch_def needs_hypervisor_def other_handlers)

lemma not_a_keyword: "needs_hypervisor cmd \<Longrightarrow> cmd \<notin> {''help'', ''?''} \<and> \<not> quits cmd"
  unfolding keyword_cases dump_commands quits_def by (elim disjE insertE emptyE) simp_all

text \<open>
  Without a hypervisor no line makes a hypercall: its effect does not depend on what the hypercalls would do. A
  command that needs one - the dumps, at, apic and df - fails (or shows its help) and leaves engine
  and world as they are; the session goes on.
\<close>

theorem no_hypercall_without_hypervisor:
  assumes "\<not> ce_present E"
  shows "execute_line (other_hypercalls X E) line s = execute_line E line s \<and>
    (\<forall>t ts. tokenize line = t # ts \<longrightarrow> needs_hypervisor (to_lower t) \<longrightarrow>
       execute_line E line s = (True, say (if wants_help (t # ts) then Help_shown else Failure) s))"
proof
  show "execute_line (other_hypercalls X E) line s = execute_line E line s"
  proof (cases "tokenize line")
    case (Cons t ts)
    have "dispatch (other_hypercalls X E) (to_lower t) (t # ts) s = dispatch E (to_lower t) (t # ts) s"
      using assms needing_commands [of E] needing_commands [of "other_hypercalls X E"] other_commands
      by (cases "needs_hypervisor (to_lower t)") simp_all
    then show ?thesis
      using Cons by (simp only: execute_line_def list.case Let_def)
  qed (simp add: execute_line_def)
  show "\<forall>t ts. tokenize line = t # ts \<longrightarrow> needs_hypervisor (to_lower t) \<longrightarrow>
      execute_line E line s = (True, say (if wants_help (t # ts) then Help_shown else Failure) s)"
    using assms needing_commands [of E] not_a_keyword by (simp add: execute_line_def Let_def tell_def say_def)
qed

section \<open>What the hypervisor keeps\<close>

text \<open>The configurations of a core: the table of exact ones and the generic one.\<close>

type_synonym core_cfg = "cfg_table \<times> ept_transition_cfg"

fun config_hypercall :: "at_cfg_scope \<Rightarrow> u64 \<Rightarrow> ept_transition_cfg \<Rightarrow> core_cfg \<Rightarrow> bool \<times> core_cfg" where
  "config_hypercall Generic_scope a c (t, g) = (True, (t, c))"
| "config_hypercall Exact_scope a c (t, g) = (let (t', ok) = insert_exact_transition_cfg t a c in (ok, (t', g)))"

text \<open>An operation that leaves the configurations of the cores alone; \<open>agrees w v\<close>: all cores have \<open>v\<close>.\<close>

definition keeps :: "('w \<Rightarrow> core_cfg \<Rightarrow> bool) \<Rightarrow> ('w \<Rightarrow> 'a \<times> 'w) \<Rightarrow> bool" where
  "keeps agrees f \<longleftrightarrow> (\<forall>w v. agrees w v \<longrightarrow> agrees (snd (f w)) v)"

definition config_followed :: "'w cmd_env \<Rightarrow> ('w \<Rightarrow> core_cfg \<Rightarrow> bool) \<Rightarrow> bool" where
  "config_followed E agrees \<longleftrightarrow>
     (\<forall>scope a c w v. agrees w v \<longrightarrow>
        fst (ce_config E scope a c w) = fst (config_hypercall scope a c v) \<and>
        agrees (snd (ce_config E scope a c w)) (snd (config_hypercall scope a c v)))"

definition follows_config :: "'w cmd_env \<Rightarrow> ('w \<Rightarrow> core_cfg \<Rightarrow> bool) \<Rightarrow> bool" where
  "follows_config E agrees \<longleftrightarrow> config_followed E agrees \<and>
     (\<forall>d. keeps agrees (ce_create_directories E d)) \<and> (\<forall>p b. keeps agrees (ce_write E p b)) \<and> keeps agrees (ce_answer E) \<and>
     (\<forall>m d f. keeps agrees (ce_parse E m d f)) \<and> (\<forall>a n r. keeps agrees (ce_read E a n r)) \<and>
     (\<forall>a n. keeps agrees (ce_trace_enable E a n)) \<and> keeps agrees (ce_trace_disable E) \<and>
     (\<forall>d. keeps agrees (ce_onload_set E d)) \<and> keeps agrees (ce_onload_clear E) \<and> keeps agrees (ce_apic E) \<and>
     (\<forall>w v. agrees w v \<longrightarrow> agrees (ce_double_fault E w) v \<and> agrees (ce_join_workers E w) v \<and> (\<forall>d. agrees (ce_start_workers E d w) v))"

lemma config_followedD:
  "config_followed E agrees \<Longrightarrow> agrees w v \<Longrightarrow> config_hypercall scope a c v = (ok, v') \<Longrightarrow>
    fst (ce_config E scope a c w) = ok \<and> agrees (snd (ce_config E scope a c w)) v'"
  unfolding config_followed_def by (metis fst_conv snd_conv)

lemma followsD:
  assumes "follows_config E agrees"
  shows "agrees w v \<Longrightarrow> config_hypercall scope a c v = (ok, v') \<Longrightarrow> fst (ce_config E scope a c w) = ok \<and> agrees (snd (ce_config E scope a c w)) v'"
    and "keeps agrees (ce_create_directories E d)" and "keeps agrees (ce_write E p b)" and "keeps agrees (ce_answer E)"
    and "keeps agrees (ce_parse E m d f)" and "keeps agrees (ce_read E a n r)" and "keeps agrees (ce_trace_enable E a n)"
    and "keeps agrees (ce_trace_disable E)" and "keeps agrees (ce_onload_set E d)" and "keeps agrees (ce_onload_clear E)"
    and "keeps agrees (ce_apic E)" and "agrees w v \<Longrightarrow> agrees (ce_double_fault E w) v" and "agrees w v \<Longrightarrow> agrees (ce_join_workers E w) v"
    and "agrees w v \<Longrightarrow> agrees (ce_start_workers E d w) v"
  using assms config_followedD [of E agrees w v scope a c ok v'] by (simp_all add: follows_config_def del: split_paired_All)

lemma insert_zero:
  assumes "table_inv t" and r: "insert_exact_transition_cfg t 0 c = (t', ok)"
  shows "table_inv t' \<and> lookup_exact t' = lookup_exact t"
proof (cases rule: insert_probe_cases [of "probes 0" t 0 c])
  case full
  then show ?thesis
    using assms by (simp add: insert_exact_transition_cfg_def)
next
  case (old xs p ys)
  define es where "es = exact_transition_cfgs t"
  have t': "exact_transition_cfgs t' = es[p := (es ! p)\<lparr>cfg := c\<rparr>]" "exact_transition_cfg_count t' = exact_transition_cfg_count t"
    using old(4) r by (auto simp: insert_exact_transition_cfg_def es_def)
  have z: "addr (es ! p) = 0"
    using old(3) by (simp add: es_def)
  have a: "addr (exact_transition_cfgs t' ! i) = addr (es ! i)" if "i < 64" for i
    using that z table_invD(1) [OF assms(1)] by (cases "i = p") (simp_all add: t' es_def)
  then have o: "occupied t' = occupied t"
    by (auto simp: occupied_def es_def)
  have inv: "table_inv t'"
    using assms(1) a o unfolding table_inv_def by (simp add: t' es_def occupied_def)
  have "exact_transition_cfgs t' ! q = exact_transition_cfgs t ! q" if "q \<in> occupied t" for q
    using that z by (cases "q = p") (auto simp: occupied_def t' es_def)
  then have "table_map t' b = Some d \<longleftrightarrow> table_map t b = Some d" for b d
    using table_map_iff [OF assms(1)] table_map_iff [OF inv] o by auto
  then have "table_map t' b = table_map t b" for b
    by (rule option_eqI)
  then show ?thesis
    using inv assms(1) by (simp add: fun_eq_iff lookup_exact_map)
next
  case (new xs p ys)
  then show ?thesis
    by simp
qed

section \<open>The mirror\<close>

definition mirror_lookup :: "exact_cfg list \<Rightarrow> u64 \<Rightarrow> ept_transition_cfg option" where
  "mirror_lookup xs a = map_option x_cfg (find (\<lambda>x. x_addr x = a) xs)"

definition mirrored :: "('w \<Rightarrow> core_cfg \<Rightarrow> bool) \<Rightarrow> 'w \<Rightarrow> ept_transition_cfg \<Rightarrow> exact_cfg list \<Rightarrow> bool" where
  "mirrored agrees w g xs \<longleftrightarrow>
     (\<exists>t. agrees w (t, g) \<and> table_inv t \<and> (\<forall>a. a \<noteq> 0 \<longrightarrow> lookup_exact t a = mirror_lookup xs a)) \<and>
     cfg_ok g \<and> (\<forall>x\<in>set xs. cfg_ok (x_cfg x))"

definition in_step :: "('w \<Rightarrow> core_cfg \<Rightarrow> bool) \<Rightarrow> 'w session \<Rightarrow> bool" where
  "in_step agrees s \<longleftrightarrow> mirrored agrees (wld s) (m_generic_cfg (eng s)) (m_exact_cfgs (eng s))"

definition outcome_of :: "'w run \<Rightarrow> 'w session" where
  "outcome_of r = (case r of Inl s \<Rightarrow> s | Inr s \<Rightarrow> s)"

named_theorems in_step_rules

abbreviation run_ok :: "('w \<Rightarrow> core_cfg \<Rightarrow> bool) \<Rightarrow> 'w run \<Rightarrow> bool" where
  "run_ok agrees r \<equiv> in_step agrees (outcome_of r)"

lemma outcome_simps [simp]: "outcome_of (Inl s) = s" "outcome_of (Inr s) = s"
  by (simp_all add: outcome_of_def)

lemma mirrored_call: "keeps agrees f \<Longrightarrow> mirrored agrees w g xs \<Longrightarrow> mirrored agrees (snd (f w)) g xs"
  unfolding mirrored_def keeps_def by blast

lemma in_step_say [simp]: "in_step agrees (say m s) = in_step agrees s"
  by (simp add: in_step_def say_def)

lemma in_step_tell [simp]: "in_step agrees (outcome_of (tell ms s)) = in_step agrees s"
  by (simp add: in_step_def tell_def)

lemma in_step_call: "call f s = (r, s') \<Longrightarrow> keeps agrees f \<Longrightarrow> in_step agrees s \<Longrightarrow> in_step agrees s'"
  using mirrored_call [of agrees f "wld s"] by (auto simp: call_def in_step_def split: prod.splits)

lemma in_step_then [in_step_rules]: "run_ok agrees r \<Longrightarrow> (\<And>s. in_step agrees s \<Longrightarrow> run_ok agrees (f s)) \<Longrightarrow> run_ok agrees (then_run r f)"
  by (cases r) (simp_all add: then_run_def)

text \<open>Changes of the engine besides the mirror, and of the formats in it.\<close>

lemma in_step_engine [simp]:
  "in_step agrees (on_engine (\<lambda>e. e\<lparr>m_modules := a e\<rparr>) s) = in_step agrees s"
  "in_step agrees (on_engine (\<lambda>e. e\<lparr>m_poller_running := b e, m_output_dir := c e\<rparr>) s) = in_step agrees s"
  "in_step agrees (on_engine (\<lambda>e. e\<lparr>m_poller_workers := d e\<rparr>) s) = in_step agrees s"
  "in_step agrees (on_engine (\<lambda>e. e\<lparr>m_poller_running := b e, m_poller_workers := d e\<rparr>) s) = in_step agrees s"
  "in_step agrees (on_engine (\<lambda>e. e\<lparr>m_snapshot := f e\<rparr>) s) = in_step agrees s"
  "in_step agrees (on_engine (\<lambda>e. e\<lparr>m_snapshot_triggered := g e, m_snapshot := f e\<rparr>) s) = in_step agrees s"
  "in_step agrees (on_engine (\<lambda>e. e\<lparr>m_snapshot_triggered := g e\<rparr>) s) = in_step agrees s"
  "in_step agrees (on_engine (\<lambda>e. e\<lparr>m_generic_fmt := h e\<rparr>) s) = in_step agrees s"
  by (simp_all add: in_step_def on_engine_def)

lemma in_step_refresh [in_step_rules]: "in_step agrees s \<Longrightarrow> run_ok agrees (refresh_modules E s)"
  by (auto simp: refresh_modules_def split: option.splits)

lemma in_step_expression: "parse_expression E t s = (r, s') \<Longrightarrow> in_step agrees s \<Longrightarrow> in_step agrees s'"
  by (auto simp: parse_expression_def split: option.splits prod.splits)

lemma in_step_address: "address_name E a s = (r, s') \<Longrightarrow> in_step agrees s \<Longrightarrow> in_step agrees s'"
  by (auto simp: address_name_def split: prod.splits)

text \<open>The same as rules for what is done with the result.\<close>

lemma with_call [in_step_rules]:
  "keeps agrees f \<Longrightarrow> in_step agrees s \<Longrightarrow> (\<And>r s'. in_step agrees s' \<Longrightarrow> run_ok agrees (g r s')) \<Longrightarrow>
    run_ok agrees (case call f s of (r, s') \<Rightarrow> g r s')"
  using in_step_call [of f s] by (simp split: prod.split)

lemma with_expression [in_step_rules]:
  "in_step agrees s \<Longrightarrow> (\<And>r s'. in_step agrees s' \<Longrightarrow> run_ok agrees (g r s')) \<Longrightarrow>
    run_ok agrees (case parse_expression E t s of (r, s') \<Rightarrow> g r s')"
  using in_step_expression [of E t s] by (simp split: prod.split)

lemma with_address [in_step_rules]:
  "in_step agrees s \<Longrightarrow> (\<And>r s'. in_step agrees s' \<Longrightarrow> run_ok agrees (g r s')) \<Longrightarrow>
    run_ok agrees (case address_name E a s of (r, s') \<Rightarrow> g r s')"
  using in_step_address [of E a s] by (simp split: prod.split)

lemma in_step_print [in_step_rules]: "in_step agrees s \<Longrightarrow> run_ok agrees (print_address E a s)"
  by (auto simp: print_address_def intro!: in_step_rules)

lemma in_step_export_modules:
  "follows_config E agrees \<Longrightarrow> export_modules_to E p s = (r, s') \<Longrightarrow> in_step agrees s \<Longrightarrow> in_step agrees s'"
  by (auto simp: export_modules_to_def elim: in_step_call [OF _ followsD(3)] split: option.splits)

lemma in_step_export_config:
  "follows_config E agrees \<Longrightarrow> export_config_to E p s = (r, s') \<Longrightarrow> in_step agrees s \<Longrightarrow> in_step agrees s'"
  by (auto simp: export_config_to_def Let_def elim: in_step_call [OF _ followsD(3)])

lemma with_exports [in_step_rules]:
  "follows_config E agrees \<Longrightarrow> in_step agrees s \<Longrightarrow> (\<And>r s'. in_step agrees s' \<Longrightarrow> run_ok agrees (g r s')) \<Longrightarrow>
    run_ok agrees (case export_modules_to E p s of (r, s') \<Rightarrow> g r s')"
  "follows_config E agrees \<Longrightarrow> in_step agrees s \<Longrightarrow> (\<And>r s'. in_step agrees s' \<Longrightarrow> run_ok agrees (g r s')) \<Longrightarrow>
    run_ok agrees (case export_config_to E p s of (r, s') \<Rightarrow> g r s')"
  using in_step_export_modules [of E agrees p s] in_step_export_config [of E agrees p s] by (simp_all split: prod.split)

lemma in_step_world: "in_step agrees s \<Longrightarrow> (\<And>v. agrees (wld s) v \<Longrightarrow> agrees w v) \<Longrightarrow> in_step agrees (s\<lparr>wld := w\<rparr>)"
  unfolding in_step_def mirrored_def by auto

lemma in_step_start:
  assumes "follows_config E agrees" "in_step agrees s"
  shows "run_ok agrees (poller_start E d s)"
  using assms
  by (auto simp: poller_start_def Let_def intro!: in_step_rules in_step_world followsD(2) elim: followsD(14))

lemma in_step_stop: "follows_config E agrees \<Longrightarrow> in_step agrees s \<Longrightarrow> in_step agrees (stop_trace_poller E s)"
  by (auto simp: stop_trace_poller_def poller_stop_def intro!: in_step_world elim: followsD(13))

lemma in_step_save:
  assumes "follows_config E agrees" and "in_step agrees s"
  shows "in_step agrees (save_config E s)" and "in_step agrees (save_modules E s)"
  using assms by (auto simp: save_config_def save_modules_def elim: in_step_export_config in_step_export_modules split: prod.splits)

section \<open>Changes of the mirror\<close>

lemma change_exact_lookup:
  "change_exact a f xs = Some ys \<Longrightarrow> (\<And>x. x_addr (f x) = x_addr x) \<Longrightarrow>
    mirror_lookup ys b = (if b = a then map_option (\<lambda>x. x_cfg (f x)) (find (\<lambda>x. x_addr x = a) xs) else mirror_lookup xs b)"
  by (induction xs arbitrary: ys) (auto simp: mirror_lookup_def option.map_comp comp_def split: if_splits)

lemma change_exact_None: "change_exact a f xs = None \<longleftrightarrow> find (\<lambda>x. x_addr x = a) xs = None"
  by (induction xs) auto

lemma change_exact_set: "change_exact a f xs = Some ys \<Longrightarrow> set ys \<subseteq> set xs \<union> f ` set xs"
  by (induction xs arbitrary: ys) (auto split: if_splits)

lemma mirror_lookup_append:
  "find (\<lambda>x. x_addr x = a) xs = None \<Longrightarrow> mirror_lookup (xs @ [\<lparr>x_addr = a, x_cfg = c, x_fmt = f\<rparr>]) b = (if b = a then Some c else mirror_lookup xs b)"
  by (induction xs) (auto simp: mirror_lookup_def split: if_splits)

lemma mirror_exact_lookup: "mirror_lookup (mirror_exact a c xs) b = (if b = a then Some c else mirror_lookup xs b)"
proof (cases "change_exact a (\<lambda>x. x\<lparr>x_cfg := c\<rparr>) xs")
  case None
  then show ?thesis
    using mirror_lookup_append [of a xs c "[]" b] change_exact_None [of a "\<lambda>x. x\<lparr>x_cfg := c\<rparr>" xs] by (simp add: mirror_exact_def)
next
  case (Some ys)
  then have "find (\<lambda>x. x_addr x = a) xs \<noteq> None"
    using change_exact_None [of a "\<lambda>x. x\<lparr>x_cfg := c\<rparr>" xs] by simp
  then show ?thesis
    using change_exact_lookup [OF Some] Some by (auto simp: mirror_exact_def)
qed

lemma mirror_exact_ok:
  "cfg_ok c \<Longrightarrow> \<forall>x\<in>set xs. cfg_ok (x_cfg x) \<Longrightarrow> \<forall>x\<in>set (mirror_exact a c xs). cfg_ok (x_cfg x)"
  by (auto simp: mirror_exact_def dest!: change_exact_set split: option.splits)

lemma parse_data_map_ok: "cfg_ok (parse_data_map args n)"
proof -
  have "parse_data_field_name t \<noteq> F_other b" for t b
    by (simp add: parse_data_field_name_def)
  then show ?thesis
    unfolding cfg_ok_def parse_data_map_def by (auto split: if_splits) metis
qed

lemma in_step_config:
  assumes E: "follows_config E agrees" and s: "in_step agrees s" and c: "cfg_ok c"
  shows "run_ok agrees (apply_config E scope a c s)"
proof -
  obtain t where t: "agrees (wld s) (t, m_generic_cfg (eng s))" "table_inv t"
    "\<And>b. b \<noteq> 0 \<Longrightarrow> lookup_exact t b = mirror_lookup (m_exact_cfgs (eng s)) b"
    using s by (auto simp: in_step_def mirrored_def)
  obtain ok w where r: "ce_config E scope a c (wld s) = (ok, w)"
    by force
  have oks: "cfg_ok (m_generic_cfg (eng s))" "\<forall>x\<in>set (m_exact_cfgs (eng s)). cfg_ok (x_cfg x)"
    using s by (auto simp: in_step_def mirrored_def)
  show ?thesis
  proof (cases scope)
    case Generic_scope
    then have "ok" "agrees w (t, c)"
      using followsD(1) [OF E t(1), of scope a c] r by simp_all
    then show ?thesis
      using Generic_scope r t(2,3) oks(2) c
      by (auto simp: apply_config_def call_def in_step_def mirrored_def tell_def on_engine_def)
  next
    case Exact_scope
    obtain t' b where i: "insert_exact_transition_cfg t a c = (t', b)"
      by force
    then have w: "ok = b" "agrees w (t', m_generic_cfg (eng s))"
      using followsD(1) [OF E t(1), of scope a c] r Exact_scope by simp_all
    have "table_inv t' \<and> (\<forall>x. x \<noteq> 0 \<longrightarrow> lookup_exact t' x = (if b \<and> x = a then Some c else lookup_exact t x))"
    proof (cases "a = 0")
      case True
      then show ?thesis
        using insert_zero [OF t(2)] i by auto
    next
      case False
      then show ?thesis
        using exact_cfgs.ins_inv [OF t(2), of a c] exact_cfgs.ins_ok [OF t(2), of a c] exact_cfgs.ins_full [OF t(2), of a c] i
        by (cases b) auto
    qed
    then show ?thesis
      using w r Exact_scope t(3) oks mirror_exact_lookup [of a c "m_exact_cfgs (eng s)"] mirror_exact_ok [OF c oks(2)]
      by (cases ok) (auto simp: apply_config_def call_def in_step_def mirrored_def tell_def on_engine_def)
  qed
qed

lemma in_step_format: "in_step agrees s \<Longrightarrow> run_ok agrees (change_format E t fmt s)"
proof -
  assume s: "in_step agrees s"
  have *: "in_step agrees (on_engine (\<lambda>e. e\<lparr>m_exact_cfgs := ys\<rparr>) s')"
    if "in_step agrees s'" "change_exact a (\<lambda>x. x\<lparr>x_fmt := fmt\<rparr>) (m_exact_cfgs (eng s')) = Some ys" for s' a ys
  proof -
    have "mirror_lookup ys b = mirror_lookup (m_exact_cfgs (eng s')) b" for b
      using change_exact_lookup [OF that(2), of b] by (simp add: mirror_lookup_def)
    moreover have "\<forall>x\<in>set ys. cfg_ok (x_cfg x)"
      using that(1) change_exact_set [OF that(2)] by (auto simp: in_step_def mirrored_def)
    ultimately show ?thesis
      using that(1) by (simp add: in_step_def mirrored_def on_engine_def)
  qed
  show ?thesis
    using s by (auto simp: change_format_def intro!: in_step_rules * split: option.split)
qed

section \<open>Every command keeps the mirror\<close>

lemma in_step_pointers: "in_step agrees s \<Longrightarrow> in_step agrees (pointer_lines E a b is s)"
proof (induction "is" arbitrary: s)
  case (Cons i "is")
  obtain t s' where t: "address_name E (of_nat (nat_of_bytes (member_at (i * 8) 8 b))) s = (t, s')"
    by force
  then show ?case
    using Cons.IH in_step_address [OF t Cons.prems] by (simp add: Let_def)
qed simp

lemma in_step_show: "in_step agrees s \<Longrightarrow> run_ok agrees (show_dump E k a n r b s)"
  by (simp add: show_dump_def Let_def in_step_pointers)

lemma in_step_dump: "follows_config E agrees \<Longrightarrow> in_step agrees s \<Longrightarrow> run_ok agrees (handle_dump E k args s)"
proof -
  assume E: "follows_config E agrees" and s: "in_step agrees s"
  have "run_ok agrees (dump_memory E k a n r s)" if "in_step agrees s" for a n r s
    using that by (auto simp: dump_memory_def Let_def intro!: in_step_rules in_step_show followsD(6) [OF E])
  then show ?thesis
    using s by (auto simp: handle_dump_def intro!: in_step_rules split: option.split)
qed

lemma in_step_names:
  assumes "in_step agrees s"
  shows "run_ok agrees (handle_ln E args s)" and "run_ok agrees (evaluate_expression E args s)"
  using assms by (auto simp: handle_ln_def evaluate_expression_def intro!: in_step_rules split: option.split)

lemma in_step_lm: "follows_config E agrees \<Longrightarrow> in_step agrees s \<Longrightarrow> run_ok agrees (handle_lm E args s)"
  by (auto simp: handle_lm_def Let_def intro!: in_step_rules)

lemma in_step_fmt: "in_step agrees s \<Longrightarrow> run_ok agrees (handle_at_config_fmt E args s)"
  by (simp add: handle_at_config_fmt_def Let_def in_step_format)

lemma in_step_at_config: "follows_config E agrees \<Longrightarrow> in_step agrees s \<Longrightarrow> run_ok agrees (handle_at_config E args s)"
  by (auto simp: handle_at_config_def Let_def intro!: in_step_rules in_step_fmt in_step_config parse_data_map_ok split: option.split)

lemma in_step_arm: "follows_config E agrees \<Longrightarrow> in_step agrees s \<Longrightarrow> run_ok agrees (arm_onload E d dir s)"
proof -
  assume E: "follows_config E agrees" and "in_step agrees s"
  then have "in_step agrees (if m_poller_running (eng s) \<or> m_snapshot (eng s) \<noteq> None then stop_trace_poller E (say Note s) else s)"
    by (simp add: in_step_stop)
  then show ?thesis
    unfolding arm_onload_def Let_def
    by (intro in_step_rules followsD(9) [OF E]) (auto intro!: in_step_rules in_step_start [OF E] in_step_save [OF E])
qed

lemma in_step_onload: "follows_config E agrees \<Longrightarrow> in_step agrees s \<Longrightarrow> run_ok agrees (handle_at_onload E args s)"
  by (auto simp: handle_at_onload_def Let_def intro!: in_step_rules in_step_arm in_step_stop elim: followsD(10))

lemma in_step_enable: "follows_config E agrees \<Longrightarrow> in_step agrees s \<Longrightarrow> run_ok agrees (handle_at_enable E args s)"
proof -
  assume E: "follows_config E agrees" and s: "in_step agrees s"
  have "run_ok agrees (enable_trace E a n d s)" if "in_step agrees s" for a n d s
    using that
    by (auto simp: enable_trace_def intro!: in_step_rules followsD(7) [OF E] in_step_start [OF E] in_step_save [OF E])
  then show ?thesis
    using s by (auto simp: handle_at_enable_def intro!: in_step_rules split: option.split)
qed

lemma in_step_at: "follows_config E agrees \<Longrightarrow> in_step agrees s \<Longrightarrow> run_ok agrees (handle_at E args s)"
  by (auto simp: handle_at_def Let_def intro!: in_step_rules in_step_at_config in_step_onload in_step_enable in_step_stop elim: followsD(8))

lemma in_step_others:
  assumes "follows_config E agrees" and "in_step agrees s"
  shows "run_ok agrees (handle_trace_parse E args s)" and "run_ok agrees (handle_apic_info E args s)" and "run_ok agrees (handle_test_df E args s)"
proof -
  show "run_ok agrees (handle_trace_parse E args s)"
    using assms(2) by (auto simp: handle_trace_parse_def Let_def intro!: in_step_rules followsD(5) [OF assms(1)] split: option.split)
  show "run_ok agrees (handle_apic_info E args s)"
    using assms(2) by (auto simp: handle_apic_info_def Let_def intro!: in_step_rules followsD(11) [OF assms(1)])
  show "run_ok agrees (handle_test_df E args s)"
    using assms(2)
    by (auto simp: handle_test_df_def Let_def intro!: in_step_rules in_step_world followsD(4) [OF assms(1)] elim: followsD(12) [OF assms(1)])
qed

lemma in_step_line: "follows_config E agrees \<Longrightarrow> in_step agrees s \<Longrightarrow> in_step agrees (snd (execute_line E line s))"
proof -
  assume E: "follows_config E agrees" and s: "in_step agrees s"
  have "run_ok agrees (dispatch E cmd args s)" for cmd args
    using in_step_dump [OF E s] in_step_names [OF s] in_step_lm [OF E s] in_step_at [OF E s] in_step_others [OF E s]
    by (simp add: dispatch_def split: option.split)
  then show ?thesis
    using s unfolding outcome_of_def execute_line_def Let_def
    by (simp split: list.split) (metis (no_types, lifting) in_step_say snd_conv sum.case_eq_if sum.collapse sum.disc_eq_case)
qed

lemma in_step_round: "follows_config E agrees \<Longrightarrow> in_step agrees s \<Longrightarrow> run_ok agrees (snd (snapshot_round E job phase s))"
  using in_step_refresh [of agrees s E]
  by (auto simp: snapshot_round_def elim: in_step_export_modules split: snapshot_phase.split sum.split prod.split)

section \<open>Properties\<close>

text \<open>
  The tool at work: a line is executed, the thread that waits for a driver makes a round, a
  worker reports its first entries, or the world changes without touching the configurations.
\<close>

inductive tool_step :: "'w cmd_env \<Rightarrow> ('w \<Rightarrow> core_cfg \<Rightarrow> bool) \<Rightarrow> 'w session \<Rightarrow> 'w session \<Rightarrow> bool" for E agrees where
  line: "tool_step E agrees s (snd (execute_line E l s))"
| round: "m_snapshot (eng s) = Some job \<Longrightarrow> tool_step E agrees s (outcome_of (snd (snapshot_round E job phase s)))"
| triggered: "tool_step E agrees s (trigger_snapshot s)"
| outside: "(\<And>v. agrees (wld s) v \<Longrightarrow> agrees w v) \<Longrightarrow> tool_step E agrees s (s\<lparr>wld := w\<rparr>)"

lemma tool_keeps_in_step:
  assumes "follows_config E agrees" and "(tool_step E agrees)\<^sup>*\<^sup>* s s'" and "in_step agrees s"
  shows "in_step agrees s'"
  using assms(2,3)
proof (induction rule: rtranclp_induct)
  case (step s1 s2)
  from step(2) step.IH [OF step.prems] show ?case
    using in_step_line [OF assms(1)] in_step_round [OF assms(1)]
    by cases (auto simp: trigger_snapshot_def intro: in_step_world)
qed simp

lemma start_in_step:
  assumes "follows_config E agrees" and "ce_present E" and "agrees w (empty_cfg_table, g)"
  shows "in_step agrees (start_engine E mo w)"
proof -
  have "cfg_ok default_generic_cfg"
    by (simp add: cfg_ok_def default_generic_cfg_def max_data_fields_def)
  moreover have "lookup_exact empty_cfg_table a = None" for a
    using lookup_exact_map [OF empty_cfg_table_inv(1), of a] empty_cfg_table_inv(2) by simp
  ultimately show ?thesis
    using followsD(1) [OF assms(1,3), of Generic_scope 0 default_generic_cfg] empty_cfg_table_inv(1) assms(2)
    by (auto simp: in_step_def mirrored_def start_engine_def mirror_lookup_def)
qed

text \<open>
  The engine knows what the hypervisor does. Whatever lines are typed, whatever the threads of the
  tool do beside them and whatever fails on the way, what the engine has recorded for an address other than 0 is what the
  hypervisor's lookup finds there, on every core, and its generic configuration is theirs. Hypotheses: a hypervisor just
  started, whose configuration call does on all cores what the handler does and which nobody else configures.
\<close>

theorem mirror_is_exact:
  assumes "follows_config E agrees" and "ce_present E" and "agrees w (empty_cfg_table, g)"
    and "(tool_step E agrees)\<^sup>*\<^sup>* (start_engine E mo w) s" and "rip \<noteq> 0"
  shows "\<exists>t generic. agrees (wld s) (t, generic) \<and> table_inv t \<and>
    lookup_transition_cfg t generic rip =
      (case find (\<lambda>x. x_addr x = rip) (m_exact_cfgs (eng s)) of None \<Rightarrow> m_generic_cfg (eng s) | Some x \<Rightarrow> x_cfg x)"
proof -
  have "in_step agrees s"
    using tool_keeps_in_step [OF assms(1,4)] start_in_step [OF assms(1-3)] by blast
  then show ?thesis
    using assms(5) unfolding in_step_def mirrored_def lookup_transition_cfg_def mirror_lookup_def
    by (elim conjE exE, intro exI [of _ "m_generic_cfg (eng s)"] exI) (auto split: option.split)
qed

text \<open>
  The exported configuration is the one the trace was recorded with. At any moment of such a session the
  file the engine exports, loaded by the offline parser, makes it read an entry recorded at an address other
  than 0 with the very configuration by which the hypervisor chose its fields - provided this configuration keeps the instruction
  pointer in the slot where the generic one has it. Hypotheses besides: formats without terminator, fewer
  than 2^32 configurations.
\<close>

theorem exported_config_decodes:
  assumes "follows_config E agrees" and "ce_present E" and "agrees w (empty_cfg_table, g)"
    and "(tool_step E agrees)\<^sup>*\<^sup>* (start_engine E mo w) s" and "rip \<noteq> 0"
    and "Export_Files.NUL \<notin> set (m_generic_fmt (eng s))" and "\<forall>x\<in>set (m_exact_cfgs (eng s)). Export_Files.NUL \<notin> set (x_fmt x)"
    and "length (m_exact_cfgs (eng s)) < 2 ^ 32"
  shows "\<exists>t generic. agrees (wld s) (t, generic) \<and>
    (\<forall>e slot reg. find_data_slot generic F_guest_rip = Some slot \<longrightarrow>
       data_map (lookup_transition_cfg t generic rip) ! slot = F_guest_rip \<longrightarrow>
       e_data e = map reg (data_map (lookup_transition_cfg t generic rip)) \<longrightarrow> reg F_guest_rip = rip \<longrightarrow>
       fst (select_cfg (load_trace_cfg (Some (export_trace_config (m_generic_cfg (eng s)) (m_generic_fmt (eng s)) (m_exact_cfgs (eng s))))) e) =
         lookup_transition_cfg t generic rip)"
proof -
  let ?xs = "m_exact_cfgs (eng s)"
  define generic where "generic = m_generic_cfg (eng s)"
  have "in_step agrees s"
    using tool_keeps_in_step [OF assms(1,4)] start_in_step [OF assms(1-3)] by blast
  then obtain t where t: "agrees (wld s) (t, generic)" "\<And>a. a \<noteq> 0 \<Longrightarrow> lookup_exact t a = mirror_lookup ?xs a"
    and ok: "cfg_ok generic" "\<forall>x\<in>set ?xs. cfg_ok (x_cfg x)"
    unfolding in_step_def mirrored_def generic_def by blast
  have l: "lookup_transition_cfg t generic rip = (case find (\<lambda>x. x_addr x = rip) ?xs of None \<Rightarrow> generic | Some x \<Rightarrow> x_cfg x)"
    using t(2) [OF assms(5)] by (simp add: lookup_transition_cfg_def mirror_lookup_def split: option.split)
  have len: "length (data_map (lookup_transition_cfg t generic rip)) = max_data_fields"
    using ok by (auto simp: l cfg_ok_def find_Some_iff split: option.split)
  have "fst (select_cfg (load_trace_cfg (Some (export_trace_config generic (m_generic_fmt (eng s)) ?xs))) e) = lookup_transition_cfg t generic rip"
    if k: "find_data_slot generic F_guest_rip = Some slot" "data_map (lookup_transition_cfg t generic rip) ! slot = F_guest_rip"
      "e_data e = map reg (data_map (lookup_transition_cfg t generic rip))" "reg F_guest_rip = rip" for e slot reg
  proof -
    have "slot < max_data_fields"
      using k(1) by (auto simp: find_data_slot_def find_Some_iff)
    then have "e_data e ! slot = rip"
      using k(2-4) len by simp
    moreover have "find (\<lambda>x. x_addr x = a) (map cut_exact ys) = map_option cut_exact (find (\<lambda>x. x_addr x = a) ys)" for a ys
      by (induction ys) (auto simp: cut_exact_def)
    moreover have "x_cfg (cut_exact x) = x_cfg x" for x
      by (simp add: cut_exact_def)
    moreover have "\<forall>x\<in>set ?xs. cfg_ok (x_cfg x) \<and> Export_Files.NUL \<notin> set (x_fmt x)"
      using ok(2) assms(7) by blast
    ultimately show ?thesis
      using trace_cfg_reads_back [OF ok(1) assms(6) _ assms(8)] k(1)
      by (simp add: select_cfg_def l split: option.split)
  qed
  then show ?thesis
    using t(1) unfolding generic_def by blast
qed

text \<open>
  Where an exact configuration has another register in that slot, the parser takes the register's value for the address: the
  entry is read with the generic configuration unless the value is itself a configured address.
\<close>

lemma exact_config_not_recognised:
  assumes "find_data_slot (generic_cfg tc) F_guest_rip = Some slot" and "rip_slot tc = Some slot"
    and "find (\<lambda>x. x_addr x = e_data e ! slot) (exact_cfgs tc) = None"
  shows "select_cfg tc e = (generic_cfg tc, generic_fmt tc)"
  using assms by (simp add: select_cfg_def)

section \<open>A session\<close>

text \<open>The configuration call on every core in turn.\<close>

definition core_vmcall :: "at_cfg_scope \<Rightarrow> u64 \<Rightarrow> ept_transition_cfg \<Rightarrow> nat \<Rightarrow> core_cfg list \<Rightarrow> u64 option \<times> core_cfg list" where
  "core_vmcall scope a c i w = (let (ok, v) = config_hypercall scope a c (w ! i) in (Some (if ok then 1 else 0), w[i := v]))"

definition config_cores :: "at_cfg_scope \<Rightarrow> u64 \<Rightarrow> ept_transition_cfg \<Rightarrow> core_cfg list \<Rightarrow> bool \<times> core_cfg list" where
  "config_cores scope a c w = for_each_cpu nonzero_answer (core_vmcall scope a c) [0..<length w] True w"

definition cores_agree :: "core_cfg list \<Rightarrow> core_cfg \<Rightarrow> bool" where
  "cores_agree w v \<longleftrightarrow> w \<noteq> [] \<and> w = replicate (length w) v"

lemma for_each_core:
  assumes "config_hypercall scope a c v = (ok, v')"
  shows "for_each_cpu nonzero_answer (core_vmcall scope a c) [k..<k + n] success (replicate k v' @ replicate n v) =
    (success \<and> (n = 0 \<or> ok), replicate (k + n) v')"
proof (induction n arbitrary: k success)
  case (Suc n)
  have "[k..<k + Suc n] = k # [Suc k..<Suc k + n]"
    using upt_conv_Cons [of k "k + Suc n"] by simp
  moreover have "core_vmcall scope a c k (replicate k v' @ replicate (Suc n) v) =
      (Some (if ok then 1 else 0), replicate (Suc k) v' @ replicate n v)"
    using assms by (simp add: core_vmcall_def nth_append list_update_append replicate_app_Cons_same)
  moreover have "nonzero_answer (Some (if ok then 1 else 0)) = ok"
    by (simp add: nonzero_answer_def)
  ultimately have "for_each_cpu nonzero_answer (core_vmcall scope a c) [k..<k + Suc n] success (replicate k v' @ replicate (Suc n) v) =
      for_each_cpu nonzero_answer (core_vmcall scope a c) [Suc k..<Suc k + n] (success \<and> ok) (replicate (Suc k) v' @ replicate n v)"
    by (simp only: for_each_cpu.simps Let_def prod.case)
  then show ?case
    using Suc [of "Suc k" "success \<and> ok"] by auto
qed simp

lemma config_cores_agree:
  assumes "cores_agree w v" and "config_hypercall scope a c v = (ok, v')"
  shows "fst (config_cores scope a c w) = ok \<and> cores_agree (snd (config_cores scope a c w)) v'"
proof -
  obtain n where w: "w = replicate n v" "n \<noteq> 0"
    using assms(1) by (metis cores_agree_def replicate_empty)
  then have "config_cores scope a c w = (ok, replicate n v')"
    using for_each_core [OF assms(2), of 0 n True] by (simp add: config_cores_def)
  then show ?thesis
    using w(2) by (simp add: cores_agree_def)
qed

definition demo_env :: "core_cfg list cmd_env" where
  "demo_env = \<lparr>ce_present = True, ce_image = (\<lambda>_. demo_image_env), ce_system_root = [], ce_reported = (\<lambda>_. None),
     ce_allocate = (\<lambda>_. True), ce_path = (@), ce_create_directories = (\<lambda>_. Pair True), ce_write = (\<lambda>_ _. Pair True), ce_answer = Pair [],
     ce_parse = (\<lambda>_ _ _. Pair None), ce_cores = 2, ce_start_workers = (\<lambda>_ w. w), ce_join_workers = id,
     ce_read = (\<lambda>_ _ _. Pair (0, [])), ce_config = config_cores, ce_trace_enable = (\<lambda>_ _. Pair True), ce_trace_disable = Pair True,
     ce_onload_set = (\<lambda>_. Pair True), ce_onload_clear = Pair True, ce_apic = Pair None, ce_double_fault = id\<rparr>"

lemma demo_follows: "follows_config demo_env cores_agree"
proof -
  have "config_followed demo_env cores_agree"
    unfolding config_followed_def
    using config_cores_agree by (simp add: demo_env_def del: split_paired_All) (metis prod.collapse)
  then show ?thesis
    by (simp add: follows_config_def keeps_def demo_env_def)
qed

definition demo_line :: string where
  "demo_line = command_text [''at'', ''config'', ''exact'', ''1000'', ''rip'', ''rcx'']"

definition demo_cores :: "core_cfg list" where
  "demo_cores = replicate 2 (empty_cfg_table, default_generic_cfg)"

definition demo_session :: "core_cfg list session" where
  "demo_session = snd (execute_line demo_env demo_line (start_engine demo_env demo_modules demo_cores))"

lemma demo_start: "cores_agree demo_cores (empty_cfg_table, default_generic_cfg)"
  by (simp add: cores_agree_def demo_cores_def)

lemma demo_steps: "(tool_step demo_env cores_agree)\<^sup>*\<^sup>* (start_engine demo_env demo_modules demo_cores) demo_session"
  unfolding demo_session_def by (intro r_into_rtranclp tool_step.line)

lemma demo_mirror:
  "m_exact_cfgs (eng demo_session) =
     [\<lparr>x_addr = 0x1000, x_cfg = \<lparr>data_map = [F_guest_rip, F_guest_rcx, F_none, F_none, F_none, F_none]\<rparr>, x_fmt = []\<rparr>]"
  "m_generic_cfg (eng demo_session) = default_generic_cfg" "m_generic_fmt (eng demo_session) = []"
proof -
  let ?c = "\<lparr>data_map = [F_guest_rip, F_guest_rcx, F_none, F_none, F_none, F_none]\<rparr>"
  let ?args = "[''at'', ''config'', ''exact'', ''1000'', ''rip'', ''rcx'']"
  have tok: "tokenize demo_line = ?args"
    unfolding demo_line_def by (rule tokenize_command_text) (simp add: quote_def)
  have num: "parse_u64_token ''1000'' = Some 0x1000"
    by (simp add: parse_u64_token_def is_digit_separator_def from_chars_16_def is_hex_def hex_value_of_def hex_value_def Let_def)
  have "[0..<max_data_fields] = [0, 1, 2, 3, 4, 5]"
    by (simp add: max_data_fields_def upt_rec)
  then have cfg: "parse_data_map ?args 4 = ?c"
    by (simp add: parse_data_map_def to_lower_def tolower_def parse_data_field_name_def)
  have low: "to_lower ''at'' = ''at''" "to_lower ''config'' = ''config''" "to_lower ''exact'' = ''exact''"
    by (simp_all add: to_lower_def tolower_def)
  have start: "snd (config_cores Generic_scope 0 default_generic_cfg demo_cores) = demo_cores"
    using config_cores_agree [OF demo_start, of Generic_scope 0 default_generic_cfg]
    by (simp add: config_cores_def core_vmcall_def demo_cores_def numeral_2_eq_2)
  have "snd (insert_exact_transition_cfg empty_cfg_table 0x1000 ?c)"
    by code_simp
  then have ok: "fst (config_cores Exact_scope 0x1000 ?c demo_cores)"
    using config_cores_agree [OF demo_start, of Exact_scope "0x1000" ?c]
    by (cases "insert_exact_transition_cfg empty_cfg_table 0x1000 ?c") simp
  have present: "ce_present demo_env"
    by (simp add: demo_env_def)
  have "execute_line demo_env demo_line (start_engine demo_env demo_modules demo_cores) =
      (case apply_config demo_env Exact_scope 0x1000 ?c (start_engine demo_env demo_modules demo_cores) of
         Inl s1 \<Rightarrow> (True, say Failure s1) | Inr s1 \<Rightarrow> (True, s1))"
    using cfg
    by (simp add: execute_line_def tok low num dispatch_def dump_kind_of_def quits_def handle_at_def wants_help_def
        handle_at_config_def parse_expression_def present Let_def)
  then show "m_exact_cfgs (eng demo_session) = [\<lparr>x_addr = 0x1000, x_cfg = ?c, x_fmt = []\<rparr>]"
    "m_generic_cfg (eng demo_session) = default_generic_cfg" "m_generic_fmt (eng demo_session) = []"
    using ok start
    by (auto simp: demo_session_def apply_config_def call_def start_engine_def demo_env_def tell_def on_engine_def mirror_exact_def
        split: prod.split)
qed

lemma mirror_is_exact_witness:
  "\<exists>t generic. cores_agree (wld demo_session) (t, generic) \<and>
    lookup_transition_cfg t generic 0x1000 = \<lparr>data_map = [F_guest_rip, F_guest_rcx, F_none, F_none, F_none, F_none]\<rparr>"
  using mirror_is_exact [OF demo_follows _ demo_start demo_steps, of "0x1000"]
  by (auto simp: demo_mirror demo_env_def)

lemma exported_config_decodes_witness:
  "\<exists>t generic. cores_agree (wld demo_session) (t, generic) \<and>
    (\<forall>e slot reg. find_data_slot generic F_guest_rip = Some slot \<longrightarrow>
       data_map (lookup_transition_cfg t generic 0x1000) ! slot = F_guest_rip \<longrightarrow>
       e_data e = map reg (data_map (lookup_transition_cfg t generic 0x1000)) \<longrightarrow> reg F_guest_rip = 0x1000 \<longrightarrow>
       fst (select_cfg (load_trace_cfg (Some (export_trace_config (m_generic_cfg (eng demo_session)) (m_generic_fmt (eng demo_session))
         (m_exact_cfgs (eng demo_session))))) e) = lookup_transition_cfg t generic 0x1000)"
  using demo_mirror by (intro exported_config_decodes [OF demo_follows _ demo_start demo_steps]) (simp_all add: demo_env_def)

definition absent_env :: "core_cfg list cmd_env" where
  "absent_env = demo_env\<lparr>ce_present := False\<rparr>"

lemma no_hypercall_without_hypervisor_witness:
  "execute_line absent_env demo_line demo_session = (True, say Failure demo_session)"
proof -
  have "tokenize demo_line = [''at'', ''config'', ''exact'', ''1000'', ''rip'', ''rcx'']"
    unfolding demo_line_def by (rule tokenize_command_text) (simp add: quote_def)
  moreover have "to_lower ''at'' = ''at''" "to_lower ''config'' \<noteq> ''help''"
    by (simp_all add: to_lower_def tolower_def)
  ultimately show ?thesis
    using no_hypercall_without_hypervisor [of absent_env absent_env demo_line demo_session]
    by (simp add: absent_env_def needs_hypervisor_def wants_help_def)
qed

end
