(* ===== verification/Spec2Isabelle.thy ===== *)
theory Spec2Isabelle
  imports Trace_Spsc Ept_Init Introspection Transition_Cfg Format Logging Sync Vmcs_Control Vmexit_Cr Vmexit_Ends Vmexit_Outcome Launch_Inv Host_Map Hooks Trace_Merge Um_Hypercall Commands_Inv
begin

text \<open>
  A verification of the revhv hypervisor. To be completed.
\<close>

end
